(* ===== verification/Prelude.thy ===== *)
theory Prelude
  imports Main "HOL-Library.Word"
begin

text \<open>
  Shared vocabulary of the development. Python integers are \<^typ>\<open>int\<close>; a Python
  expression that raises is a value of \<^verbatim>\<open>py_error + 'a\<close>; Python strings are
  \<^typ>\<open>string\<close>. This theory holds the error type and its sequencing operator, the two
  32-bit truncations every component uses, and the generic facts about bits, lists and
  options on which the component theories rest.
\<close>

unbundle bit_operations_syntax

named_theorems bits_simps "bit-level characterisations of the model's integer operations"
named_theorems fields_simps "bit-field extraction from instruction words"
named_theorems inv_intros "preservation of component invariants"

section \<open>Python exceptions as values\<close>

datatype py_error =
    AssertionError string
  | RuntimeError string
  | SystemExit string
  | ValueError string
  | TypeError string
  | KeyError string
  | IndexError
  | ZeroDivisionError
  | StopIteration
  | StructError
  | Fail string

type_synonym 'a res = "py_error + 'a"

definition rbind :: "'a res \<Rightarrow> ('a \<Rightarrow> 'b res) \<Rightarrow> 'b res" where
  "rbind m f = (case m of Inl e \<Rightarrow> Inl e | Inr v \<Rightarrow> f v)"

lemma rbind_simps [simp]:
  "rbind (Inl e) f = Inl e"
  "rbind (Inr v) f = f v"
  by (simp_all add: rbind_def)

lemma rbind_Inr_iff: "rbind m f = Inr r \<longleftrightarrow> (\<exists>v. m = Inr v \<and> f v = Inr r)"
  by (cases m) auto

lemma rbind_Inl_iff: "rbind m f = Inl e \<longleftrightarrow> m = Inl e \<or> (\<exists>v. m = Inr v \<and> f v = Inl e)"
  by (cases m) auto

lemma rbind_cong [fundef_cong]:
  "m = m' \<Longrightarrow> (\<And>v. m' = Inr v \<Longrightarrow> f v = f' v) \<Longrightarrow> rbind m f = rbind m' f'"
  by (cases m') auto

text \<open>\<^verbatim>\<open>assert c, msg\<close> and \<^verbatim>\<open>if c: raise e\<close>.\<close>

definition py_assert :: "bool \<Rightarrow> string \<Rightarrow> unit res" where
  "py_assert c msg = (if c then Inr () else Inl (AssertionError msg))"

definition raise_if :: "bool \<Rightarrow> py_error \<Rightarrow> unit res" where
  "raise_if c e = (if c then Inl e else Inr ())"

lemma py_assert_Inr [simp]: "py_assert c msg = Inr u \<longleftrightarrow> c"
  by (simp add: py_assert_def)

lemma raise_if_Inr [simp]: "raise_if c e = Inr u \<longleftrightarrow> \<not> c"
  by (simp add: raise_if_def)

text \<open>A \<^verbatim>\<open>for\<close> loop whose body may raise.\<close>

fun res_fold :: "('a \<Rightarrow> 's \<Rightarrow> 's res) \<Rightarrow> 'a list \<Rightarrow> 's \<Rightarrow> 's res" where
  "res_fold f [] s = Inr s"
| "res_fold f (x # xs) s = rbind (f x s) (res_fold f xs)"

lemma res_fold_append: "res_fold f (xs @ ys) s = rbind (res_fold f xs s) (res_fold f ys)"
  by (induction xs arbitrary: s) (auto simp: rbind_def split: sum.splits)

lemma res_fold_inv:
  assumes "res_fold f xs s = Inr t" and "P s"
    and "\<And>x u v. x \<in> set xs \<Longrightarrow> P u \<Longrightarrow> f x u = Inr v \<Longrightarrow> P v"
  shows "P t"
  using assms by (induction xs arbitrary: s) (auto simp: rbind_Inr_iff)

text \<open>A list comprehension whose element expression may raise.\<close>

fun mapr :: "('a \<Rightarrow> 'b res) \<Rightarrow> 'a list \<Rightarrow> 'b list res" where
  "mapr f [] = Inr []"
| "mapr f (x # xs) = rbind (f x) (\<lambda>y. rbind (mapr f xs) (\<lambda>ys. Inr (y # ys)))"

lemma mapr_Inr: "mapr f xs = Inr ys \<longleftrightarrow> list_all2 (\<lambda>x y. f x = Inr y) xs ys"
proof (induction xs arbitrary: ys)
  case Nil
  then show ?case by auto
next
  case (Cons x xs)
  then show ?case by (auto simp: rbind_Inr_iff list_all2_Cons1)
qed

lemma mapr_each: "mapr f xs = Inr ys \<Longrightarrow> x \<in> set xs \<Longrightarrow> \<exists>y. f x = Inr y"
  by (induction xs arbitrary: ys) (auto simp: rbind_Inr_iff)

lemma mapr_nil: "mapr f xs = Inr pss \<Longrightarrow> concat pss = [] \<Longrightarrow> x \<in> set xs \<Longrightarrow> f x = Inr []"
  by (induction xs arbitrary: pss) (auto simp: rbind_Inr_iff)

lemma mapr_named:
  assumes "mapr (\<lambda>k. rbind (g k) (\<lambda>v. Inr (k, v))) ks = Inr d"
  shows "(\<forall>k\<in>set ks. \<exists>v. g k = Inr v) \<and> d = map (\<lambda>k. (k, projr (g k))) ks"
  using assms by (induction ks arbitrary: d) (auto simp: rbind_Inr_iff)

lemma mapr_named_eq:
  "(\<And>k. k \<in> set ks \<Longrightarrow> g k = Inr (h k)) \<Longrightarrow> mapr (\<lambda>k. rbind (g k) (\<lambda>v. Inr (k, v))) ks = Inr (map (\<lambda>k. (k, h k)) ks)"
  by (induction ks) auto

text \<open>Evaluation of a chain of fallible calls from the outside in.\<close>

lemma rbind_weak: "m = m' \<Longrightarrow> rbind m f = rbind m' f"
  by simp

section \<open>Bits of unbounded integers\<close>

text \<open>
  Python's \<^verbatim>\<open>&\<close>, \<^verbatim>\<open>|\<close>, \<^verbatim>\<open>^\<close>, \<^verbatim>\<open><<\<close> and \<^verbatim>\<open>>>\<close> on \<^verbatim>\<open>int\<close> are
  \<open>AND\<close>, \<open>OR\<close>, \<open>XOR\<close>, \<open>push_bit\<close> and \<open>drop_bit\<close> on \<^typ>\<open>int\<close>: both read
  a negative number in infinite two's complement.
\<close>

lemma mask32_eq: "(0xFFFFFFFF :: int) = mask 32"
  by (simp add: mask_eq_exp_minus_1)

lemma mask_py: "push_bit n 1 - (1::int) = mask n"
  by (simp add: mask_eq_exp_minus_1 push_bit_eq_mult)

lemma and_mask_bound: "(x::int) AND mask n < 2 ^ n" "0 \<le> (x::int) AND mask n"
  by (simp_all flip: take_bit_eq_mask)

lemma take_bit_bit_eqI:
  fixes a b :: int
  assumes "\<And>i. i < n \<Longrightarrow> bit a i \<longleftrightarrow> bit b i" and "0 \<le> a" "a < 2 ^ n" "0 \<le> b" "b < 2 ^ n"
  shows "a = b"
proof -
  have "take_bit n a = take_bit n b"
    using assms(1) by (intro bit_eqI) (auto simp: bit_take_bit_iff)
  then show ?thesis using assms by (simp add: take_bit_int_eq_self)
qed

lemma bit_int_bound: "0 \<le> (x::int) \<Longrightarrow> x < 2 ^ n \<Longrightarrow> bit x i \<Longrightarrow> i < n"
  by (metis bit_take_bit_iff take_bit_int_eq_self)

lemma bit_mult_2 [bits_simps]: "bit ((x::int) * 2) i \<longleftrightarrow> 0 < i \<and> bit x (i - 1)"
  using bit_push_bit_iff [of 1 x i] by (auto simp: push_bit_eq_mult)

lemma or_add_disjoint: "(a::int) AND b = 0 \<Longrightarrow> a OR b = a + b"
  by (metis add_0 plus_and_or)

text \<open>Python's \<^verbatim>\<open>int.bit_length\<close>.\<close>

fun bit_length :: "nat \<Rightarrow> nat" where
  "bit_length n = (if n = 0 then 0 else Suc (bit_length (n div 2)))"

declare bit_length.simps [simp del]

section \<open>Lists and options\<close>

lemma nth_update_if: "i < length xs \<Longrightarrow> xs[i := v] ! j = (if i = j then v else xs ! j)"
  by simp

lemma sum_list_map_if_filter:
  "sum_list (map (\<lambda>x. if P x then f x else (0::int)) xs) = sum_list (map f (filter P xs))"
  by (induction xs) auto

end
