(* ===== verification/Rv32i_Ref.thy ===== *)
theory Rv32i_Ref
  imports Prelude
begin

text \<open>
  The golden model of \<^verbatim>\<open>model/rv32i_ref.py\<close>, first half: the enum encodings, the
  integer helpers, the ALU and the immediate generator. Python computes on unbounded
  integers and masks to 32 bits; the lemmas relate every operation to the machine
  operation on \<^typ>\<open>32 word\<close> and every immediate to the bit layout of its format.
\<close>

section \<open>Encodings\<close>

definition MASK32 :: int where "MASK32 = 0xFFFFFFFF"

definition ALU_ADD :: int where "ALU_ADD = 0"
definition ALU_SUB :: int where "ALU_SUB = 1"
definition ALU_SLL :: int where "ALU_SLL = 2"
definition ALU_SLT :: int where "ALU_SLT = 3"
definition ALU_SLTU :: int where "ALU_SLTU = 4"
definition ALU_XOR :: int where "ALU_XOR = 5"
definition ALU_SRL :: int where "ALU_SRL = 6"
definition ALU_SRA :: int where "ALU_SRA = 7"
definition ALU_OR :: int where "ALU_OR = 8"
definition ALU_AND :: int where "ALU_AND = 9"
definition ALU_PASS_B :: int where "ALU_PASS_B = 10"

lemmas alu_op_defs =
  ALU_ADD_def ALU_SUB_def ALU_SLL_def ALU_SLT_def ALU_SLTU_def ALU_XOR_def ALU_SRL_def
  ALU_SRA_def ALU_OR_def ALU_AND_def ALU_PASS_B_def

definition ALU_OPS :: "(string \<times> int) list" where
  "ALU_OPS = [
    (''ALU_ADD'', ALU_ADD), (''ALU_SUB'', ALU_SUB), (''ALU_SLL'', ALU_SLL),
    (''ALU_SLT'', ALU_SLT), (''ALU_SLTU'', ALU_SLTU), (''ALU_XOR'', ALU_XOR),
    (''ALU_SRL'', ALU_SRL), (''ALU_SRA'', ALU_SRA), (''ALU_OR'', ALU_OR),
    (''ALU_AND'', ALU_AND), (''ALU_PASS_B'', ALU_PASS_B)]"

definition ALU_OP_WIDTH :: int where "ALU_OP_WIDTH = 4"

definition IMM_NONE :: int where "IMM_NONE = 0"
definition IMM_I :: int where "IMM_I = 1"
definition IMM_S :: int where "IMM_S = 2"
definition IMM_B :: int where "IMM_B = 3"
definition IMM_U :: int where "IMM_U = 4"
definition IMM_J :: int where "IMM_J = 5"
definition IMM_Z :: int where "IMM_Z = 6"

lemmas imm_fmt_defs =
  IMM_NONE_def IMM_I_def IMM_S_def IMM_B_def IMM_U_def IMM_J_def IMM_Z_def

definition IMM_FMTS :: "(string \<times> int) list" where
  "IMM_FMTS = [
    (''IMM_NONE'', IMM_NONE), (''IMM_I'', IMM_I), (''IMM_S'', IMM_S), (''IMM_B'', IMM_B),
    (''IMM_U'', IMM_U), (''IMM_J'', IMM_J), (''IMM_Z'', IMM_Z)]"

definition IMM_FMT_WIDTH :: int where "IMM_FMT_WIDTH = 3"

section \<open>Helpers\<close>

definition u32 :: "int \<Rightarrow> int" where
  "u32 x = x AND MASK32"

definition s32 :: "int \<Rightarrow> int" where
  "s32 x = (let x = x AND MASK32 in
            if x AND 0x80000000 \<noteq> 0 then x - push_bit 32 1 else x)"

definition sext :: "int \<Rightarrow> nat \<Rightarrow> int" where
  "sext value width = (let sign = push_bit (width - 1) 1 in
                       (value AND (sign - 1)) - (value AND sign))"

definition bits :: "int \<Rightarrow> nat \<Rightarrow> nat \<Rightarrow> int" where
  "bits word hi lo = drop_bit lo word AND (push_bit (hi - lo + 1) 1 - 1)"

section \<open>The ALU\<close>

definition alu :: "int \<Rightarrow> int \<Rightarrow> int \<Rightarrow> int" where
  "alu op a b = (
    let a = u32 a; b = u32 b; shamt = nat (b AND 0x1F) in
    if op = ALU_ADD then u32 (a + b)
    else if op = ALU_SUB then u32 (a - b)
    else if op = ALU_SLL then u32 (push_bit shamt a)
    else if op = ALU_SLT then (if s32 a < s32 b then 1 else 0)
    else if op = ALU_SLTU then (if a < b then 1 else 0)
    else if op = ALU_XOR then u32 (a XOR b)
    else if op = ALU_SRL then u32 (drop_bit shamt a)
    else if op = ALU_SRA then u32 (drop_bit shamt (s32 a))
    else if op = ALU_OR then u32 (a OR b)
    else if op = ALU_AND then u32 (a AND b)
    else if op = ALU_PASS_B then b
    else 0)"

section \<open>The immediate generator\<close>

definition imm :: "int \<Rightarrow> int \<Rightarrow> int" where
  "imm insn fmt = (
    let insn = u32 insn in
    if fmt = IMM_I then u32 (sext (bits insn 31 20) 12)
    else if fmt = IMM_S then
      (let v = push_bit 5 (bits insn 31 25) OR bits insn 11 7 in u32 (sext v 12))
    else if fmt = IMM_B then
      (let v = push_bit 12 (bits insn 31 31) OR push_bit 11 (bits insn 7 7)
               OR push_bit 5 (bits insn 30 25) OR push_bit 1 (bits insn 11 8)
       in u32 (sext v 13))
    else if fmt = IMM_U then u32 (push_bit 12 (bits insn 31 12))
    else if fmt = IMM_J then
      (let v = push_bit 20 (bits insn 31 31) OR push_bit 12 (bits insn 19 12)
               OR push_bit 11 (bits insn 20 20) OR push_bit 1 (bits insn 30 21)
       in u32 (sext v 21))
    else if fmt = IMM_Z then bits insn 19 15
    else 0)"

section \<open>The helpers, bit by bit\<close>

lemma u32_take_bit: "u32 x = take_bit 32 x"
  by (simp add: u32_def MASK32_def mask32_eq take_bit_eq_mask)

lemma u32_range [simp]: "0 \<le> u32 x" "u32 x < 2 ^ 32" "u32 x < 4294967296"
  using take_bit_int_less_exp [of 32 x] by (simp_all add: u32_take_bit)

lemma u32_idem [simp]: "u32 (u32 x) = u32 x"
  by (simp add: u32_take_bit)

lemma u32_self: "0 \<le> x \<Longrightarrow> x < 2 ^ 32 \<Longrightarrow> u32 x = x"
  by (simp add: u32_take_bit take_bit_int_eq_self)

lemma bit_u32 [bits_simps]: "bit (u32 x) i \<longleftrightarrow> i < 32 \<and> bit x i"
  by (simp add: u32_take_bit bit_take_bit_iff)

lemma bits_take_bit: "bits w hi lo = take_bit (hi - lo + 1) (drop_bit lo w)"
  unfolding bits_def mask_py take_bit_eq_mask ..

lemma bit_bits [bits_simps]: "bit (bits w hi lo) i \<longleftrightarrow> i < hi - lo + 1 \<and> bit w (lo + i)"
  by (simp add: bits_take_bit bit_take_bit_iff bit_drop_bit_eq)

lemma bits_range: "0 \<le> bits w hi lo" "bits w hi lo < 2 ^ (hi - lo + 1)"
  using take_bit_int_less_exp [of "hi - lo + 1"] by (simp_all add: bits_take_bit)

lemma bits_u32: "hi < 32 \<Longrightarrow> lo \<le> hi \<Longrightarrow> bits (u32 w) hi lo = bits w hi lo"
  by (rule bit_eqI) (auto simp: bits_simps)

lemma and_exp_of_bool: "(a::int) AND 2 ^ n = of_bool (bit a n) * 2 ^ n"
  by (rule bit_eqI) (auto simp: bit_and_iff bit_exp_iff)

lemma sext_signed_take_bit:
  assumes "0 < width"
  shows "sext value width = signed_take_bit (width - 1) value"
proof -
  obtain n where w: "width = Suc n" using assms by (cases width) auto
  have "value AND (push_bit n 1 - 1) = take_bit n value"
    unfolding mask_py take_bit_eq_mask ..
  then show ?thesis
    by (simp add: w sext_def Let_def and_exp_of_bool push_bit_eq_mult
        signed_take_bit_eq_take_bit_minus take_bit_Suc_from_most)
qed

lemma bit_sext [bits_simps]:
  "0 < width \<Longrightarrow> bit (sext value width) i \<longleftrightarrow> bit value (min i (width - 1))"
  by (simp add: sext_signed_take_bit bit_signed_take_bit_iff min.commute)

lemma s32_sint: "s32 x = sint (word_of_int x :: 32 word)"
proof -
  have "x AND MASK32 = take_bit 32 x"
    by (simp add: MASK32_def mask32_eq take_bit_eq_mask)
  moreover have "(0x80000000 :: int) = 2 ^ 31" by simp
  ultimately have "s32 x = (if bit x 31 then take_bit 32 x - 2 ^ 32 else take_bit 32 x)"
    unfolding s32_def Let_def by (simp only: and_exp_of_bool) (simp add: bit_take_bit_iff push_bit_eq_mult)
  also have "\<dots> = signed_take_bit 31 x"
    by (simp add: signed_take_bit_eq_take_bit_minus)
  also have "\<dots> = sint (word_of_int x :: 32 word)"
    by (simp add: sint_sbintrunc')
  finally show ?thesis .
qed

lemma u32_uint: "u32 x = uint (word_of_int x :: 32 word)"
  by (simp add: u32_take_bit uint_word_of_int_eq)

section \<open>The ALU against 32-bit machine words\<close>

text \<open>
  The ISA's own reading of the eleven operations, on \<^typ>\<open>32 word\<close>: wrapping
  arithmetic, shifts by the low five bits of the second operand, signed and unsigned
  comparison.
\<close>

definition alu_word :: "int \<Rightarrow> 32 word \<Rightarrow> 32 word \<Rightarrow> 32 word" where
  "alu_word op a b = (
    let sh = unat (b AND 31) in
    if op = 0 then a + b
    else if op = 1 then a - b
    else if op = 2 then push_bit sh a
    else if op = 3 then (if sint a < sint b then 1 else 0)
    else if op = 4 then (if a < b then 1 else 0)
    else if op = 5 then a XOR b
    else if op = 6 then drop_bit sh a
    else if op = 7 then signed_drop_bit sh a
    else if op = 8 then a OR b
    else if op = 9 then a AND b
    else if op = 10 then b
    else 0)"

lemma word_of_u32 [simp]: "(word_of_int (u32 x) :: 32 word) = word_of_int x"
  by (simp add: u32_uint)

lemma s32_u32 [simp]: "s32 (u32 x) = s32 x"
  by (simp add: s32_sint)

lemma and_31: "(x::int) AND 31 = take_bit 5 x" "(w :: 32 word) AND 31 = take_bit 5 w"
  by (simp_all add: take_bit_eq_mask mask_eq_exp_minus_1)

lemma shamt_word: "nat (u32 b AND 0x1F) = unat ((word_of_int b :: 32 word) AND 31)"
proof -
  have "u32 b AND 0x1F = uint ((word_of_int b :: 32 word) AND 31)"
    unfolding and_31
    by (rule bit_eqI) (auto simp: bits_simps bit_take_bit_iff bit_uint_iff bit_word_of_int_iff)
  then show ?thesis by simp
qed

lemma alu_shift_lemmas:
  "u32 (push_bit n (u32 a)) = uint (push_bit n (word_of_int a :: 32 word))"
  "u32 (drop_bit n (u32 a)) = uint (drop_bit n (word_of_int a :: 32 word))"
  by (auto intro!: bit_eqI simp: bits_simps bit_push_bit_iff bit_drop_bit_eq bit_uint_iff
      bit_word_of_int_iff)

lemma alu_sra_lemma:
  "u32 (drop_bit n (s32 (u32 a))) = uint (signed_drop_bit n (word_of_int a :: 32 word))"
  by (simp add: s32_sint u32_uint flip: sint_signed_drop_bit_eq)

lemma alu_logic_lemmas:
  "u32 (u32 a XOR u32 b) = uint (word_of_int a XOR word_of_int b :: 32 word)"
  "u32 (u32 a OR u32 b) = uint (word_of_int a OR word_of_int b :: 32 word)"
  "u32 (u32 a AND u32 b) = uint (word_of_int a AND word_of_int b :: 32 word)"
  by (auto intro!: bit_eqI simp: bits_simps bit_uint_iff bit_word_of_int_iff bit_xor_iff
      bit_or_iff bit_and_iff)

lemma alu_arith_lemmas:
  "u32 (u32 a + u32 b) = uint (word_of_int a + word_of_int b :: 32 word)"
  "u32 (u32 a - u32 b) = uint (word_of_int a - word_of_int b :: 32 word)"
  by (simp_all add: u32_uint)

lemma alu_compare_lemmas:
  "s32 (u32 a) < s32 (u32 b) \<longleftrightarrow> sint (word_of_int a :: 32 word) < sint (word_of_int b :: 32 word)"
  "u32 a < u32 b \<longleftrightarrow> (word_of_int a :: 32 word) < word_of_int b"
  by (simp_all add: s32_sint u32_uint word_less_def)

lemmas alu_lemmas =
  alu_arith_lemmas alu_logic_lemmas alu_shift_lemmas alu_sra_lemma alu_compare_lemmas shamt_word

text \<open>C1: for every operation code and every pair of Python integers, \<open>alu\<close> returns the
  unsigned value of the ISA's 32-bit machine operation on the operands truncated to 32 bits;
  encodings outside the enum give 0.\<close>

theorem alu_refines_word:
  "alu op a b = uint (alu_word op (word_of_int a) (word_of_int b))"
  unfolding alu_def alu_word_def Let_def alu_op_defs alu_lemmas
  by (simp add: u32_uint)

section \<open>The immediates, bit by bit\<close>

text \<open>
  Where each bit of an immediate comes from: the instruction bit copied to bit \<open>i\<close> of the
  immediate of a format, \<open>None\<close> for a hardwired zero (the ISA's format tables).
\<close>

definition imm_src :: "int \<Rightarrow> nat \<Rightarrow> nat option" where
  "imm_src fmt i = (
    if 32 \<le> i then None
    else if fmt = 1 then Some (if i < 11 then i + 20 else 31)
    else if fmt = 2 then Some (if i < 5 then i + 7 else if i < 11 then i + 20 else 31)
    else if fmt = 3 then (if i = 0 then None else Some (
      if i < 5 then i + 7 else if i < 11 then i + 20 else if i = 11 then 7 else 31))
    else if fmt = 4 then (if i < 12 then None else Some i)
    else if fmt = 5 then (if i = 0 then None else Some (
      if i < 11 then i + 20 else if i = 11 then 20 else if i < 20 then i else 31))
    else if fmt = 6 then (if i < 5 then Some (i + 15) else None)
    else None)"

lemmas imm_bit_simps = imm_def Let_def imm_fmt_defs imm_src_def bits_simps bit_or_iff bit_push_bit_iff

text \<open>One format at a time, the 32 bit positions are enumerated.\<close>

lemma upt_32: "[0..<32] = [0, 1, 2, 3, 4, 5, 6, 7, 8, 9, 10, 11, 12, 13, 14, 15, 16, 17, 18, 19, 20,
    21, 22, 23, 24, 25, 26, 27, 28, 29, 30, 31 :: nat]"
  by code_simp

lemma lt_32_enum: "(\<forall>i<32. P i) \<longleftrightarrow> list_all P [0, 1, 2, 3, 4, 5, 6, 7, 8, 9, 10, 11, 12, 13, 14,
    15, 16, 17, 18, 19, 20, 21, 22, 23, 24, 25, 26, 27, 28, 29, 30, 31 :: nat]"
  unfolding upt_32 [symmetric] by (auto simp: list_all_iff)

lemma imm_layout_formats:
  assumes "fmt \<in> {1, 2, 3, 4, 5, 6}" and "i < 32"
  shows "bit (imm insn fmt) i \<longleftrightarrow> (case imm_src fmt i of None \<Rightarrow> False | Some j \<Rightarrow> bit insn j)"
proof -
  have "\<forall>i<32. bit (imm insn fmt) i \<longleftrightarrow> (case imm_src fmt i of None \<Rightarrow> False | Some j \<Rightarrow> bit insn j)"
    using assms(1) unfolding lt_32_enum
    by (elim insertE; simp add: imm_bit_simps)
  then show ?thesis using assms(2) by blast
qed

lemma imm_range [simp]: "0 \<le> imm insn fmt" "imm insn fmt < 2 ^ 32"
proof -
  have "0 \<le> imm insn fmt \<and> imm insn fmt < 2 ^ 32"
    using bits_range [where w = "u32 insn" and hi = 19 and lo = 15] by (auto simp: imm_def Let_def)
  then show "0 \<le> imm insn fmt" "imm insn fmt < 2 ^ 32" by auto
qed

lemma imm_bit_layout:
  "bit (imm insn fmt) i \<longleftrightarrow> (case imm_src fmt i of None \<Rightarrow> False | Some j \<Rightarrow> bit insn j)"
proof (cases "fmt \<in> {1, 2, 3, 4, 5, 6} \<and> i < 32")
  case True
  then show ?thesis by (intro imm_layout_formats) auto
next
  case False
  then show ?thesis
    using bit_int_bound [OF imm_range, of insn fmt i] by (auto simp: imm_def imm_src_def imm_fmt_defs)
qed

text \<open>C2: bit \<open>i\<close> of the immediate of \<open>insn\<close> under format \<open>fmt\<close> is exactly the
  instruction bit that the ISA's format table names (sign extension included), and zero where
  the table has a hardwired zero.\<close>

theorem imm_layout:
  "bit (imm insn fmt) i \<longleftrightarrow> (case imm_src fmt i of None \<Rightarrow> False | Some j \<Rightarrow> bit insn j)"
  by (rule imm_bit_layout)

section \<open>Placing an immediate into an instruction word\<close>

text \<open>
  The inverse direction, which an assembler performs: the immediate field of a format holding
  the value \<open>v\<close>, and the values a format can express.
\<close>

definition imm_place :: "int \<Rightarrow> int \<Rightarrow> int" where
  "imm_place fmt v = (
    if fmt = 1 then push_bit 20 (bits v 11 0)
    else if fmt = 2 then push_bit 25 (bits v 11 5) OR push_bit 7 (bits v 4 0)
    else if fmt = 3 then push_bit 31 (bits v 12 12) OR push_bit 25 (bits v 10 5)
                      OR push_bit 8 (bits v 4 1) OR push_bit 7 (bits v 11 11)
    else if fmt = 4 then push_bit 12 (bits v 31 12)
    else if fmt = 5 then push_bit 31 (bits v 20 20) OR push_bit 21 (bits v 10 1)
                      OR push_bit 20 (bits v 11 11) OR push_bit 12 (bits v 19 12)
    else push_bit 15 (bits v 4 0))"

fun imm_top :: "int \<Rightarrow> nat" where
  "imm_top fmt = (if fmt = 1 \<or> fmt = 2 then 11 else if fmt = 3 then 12 else if fmt = 4 then 31 else 20)"

definition imm_fits :: "int \<Rightarrow> int \<Rightarrow> bool" where
  "imm_fits fmt v \<longleftrightarrow> fmt \<in> {1, 2, 3, 4, 5, 6} \<and>
    (if fmt = 6 then 0 \<le> v \<and> v < 32
     else - (2 ^ imm_top fmt) \<le> v \<and> v < 2 ^ imm_top fmt
          \<and> (fmt = 3 \<or> fmt = 5 \<longrightarrow> even v) \<and> (fmt = 4 \<longrightarrow> v mod 4096 = 0))"

lemma sign_bits_above:
  fixes v :: int
  assumes "- (2 ^ n) \<le> v" "v < 2 ^ n" "n < i"
  shows "bit v i \<longleftrightarrow> bit v n"
proof -
  have "v = signed_take_bit n v" using assms(1,2) by (simp add: signed_take_bit_int_eq_self)
  then have "bit v i \<longleftrightarrow> bit (signed_take_bit n v) i" by simp
  then show ?thesis using assms(3) by (simp add: bit_signed_take_bit_iff min_def)
qed

lemma low_bits_zero: "(v::int) mod 2 ^ n = 0 \<Longrightarrow> i < n \<Longrightarrow> \<not> bit v i"
  by (metis bit_0_eq bit_take_bit_iff bot_apply take_bit_eq_mod bot_bool_def)

lemma imm_fits_bits:
  assumes "imm_fits fmt v"
  shows "fmt \<noteq> 6 \<Longrightarrow> imm_top fmt < i \<Longrightarrow> bit v i \<longleftrightarrow> bit v (imm_top fmt)"
    and "fmt = 6 \<Longrightarrow> 5 \<le> i \<Longrightarrow> \<not> bit v i"
    and "fmt = 3 \<or> fmt = 5 \<Longrightarrow> \<not> bit v 0"
    and "fmt = 4 \<Longrightarrow> i < 12 \<Longrightarrow> \<not> bit v i"
  using assms sign_bits_above [of "imm_top fmt" v i] low_bits_zero [of v 12 i]
    bit_int_bound [of v 5 i]
  by (auto simp: imm_fits_def bit_0 split: if_splits)

lemmas imm_place_simps = imm_place_def imm_src_def bits_simps bit_or_iff bit_push_bit_iff

lemma imm_place_I:
  assumes "\<And>i. 11 < i \<Longrightarrow> bit v i \<longleftrightarrow> bit v 11"
  shows "\<forall>i<32. bit (imm (imm_place 1 v) 1) i \<longleftrightarrow> bit v i"
  unfolding lt_32_enum imm_bit_layout by (simp add: imm_place_simps assms) (simp add: eval_nat_numeral)?

lemma imm_place_S:
  assumes "\<And>i. 11 < i \<Longrightarrow> bit v i \<longleftrightarrow> bit v 11"
  shows "\<forall>i<32. bit (imm (imm_place 2 v) 2) i \<longleftrightarrow> bit v i"
  unfolding lt_32_enum imm_bit_layout by (simp add: imm_place_simps assms) (simp add: eval_nat_numeral)?

lemma imm_place_B:
  assumes "\<And>i. 12 < i \<Longrightarrow> bit v i \<longleftrightarrow> bit v 12"
    and "\<not> bit v 0"
  shows "\<forall>i<32. bit (imm (imm_place 3 v) 3) i \<longleftrightarrow> bit v i"
  unfolding lt_32_enum imm_bit_layout by (simp add: imm_place_simps assms) (simp add: eval_nat_numeral)?

lemma imm_place_U:
  assumes "\<And>i. i < 12 \<Longrightarrow> \<not> bit v i"
  shows "\<forall>i<32. bit (imm (imm_place 4 v) 4) i \<longleftrightarrow> bit v i"
  unfolding lt_32_enum imm_bit_layout by (simp add: imm_place_simps assms) (simp add: eval_nat_numeral)?

lemma imm_place_J:
  assumes "\<And>i. 20 < i \<Longrightarrow> bit v i \<longleftrightarrow> bit v 20"
    and "\<not> bit v 0"
  shows "\<forall>i<32. bit (imm (imm_place 5 v) 5) i \<longleftrightarrow> bit v i"
  unfolding lt_32_enum imm_bit_layout by (simp add: imm_place_simps assms) (simp add: eval_nat_numeral)?

lemma imm_place_Z:
  assumes "\<And>i. 5 \<le> i \<Longrightarrow> \<not> bit v i"
  shows "\<forall>i<32. bit (imm (imm_place 6 v) 6) i \<longleftrightarrow> bit v i"
  unfolding lt_32_enum imm_bit_layout by (simp add: imm_place_simps assms) (simp add: eval_nat_numeral)?

lemma imm_place_bits:
  assumes "imm_fits fmt v"
  shows "\<forall>i<32. bit (imm (imm_place fmt v) fmt) i \<longleftrightarrow> bit v i"
proof -
  note fits = imm_fits_bits [OF assms]
  have "fmt \<in> {1, 2, 3, 4, 5, 6}" using assms by (simp add: imm_fits_def)
  then show ?thesis
  proof (elim insertE emptyE)
    assume f: "fmt = 1" show ?thesis unfolding f by (rule imm_place_I) (use fits(1) [unfolded f, simplified] in blast)
  next
    assume f: "fmt = 2" show ?thesis unfolding f by (rule imm_place_S) (use fits(1) [unfolded f, simplified] in blast)
  next
    assume f: "fmt = 3" show ?thesis unfolding f by (rule imm_place_B) (use fits(1) [unfolded f, simplified] fits(3) [unfolded f, simplified] in blast)+
  next
    assume f: "fmt = 4" show ?thesis unfolding f by (rule imm_place_U) (use fits(4) [unfolded f, simplified] in blast)
  next
    assume f: "fmt = 5" show ?thesis unfolding f by (rule imm_place_J) (use fits(1) [unfolded f, simplified] fits(3) [unfolded f, simplified] in blast)+
  next
    assume f: "fmt = 6" show ?thesis unfolding f by (rule imm_place_Z) (use fits(2) [unfolded f, simplified] in blast)
  qed
qed

text \<open>C3: every value a format can express is recovered: placing \<open>v\<close> in the format's
  immediate field and running the immediate generator returns \<open>v\<close> truncated to 32 bits.\<close>

theorem imm_roundtrip:
  assumes "imm_fits fmt v"
  shows "imm (imm_place fmt v) fmt = u32 v"
proof (rule take_bit_bit_eqI [where n = 32])
  show "bit (imm (imm_place fmt v) fmt) i \<longleftrightarrow> bit (u32 v) i" if "i < 32" for i
    using imm_place_bits [OF assms] that by (simp add: bit_u32)
qed (use imm_range u32_range in auto)

theorem imm_roundtrip_witness:
  "imm_fits 3 (-4096) \<and> imm (imm_place 3 (-4096)) 3 = u32 (-4096)"
proof -
  have "imm_fits 3 (-4096)" by (simp add: imm_fits_def)
  then show ?thesis using imm_roundtrip by blast
qed

end
