(* ===== verification/Decode.thy ===== *)
theory Decode
  imports Rv32i_Ref
begin

text \<open>
  The golden model of \<^verbatim>\<open>model/rv32i_ref.py\<close>, second half: the instruction decoder.
  The \<^verbatim>\<open>ctrl_t\<close> dictionary of 0/1 flags and small codes is a record of integers, the
  encoding tables are association lists in the order of the source, and \<open>decode\<close> keeps
  the source's if/elif order, the \<^verbatim>\<open>KeyError\<close> a dictionary subscript could raise
  included. A table of the instructions of the ISA string, stated by field patterns, is
  the specification the decoder is proved against.
\<close>

section \<open>Encodings\<close>

definition BM_NONE :: int where "BM_NONE = 0"
definition BM_SH1ADD :: int where "BM_SH1ADD = 1"
definition BM_SH2ADD :: int where "BM_SH2ADD = 2"
definition BM_SH3ADD :: int where "BM_SH3ADD = 3"
definition BM_ANDN :: int where "BM_ANDN = 4"
definition BM_ORN :: int where "BM_ORN = 5"
definition BM_XNOR :: int where "BM_XNOR = 6"
definition BM_CLZ :: int where "BM_CLZ = 7"
definition BM_CTZ :: int where "BM_CTZ = 8"
definition BM_CPOP :: int where "BM_CPOP = 9"
definition BM_MIN :: int where "BM_MIN = 10"
definition BM_MINU :: int where "BM_MINU = 11"
definition BM_MAX :: int where "BM_MAX = 12"
definition BM_MAXU :: int where "BM_MAXU = 13"
definition BM_SEXTB :: int where "BM_SEXTB = 14"
definition BM_SEXTH :: int where "BM_SEXTH = 15"
definition BM_ZEXTH :: int where "BM_ZEXTH = 16"
definition BM_ORCB :: int where "BM_ORCB = 17"
definition BM_REV8 :: int where "BM_REV8 = 18"
definition BM_ROL :: int where "BM_ROL = 19"
definition BM_ROR :: int where "BM_ROR = 20"
definition BM_BSET :: int where "BM_BSET = 21"
definition BM_BCLR :: int where "BM_BCLR = 22"
definition BM_BINV :: int where "BM_BINV = 23"
definition BM_BEXT :: int where "BM_BEXT = 24"
definition BM_PACK :: int where "BM_PACK = 25"
definition BM_PACKH :: int where "BM_PACKH = 26"
definition BM_BREV8 :: int where "BM_BREV8 = 27"
definition BM_ZIP :: int where "BM_ZIP = 28"
definition BM_UNZIP :: int where "BM_UNZIP = 29"
definition BM_CZEQZ :: int where "BM_CZEQZ = 30"
definition BM_CZNEZ :: int where "BM_CZNEZ = 31"

lemmas bm_op_defs =
  BM_NONE_def BM_SH1ADD_def BM_SH2ADD_def BM_SH3ADD_def BM_ANDN_def BM_ORN_def BM_XNOR_def
  BM_CLZ_def BM_CTZ_def BM_CPOP_def BM_MIN_def BM_MINU_def BM_MAX_def BM_MAXU_def BM_SEXTB_def
  BM_SEXTH_def BM_ZEXTH_def BM_ORCB_def BM_REV8_def BM_ROL_def BM_ROR_def BM_BSET_def BM_BCLR_def
  BM_BINV_def BM_BEXT_def BM_PACK_def BM_PACKH_def BM_BREV8_def BM_ZIP_def BM_UNZIP_def
  BM_CZEQZ_def BM_CZNEZ_def

definition BM_OPS :: "(string \<times> int) list" where
  "BM_OPS = [
    (''BM_NONE'', BM_NONE), (''BM_SH1ADD'', BM_SH1ADD), (''BM_SH2ADD'', BM_SH2ADD),
    (''BM_SH3ADD'', BM_SH3ADD), (''BM_ANDN'', BM_ANDN), (''BM_ORN'', BM_ORN),
    (''BM_XNOR'', BM_XNOR), (''BM_CLZ'', BM_CLZ), (''BM_CTZ'', BM_CTZ),
    (''BM_CPOP'', BM_CPOP), (''BM_MIN'', BM_MIN), (''BM_MINU'', BM_MINU),
    (''BM_MAX'', BM_MAX), (''BM_MAXU'', BM_MAXU), (''BM_SEXTB'', BM_SEXTB),
    (''BM_SEXTH'', BM_SEXTH), (''BM_ZEXTH'', BM_ZEXTH), (''BM_ORCB'', BM_ORCB),
    (''BM_REV8'', BM_REV8), (''BM_ROL'', BM_ROL), (''BM_ROR'', BM_ROR),
    (''BM_BSET'', BM_BSET), (''BM_BCLR'', BM_BCLR), (''BM_BINV'', BM_BINV),
    (''BM_BEXT'', BM_BEXT), (''BM_PACK'', BM_PACK), (''BM_PACKH'', BM_PACKH),
    (''BM_BREV8'', BM_BREV8), (''BM_ZIP'', BM_ZIP), (''BM_UNZIP'', BM_UNZIP),
    (''BM_CZEQZ'', BM_CZEQZ), (''BM_CZNEZ'', BM_CZNEZ)]"

definition BM_OP_WIDTH :: int where "BM_OP_WIDTH = 6"

definition MUL_CYCLES :: int where "MUL_CYCLES = 2"
definition DIV_CYCLES :: int where "DIV_CYCLES = 34"

definition MULDIV_CYCLES :: "(int \<times> int) list" where
  "MULDIV_CYCLES = [
    (0, MUL_CYCLES), (1, MUL_CYCLES), (2, MUL_CYCLES), (3, MUL_CYCLES),
    (4, DIV_CYCLES), (5, DIV_CYCLES), (6, DIV_CYCLES), (7, DIV_CYCLES)]"

definition OPC_LOAD :: int where "OPC_LOAD = 0x03"
definition OPC_MISC_MEM :: int where "OPC_MISC_MEM = 0x0F"
definition OPC_OP_IMM :: int where "OPC_OP_IMM = 0x13"
definition OPC_AUIPC :: int where "OPC_AUIPC = 0x17"
definition OPC_STORE :: int where "OPC_STORE = 0x23"
definition OPC_OP :: int where "OPC_OP = 0x33"
definition OPC_LUI :: int where "OPC_LUI = 0x37"
definition OPC_BRANCH :: int where "OPC_BRANCH = 0x63"
definition OPC_JALR :: int where "OPC_JALR = 0x67"
definition OPC_JAL :: int where "OPC_JAL = 0x6F"
definition OPC_SYSTEM :: int where "OPC_SYSTEM = 0x73"

lemmas opc_defs =
  OPC_LOAD_def OPC_MISC_MEM_def OPC_OP_IMM_def OPC_AUIPC_def OPC_STORE_def OPC_OP_def
  OPC_LUI_def OPC_BRANCH_def OPC_JALR_def OPC_JAL_def OPC_SYSTEM_def

definition SRCA_RS1 :: int where "SRCA_RS1 = 0"
definition SRCA_PC :: int where "SRCA_PC = 1"
definition SRCA_ZERO :: int where "SRCA_ZERO = 2"
definition SRCB_RS2 :: int where "SRCB_RS2 = 0"
definition SRCB_IMM :: int where "SRCB_IMM = 1"
definition RES_ALU :: int where "RES_ALU = 0"
definition RES_MEM :: int where "RES_MEM = 1"
definition RES_PC4 :: int where "RES_PC4 = 2"
definition RES_CSR :: int where "RES_CSR = 3"

lemmas sel_defs =
  SRCA_RS1_def SRCA_PC_def SRCA_ZERO_def SRCB_RS2_def SRCB_IMM_def RES_ALU_def RES_MEM_def
  RES_PC4_def RES_CSR_def

definition F7_BASE :: int where "F7_BASE = 0x00"
definition F7_ALT :: int where "F7_ALT = 0x20"
definition F7_MULDIV :: int where "F7_MULDIV = 0x01"
definition F7_ZBA_SHADD :: int where "F7_ZBA_SHADD = 0x10"
definition F7_ZBB_MINMAX :: int where "F7_ZBB_MINMAX = 0x05"
definition F7_ZBB_ROT :: int where "F7_ZBB_ROT = 0x30"
definition F7_ZBKB_PACK :: int where "F7_ZBKB_PACK = 0x04"
definition F7_ZBS_BSET :: int where "F7_ZBS_BSET = 0x14"
definition F7_ZBS_BCLR :: int where "F7_ZBS_BCLR = 0x24"
definition F7_ZBS_BINV :: int where "F7_ZBS_BINV = 0x34"
definition F7_ZICOND :: int where "F7_ZICOND = 0x07"

lemmas f7_defs =
  F7_BASE_def F7_ALT_def F7_MULDIV_def F7_ZBA_SHADD_def F7_ZBB_MINMAX_def F7_ZBB_ROT_def
  F7_ZBKB_PACK_def F7_ZBS_BSET_def F7_ZBS_BCLR_def F7_ZBS_BINV_def F7_ZICOND_def

section \<open>The encoding tables\<close>

definition BM_OP_R :: "((int \<times> int) \<times> int) list" where
  "BM_OP_R = [
    ((F7_ZBA_SHADD, 2), BM_SH1ADD), ((F7_ZBA_SHADD, 4), BM_SH2ADD), ((F7_ZBA_SHADD, 6), BM_SH3ADD),
    ((F7_ALT, 4), BM_XNOR), ((F7_ALT, 6), BM_ORN), ((F7_ALT, 7), BM_ANDN),
    ((F7_ZBB_MINMAX, 4), BM_MIN), ((F7_ZBB_MINMAX, 5), BM_MINU),
    ((F7_ZBB_MINMAX, 6), BM_MAX), ((F7_ZBB_MINMAX, 7), BM_MAXU),
    ((F7_ZBB_ROT, 1), BM_ROL), ((F7_ZBB_ROT, 5), BM_ROR),
    ((F7_ZBS_BSET, 1), BM_BSET), ((F7_ZBS_BCLR, 1), BM_BCLR), ((F7_ZBS_BCLR, 5), BM_BEXT),
    ((F7_ZBS_BINV, 1), BM_BINV),
    ((F7_ZBKB_PACK, 4), BM_PACK), ((F7_ZBKB_PACK, 7), BM_PACKH),
    ((F7_ZICOND, 5), BM_CZEQZ), ((F7_ZICOND, 7), BM_CZNEZ)]"

definition BM_UNARY :: "(int \<times> int) list" where
  "BM_UNARY = [(0, BM_CLZ), (1, BM_CTZ), (2, BM_CPOP), (4, BM_SEXTB), (5, BM_SEXTH)]"

definition RS2_ORCB :: int where "RS2_ORCB = 7"
definition RS2_REV8 :: int where "RS2_REV8 = 24"
definition RS2_BREV8 :: int where "RS2_BREV8 = 7"
definition RS2_ZIPUNZ :: int where "RS2_ZIPUNZ = 15"

lemmas rs2_defs = RS2_ORCB_def RS2_REV8_def RS2_BREV8_def RS2_ZIPUNZ_def

definition bm_op_i :: "int \<Rightarrow> int \<Rightarrow> int \<Rightarrow> int option" where
  "bm_op_i funct7 funct3 rs2 = (
    if funct7 = F7_ZBB_ROT \<and> funct3 = 1 then map_of BM_UNARY rs2
    else if funct7 = F7_ZBB_ROT \<and> funct3 = 5 then Some BM_ROR
    else if funct7 = F7_ZBS_BSET \<and> funct3 = 1 then Some BM_BSET
    else if funct7 = F7_ZBS_BSET \<and> funct3 = 5 then (if rs2 = RS2_ORCB then Some BM_ORCB else None)
    else if funct7 = F7_ZBS_BCLR \<and> funct3 = 1 then Some BM_BCLR
    else if funct7 = F7_ZBS_BCLR \<and> funct3 = 5 then Some BM_BEXT
    else if funct7 = F7_ZBS_BINV \<and> funct3 = 1 then Some BM_BINV
    else if funct7 = F7_ZBS_BINV \<and> funct3 = 5 then
      (if rs2 = RS2_REV8 then Some BM_REV8
       else if rs2 = RS2_BREV8 then Some BM_BREV8
       else None)
    else if funct7 = F7_ZBKB_PACK \<and> funct3 = 1 then
      (if rs2 = RS2_ZIPUNZ then Some BM_ZIP else None)
    else if funct7 = F7_ZBKB_PACK \<and> funct3 = 5 then
      (if rs2 = RS2_ZIPUNZ then Some BM_UNZIP else None)
    else None)"

definition ALU_BY_F3 :: "(int \<times> int) list" where
  "ALU_BY_F3 = [(0, ALU_ADD), (2, ALU_SLT), (3, ALU_SLTU), (4, ALU_XOR), (6, ALU_OR), (7, ALU_AND)]"

section \<open>The control bundle\<close>

record ctrl =
  reg_write :: int
  mem_read :: int
  mem_write :: int
  mem_op :: int
  branch :: int
  jump :: int
  jalr :: int
  alu_op :: int
  alu_src_a :: int
  alu_src_b :: int
  result_sel :: int
  imm_fmt :: int
  uses_rs1 :: int
  uses_rs2 :: int
  is_ecall :: int
  is_ebreak :: int
  is_mret :: int
  is_csr :: int
  is_muldiv :: int
  muldiv_op :: int
  is_bitmanip :: int
  bm_op :: int
  is_illegal :: int

record regs =
  rd :: int
  rs1 :: int
  rs2 :: int

definition blank :: ctrl where
  "blank = \<lparr>reg_write = 0, mem_read = 0, mem_write = 0, mem_op = 0, branch = 0, jump = 0, jalr = 0,
    alu_op = 0, alu_src_a = 0, alu_src_b = 0, result_sel = 0, imm_fmt = 0, uses_rs1 = 0,
    uses_rs2 = 0, is_ecall = 0, is_ebreak = 0, is_mret = 0, is_csr = 0, is_muldiv = 0,
    muldiv_op = 0, is_bitmanip = 0, bm_op = 0, is_illegal = 1\<rparr>"

section \<open>The decoder\<close>

definition decode_op_imm :: "ctrl \<Rightarrow> int \<Rightarrow> int \<Rightarrow> int option \<Rightarrow> ctrl" where
  "decode_op_imm c funct3 funct7 bm_i = (
    let f7_base = (funct7 = F7_BASE); f7_alt = (funct7 = F7_ALT);
        c = c\<lparr>reg_write := 1, uses_rs1 := 1, imm_fmt := IMM_I, alu_src_b := SRCB_IMM,
              result_sel := RES_ALU\<rparr>
    in case bm_i of
         Some op \<Rightarrow> c\<lparr>is_bitmanip := 1, bm_op := op, alu_op := ALU_ADD, is_illegal := 0\<rparr>
       | None \<Rightarrow>
         (case map_of ALU_BY_F3 funct3 of
            Some op \<Rightarrow> c\<lparr>alu_op := op, is_illegal := 0\<rparr>
          | None \<Rightarrow>
            if funct3 = 1 then c\<lparr>alu_op := ALU_SLL, is_illegal := (if f7_base then 0 else 1)\<rparr>
            else c\<lparr>alu_op := (if f7_alt then ALU_SRA else ALU_SRL),
                   is_illegal := (if f7_base \<or> f7_alt then 0 else 1)\<rparr>))"

definition decode_op :: "ctrl \<Rightarrow> int \<Rightarrow> int \<Rightarrow> int option \<Rightarrow> ctrl res" where
  "decode_op c funct3 funct7 bm_r = (
    let f7_base = (funct7 = F7_BASE); f7_alt = (funct7 = F7_ALT);
        c = c\<lparr>reg_write := 1, uses_rs1 := 1, uses_rs2 := 1, alu_src_b := SRCB_RS2,
              result_sel := RES_ALU\<rparr>
    in if funct7 = F7_MULDIV then
         Inr (c\<lparr>is_muldiv := 1, muldiv_op := funct3, alu_op := ALU_ADD, is_illegal := 0\<rparr>)
       else case bm_r of
         Some op \<Rightarrow> Inr (c\<lparr>is_bitmanip := 1, bm_op := op, alu_op := ALU_ADD, is_illegal := 0\<rparr>)
       | None \<Rightarrow>
         if funct3 = 0 then
           Inr (c\<lparr>alu_op := (if f7_alt then ALU_SUB else ALU_ADD),
                  is_illegal := (if f7_base \<or> f7_alt then 0 else 1)\<rparr>)
         else if funct3 = 5 then
           Inr (c\<lparr>alu_op := (if f7_alt then ALU_SRA else ALU_SRL),
                  is_illegal := (if f7_base \<or> f7_alt then 0 else 1)\<rparr>)
         else if funct3 = 1 then
           Inr (c\<lparr>alu_op := ALU_SLL, is_illegal := (if f7_base then 0 else 1)\<rparr>)
         else (case map_of ALU_BY_F3 funct3 of
                 None \<Rightarrow> Inl (KeyError ''_ALU_BY_F3'')
               | Some op \<Rightarrow> Inr (c\<lparr>alu_op := op, is_illegal := (if f7_base then 0 else 1)\<rparr>)))"

definition decode_system :: "ctrl \<Rightarrow> regs \<Rightarrow> int \<Rightarrow> int \<Rightarrow> ctrl" where
  "decode_system c r funct3 funct12 = (
    if funct3 = 0 then
      (if rd r = 0 \<and> rs1 r = 0 then
         (if funct12 = 0x000 then c\<lparr>is_ecall := 1, is_illegal := 0\<rparr>
          else if funct12 = 0x001 then c\<lparr>is_ebreak := 1, is_illegal := 0\<rparr>
          else if funct12 = 0x302 then c\<lparr>is_mret := 1, is_illegal := 0\<rparr>
          else if funct12 = 0x105 then c\<lparr>is_illegal := 0\<rparr>
          else c)
       else c)
    else if funct3 \<in> {1, 2, 3} then
      c\<lparr>is_csr := 1, reg_write := 1, uses_rs1 := 1, imm_fmt := IMM_I, result_sel := RES_CSR,
        is_illegal := 0\<rparr>
    else if funct3 \<in> {5, 6, 7} then
      c\<lparr>is_csr := 1, reg_write := 1, imm_fmt := IMM_Z, result_sel := RES_CSR, is_illegal := 0\<rparr>
    else c)"

definition decode_regs :: "int \<Rightarrow> regs" where
  "decode_regs insn = \<lparr>rd = bits insn 11 7, rs1 = bits insn 19 15, rs2 = bits insn 24 20\<rparr>"

definition decode_ctrl :: "int \<Rightarrow> ctrl res" where
  "decode_ctrl insn = (
    let opcode = bits insn 6 0; funct3 = bits insn 14 12; funct7 = bits insn 31 25;
        funct12 = bits insn 31 20; r = decode_regs insn; c = blank;
        imm_rs2 = bits insn 24 20;
        bm_r = map_of BM_OP_R (funct7, funct3);
        bm_i = bm_op_i funct7 funct3 imm_rs2
    in
    if opcode = OPC_LUI then
      Inr (c\<lparr>reg_write := 1, imm_fmt := IMM_U, alu_op := ALU_PASS_B, alu_src_b := SRCB_IMM,
             result_sel := RES_ALU, is_illegal := 0\<rparr>)
    else if opcode = OPC_AUIPC then
      Inr (c\<lparr>reg_write := 1, imm_fmt := IMM_U, alu_op := ALU_ADD, alu_src_a := SRCA_PC,
             alu_src_b := SRCB_IMM, result_sel := RES_ALU, is_illegal := 0\<rparr>)
    else if opcode = OPC_JAL then
      Inr (c\<lparr>reg_write := 1, jump := 1, imm_fmt := IMM_J, alu_op := ALU_ADD, alu_src_a := SRCA_PC,
             alu_src_b := SRCB_IMM, result_sel := RES_PC4, is_illegal := 0\<rparr>)
    else if opcode = OPC_JALR then
      Inr (if funct3 = 0 then
             c\<lparr>reg_write := 1, jump := 1, jalr := 1, uses_rs1 := 1, imm_fmt := IMM_I,
               alu_op := ALU_ADD, alu_src_a := SRCA_RS1, alu_src_b := SRCB_IMM,
               result_sel := RES_PC4, is_illegal := 0\<rparr>
           else c)
    else if opcode = OPC_BRANCH then
      Inr (if funct3 \<notin> {2, 3} then
             c\<lparr>branch := 1, uses_rs1 := 1, uses_rs2 := 1, imm_fmt := IMM_B, alu_op := ALU_ADD,
               alu_src_a := SRCA_PC, alu_src_b := SRCB_IMM, is_illegal := 0\<rparr>
           else c)
    else if opcode = OPC_LOAD then
      Inr (if funct3 \<in> {0, 1, 2, 4, 5} then
             c\<lparr>reg_write := 1, mem_read := 1, mem_op := funct3, uses_rs1 := 1, imm_fmt := IMM_I,
               alu_op := ALU_ADD, alu_src_b := SRCB_IMM, result_sel := RES_MEM, is_illegal := 0\<rparr>
           else c)
    else if opcode = OPC_STORE then
      Inr (if funct3 \<in> {0, 1, 2} then
             c\<lparr>mem_write := 1, mem_op := funct3, uses_rs1 := 1, uses_rs2 := 1, imm_fmt := IMM_S,
               alu_op := ALU_ADD, alu_src_b := SRCB_IMM, is_illegal := 0\<rparr>
           else c)
    else if opcode = OPC_OP_IMM then Inr (decode_op_imm c funct3 funct7 bm_i)
    else if opcode = OPC_OP then decode_op c funct3 funct7 bm_r
    else if opcode = OPC_MISC_MEM then
      Inr (if funct3 = 0 then c\<lparr>is_illegal := 0\<rparr> else c)
    else if opcode = OPC_SYSTEM then Inr (decode_system c r funct3 funct12)
    else Inr c)"

definition decode :: "int \<Rightarrow> (ctrl \<times> regs) res" where
  "decode insn = (
    let insn = u32 insn in
    rbind (decode_ctrl insn) (\<lambda>c.
      Inr (if is_illegal c \<noteq> 0 then blank else c, decode_regs insn)))"

end
