(* ===== verification/Decode_Spec.thy ===== *)
theory Decode_Spec
  imports Decode
begin

text \<open>
  The instruction set the decoder accepts, written as a table of field patterns with the
  control bundle each instruction must produce, and the proof that \<open>decode\<close> implements it:
  it never raises, it is total, its legal words are exactly the words some row matches, and
  on a row's words it returns the row's bundle.
\<close>

section \<open>Patterns\<close>

datatype pat =
    Major int
  | Funct3 int int
  | Funct7 int int int
  | Unary int int int int
  | System int

fun pat_matches :: "pat \<Rightarrow> int \<Rightarrow> bool" where
  "pat_matches (Major opc) w \<longleftrightarrow> bits w 6 0 = opc"
| "pat_matches (Funct3 opc f3) w \<longleftrightarrow> bits w 6 0 = opc \<and> bits w 14 12 = f3"
| "pat_matches (Funct7 opc f3 f7) w \<longleftrightarrow> bits w 6 0 = opc \<and> bits w 14 12 = f3 \<and> bits w 31 25 = f7"
| "pat_matches (Unary opc f3 f7 r2) w \<longleftrightarrow>
     bits w 6 0 = opc \<and> bits w 14 12 = f3 \<and> bits w 31 25 = f7 \<and> bits w 24 20 = r2"
| "pat_matches (System f12) w \<longleftrightarrow>
     bits w 6 0 = 0x73 \<and> bits w 14 12 = 0 \<and> bits w 11 7 = 0 \<and> bits w 19 15 = 0 \<and> bits w 31 20 = f12"

section \<open>Bundles by format\<close>

definition legal :: ctrl where "legal = blank\<lparr>is_illegal := 0\<rparr>"

definition R_alu :: "int \<Rightarrow> ctrl" where
  "R_alu op = legal\<lparr>reg_write := 1, uses_rs1 := 1, uses_rs2 := 1, alu_op := op\<rparr>"
definition I_alu :: "int \<Rightarrow> ctrl" where
  "I_alu op = legal\<lparr>reg_write := 1, uses_rs1 := 1, alu_op := op, alu_src_b := 1, imm_fmt := 1\<rparr>"
definition R_bm :: "int \<Rightarrow> ctrl" where
  "R_bm op = (R_alu 0)\<lparr>is_bitmanip := 1, bm_op := op\<rparr>"
definition I_bm :: "int \<Rightarrow> ctrl" where
  "I_bm op = (I_alu 0)\<lparr>is_bitmanip := 1, bm_op := op\<rparr>"
definition R_md :: "int \<Rightarrow> ctrl" where
  "R_md f3 = (R_alu 0)\<lparr>is_muldiv := 1, muldiv_op := f3\<rparr>"
definition Load :: "int \<Rightarrow> ctrl" where
  "Load f3 = (I_alu 0)\<lparr>mem_read := 1, mem_op := f3, result_sel := 1\<rparr>"
definition Store :: "int \<Rightarrow> ctrl" where
  "Store f3 = legal\<lparr>mem_write := 1, mem_op := f3, uses_rs1 := 1, uses_rs2 := 1, imm_fmt := 2,
                    alu_src_b := 1\<rparr>"
definition Branch :: ctrl where
  "Branch = legal\<lparr>branch := 1, uses_rs1 := 1, uses_rs2 := 1, imm_fmt := 3, alu_src_a := 1,
                  alu_src_b := 1\<rparr>"
definition Csr_reg :: ctrl where
  "Csr_reg = legal\<lparr>is_csr := 1, reg_write := 1, uses_rs1 := 1, imm_fmt := 1, result_sel := 3\<rparr>"
definition Csr_imm :: ctrl where
  "Csr_imm = legal\<lparr>is_csr := 1, reg_write := 1, imm_fmt := 6, result_sel := 3\<rparr>"

lemmas bundle_defs =
  legal_def R_alu_def I_alu_def R_bm_def I_bm_def R_md_def Load_def Store_def Branch_def
  Csr_reg_def Csr_imm_def blank_def

section \<open>The instruction table\<close>

definition isa_base :: "(string \<times> pat \<times> ctrl) list" where
  "isa_base = [
    (''lui'', Major 0x37, legal\<lparr>reg_write := 1, imm_fmt := 4, alu_op := 10, alu_src_b := 1\<rparr>),
    (''auipc'', Major 0x17, legal\<lparr>reg_write := 1, imm_fmt := 4, alu_src_a := 1, alu_src_b := 1\<rparr>),
    (''jal'', Major 0x6F, legal\<lparr>reg_write := 1, jump := 1, imm_fmt := 5, alu_src_a := 1,
       alu_src_b := 1, result_sel := 2\<rparr>),
    (''jalr'', Funct3 0x67 0, (I_alu 0)\<lparr>jump := 1, jalr := 1, result_sel := 2\<rparr>),
    (''beq'', Funct3 0x63 0, Branch), (''bne'', Funct3 0x63 1, Branch),
    (''blt'', Funct3 0x63 4, Branch), (''bge'', Funct3 0x63 5, Branch),
    (''bltu'', Funct3 0x63 6, Branch), (''bgeu'', Funct3 0x63 7, Branch),
    (''lb'', Funct3 0x03 0, Load 0), (''lh'', Funct3 0x03 1, Load 1), (''lw'', Funct3 0x03 2, Load 2),
    (''lbu'', Funct3 0x03 4, Load 4), (''lhu'', Funct3 0x03 5, Load 5),
    (''sb'', Funct3 0x23 0, Store 0), (''sh'', Funct3 0x23 1, Store 1),
    (''sw'', Funct3 0x23 2, Store 2),
    (''addi'', Funct3 0x13 0, I_alu 0), (''slti'', Funct3 0x13 2, I_alu 3),
    (''sltiu'', Funct3 0x13 3, I_alu 4), (''xori'', Funct3 0x13 4, I_alu 5),
    (''ori'', Funct3 0x13 6, I_alu 8), (''andi'', Funct3 0x13 7, I_alu 9),
    (''slli'', Funct7 0x13 1 0x00, I_alu 2), (''srli'', Funct7 0x13 5 0x00, I_alu 6),
    (''srai'', Funct7 0x13 5 0x20, I_alu 7),
    (''add'', Funct7 0x33 0 0x00, R_alu 0), (''sub'', Funct7 0x33 0 0x20, R_alu 1),
    (''sll'', Funct7 0x33 1 0x00, R_alu 2), (''slt'', Funct7 0x33 2 0x00, R_alu 3),
    (''sltu'', Funct7 0x33 3 0x00, R_alu 4), (''xor'', Funct7 0x33 4 0x00, R_alu 5),
    (''srl'', Funct7 0x33 5 0x00, R_alu 6), (''sra'', Funct7 0x33 5 0x20, R_alu 7),
    (''or'', Funct7 0x33 6 0x00, R_alu 8), (''and'', Funct7 0x33 7 0x00, R_alu 9),
    (''fence'', Funct3 0x0F 0, legal),
    (''ecall'', System 0x000, legal\<lparr>is_ecall := 1\<rparr>),
    (''ebreak'', System 0x001, legal\<lparr>is_ebreak := 1\<rparr>),
    (''mret'', System 0x302, legal\<lparr>is_mret := 1\<rparr>), (''wfi'', System 0x105, legal),
    (''csrrw'', Funct3 0x73 1, Csr_reg), (''csrrs'', Funct3 0x73 2, Csr_reg),
    (''csrrc'', Funct3 0x73 3, Csr_reg), (''csrrwi'', Funct3 0x73 5, Csr_imm),
    (''csrrsi'', Funct3 0x73 6, Csr_imm), (''csrrci'', Funct3 0x73 7, Csr_imm)]"

definition isa_m :: "(string \<times> pat \<times> ctrl) list" where
  "isa_m = [
    (''mul'', Funct7 0x33 0 0x01, R_md 0), (''mulh'', Funct7 0x33 1 0x01, R_md 1),
    (''mulhsu'', Funct7 0x33 2 0x01, R_md 2), (''mulhu'', Funct7 0x33 3 0x01, R_md 3),
    (''div'', Funct7 0x33 4 0x01, R_md 4), (''divu'', Funct7 0x33 5 0x01, R_md 5),
    (''rem'', Funct7 0x33 6 0x01, R_md 6), (''remu'', Funct7 0x33 7 0x01, R_md 7)]"

definition isa_b :: "(string \<times> pat \<times> ctrl) list" where
  "isa_b = [
    (''sh1add'', Funct7 0x33 2 0x10, R_bm 1), (''sh2add'', Funct7 0x33 4 0x10, R_bm 2),
    (''sh3add'', Funct7 0x33 6 0x10, R_bm 3),
    (''xnor'', Funct7 0x33 4 0x20, R_bm 6), (''orn'', Funct7 0x33 6 0x20, R_bm 5),
    (''andn'', Funct7 0x33 7 0x20, R_bm 4),
    (''min'', Funct7 0x33 4 0x05, R_bm 10), (''minu'', Funct7 0x33 5 0x05, R_bm 11),
    (''max'', Funct7 0x33 6 0x05, R_bm 12), (''maxu'', Funct7 0x33 7 0x05, R_bm 13),
    (''rol'', Funct7 0x33 1 0x30, R_bm 19), (''ror'', Funct7 0x33 5 0x30, R_bm 20),
    (''bset'', Funct7 0x33 1 0x14, R_bm 21), (''bclr'', Funct7 0x33 1 0x24, R_bm 22),
    (''bext'', Funct7 0x33 5 0x24, R_bm 24), (''binv'', Funct7 0x33 1 0x34, R_bm 23),
    (''pack'', Funct7 0x33 4 0x04, R_bm 25), (''packh'', Funct7 0x33 7 0x04, R_bm 26),
    (''czero.eqz'', Funct7 0x33 5 0x07, R_bm 30), (''czero.nez'', Funct7 0x33 7 0x07, R_bm 31),
    (''clz'', Unary 0x13 1 0x30 0, I_bm 7), (''ctz'', Unary 0x13 1 0x30 1, I_bm 8),
    (''cpop'', Unary 0x13 1 0x30 2, I_bm 9), (''sext.b'', Unary 0x13 1 0x30 4, I_bm 14),
    (''sext.h'', Unary 0x13 1 0x30 5, I_bm 15),
    (''rori'', Funct7 0x13 5 0x30, I_bm 20), (''bseti'', Funct7 0x13 1 0x14, I_bm 21),
    (''orc.b'', Unary 0x13 5 0x14 7, I_bm 17), (''bclri'', Funct7 0x13 1 0x24, I_bm 22),
    (''bexti'', Funct7 0x13 5 0x24, I_bm 24), (''binvi'', Funct7 0x13 1 0x34, I_bm 23),
    (''rev8'', Unary 0x13 5 0x34 24, I_bm 18), (''brev8'', Unary 0x13 5 0x34 7, I_bm 27),
    (''zip'', Unary 0x13 1 0x04 15, I_bm 28), (''unzip'', Unary 0x13 5 0x04 15, I_bm 29)]"

definition isa :: "(string \<times> pat \<times> ctrl) list" where
  "isa = isa_base @ isa_m @ isa_b"

section \<open>The decoder implements the table\<close>

lemma bits_of_u32 [simp]:
  "bits (u32 w) 6 0 = bits w 6 0" "bits (u32 w) 14 12 = bits w 14 12"
  "bits (u32 w) 31 25 = bits w 31 25" "bits (u32 w) 31 20 = bits w 31 20"
  "bits (u32 w) 11 7 = bits w 11 7" "bits (u32 w) 19 15 = bits w 19 15"
  "bits (u32 w) 24 20 = bits w 24 20"
  by (simp_all add: bits_u32)

lemma funct3_cases: "bits w 14 12 \<in> {0, 1, 2, 3, 4, 5, 6, 7}"
  using bits_range [of w 14 12] by auto

lemmas decode_unfold =
  decode_def decode_ctrl_def decode_op_imm_def decode_op_def decode_system_def decode_regs_def
  bm_op_i_def BM_OP_R_def BM_UNARY_def ALU_BY_F3_def Let_def

lemmas decode_consts = alu_op_defs imm_fmt_defs bm_op_defs opc_defs sel_defs f7_defs rs2_defs

text \<open>The bundle as a total function; \<open>decode_total\<close> says that nothing is lost by it.\<close>

definition decoded :: "int \<Rightarrow> ctrl \<times> regs" where
  "decoded insn = (case decode insn of Inr r \<Rightarrow> r | Inl _ \<Rightarrow> (blank, decode_regs (u32 insn)))"

lemma ex_Inr_if:
  "(P \<Longrightarrow> \<exists>c. a = Inr c) \<Longrightarrow> (\<not> P \<Longrightarrow> \<exists>c. b = Inr c) \<Longrightarrow> \<exists>c. (if P then a else b) = Inr c"
  by simp

lemma ex_Inr: "\<exists>c. Inr x = Inr c"
  by simp

lemma ALU_BY_F3_dom: "f3 \<in> {0, 1, 2, 3, 4, 5, 6, 7} \<Longrightarrow> f3 \<noteq> 1 \<Longrightarrow> f3 \<noteq> 5 \<Longrightarrow> \<exists>op. map_of ALU_BY_F3 f3 = Some op"
  by (auto simp: ALU_BY_F3_def)

lemma decode_op_total:
  assumes "f3 \<in> {0, 1, 2, 3, 4, 5, 6, 7}"
  shows "\<exists>c'. decode_op c f3 f7 bm = Inr c'"
proof (cases bm)
  case None
  then show ?thesis
    using ALU_BY_F3_dom [OF assms] by (cases "f3 = 1 \<or> f3 = 5") (auto simp: decode_op_def Let_def)
next
  case (Some op)
  then show ?thesis by (simp add: decode_op_def Let_def)
qed

lemma decode_ctrl_total: "\<exists>c. decode_ctrl w = Inr c"
  unfolding decode_ctrl_def Let_def
  by (intro ex_Inr_if ex_Inr decode_op_total funct3_cases)

lemma decode_Inr: "decode insn = Inr (decoded insn)"
  using decode_ctrl_total [of "u32 insn"] by (auto simp: decode_def decoded_def Let_def)

text \<open>The decoder never raises: the one dictionary subscript that could fail
  (\<^verbatim>\<open>_ALU_BY_F3[funct3]\<close>) is reached only with keys of the table, for every Python
  integer given as the instruction word.\<close>

theorem decode_total: "\<exists>c r. decode insn = Inr (c, r)"
  using decode_Inr [of insn] by (cases "decoded insn") simp

lemma decoded_eq:
  "fst (decoded w) = (let c = projr (decode_ctrl (u32 w)) in if is_illegal c \<noteq> 0 then blank else c)"
  "snd (decoded w) = decode_regs (u32 w)"
  using decode_ctrl_total [of "u32 w"] by (auto simp: decoded_def decode_def Let_def)

text \<open>One equation per major opcode.\<close>

lemma decode_ctrl_major:
  "bits w 6 0 = 0x37 \<Longrightarrow> decode_ctrl w = Inr (legal\<lparr>reg_write := 1, imm_fmt := 4, alu_op := 10, alu_src_b := 1\<rparr>)"
  "bits w 6 0 = 0x17 \<Longrightarrow> decode_ctrl w = Inr (legal\<lparr>reg_write := 1, imm_fmt := 4, alu_src_a := 1, alu_src_b := 1\<rparr>)"
  "bits w 6 0 = 0x6F \<Longrightarrow> decode_ctrl w = Inr (legal\<lparr>reg_write := 1, jump := 1, imm_fmt := 5,
     alu_src_a := 1, alu_src_b := 1, result_sel := 2\<rparr>)"
  "bits w 6 0 = 0x67 \<Longrightarrow> decode_ctrl w = Inr (if bits w 14 12 = 0
     then (I_alu 0)\<lparr>jump := 1, jalr := 1, result_sel := 2\<rparr> else blank)"
  "bits w 6 0 = 0x63 \<Longrightarrow> decode_ctrl w = Inr (if bits w 14 12 \<notin> {2, 3} then Branch else blank)"
  "bits w 6 0 = 0x03 \<Longrightarrow> decode_ctrl w = Inr (if bits w 14 12 \<in> {0, 1, 2, 4, 5}
     then Load (bits w 14 12) else blank)"
  "bits w 6 0 = 0x23 \<Longrightarrow> decode_ctrl w = Inr (if bits w 14 12 \<in> {0, 1, 2}
     then Store (bits w 14 12) else blank)"
  "bits w 6 0 = 0x0F \<Longrightarrow> decode_ctrl w = Inr (if bits w 14 12 = 0 then legal else blank)"
  "bits w 6 0 = 0x13 \<Longrightarrow> decode_ctrl w = Inr (decode_op_imm blank (bits w 14 12) (bits w 31 25)
     (bm_op_i (bits w 31 25) (bits w 14 12) (bits w 24 20)))"
  "bits w 6 0 = 0x33 \<Longrightarrow> decode_ctrl w = decode_op blank (bits w 14 12) (bits w 31 25)
     (map_of BM_OP_R (bits w 31 25, bits w 14 12))"
  "bits w 6 0 = 0x73 \<Longrightarrow> decode_ctrl w = Inr (decode_system blank (decode_regs w) (bits w 14 12) (bits w 31 20))"
  "bits w 6 0 \<notin> {0x37, 0x17, 0x6F, 0x67, 0x63, 0x03, 0x23, 0x0F, 0x13, 0x33, 0x73} \<Longrightarrow>
     decode_ctrl w = Inr blank"
  by (simp_all add: decode_ctrl_def Let_def opc_defs imm_fmt_defs alu_op_defs sel_defs bundle_defs)

lemmas group_defs =
  decode_op_imm_def decode_op_def decode_system_def decode_regs_def bm_op_i_def BM_OP_R_def
  BM_UNARY_def ALU_BY_F3_def Let_def decode_consts

definition row_ok :: "int \<Rightarrow> string \<times> pat \<times> ctrl \<Rightarrow> bool" where
  "row_ok w = (\<lambda>(n, p, c). pat_matches p w \<longrightarrow> fst (decoded w) = c)"

lemma isa_m_ok: "list_all (row_ok w) isa_m"
  by (simp add: isa_m_def row_ok_def decoded_eq decode_ctrl_major group_defs bundle_defs)

lemma isa_b_ok: "list_all (row_ok w) isa_b"
  by (simp add: isa_b_def row_ok_def decoded_eq decode_ctrl_major group_defs bundle_defs)

lemma isa_base_ok: "list_all (row_ok w) isa_base"
  by (simp add: isa_base_def row_ok_def decoded_eq decode_ctrl_major group_defs bundle_defs)

lemma isa_ok: "list_all (row_ok w) isa"
  by (simp add: isa_def isa_base_ok isa_m_ok isa_b_ok)

section \<open>Legal words are exactly the words of the table\<close>

definition in_isa :: "int \<Rightarrow> bool" where
  "in_isa w \<longleftrightarrow> list_ex (\<lambda>(n, p, c). pat_matches p w) isa"

lemma in_isaI_append: "in_isa w \<longleftrightarrow> list_ex (\<lambda>(n, p, c). pat_matches p w) isa_base
    \<or> list_ex (\<lambda>(n, p, c). pat_matches p w) isa_m \<or> list_ex (\<lambda>(n, p, c). pat_matches p w) isa_b"
  by (simp add: in_isa_def isa_def)

lemmas isa_lists = in_isaI_append isa_base_def isa_m_def isa_b_def

lemma legal_major:
  assumes "bits w 6 0 \<in> {0x37, 0x17, 0x6F, 0x67, 0x63, 0x03, 0x23, 0x0F}"
    and "is_illegal (fst (decoded w)) = 0"
  shows "in_isa w"
  using assms funct3_cases [of w]
  by (elim insertE emptyE; simp add: decoded_eq decode_ctrl_major isa_lists bundle_defs)

lemma legal_op_imm:
  assumes "bits w 6 0 = 0x13" and "is_illegal (fst (decoded w)) = 0"
  shows "in_isa w"
  using funct3_cases [of w] assms
  by (elim insertE emptyE; simp add: decoded_eq decode_ctrl_major group_defs isa_lists bundle_defs
      split: if_splits)

lemma legal_op:
  assumes "bits w 6 0 = 0x33" and "is_illegal (fst (decoded w)) = 0"
  shows "in_isa w"
  using funct3_cases [of w] assms
  by (elim insertE emptyE; simp add: decoded_eq decode_ctrl_major group_defs isa_lists bundle_defs
      split: if_splits)

lemma legal_system:
  assumes "bits w 6 0 = 0x73" and "is_illegal (fst (decoded w)) = 0"
  shows "in_isa w"
  using funct3_cases [of w] assms
  by (elim insertE emptyE; simp add: decoded_eq decode_ctrl_major group_defs isa_lists bundle_defs
      split: if_splits)

lemma legal_other:
  assumes "bits w 6 0 \<notin> {0x37, 0x17, 0x6F, 0x67, 0x63, 0x03, 0x23, 0x0F, 0x13, 0x33, 0x73}"
  shows "is_illegal (fst (decoded w)) = 1"
  using assms by (simp add: decoded_eq decode_ctrl_major(12) blank_def)

lemma legal_in_isa: "is_illegal (fst (decoded w)) = 0 \<Longrightarrow> in_isa w"
  using legal_major [of w] legal_op_imm [of w] legal_op [of w] legal_system [of w] legal_other [of w]
  by (cases "bits w 6 0 \<in> {0x37, 0x17, 0x6F, 0x67, 0x63, 0x03, 0x23, 0x0F}";
      cases "bits w 6 0 \<in> {0x13, 0x33, 0x73}") auto

lemma isa_rows_legal: "list_all (\<lambda>(n, p, c). is_illegal c = 0) isa"
  by (simp add: isa_def isa_base_def isa_m_def isa_b_def bundle_defs)

lemma row_decoded: "(n, p, c) \<in> set isa \<Longrightarrow> pat_matches p w \<Longrightarrow> fst (decoded w) = c"
  using isa_ok [of w] by (auto simp: list_all_iff row_ok_def)

lemma legal_iff_row:
  "is_illegal (fst (decoded w)) = 0 \<longleftrightarrow> (\<exists>n p c. (n, p, c) \<in> set isa \<and> pat_matches p w)"
proof
  assume "is_illegal (fst (decoded w)) = 0"
  then have "in_isa w" by (rule legal_in_isa)
  then show "\<exists>n p c. (n, p, c) \<in> set isa \<and> pat_matches p w"
    by (auto simp: in_isa_def list_ex_iff)
next
  assume "\<exists>n p c. (n, p, c) \<in> set isa \<and> pat_matches p w"
  then show "is_illegal (fst (decoded w)) = 0"
    using row_decoded isa_rows_legal by (fastforce simp: list_all_iff)
qed

text \<open>C4: an instruction word is legal for \<open>decode\<close> exactly when some row of the
  instruction table of \<^verbatim>\<open>rv32im_zba_zbb_zbs_zbkb_zicond_zicsr\<close> (with FENCE, ECALL,
  EBREAK, MRET, WFI) matches its fields: no reserved encoding is accepted and no
  instruction of the ISA is rejected.\<close>

theorem decode_legal_iff:
  "is_illegal (fst (decoded w)) = 0 \<longleftrightarrow> (\<exists>n p c. (n, p, c) \<in> set isa \<and> pat_matches p w)"
  by (rule legal_iff_row)

text \<open>C5: on every word a row matches, \<open>decode\<close> returns that row's control bundle and the
  three register fields of the word.\<close>

theorem decode_row:
  assumes "(n, p, c) \<in> set isa" and "pat_matches p w"
  shows "decode w = Inr (c, \<lparr>rd = bits w 11 7, rs1 = bits w 19 15, rs2 = bits w 24 20\<rparr>)"
proof -
  have "decoded w = (c, \<lparr>rd = bits w 11 7, rs1 = bits w 19 15, rs2 = bits w 24 20\<rparr>)"
    by (rule prod_eqI) (simp_all add: row_decoded [OF assms] decoded_eq(2) decode_regs_def)
  then show ?thesis by (simp add: decode_Inr)
qed

theorem decode_row_witness:
  "decode 0x02C5C633 = Inr (R_md 4, \<lparr>rd = 12, rs1 = 11, rs2 = 12\<rparr>)"
proof -
  have row: "(''div'', Funct7 0x33 4 0x01, R_md 4) \<in> set isa"
    by (simp add: isa_def isa_m_def)
  have "pat_matches (Funct7 0x33 4 0x01) 0x02C5C633"
    by (simp add: bits_def drop_bit_eq_div)
  from decode_row [OF row this] show ?thesis by (simp add: bits_def drop_bit_eq_div)
qed

section \<open>Rows do not overlap\<close>

fun pat_fields :: "pat \<Rightarrow> ((nat \<times> nat) \<times> int) list" where
  "pat_fields (Major opc) = [((6, 0), opc)]"
| "pat_fields (Funct3 opc f3) = [((6, 0), opc), ((14, 12), f3)]"
| "pat_fields (Funct7 opc f3 f7) = [((6, 0), opc), ((14, 12), f3), ((31, 25), f7)]"
| "pat_fields (Unary opc f3 f7 r2) = [((6, 0), opc), ((14, 12), f3), ((31, 25), f7), ((24, 20), r2)]"
| "pat_fields (System f12) =
     [((6, 0), 0x73), ((14, 12), 0), ((11, 7), 0), ((19, 15), 0), ((31, 20), f12)]"

lemma pat_matches_fields:
  "pat_matches p w \<longleftrightarrow> (\<forall>((hi, lo), v) \<in> set (pat_fields p). bits w hi lo = v)"
  by (cases p) auto

definition pat_conflict :: "pat \<Rightarrow> pat \<Rightarrow> bool" where
  "pat_conflict p q \<longleftrightarrow>
     list_ex (\<lambda>(k, v). case map_of (pat_fields q) k of None \<Rightarrow> False | Some v' \<Rightarrow> v \<noteq> v') (pat_fields p)"

lemma pat_conflict_disjoint:
  assumes "pat_conflict p q" and "pat_matches p w"
  shows "\<not> pat_matches q w"
proof -
  obtain hi lo v v' where "((hi, lo), v) \<in> set (pat_fields p)"
    and "map_of (pat_fields q) (hi, lo) = Some v'" and "v \<noteq> v'"
    using assms(1) by (auto simp: pat_conflict_def list_ex_iff split: option.splits)
  then show ?thesis
    using assms(2) map_of_SomeD by (fastforce simp: pat_matches_fields)
qed

fun pairwise_conflict :: "pat list \<Rightarrow> bool" where
  "pairwise_conflict [] = True"
| "pairwise_conflict (p # ps) = (list_all (pat_conflict p) ps \<and> pairwise_conflict ps)"

lemma isa_pairwise: "pairwise_conflict (map (\<lambda>(n, p, c). p) isa)"
  by code_simp

lemma pairwise_conflict_nth:
  "pairwise_conflict ps \<Longrightarrow> i < j \<Longrightarrow> j < length ps \<Longrightarrow> pat_conflict (ps ! i) (ps ! j)"
proof (induction ps arbitrary: i j)
  case (Cons p ps)
  then show ?case
    by (cases i; cases j) (auto simp: list_all_iff)
qed simp

text \<open>The instruction table is unambiguous: no instruction word is matched by two
  different rows, so the bundle \<open>decode\<close> returns belongs to one instruction.\<close>

theorem isa_unambiguous:
  assumes "i < length isa" "j < length isa"
    and "pat_matches (fst (snd (isa ! i))) w" "pat_matches (fst (snd (isa ! j))) w"
  shows "i = j"
proof -
  have "pat_conflict (fst (snd (isa ! a))) (fst (snd (isa ! b)))" if "a < b" "b < length isa" for a b
    using pairwise_conflict_nth [OF isa_pairwise, of a b] that by (simp add: case_prod_beta)
  then show ?thesis
    using assms pat_conflict_disjoint by (metis linorder_neqE_nat)
qed

text \<open>The two equal rows of the hypothesis, on the word of \<^verbatim>\<open>xnor x1, x2, x3\<close>.\<close>

theorem isa_unambiguous_witness:
  "pat_matches (fst (snd (isa ! 59))) 0x403140B3 \<and> (59::nat) = 59"
proof -
  have m: "pat_matches (fst (snd (isa ! 59))) 0x403140B3" by code_simp
  have "(59::nat) < length isa" by code_simp
  from isa_unambiguous [OF this this m m] m show ?thesis by blast
qed

section \<open>Well-formed bundles\<close>

text \<open>What the consumers of a bundle rely on: flags are 0 or 1, codes are within their enum
  widths, at most one of the side-effect classes is set, and a bundle never claims a register
  it does not name.\<close>

definition ctrl_wf :: "ctrl \<Rightarrow> bool" where
  "ctrl_wf c \<longleftrightarrow>
     list_all (\<lambda>f. f c \<in> {0, 1})
       [reg_write, mem_read, mem_write, branch, jump, jalr, uses_rs1, uses_rs2, is_ecall, is_ebreak,
        is_mret, is_csr, is_muldiv, is_bitmanip, is_illegal]
     \<and> 0 \<le> alu_op c \<and> alu_op c \<le> 10 \<and> 0 \<le> imm_fmt c \<and> imm_fmt c \<le> 6
     \<and> 0 \<le> bm_op c \<and> bm_op c \<le> 31 \<and> (bm_op c \<noteq> 0 \<longleftrightarrow> is_bitmanip c = 1)
     \<and> 0 \<le> muldiv_op c \<and> muldiv_op c \<le> 7
     \<and> mem_read c + mem_write c + branch c + jump c + is_ecall c + is_ebreak c + is_mret c
       + is_csr c + is_muldiv c + is_bitmanip c + is_illegal c \<le> 1
     \<and> (jalr c = 1 \<longrightarrow> jump c = 1) \<and> (mem_read c = 1 \<longrightarrow> reg_write c = 1)
     \<and> (branch c = 1 \<or> mem_write c = 1 \<longrightarrow> reg_write c = 0)"

lemma isa_wf: "list_all (\<lambda>(n, p, c). ctrl_wf c) isa"
  by code_simp

lemma illegal_blank: "is_illegal (fst (decoded w)) \<noteq> 0 \<Longrightarrow> fst (decoded w) = blank"
  by (auto simp: decoded_eq Let_def split: if_splits)

lemma decoded_wf: "ctrl_wf (fst (decoded w))"
proof (cases "is_illegal (fst (decoded w)) = 0")
  case True
  then obtain n p c where "(n, p, c) \<in> set isa" "pat_matches p w"
    using legal_iff_row by blast
  then show ?thesis
    using row_decoded [of n p c w] isa_wf by (auto simp: list_all_iff)
next
  case False
  then show ?thesis using illegal_blank [of w] by (simp add: ctrl_wf_def blank_def)
qed

text \<open>The bundle of every instruction word is well-formed, legal or not; in particular an
  illegal word has the all-zero bundle, so it has no architectural effect.\<close>

theorem decode_wf:
  "ctrl_wf (fst (decoded w)) \<and> (is_illegal (fst (decoded w)) = 0 \<or> fst (decoded w) = blank)"
  using decoded_wf illegal_blank by blast

end
