(* ===== verification/Bpred.thy ===== *)
theory Bpred
  imports Prelude
begin

text \<open>
  The branch predictor of \<^verbatim>\<open>model/bpred.py\<close>: a 256-entry direct-mapped BTB with a
  two-bit counter per entry and an 8-deep return-address stack, its scoring over a retired
  transfer trace (\<open>step\<close>, \<open>run\<close>), and the delayed form the pipeline presents
  (\<open>DelayedBPred\<close>, \<open>score_trace\<close>). The object's attributes are a record; every
  method returns the updated object.
\<close>

section \<open>Constants and classification\<close>

definition BRANCH :: int where "BRANCH = 0"
definition JUMP :: int where "JUMP = 1"
definition CALL :: int where "CALL = 2"
definition RET :: int where "RET = 3"

lemmas kind_defs = BRANCH_def JUMP_def CALL_def RET_def

definition BTB_ENTRIES :: nat where "BTB_ENTRIES = 256"
definition RAS_ENTRIES :: nat where "RAS_ENTRIES = 8"
definition VISIBILITY_GAP :: int where "VISIBILITY_GAP = 4"
definition SUPPRESS_AFTER_REDIRECT :: bool where "SUPPRESS_AFTER_REDIRECT = True"
definition ALLOC_CNT :: int where "ALLOC_CNT = 2"

definition btb_index :: "int \<Rightarrow> int" where
  "btb_index pc = drop_bit 2 pc AND (int BTB_ENTRIES - 1)"

definition btb_tag :: "int \<Rightarrow> int" where
  "btb_tag pc = drop_bit (2 + bit_length BTB_ENTRIES - 1) pc"

definition is_link :: "int \<Rightarrow> bool" where
  "is_link r \<longleftrightarrow> r = 1 \<or> r = 5"

definition classify :: "int \<Rightarrow> int" where
  "classify insn = (
    let op = insn AND 0x7F; rd = drop_bit 7 insn AND 0x1F; rs1 = drop_bit 15 insn AND 0x1F in
    if op = 0x63 then BRANCH
    else if op = 0x67 \<and> is_link rs1 \<and> \<not> is_link rd then RET
    else if is_link rd then CALL
    else JUMP)"

text \<open>\<^verbatim>\<open>(pc + 4) & 0xFFFFFFFF\<close>, the fall-through address.\<close>

definition seq_pc :: "int \<Rightarrow> int" where
  "seq_pc pc = (pc + 4) AND 0xFFFFFFFF"

section \<open>The predictor\<close>

type_synonym btb_entry = "int \<times> int \<times> int \<times> int"

record BPred =
  btb :: "btb_entry option list"
  ras :: "int list"
  ras_sp :: int
  ras_count :: int

definition BPred_init :: BPred where
  "BPred_init = \<lparr>btb = replicate BTB_ENTRIES None, ras = replicate RAS_ENTRIES 0, ras_sp = 0,
                 ras_count = 0\<rparr>"

definition predict :: "BPred \<Rightarrow> int \<Rightarrow> bool \<times> int" where
  "predict bp addr = (
    case btb bp ! nat (btb_index addr) of
      None \<Rightarrow> (False, 0)
    | Some (tag, kind, cnt, target) \<Rightarrow>
        if tag \<noteq> btb_tag addr then (False, 0)
        else
          let (taken, target) =
            (if kind = BRANCH then (cnt \<ge> 2, target)
             else if kind = RET then
               (ras_count bp > 0, ras bp ! nat ((ras_sp bp - 1) mod int RAS_ENTRIES))
             else (True, target))
          in if taken then (True, target) else (False, 0))"

definition btb_hit :: "btb_entry option \<Rightarrow> int \<Rightarrow> bool" where
  "btb_hit e tag = (case e of None \<Rightarrow> False | Some (t, _) \<Rightarrow> t = tag)"

definition update_btb :: "BPred \<Rightarrow> int \<Rightarrow> int \<Rightarrow> bool \<Rightarrow> int \<Rightarrow> BPred" where
  "update_btb bp pc insn taken target = (
    let kind = classify insn; i = btb_index pc; tag = btb_tag pc; e = btb bp ! nat i in
    if taken then
      (let cnt = (case e of
                    Some (t, k, c, tg) \<Rightarrow>
                      if t = tag \<and> kind = BRANCH then min (c + 1) 3 else ALLOC_CNT
                  | None \<Rightarrow> ALLOC_CNT)
       in bp\<lparr>btb := (btb bp)[nat i := Some (tag, kind, cnt, target)]\<rparr>)
    else (case e of
            Some (t, k, c, tg) \<Rightarrow>
              if t = tag \<and> kind = BRANCH
              then bp\<lparr>btb := (btb bp)[nat i := Some (tag, kind, max (c - 1) 0, tg)]\<rparr>
              else bp
          | None \<Rightarrow> bp))"

definition ras_push :: "BPred \<Rightarrow> int \<Rightarrow> BPred" where
  "ras_push bp a = bp\<lparr>ras := (ras bp)[nat (ras_sp bp) := a],
                      ras_sp := (ras_sp bp + 1) mod int RAS_ENTRIES,
                      ras_count := min (ras_count bp + 1) (int RAS_ENTRIES)\<rparr>"

definition ras_pop :: "BPred \<Rightarrow> BPred" where
  "ras_pop bp = bp\<lparr>ras_sp := (ras_sp bp - 1) mod int RAS_ENTRIES,
                   ras_count := max (ras_count bp - 1) 0\<rparr>"

definition update :: "BPred \<Rightarrow> int \<Rightarrow> int \<Rightarrow> bool \<Rightarrow> int \<Rightarrow> BPred" where
  "update bp pc insn taken target = (
    let kind = classify insn; bp = update_btb bp pc insn taken target in
    if kind = CALL then ras_push bp (seq_pc pc)
    else if kind = RET then ras_pop bp
    else bp)"

section \<open>Scoring\<close>

record counts =
  n_transfers :: int
  n_taken :: int
  n_not_taken :: int
  n_mispredicts :: int
  n_hit_taken :: int
  n_miss_cold :: int
  n_wrong_target :: int
  n_ntaken_predicted_taken :: int
  n_branch :: int
  n_jump :: int
  n_call :: int
  n_ret :: int
  n_ret_correct :: int

definition counts_zero :: counts where
  "counts_zero = \<lparr>n_transfers = 0, n_taken = 0, n_not_taken = 0, n_mispredicts = 0, n_hit_taken = 0,
    n_miss_cold = 0, n_wrong_target = 0, n_ntaken_predicted_taken = 0, n_branch = 0, n_jump = 0,
    n_call = 0, n_ret = 0, n_ret_correct = 0\<rparr>"

definition count_kind :: "int \<Rightarrow> counts \<Rightarrow> counts" where
  "count_kind kind n = (
    if kind = BRANCH then n\<lparr>n_branch := n_branch n + 1\<rparr>
    else if kind = JUMP then n\<lparr>n_jump := n_jump n + 1\<rparr>
    else if kind = CALL then n\<lparr>n_call := n_call n + 1\<rparr>
    else n\<lparr>n_ret := n_ret n + 1\<rparr>)"

definition count_step :: "int \<Rightarrow> bool \<Rightarrow> int \<Rightarrow> bool \<Rightarrow> int \<Rightarrow> counts \<Rightarrow> counts" where
  "count_step kind taken target p_taken p_target n = (
    let n = n\<lparr>n_transfers := n_transfers n + 1\<rparr>; n = count_kind kind n in
    if taken then
      (let n = n\<lparr>n_taken := n_taken n + 1\<rparr> in
       if p_taken \<and> p_target = target then
         (let n = n\<lparr>n_hit_taken := n_hit_taken n + 1\<rparr> in
          if kind = RET then n\<lparr>n_ret_correct := n_ret_correct n + 1\<rparr> else n)
       else
         (let n = n\<lparr>n_mispredicts := n_mispredicts n + 1\<rparr> in
          if p_taken then n\<lparr>n_wrong_target := n_wrong_target n + 1\<rparr>
          else n\<lparr>n_miss_cold := n_miss_cold n + 1\<rparr>))
    else
      (let n = n\<lparr>n_not_taken := n_not_taken n + 1\<rparr> in
       if p_taken then
         n\<lparr>n_mispredicts := n_mispredicts n + 1,
           n_ntaken_predicted_taken := n_ntaken_predicted_taken n + 1\<rparr>
       else n))"

text \<open>The prediction a fault leaves visible: fault 1 ignores the tag, fault 4 predicts a cold
  entry taken.\<close>

definition fault_predict :: "BPred \<Rightarrow> int \<Rightarrow> int \<Rightarrow> bool \<times> int \<Rightarrow> bool \<times> int" where
  "fault_predict bp pc fault p = (
    let p = (if fault = 1 then
               (case btb bp ! nat (btb_index pc) of
                  None \<Rightarrow> p
                | Some (_, k, c, t) \<Rightarrow>
                    let (p_taken, p_target) =
                      (if k = RET then
                         (ras_count bp > 0, ras bp ! nat ((ras_sp bp - 1) mod int RAS_ENTRIES))
                       else (if k = BRANCH then c \<ge> 2 else True, t))
                    in if p_taken then (p_taken, p_target) else (p_taken, 0))
             else p)
    in if fault = 4 \<and> \<not> fst p then (True, seq_pc pc) else p)"

text \<open>The update a fault performs: fault 2 wraps the counter, fault 3 drops the RAS push.\<close>

definition fault_update :: "BPred \<Rightarrow> int \<Rightarrow> int \<Rightarrow> bool \<Rightarrow> int \<Rightarrow> int \<Rightarrow> BPred" where
  "fault_update bp pc insn taken target fault = (
    let kind = classify insn; i = btb_index pc; tag = btb_tag pc in
    if fault = 2 \<and> kind = BRANCH then
      (let e = btb bp ! nat i in
       if btb_hit e tag then
         (case e of
            Some (t, k, c, tg) \<Rightarrow>
              bp\<lparr>btb := (btb bp)[nat i := Some (tag, kind, (c + (if taken then 1 else -1)) AND 3,
                                              if taken then target else tg)]\<rparr>
          | None \<Rightarrow> bp)
       else if taken then bp\<lparr>btb := (btb bp)[nat i := Some (tag, kind, ALLOC_CNT, target)]\<rparr>
       else bp)
    else if fault = 3 \<and> kind = CALL then
      (if taken then bp\<lparr>btb := (btb bp)[nat i := Some (tag, kind, ALLOC_CNT, target)]\<rparr> else bp)
    else update bp pc insn taken target)"

definition step :: "BPred \<Rightarrow> int \<Rightarrow> int \<Rightarrow> bool \<Rightarrow> int \<Rightarrow> counts \<Rightarrow> int \<Rightarrow> BPred \<times> counts" where
  "step bp pc insn taken target n fault = (
    let kind = classify insn;
        (p_taken, p_target) = fault_predict bp pc fault (predict bp pc);
        n = count_step kind taken target p_taken p_target n
    in (fault_update bp pc insn taken target fault, n))"

fun run_loop :: "(int \<times> int \<times> int) list \<Rightarrow> int \<Rightarrow> BPred \<times> counts \<Rightarrow> BPred \<times> counts" where
  "run_loop [] fault (bp, n) = (bp, n)"
| "run_loop ((pc, insn, next_pc) # trace) fault (bp, n) = (
    let taken = (next_pc \<noteq> seq_pc pc) in
    run_loop trace fault (step bp pc insn taken (if taken then next_pc else 0) n fault))"

definition run :: "(int \<times> int \<times> int) list \<Rightarrow> int \<Rightarrow> BPred option \<Rightarrow> counts" where
  "run trace fault bp =
     snd (run_loop trace fault (case bp of None \<Rightarrow> BPred_init | Some b \<Rightarrow> b, counts_zero))"

section \<open>The delayed predictor\<close>

type_synonym pending_update = "int \<times> int \<times> int \<times> bool \<times> int"

record DelayedBPred =
  dbp :: BPred
  gap :: int
  pending :: "pending_update list"

definition DelayedBPred_init :: "int \<Rightarrow> DelayedBPred" where
  "DelayedBPred_init g = \<lparr>dbp = BPred_init, gap = g, pending = []\<rparr>"

fun drain_loop :: "int \<Rightarrow> int \<Rightarrow> BPred \<Rightarrow> pending_update list \<Rightarrow> BPred \<times> pending_update list" where
  "drain_loop g now bp [] = (bp, [])"
| "drain_loop g now bp ((c, pc, insn, taken, target) # q) = (
    if now - c \<ge> g then drain_loop g now (update bp pc insn taken target) q
    else (bp, (c, pc, insn, taken, target) # q))"

definition drain :: "DelayedBPred \<Rightarrow> int \<Rightarrow> DelayedBPred" where
  "drain d now = (let (bp, q) = drain_loop (gap d) now (dbp d) (pending d)
                  in d\<lparr>dbp := bp, pending := q\<rparr>)"

definition d_predict :: "DelayedBPred \<Rightarrow> int \<Rightarrow> int \<Rightarrow> (bool \<times> int) \<times> DelayedBPred" where
  "d_predict d addr now = (let d = drain d now in (predict (dbp d) addr, d))"

definition d_update :: "DelayedBPred \<Rightarrow> int \<Rightarrow> int \<Rightarrow> int \<Rightarrow> bool \<Rightarrow> int \<Rightarrow> DelayedBPred" where
  "d_update d retire_cycle pc insn taken target =
     d\<lparr>pending := pending d @ [(retire_cycle, pc, insn, taken, target)]\<rparr>"

text \<open>One iteration of \<open>score_trace\<close>: whether the transfer was mispredicted, and the counts
  with the misprediction charged after the classification, as the source orders it.\<close>

definition score_counts :: "int \<Rightarrow> bool \<Rightarrow> int \<Rightarrow> bool \<Rightarrow> int \<Rightarrow> counts \<Rightarrow> bool \<times> counts" where
  "score_counts kind taken target p_taken p_target n = (
    let n = n\<lparr>n_transfers := n_transfers n + 1\<rparr>; n = count_kind kind n;
        (mis, n) =
          (if taken then
             (let n = n\<lparr>n_taken := n_taken n + 1\<rparr> in
              if p_taken \<and> p_target = target then
                (let n = n\<lparr>n_hit_taken := n_hit_taken n + 1\<rparr> in
                 (False, if kind = RET then n\<lparr>n_ret_correct := n_ret_correct n + 1\<rparr> else n))
              else (True, if p_taken then n\<lparr>n_wrong_target := n_wrong_target n + 1\<rparr>
                          else n\<lparr>n_miss_cold := n_miss_cold n + 1\<rparr>))
           else
             (let n = n\<lparr>n_not_taken := n_not_taken n + 1\<rparr> in
              if p_taken then (True, n\<lparr>n_ntaken_predicted_taken := n_ntaken_predicted_taken n + 1\<rparr>)
              else (False, n)))
    in (mis, if mis then n\<lparr>n_mispredicts := n_mispredicts n + 1\<rparr> else n))"

fun score_loop :: "(int \<times> int \<times> int \<times> int) list \<Rightarrow> DelayedBPred \<Rightarrow> counts \<Rightarrow> int option
    \<Rightarrow> DelayedBPred \<times> counts" where
  "score_loop [] d n pending_target = (d, n)"
| "score_loop ((f, pc, insn, nxt) # seg) d n pending_target = (
    let kind = classify insn;
        taken = (nxt \<noteq> seq_pc pc);
        target = (if taken then nxt else 0);
        suppressed = (SUPPRESS_AFTER_REDIRECT \<and> pending_target = Some pc);
        (p, d) = (if suppressed then ((False, 0), d) else d_predict d pc f);
        d = (if suppressed then snd (d_predict d pc f) else d);
        (mis, n) = score_counts kind taken target (fst p) (snd p) n;
        pending_target = (if mis then Some (if taken then target else seq_pc pc) else None)
    in score_loop seg (d_update d f pc insn taken target) n pending_target)"

definition score_trace :: "DelayedBPred \<Rightarrow> (int \<times> int \<times> int \<times> int) list \<Rightarrow> counts option
    \<Rightarrow> DelayedBPred \<times> counts" where
  "score_trace d seg counts =
     score_loop seg d (case counts of None \<Rightarrow> counts_zero | Some n \<Rightarrow> n) None"

end
