(* ===== verification/Bpred_Props.thy ===== *)
theory Bpred_Props
  imports Bpred
begin

text \<open>
  What the predictor model promises: its invariant, exact BTB hits, the saturating counter,
  nested calls and loop branches on a cold predictor, and the accounting identities of the
  scorers. The return stack is in Bpred_Ras, the visibility rule in Bpred_Delay.
\<close>

section \<open>Invariant\<close>

definition entry_ok :: "btb_entry option \<Rightarrow> bool" where
  "entry_ok e \<longleftrightarrow> (case e of None \<Rightarrow> True
     | Some (tag, kind, cnt, target) \<Rightarrow> kind \<in> {0, 1, 2, 3} \<and> 0 \<le> cnt \<and> cnt \<le> 3)"

definition bp_inv :: "BPred \<Rightarrow> bool" where
  "bp_inv bp \<longleftrightarrow> length (btb bp) = BTB_ENTRIES \<and> length (ras bp) = RAS_ENTRIES
     \<and> 0 \<le> ras_sp bp \<and> ras_sp bp < int RAS_ENTRIES
     \<and> 0 \<le> ras_count bp \<and> ras_count bp \<le> int RAS_ENTRIES
     \<and> list_all entry_ok (btb bp)"

lemma btb_index_take_bit: "btb_index pc = take_bit 8 (drop_bit 2 pc)"
  by (simp add: btb_index_def BTB_ENTRIES_def take_bit_eq_mask mask_eq_exp_minus_1)

lemma btb_index_range [simp]: "0 \<le> btb_index pc" "btb_index pc < 256"
  using take_bit_int_less_exp [of 8 "drop_bit 2 pc"] by (simp_all add: btb_index_take_bit)

lemma btb_index_lt [simp]: "nat (btb_index pc) < BTB_ENTRIES"
  by (simp add: BTB_ENTRIES_def nat_less_iff)

lemma btb_tag_drop_bit: "btb_tag pc = drop_bit 10 pc"
  by (simp add: btb_tag_def BTB_ENTRIES_def bit_length.simps)

lemma classify_cases: "classify insn \<in> {0, 1, 2, 3}"
  by (auto simp: classify_def kind_defs Let_def)

lemma classify_range: "0 \<le> classify insn" "classify insn \<le> 3"
  using classify_cases [of insn] by auto

lemma bp_inv_init [inv_intros]: "bp_inv BPred_init"
  by (simp add: bp_inv_def BPred_init_def RAS_ENTRIES_def list_all_iff entry_ok_def)

lemma entry_ok_nth: "bp_inv bp \<Longrightarrow> entry_ok (btb bp ! nat (btb_index pc))"
  by (simp add: bp_inv_def list_all_length)

lemma list_all_update: "list_all P xs \<Longrightarrow> P v \<Longrightarrow> list_all P (xs[i := v])"
  by (auto simp: list_all_iff dest!: subsetD [OF set_update_subset_insert])

lemma bp_inv_btb_write [inv_intros]:
  "bp_inv bp \<Longrightarrow> entry_ok e \<Longrightarrow> bp_inv (bp\<lparr>btb := (btb bp)[i := e]\<rparr>)"
  by (auto simp: bp_inv_def list_all_update)

lemma bp_inv_update_btb [inv_intros]:
  "bp_inv bp \<Longrightarrow> bp_inv (update_btb bp pc insn taken target)"
  using entry_ok_nth [of bp pc] classify_cases [of insn]
  by (auto simp: update_btb_def Let_def ALLOC_CNT_def entry_ok_def intro!: bp_inv_btb_write
      split: option.splits)

lemma bp_inv_push [inv_intros]: "bp_inv bp \<Longrightarrow> bp_inv (ras_push bp a)"
  by (auto simp: bp_inv_def ras_push_def RAS_ENTRIES_def)

lemma bp_inv_pop [inv_intros]: "bp_inv bp \<Longrightarrow> bp_inv (ras_pop bp)"
  by (auto simp: bp_inv_def ras_pop_def RAS_ENTRIES_def)

lemma bp_inv_update [inv_intros]: "bp_inv bp \<Longrightarrow> bp_inv (update bp pc insn taken target)"
  by (auto simp: update_def Let_def intro: inv_intros)

lemma bp_inv_fault_update [inv_intros]:
  assumes "bp_inv bp"
  shows "bp_inv (fault_update bp pc insn taken target fault)"
proof -
  have "0 \<le> x AND 3 \<and> x AND 3 \<le> 3" for x :: int
    by (simp add: AND_upper2)
  then show ?thesis
    using assms classify_cases [of insn]
    by (auto simp: fault_update_def Let_def ALLOC_CNT_def entry_ok_def
        intro!: bp_inv_btb_write bp_inv_update split: option.splits)
qed

lemma bp_inv_run_loop: "bp_inv bp \<Longrightarrow> bp_inv (fst (run_loop trace fault (bp, n)))"
proof (induction trace arbitrary: bp n)
  case (Cons x trace)
  obtain pc insn nxt where x: "x = (pc, insn, nxt)" by (cases x)
  have "bp_inv (fst (step bp pc insn t tg n fault))" for t tg
    using Cons.prems by (auto simp: step_def Let_def case_prod_beta intro: inv_intros)
  then show ?case
    using Cons.IH by (simp add: x Let_def) (metis prod.collapse)
qed simp

text \<open>C6: every state the predictor reaches over any retired-transfer trace, with any of the
  injected faults, from any valid predictor, is valid: 256 entries whose counters are two-bit
  values and whose kinds are the four kinds, and a stack pointer and occupancy within the
  8-deep stack. So no subscript the methods use is out of range.\<close>

theorem run_keeps_inv:
  assumes "bp_inv bp"
  shows "bp_inv (fst (run_loop trace fault (bp, n)))"
  using assms by (rule bp_inv_run_loop)

theorem run_keeps_inv_witness:
  "bp_inv (fst (run_loop [(0, 0x6F, 64), (64, 0xE7, 0)] 2 (BPred_init, counts_zero)))"
  by (rule run_keeps_inv [OF bp_inv_init])

section \<open>Exact hits\<close>

lemma index_tag_exact:
  "btb_index a = btb_index b \<and> btb_tag a = btb_tag b \<longleftrightarrow> drop_bit 2 a = drop_bit 2 b"
proof
  assume h: "btb_index a = btb_index b \<and> btb_tag a = btb_tag b"
  have "drop_bit 2 x = push_bit 8 (btb_tag x) + btb_index x" for x :: int
    using bits_ident [of 8 "drop_bit 2 x"] by (simp add: btb_tag_drop_bit btb_index_take_bit)
  with h show "drop_bit 2 a = drop_bit 2 b" by metis
next
  assume "drop_bit 2 a = drop_bit 2 b"
  moreover have "drop_bit 10 x = drop_bit 8 (drop_bit 2 x)" for x :: int by simp
  ultimately have "drop_bit 10 a = drop_bit 10 b" by metis
  with \<open>drop_bit 2 a = drop_bit 2 b\<close>
  show "btb_index a = btb_index b \<and> btb_tag a = btb_tag b"
    by (simp add: btb_tag_drop_bit btb_index_take_bit)
qed

text \<open>Index and tag together are the whole word address: two addresses share a BTB slot
  and its tag exactly when they lie in the same instruction word, so a tag hit is never an
  alias.\<close>

theorem btb_hit_exact:
  "btb_index a = btb_index b \<and> btb_tag a = btb_tag b \<longleftrightarrow> drop_bit 2 a = drop_bit 2 b"
  by (rule index_tag_exact)

section \<open>The saturating counter\<close>

definition sat :: "bool \<Rightarrow> int \<Rightarrow> int" where
  "sat taken c = (if taken then min (c + 1) 3 else max (c - 1) 0)"

definition entry :: "BPred \<Rightarrow> int \<Rightarrow> btb_entry option" where
  "entry bp pc = btb bp ! nat (btb_index pc)"

lemma ras_ops_btb [simp]: "btb (ras_push bp a) = btb bp" "btb (ras_pop bp) = btb bp"
  by (simp_all add: ras_push_def ras_pop_def)

lemma btb_update: "btb (update bp pc insn taken target) = btb (update_btb bp pc insn taken target)"
  by (simp add: update_def Let_def)

lemma entry_write:
  "bp_inv bp \<Longrightarrow> (btb bp)[nat (btb_index pc) := e] ! nat (btb_index pc) = e"
  by (simp add: bp_inv_def)

lemma update_btb_taken:
  assumes "bp_inv bp"
  shows "entry (update bp pc insn True target) pc =
    Some (btb_tag pc, classify insn,
      (case entry bp pc of
         Some (t, k, c, tg) \<Rightarrow> if t = btb_tag pc \<and> classify insn = BRANCH then sat True c else ALLOC_CNT
       | None \<Rightarrow> ALLOC_CNT), target)"
  using assms by (auto simp: entry_def btb_update update_btb_def Let_def entry_write sat_def
      split: option.splits)

lemma update_btb_not_taken:
  assumes "bp_inv bp"
  shows "entry (update bp pc insn False target) pc =
    (case entry bp pc of
       Some (t, k, c, tg) \<Rightarrow> if t = btb_tag pc \<and> classify insn = BRANCH
                           then Some (btb_tag pc, BRANCH, sat False c, tg) else entry bp pc
     | None \<Rightarrow> None)"
  using assms by (auto simp: entry_def btb_update update_btb_def Let_def entry_write sat_def
      split: option.splits)

fun train :: "BPred \<Rightarrow> int \<Rightarrow> int \<Rightarrow> int \<Rightarrow> bool list \<Rightarrow> BPred" where
  "train bp pc insn target [] = bp"
| "train bp pc insn target (t # ts) = train (update bp pc insn t (if t then target else 0)) pc insn target ts"

lemma train_inv [inv_intros]: "bp_inv bp \<Longrightarrow> bp_inv (train bp pc insn target ts)"
  by (induction ts arbitrary: bp) (auto intro: inv_intros)

lemma train_entry:
  assumes "bp_inv bp" and "classify insn = BRANCH" and "entry bp pc = Some (btb_tag pc, k, c, target)"
    and "ts \<noteq> []"
  shows "entry (train bp pc insn target ts) pc = Some (btb_tag pc, BRANCH, fold sat ts c, target)"
  using assms
proof (induction ts arbitrary: bp k c)
  case (Cons t ts)
  let ?bp = "update bp pc insn t (if t then target else 0)"
  have inv: "bp_inv ?bp" using Cons.prems(1) by (rule bp_inv_update)
  have e: "entry ?bp pc = Some (btb_tag pc, BRANCH, sat t c, target)"
    using Cons.prems update_btb_taken [of bp pc insn target]
      update_btb_not_taken [of bp pc insn 0] by (cases t) auto
  show ?case
  proof (cases "ts = []")
    case True
    with e show ?thesis by simp
  next
    case False
    with Cons.IH [OF inv Cons.prems(2) e] show ?thesis by simp
  qed
qed simp

lemma predict_branch_entry:
  "entry bp pc = Some (btb_tag pc, BRANCH, c, target) \<Longrightarrow>
     predict bp pc = (if c \<ge> 2 then (True, target) else (False, 0))"
  by (simp add: predict_def entry_def)

text \<open>C7: a conditional branch that owns its BTB entry is predicted by a two-bit saturating
  counter: after any non-empty sequence of outcomes the prediction is taken, to the learned
  target, exactly when the counter folded over the outcomes is at least 2.\<close>

theorem branch_counter:
  assumes "bp_inv bp" and "classify insn = BRANCH"
    and "btb bp ! nat (btb_index pc) = Some (btb_tag pc, k, c, target)" and "ts \<noteq> []"
  shows "predict (train bp pc insn target ts) pc =
    (if fold sat ts c \<ge> 2 then (True, target) else (False, 0))"
  using train_entry [OF assms(1,2) _ assms(4)] assms(3) predict_branch_entry
  by (simp add: entry_def)

lemma train_once: "bp_inv bp \<Longrightarrow> entry bp pc = None \<Longrightarrow>
    entry (update bp pc insn True target) pc = Some (btb_tag pc, classify insn, 2, target)"
  by (simp add: update_btb_taken ALLOC_CNT_def)

lemma entry_init: "entry BPred_init pc = None"
  using btb_index_lt [of pc] by (simp add: entry_def BPred_init_def)

text \<open>Hysteresis on \<^verbatim>\<open>beq x0, x0\<close> at address 0: allocated, strengthened twice, then one
  not-taken outcome does not flip the prediction but two do.\<close>

theorem branch_counter_witness:
  "predict (train (update BPred_init 0 0x63 True 64) 0 0x63 64 [True, True, False]) 0 = (True, 64)"
proof -
  have b: "classify 0x63 = BRANCH" by (simp add: classify_def)
  have "btb (update BPred_init 0 0x63 True 64) ! nat (btb_index 0) = Some (btb_tag 0, 0, 2, 64)"
    using train_once [OF bp_inv_init entry_init, of 0 "0x63" 64] b
    by (simp add: entry_def BRANCH_def)
  from branch_counter [OF bp_inv_update [OF bp_inv_init] b this, of "[True, True, False]"]
  show ?thesis by (simp add: sat_def)
qed

text \<open>A branch that is not taken never allocates and never touches another entry: unless
  it already owns the entry of its slot, the whole BTB is unchanged.\<close>

theorem not_taken_never_allocates:
  assumes "\<not> btb_hit (btb bp ! nat (btb_index pc)) (btb_tag pc)"
  shows "btb (update bp pc insn False target) = btb bp"
  using assms by (auto simp: btb_update update_btb_def btb_hit_def Let_def split: option.splits)

theorem not_taken_never_allocates_witness:
  "btb (update BPred_init 4 0x63 False 0) = btb BPred_init"
proof -
  have "\<not> btb_hit (btb BPred_init ! nat (btb_index 4)) (btb_tag 4)"
    using entry_init [of 4] by (simp add: entry_def btb_hit_def)
  then show ?thesis by (rule not_taken_never_allocates)
qed

section \<open>A loop branch, end to end\<close>

lemma seq_pc_ne: "tgt \<noteq> seq_pc pc \<Longrightarrow> (tgt \<noteq> seq_pc pc) = True"
  by simp

lemma loop_warm:
  assumes "bp_inv bp" and "classify insn = BRANCH" and "tgt \<noteq> seq_pc pc"
    and "entry bp pc = Some (btb_tag pc, BRANCH, c, tgt)" and "2 \<le> c" "c \<le> 3"
  shows "\<exists>bp' c'. run_loop (replicate m (pc, insn, tgt)) 0 (bp, n) =
      (bp', n\<lparr>n_transfers := n_transfers n + int m, n_branch := n_branch n + int m,
               n_taken := n_taken n + int m, n_hit_taken := n_hit_taken n + int m\<rparr>)
    \<and> bp_inv bp' \<and> entry bp' pc = Some (btb_tag pc, BRANCH, c', tgt) \<and> 2 \<le> c' \<and> c' \<le> 3"
  using assms
proof (induction m arbitrary: bp n c)
  case (Suc m)
  let ?bp = "update bp pc insn True tgt"
  let ?n = "n\<lparr>n_transfers := n_transfers n + 1, n_branch := n_branch n + 1,
               n_taken := n_taken n + 1, n_hit_taken := n_hit_taken n + 1\<rparr>"
  have inv: "bp_inv ?bp" using Suc.prems(1) by (rule bp_inv_update)
  have e: "entry ?bp pc = Some (btb_tag pc, BRANCH, sat True c, tgt)"
    using Suc.prems update_btb_taken [of bp pc insn tgt] by simp
  have "predict bp pc = (True, tgt)"
    using Suc.prems predict_branch_entry [of bp pc c tgt] by simp
  then have st: "step bp pc insn True tgt n 0 = (?bp, ?n)"
    using Suc.prems(2)
    by (simp add: step_def fault_predict_def fault_update_def count_step_def count_kind_def
        Let_def kind_defs)
  have c': "2 \<le> sat True c" "sat True c \<le> 3" using Suc.prems by (auto simp: sat_def)
  from Suc.IH [OF inv Suc.prems(2,3) e c', of ?n] st Suc.prems(3) show ?case
    by (auto simp: algebra_simps)
qed auto

lemma loop_cold:
  assumes "classify insn = BRANCH" and "tgt \<noteq> seq_pc pc" and "bp_inv bp" and "entry bp pc = None"
  shows "step bp pc insn True tgt counts_zero 0 =
    (update bp pc insn True tgt, counts_zero\<lparr>n_transfers := 1, n_branch := 1, n_taken := 1,
       n_mispredicts := 1, n_miss_cold := 1\<rparr>)"
  using assms
  by (simp add: step_def predict_def entry_def fault_predict_def fault_update_def count_step_def
      count_kind_def counts_zero_def Let_def kind_defs)

lemma run_loop_append:
  "run_loop (xs @ ys) fault s = run_loop ys fault (run_loop xs fault s)"
proof (induction xs arbitrary: s)
  case Nil
  then show ?case by (cases s) simp
next
  case (Cons x xs)
  then show ?case by (cases x; cases s) (simp add: Let_def)
qed

lemma loop_exit:
  assumes "classify insn = BRANCH" and "entry bp pc = Some (btb_tag pc, BRANCH, c, tgt)" and "2 \<le> c"
  shows "snd (step bp pc insn False 0 n 0) = n\<lparr>n_transfers := n_transfers n + 1,
    n_branch := n_branch n + 1, n_not_taken := n_not_taken n + 1, n_mispredicts := n_mispredicts n + 1,
    n_ntaken_predicted_taken := n_ntaken_predicted_taken n + 1\<rparr>"
  using assms predict_branch_entry [OF assms(2)]
  by (simp add: step_def fault_predict_def count_step_def count_kind_def Let_def kind_defs)

text \<open>A loop-closing branch costs exactly two mispredicts from a cold predictor, however
  often it iterates: the first taken iteration (cold) and the final fall-through; every
  iteration in between is predicted, target included.\<close>

theorem loop_branch_mispredicts:
  assumes "classify insn = BRANCH" and "tgt \<noteq> seq_pc pc"
  shows "run (replicate (Suc m) (pc, insn, tgt) @ [(pc, insn, seq_pc pc)]) 0 None =
    counts_zero\<lparr>n_transfers := int m + 2, n_branch := int m + 2, n_taken := int m + 1,
      n_not_taken := 1, n_mispredicts := 2, n_hit_taken := int m, n_miss_cold := 1,
      n_ntaken_predicted_taken := 1\<rparr>"
proof -
  let ?bp = "update BPred_init pc insn True tgt"
  let ?n = "counts_zero\<lparr>n_transfers := 1, n_branch := 1, n_taken := 1, n_mispredicts := 1,
              n_miss_cold := 1\<rparr>"
  have e: "entry ?bp pc = Some (btb_tag pc, BRANCH, 2, tgt)"
    using train_once [OF bp_inv_init entry_init] assms(1) by simp
  obtain bp' c' where w: "run_loop (replicate m (pc, insn, tgt)) 0 (?bp, ?n) =
      (bp', ?n\<lparr>n_transfers := n_transfers ?n + int m, n_branch := n_branch ?n + int m,
               n_taken := n_taken ?n + int m, n_hit_taken := n_hit_taken ?n + int m\<rparr>)"
    and e': "entry bp' pc = Some (btb_tag pc, BRANCH, c', tgt)" and c': "2 \<le> c'"
    using loop_warm [OF bp_inv_update [OF bp_inv_init] assms e, where n = ?n and m = m] by auto
  have "run (replicate (Suc m) (pc, insn, tgt) @ [(pc, insn, seq_pc pc)]) 0 None =
      snd (run_loop [(pc, insn, seq_pc pc)] 0 (run_loop (replicate m (pc, insn, tgt)) 0 (?bp, ?n)))"
    using assms(2) loop_cold [OF assms bp_inv_init entry_init]
    by (simp add: run_def run_loop_append)
  also have "\<dots> = snd (step bp' pc insn False 0 (snd (run_loop (replicate m (pc, insn, tgt)) 0 (?bp, ?n))) 0)"
    unfolding w by (simp add: Let_def case_prod_beta) (metis prod.collapse run_loop.simps(1) snd_conv)
  finally show ?thesis
    unfolding w snd_conv loop_exit [OF assms(1) e' c'] by (simp add: counts_zero_def)
qed

text \<open>The same count on a concrete backward \<^verbatim>\<open>bne\<close>, nine iterations.\<close>

theorem loop_branch_mispredicts_witness:
  "n_mispredicts (run (replicate 9 (0x80000010, 0xFE0518E3, 0x80000000)
     @ [(0x80000010, 0xFE0518E3, seq_pc 0x80000010)]) 0 None) = 2"
proof -
  have "classify 0xFE0518E3 = BRANCH" by (simp add: classify_def)
  moreover have "(0x80000000 :: int) \<noteq> seq_pc 0x80000010" by (simp add: seq_pc_def)
  ultimately have "run (replicate (Suc 8) (0x80000010, 0xFE0518E3, 0x80000000)
     @ [(0x80000010, 0xFE0518E3, seq_pc 0x80000010)]) 0 None = counts_zero\<lparr>n_transfers := int 8 + 2,
      n_branch := int 8 + 2, n_taken := int 8 + 1, n_not_taken := 1, n_mispredicts := 2,
      n_hit_taken := int 8, n_miss_cold := 1, n_ntaken_predicted_taken := 1\<rparr>"
    by (rule loop_branch_mispredicts)
  then show ?thesis by (simp add: numeral_eq_Suc)
qed

section \<open>Accounting\<close>

definition counts_ok :: "counts \<Rightarrow> bool" where
  "counts_ok n \<longleftrightarrow> n_transfers n = n_taken n + n_not_taken n
     \<and> n_transfers n = n_branch n + n_jump n + n_call n + n_ret n
     \<and> n_taken n = n_hit_taken n + n_miss_cold n + n_wrong_target n
     \<and> n_mispredicts n = n_miss_cold n + n_wrong_target n + n_ntaken_predicted_taken n
     \<and> 0 \<le> n_ret_correct n \<and> n_ret_correct n \<le> n_ret n \<and> n_ret_correct n \<le> n_hit_taken n
     \<and> 0 \<le> n_ntaken_predicted_taken n \<and> n_ntaken_predicted_taken n \<le> n_not_taken n"

lemma counts_ok_zero: "counts_ok counts_zero"
  by (simp add: counts_ok_def counts_zero_def)

lemma counts_ok_step:
  "counts_ok n \<Longrightarrow> counts_ok (count_step kind taken target p_taken p_target n)"
  by (cases taken; cases p_taken; cases "p_target = target"; cases "kind = 0"; cases "kind = 1";
      cases "kind = 2"; cases "kind = 3"; simp add: counts_ok_def count_step_def count_kind_def Let_def kind_defs)

lemma count_step_transfers:
  "n_transfers (count_step kind taken target p_taken p_target n) = n_transfers n + 1"
  by (simp add: count_step_def count_kind_def Let_def)

lemma run_loop_counts:
  "counts_ok n \<Longrightarrow> counts_ok (snd (run_loop trace fault (bp, n)))
    \<and> n_transfers (snd (run_loop trace fault (bp, n))) = n_transfers n + int (length trace)"
proof (induction trace arbitrary: bp n)
  case (Cons x trace)
  obtain pc insn nxt where x: "x = (pc, insn, nxt)" by (cases x)
  obtain bp' n' where st: "step bp pc insn (nxt \<noteq> seq_pc pc) (if nxt \<noteq> seq_pc pc then nxt else 0) n fault
      = (bp', n')" by fastforce
  then have "counts_ok n'" "n_transfers n' = n_transfers n + 1"
    using counts_ok_step [OF Cons.prems] count_step_transfers
    by (auto simp: step_def Let_def case_prod_beta)
  then show ?case using Cons.IH [of n' bp'] st by (simp add: x Let_def)
qed simp

text \<open>The scorer's counts always balance, for every trace, every injected fault and every
  starting predictor: each transfer is counted once, as taken or not, under one of four
  kinds; each taken one is a hit or a miss (cold or wrong target); the mispredicts are
  exactly the three miss categories.\<close>

theorem run_counts_balance:
  "counts_ok (run trace fault bp) \<and> n_transfers (run trace fault bp) = int (length trace)"
  using run_loop_counts [OF counts_ok_zero] by (simp add: run_def counts_zero_def)

lemma score_counts_eq:
  "score_counts kind taken target pt ptg n =
    (if taken then \<not> (pt \<and> ptg = target) else pt, count_step kind taken target pt ptg n)"
  by (simp add: score_counts_def count_step_def count_kind_def Let_def)

lemma score_loop_counts:
  "counts_ok n \<Longrightarrow> counts_ok (snd (score_loop seg d n pt))
    \<and> n_transfers (snd (score_loop seg d n pt)) = n_transfers n + int (length seg)"
proof (induction seg arbitrary: d n pt)
  case (Cons x seg)
  obtain f pc insn nxt where x: "x = (f, pc, insn, nxt)" by (cases x)
  show ?case
    using Cons.IH [OF counts_ok_step [OF Cons.prems]] count_step_transfers
    by (simp add: x Let_def score_counts_eq case_prod_beta)
qed simp

text \<open>The trace scorer of the delayed predictor keeps the same accounts, suppressed
  transfers included: counts of a segment balance and count every transfer once.\<close>

theorem score_counts_balance:
  "counts_ok (snd (score_trace d seg None))
    \<and> n_transfers (snd (score_trace d seg None)) = int (length seg)"
  using score_loop_counts [OF counts_ok_zero] by (simp add: score_trace_def counts_zero_def)

end
