(* ===== verification/Bpred_Ras.thy ===== *)
theory Bpred_Ras
  imports Bpred_Props
begin

text \<open>
  The return-address stack. Its contract is the interface \<open>bounded_stack\<close>: a stack that
  keeps the most recent entries up to a capacity, silently dropping the oldest. The laws are
  stated over the list of live entries; nesting of calls and returns is proved once from
  the laws, and the interpretation discharges them for the circular buffer of \<open>BPred\<close>.
\<close>

section \<open>The interface\<close>

datatype 'a stack_event = Push 'a | Pop 'a

datatype 'a call_tree = Call (retaddr: 'a) (callees: "'a call_tree list")

fun events :: "'a call_tree \<Rightarrow> 'a stack_event list" where
  "events (Call a ts) = Push a # concat (map events ts) @ [Pop a]"

fun depth :: "'a call_tree \<Rightarrow> nat" where
  "depth (Call a ts) = Suc (foldr max (map depth ts) 0)"

lemma depth_le: "t \<in> set ts \<Longrightarrow> depth t \<le> foldr max (map depth ts) 0"
  by (induction ts) auto

locale bounded_stack =
  fixes push :: "'s \<Rightarrow> 'a \<Rightarrow> 's"
    and pop :: "'s \<Rightarrow> 's"
    and items :: "'s \<Rightarrow> 'a list"
    and cap :: nat
    and inv :: "'s \<Rightarrow> bool"
  assumes items_push: "inv s \<Longrightarrow> items (push s a) = take cap (a # items s)"
    and items_pop: "inv s \<Longrightarrow> items (pop s) = tl (items s)"
    and inv_push: "inv s \<Longrightarrow> inv (push s a)"
    and inv_pop: "inv s \<Longrightarrow> inv (pop s)"
    and items_cap: "inv s \<Longrightarrow> length (items s) \<le> cap"
begin

fun exec :: "'s \<Rightarrow> 'a stack_event list \<Rightarrow> 's" where
  "exec s [] = s"
| "exec s (Push a # es) = exec (push s a) es"
| "exec s (Pop a # es) = exec (pop s) es"

fun returns_ok :: "'s \<Rightarrow> 'a stack_event list \<Rightarrow> bool" where
  "returns_ok s [] = True"
| "returns_ok s (Push a # es) = returns_ok (push s a) es"
| "returns_ok s (Pop a # es) = ((\<exists>l. items s = a # l) \<and> returns_ok (pop s) es)"

lemma exec_append: "exec s (xs @ ys) = exec (exec s xs) ys"
  by (induction s xs rule: exec.induct) auto

lemma returns_ok_append: "returns_ok s (xs @ ys) \<longleftrightarrow> returns_ok s xs \<and> returns_ok (exec s xs) ys"
  by (induction s xs rule: returns_ok.induct) auto

lemma inv_exec: "inv s \<Longrightarrow> inv (exec s es)"
  by (induction s es rule: exec.induct) (auto intro: inv_push inv_pop)

text \<open>A nested call tree no deeper than the room it is given returns correctly everywhere, and
  leaves every entry below that room as it was.\<close>

lemma nested:
  assumes "inv s" and "depth t \<le> d" and "d \<le> cap"
  shows "returns_ok s (events t) \<and> take (cap - d) (items (exec s (events t))) = take (cap - d) (items s)"
  using assms
proof (induction t arbitrary: s d)
  case (Call a ts)
  define e where "e = d - 1"
  have d: "d = Suc e" and deep: "foldr max (map depth ts) 0 \<le> e"
    using Call.prems(2) by (auto simp: e_def)
  have forest: "returns_ok u (concat (map events us)) \<and>
      take (cap - e) (items (exec u (concat (map events us)))) = take (cap - e) (items u)"
    if "inv u" and "set us \<subseteq> set ts" for u us
    using that
  proof (induction us arbitrary: u)
    case (Cons v us)
    have v: "v \<in> set ts" using Cons.prems(2) by simp
    have "depth v \<le> e" using depth_le [OF v] deep by simp
    moreover have "e \<le> cap" using Call.prems(3) d by simp
    ultimately have "returns_ok u (events v) \<and>
        take (cap - e) (items (exec u (events v))) = take (cap - e) (items u)"
      using Call.IH [OF v Cons.prems(1)] by blast
    then show ?case
      using Cons.IH [of "exec u (events v)"] Cons.prems inv_exec
      by (simp add: returns_ok_append exec_append)
  qed simp
  let ?u = "push s a" and ?w = "exec (push s a) (concat (map events ts))"
  have iu: "inv ?u" using Call.prems(1) by (rule inv_push)
  have iw: "inv ?w" using iu by (rule inv_exec)
  have f: "returns_ok ?u (concat (map events ts))"
    and k: "take (cap - e) (items ?w) = take (cap - e) (items ?u)"
    using forest [OF iu] by auto
  have room: "cap - e = Suc (cap - d)" using Call.prems(3) d by simp
  have "min (Suc (cap - d)) cap = Suc (cap - d)" using Call.prems(3) d by simp
  then have top: "take (cap - e) (items ?u) = a # take (cap - d) (items s)"
    using items_push [OF Call.prems(1)] room by (simp add: take_take del: take_Suc_Cons) simp
  with k room obtain l where l: "items ?w = a # l" "take (cap - d) l = take (cap - d) (items s)"
    by (cases "items ?w") auto
  then show ?case
    using f items_pop [OF iw] by (simp add: returns_ok_append exec_append)
qed

end

section \<open>The circular buffer is a bounded stack\<close>

definition ras_list :: "BPred \<Rightarrow> int list" where
  "ras_list bp = map (\<lambda>i. ras bp ! nat ((ras_sp bp - 1 - int i) mod int RAS_ENTRIES))
                     [0..<nat (ras_count bp)]"

lemma ras_list_length: "bp_inv bp \<Longrightarrow> length (ras_list bp) \<le> RAS_ENTRIES"
  by (auto simp: ras_list_def bp_inv_def)

lemma ras_list_hd:
  assumes "bp_inv bp" "ras_list bp = a # l"
  shows "0 < ras_count bp" "ras bp ! nat ((ras_sp bp - 1) mod int RAS_ENTRIES) = a"
  using assms by (auto simp: ras_list_def upt_conv_Cons map_eq_Cons_conv upt_eq_Cons_conv)

text \<open>Subscripts of the buffer, counted back from the stack pointer.\<close>

definition slot :: "int \<Rightarrow> nat \<Rightarrow> nat" where
  "slot sp i = nat ((sp - 1 - int i) mod 8)"

lemma ras_list_slot: "ras_list bp = map (\<lambda>i. ras bp ! slot (ras_sp bp) i) [0..<nat (ras_count bp)]"
  by (simp add: ras_list_def slot_def RAS_ENTRIES_def)

lemma slot_lt: "slot sp i < 8"
  by (simp add: slot_def nat_less_iff)

lemma slot_push_0: "0 \<le> sp \<Longrightarrow> sp < 8 \<Longrightarrow> slot ((sp + 1) mod 8) 0 = nat sp"
  by (simp add: slot_def mod_diff_left_eq)

lemma slot_push_Suc: "slot ((sp + 1) mod 8) (Suc i) = slot sp i"
proof -
  have "((sp + 1) mod 8 - (1 + int (Suc i))) mod 8 = (sp + 1 - (1 + int (Suc i))) mod 8"
    by (rule mod_diff_left_eq)
  then show ?thesis by (simp add: slot_def algebra_simps)
qed

lemma slot_pop: "slot ((sp - 1) mod 8) i = slot sp (Suc i)"
proof -
  have "((sp - 1) mod 8 - (1 + int i)) mod 8 = (sp - 1 - (1 + int i)) mod 8"
    by (rule mod_diff_left_eq)
  then show ?thesis by (simp add: slot_def algebra_simps)
qed

lemma slot_fresh:
  assumes "0 \<le> sp" "sp < 8" "i < 7"
  shows "slot sp i \<noteq> nat sp"
proof
  assume "slot sp i = nat sp"
  then have "(sp - 1 - int i) mod 8 = sp mod 8"
    using assms by (simp add: slot_def eq_nat_nat_iff)
  then have "(8::int) dvd (sp - 1 - int i) - sp" by (simp only: mod_eq_dvd_iff)
  then have "(8::int) dvd 1 + int i" by (simp add: dvd_diff_commute) (metis add.commute dvd_minus_iff minus_add_distrib uminus_add_conv_diff)
  then have "8 \<le> 1 + int i" by (rule zdvd_imp_le) simp
  then show False using assms by simp
qed

lemma ras_push_items:
  assumes "bp_inv bp"
  shows "ras_list (ras_push bp a) = take RAS_ENTRIES (a # ras_list bp)"
proof (rule nth_equalityI)
  show "length (ras_list (ras_push bp a)) = length (take RAS_ENTRIES (a # ras_list bp))"
    using assms by (auto simp: ras_list_def ras_push_def bp_inv_def RAS_ENTRIES_def min_def)
next
  fix i assume "i < length (ras_list (ras_push bp a))"
  then have i: "i < nat (min (ras_count bp + 1) 8)"
    by (simp add: ras_list_slot ras_push_def RAS_ENTRIES_def)
  have sp: "0 \<le> ras_sp bp" "ras_sp bp < 8" "length (ras bp) = 8" "0 \<le> ras_count bp"
    using assms by (auto simp: bp_inv_def RAS_ENTRIES_def)
  have l: "ras_list (ras_push bp a) ! i = (ras bp)[nat (ras_sp bp) := a] ! slot ((ras_sp bp + 1) mod 8) i"
    using i by (simp add: ras_list_slot ras_push_def RAS_ENTRIES_def)
  show "ras_list (ras_push bp a) ! i = take RAS_ENTRIES (a # ras_list bp) ! i"
  proof (cases i)
    case 0
    with sp show ?thesis unfolding l by (simp add: slot_push_0 RAS_ENTRIES_def nat_less_iff)
  next
    case (Suc j)
    then have j: "j < nat (ras_count bp)" "j < 7" using i sp by auto
    then have "slot (ras_sp bp) j \<noteq> nat (ras_sp bp)" using sp slot_fresh by simp
    with Suc j show ?thesis
      unfolding l by (simp add: slot_push_Suc RAS_ENTRIES_def ras_list_slot)
  qed
qed

lemma ras_pop_items:
  assumes "bp_inv bp"
  shows "ras_list (ras_pop bp) = tl (ras_list bp)"
proof -
  have "0 \<le> ras_count bp" using assms by (simp add: bp_inv_def)
  then have "nat (max (ras_count bp - 1) 0) = nat (ras_count bp) - 1" by auto
  then show ?thesis
    by (simp add: ras_list_slot ras_pop_def RAS_ENTRIES_def slot_pop list_eq_iff_nth_eq nth_tl
        less_diff_conv)
qed

interpretation ras: bounded_stack ras_push ras_pop ras_list RAS_ENTRIES bp_inv
  by unfold_locales
    (simp_all add: ras_push_items ras_pop_items bp_inv_push bp_inv_pop ras_list_length)


section \<open>Nested calls in a retired trace\<close>

text \<open>The control transfers of structured code: plain branches and jumps, and calls whose body
  returns to the instruction after the call.\<close>

datatype code = Plain int int int | Sub int int int "code list" int int

fun code_trace :: "code \<Rightarrow> (int \<times> int \<times> int) list" where
  "code_trace (Plain pc insn nxt) = [(pc, insn, nxt)]"
| "code_trace (Sub pc insn tgt body rpc rinsn) =
     (pc, insn, tgt) # concat (map code_trace body) @ [(rpc, rinsn, seq_pc pc)]"

fun code_wf :: "code \<Rightarrow> bool" where
  "code_wf (Plain pc insn nxt) \<longleftrightarrow> classify insn = BRANCH \<or> classify insn = JUMP"
| "code_wf (Sub pc insn tgt body rpc rinsn) \<longleftrightarrow>
     classify insn = CALL \<and> classify rinsn = RET \<and> list_all code_wf body"

fun nesting :: "code \<Rightarrow> nat" where
  "nesting (Plain pc insn nxt) = 0"
| "nesting (Sub pc insn tgt body rpc rinsn) = Suc (foldr max (map nesting body) 0)"

fun trees :: "code \<Rightarrow> int call_tree list" where
  "trees (Plain pc insn nxt) = []"
| "trees (Sub pc insn tgt body rpc rinsn) = [Call (seq_pc pc) (concat (map trees body))]"

definition ev :: "int \<times> int \<times> int \<Rightarrow> int stack_event list" where
  "ev x = (case x of (pc, insn, nxt) \<Rightarrow>
     if classify insn = CALL then [Push (seq_pc pc)]
     else if classify insn = RET then [Pop nxt] else [])"

definition evs :: "(int \<times> int \<times> int) list \<Rightarrow> int stack_event list" where
  "evs xs = concat (map ev xs)"

lemma evs_simps [simp]: "evs [] = []" "evs (x # xs) = ev x @ evs xs" "evs (xs @ ys) = evs xs @ evs ys"
  by (simp_all add: evs_def)

lemma evs_concat: "evs (concat xss) = concat (map evs xss)"
  by (induction xss) auto

lemma kinds_distinct [simp]:
  "BRANCH \<noteq> CALL" "BRANCH \<noteq> RET" "JUMP \<noteq> CALL" "JUMP \<noteq> RET" "CALL \<noteq> RET" "RET \<noteq> CALL"
  "CALL \<noteq> BRANCH" "RET \<noteq> BRANCH" "CALL \<noteq> JUMP" "RET \<noteq> JUMP"
  by (simp_all add: kind_defs)

lemma concat_map_cong: "(\<And>x. x \<in> set xs \<Longrightarrow> f x = concat (map g (h x))) \<Longrightarrow>
    concat (map f xs) = concat (map g (concat (map h xs)))"
  by (induction xs) auto

lemma evs_trees: "code_wf c \<Longrightarrow> evs (code_trace c) = concat (map events (trees c))"
proof (induction c)
  case (Sub pc insn tgt body rpc rinsn)
  then have "concat (map (evs \<circ> code_trace) body) = concat (map events (concat (map trees body)))"
    by (intro concat_map_cong) (auto simp: list_all_iff)
  with Sub.prems show ?case by (simp add: evs_concat ev_def)
qed (auto simp: ev_def)

lemma foldr_max_le: "foldr max (map f xs) 0 \<le> (k::nat) \<longleftrightarrow> (\<forall>x\<in>set xs. f x \<le> k)"
  by (induction xs) auto

lemma depth_trees: "t \<in> set (trees c) \<Longrightarrow> depth t \<le> nesting c"
proof (induction c arbitrary: t)
  case (Sub pc insn tgt body rpc rinsn)
  have "\<forall>x\<in>set body. \<forall>t\<in>set (trees x). depth t \<le> foldr max (map nesting body) 0"
    using Sub.IH foldr_max_le [of nesting body] by (meson le_trans order_refl)
  with Sub.prems show ?case by (auto simp: foldr_max_le)
qed simp

text \<open>The stack of a predictor depends only on the stack part of its state.\<close>

definition same_ras :: "BPred \<Rightarrow> BPred \<Rightarrow> bool" where
  "same_ras a b \<longleftrightarrow> ras a = ras b \<and> ras_sp a = ras_sp b \<and> ras_count a = ras_count b"

lemma same_ras_ops:
  "same_ras a b \<Longrightarrow> same_ras (ras_push a x) (ras_push b x)"
  "same_ras a b \<Longrightarrow> same_ras (ras_pop a) (ras_pop b)"
  "same_ras a b \<Longrightarrow> ras_list a = ras_list b"
  by (simp_all add: same_ras_def ras_push_def ras_pop_def ras_list_def)

lemma same_ras_update_btb: "same_ras (update_btb bp pc insn taken target) bp"
  by (auto simp: same_ras_def update_btb_def Let_def split: option.splits)

lemma same_ras_step:
  assumes "same_ras a b"
  shows "same_ras (fst (step a pc insn (nxt \<noteq> seq_pc pc) tg n 0)) (ras.exec b (ev (pc, insn, nxt)))"
proof -
  have "same_ras (update_btb a pc insn t tg) b" for t
    using assms same_ras_update_btb [of a pc insn t tg] by (simp add: same_ras_def)
  then show ?thesis
    by (auto simp: step_def fault_update_def update_def ev_def Let_def case_prod_beta same_ras_ops)
qed

lemma same_ras_run:
  "same_ras a b \<Longrightarrow> same_ras (fst (run_loop xs 0 (a, n))) (ras.exec b (evs xs))"
proof (induction xs arbitrary: a b n)
  case (Cons x xs)
  obtain pc insn nxt where x: "x = (pc, insn, nxt)" by (cases x)
  let ?s = "step a pc insn (nxt \<noteq> seq_pc pc) (if nxt \<noteq> seq_pc pc then nxt else 0) n 0"
  have "same_ras (fst ?s) (ras.exec b (ev x))"
    unfolding x by (rule same_ras_step [OF Cons.prems])
  then have "same_ras (fst (run_loop xs 0 (fst ?s, snd ?s))) (ras.exec (ras.exec b (ev x)) (evs xs))"
    by (rule Cons.IH)
  then show ?case by (simp add: x ras.exec_append Let_def)
qed simp

lemma returns_top:
  assumes "ras.returns_ok b (evs (xs @ (rpc, rinsn, nxt) # ys))" and "classify rinsn = RET"
  shows "\<exists>l. ras_list (ras.exec b (evs xs)) = nxt # l"
  using assms by (auto simp: ras.returns_ok_append ev_def)

lemma predict_ret_entry:
  assumes "bp_inv bp" and "ras_list bp = a # l"
    and "btb bp ! nat (btb_index pc) = Some (btb_tag pc, RET, c, t)"
  shows "predict bp pc = (True, a)"
  using ras_list_hd [OF assms(1,2)] assms(3) by (simp add: predict_def kind_defs)

lemma trees_depth_ok:
  assumes "code_wf c" "nesting c \<le> RAS_ENTRIES" "bp_inv bp"
  shows "ras.returns_ok bp (evs (code_trace c))"
proof (cases c)
  case (Plain pc insn nxt)
  with assms(1) show ?thesis by (auto simp: ev_def)
next
  case (Sub pc insn tgt body rpc rinsn)
  define t where "t = Call (seq_pc pc) (concat (map trees body))"
  have t: "trees c = [t]" by (simp add: Sub t_def)
  then have "depth t \<le> RAS_ENTRIES" using depth_trees [of t c] assms(2) by simp
  from ras.nested [OF assms(3) this order_refl] show ?thesis
    using evs_trees [OF assms(1)] t by simp
qed

text \<open>C8: in structured code whose calls nest at most eight deep, every return that owns its
  BTB entry is predicted taken to the instruction after its own call, whatever the
  predictor had learned before.\<close>

theorem nested_returns_predicted:
  assumes "bp_inv bp" and "code_wf c" and "nesting c \<le> RAS_ENTRIES"
    and "code_trace c = xs @ (rpc, rinsn, nxt) # ys" and "classify rinsn = RET"
    and "btb (fst (run_loop xs 0 (bp, n))) ! nat (btb_index rpc) = Some (btb_tag rpc, RET, k, t)"
  shows "predict (fst (run_loop xs 0 (bp, n))) rpc = (True, nxt)"
proof -
  have "ras.returns_ok bp (evs (xs @ (rpc, rinsn, nxt) # ys))"
    using trees_depth_ok [OF assms(2,3,1)] assms(4) by simp
  then obtain l where "ras_list (ras.exec bp (evs xs)) = nxt # l"
    using returns_top assms(5) by blast
  moreover have "same_ras (fst (run_loop xs 0 (bp, n))) (ras.exec bp (evs xs))"
    by (rule same_ras_run) (simp add: same_ras_def)
  ultimately have "ras_list (fst (run_loop xs 0 (bp, n))) = nxt # l"
    using same_ras_ops(3) by simp
  then show ?thesis
    using predict_ret_entry [OF bp_inv_run_loop [OF assms(1)] _ assms(6)] by simp
qed

definition warm_ret :: BPred where
  "warm_ret = BPred_init\<lparr>btb := (btb BPred_init)[4 := Some (0, RET, 2, 0)]\<rparr>"

text \<open>\<^verbatim>\<open>jal ra\<close> at 0, its callee's \<^verbatim>\<open>ret\<close> at 16 already known to the BTB.\<close>

theorem nested_returns_predicted_witness:
  "predict (fst (run_loop [(0, 0xEF, 16)] 0 (warm_ret, counts_zero))) 16 = (True, 4)"
proof -
  have inv: "bp_inv warm_ret"
    unfolding warm_ret_def by (rule bp_inv_btb_write [OF bp_inv_init]) (simp add: entry_ok_def kind_defs)
  have c: "classify 0xEF = CALL" "classify 0x8067 = RET"
    by (simp_all add: classify_def is_link_def)
  have i: "nat (btb_index 16) = 4" "btb_tag 16 = 0" "nat (btb_index 0) = 0" "seq_pc 0 = 4"
    by (simp_all add: btb_index_def BTB_ENTRIES_def btb_tag_drop_bit seq_pc_def)
  let ?c = "Sub 0 0xEF 16 [] 16 0x8067"
  have "btb (fst (run_loop [(0, 0xEF, 16)] 0 (warm_ret, counts_zero))) ! nat (btb_index 16)
      = Some (btb_tag 16, RET, 2, 0)"
    using c i
    by (simp add: step_def Let_def case_prod_beta fault_update_def btb_update update_btb_def warm_ret_def
        BPred_init_def BTB_ENTRIES_def)
  moreover have "code_trace ?c = [(0, 0xEF, 16)] @ (16, 0x8067, 4) # []" using i by simp
  moreover have "code_wf ?c" "nesting ?c \<le> RAS_ENTRIES" using c by (simp_all add: RAS_ENTRIES_def)
  ultimately show ?thesis
    using nested_returns_predicted [OF inv, of ?c] c(2) by blast
qed

end
