(* ===== verification/Bpred_Delay.thy ===== *)
theory Bpred_Delay
  imports Bpred_Props
begin

text \<open>
  The visibility rule of \<^verbatim>\<open>DelayedBPred\<close>. Against a history of operations stamped with
  nondecreasing fetch cycles, the queue is a window on the history: what has been applied is a
  prefix, what is pending is the rest, and a lookup sees exactly the updates at least
  \<^verbatim>\<open>gap\<close> cycles old.
\<close>

section \<open>Draining\<close>

definition upd :: "pending_update \<Rightarrow> BPred \<Rightarrow> BPred" where
  "upd u bp = (case u of (c, pc, insn, taken, target) \<Rightarrow> update bp pc insn taken target)"

definition due :: "int \<Rightarrow> int \<Rightarrow> pending_update \<Rightarrow> bool" where
  "due g now u \<longleftrightarrow> now - fst u \<ge> g"

lemma drain_loop_eq:
  "drain_loop g now bp q = (fold upd (takeWhile (due g now) q) bp, dropWhile (due g now) q)"
  by (induction g now bp q rule: drain_loop.induct) (auto simp: upd_def due_def)

lemma drain_eq:
  "drain d now = d\<lparr>dbp := fold upd (takeWhile (due (gap d) now) (pending d)) (dbp d),
                   pending := dropWhile (due (gap d) now) (pending d)\<rparr>"
  by (simp add: drain_def drain_loop_eq)

lemma bp_inv_fold_upd [inv_intros]: "bp_inv bp \<Longrightarrow> bp_inv (fold upd us bp)"
  by (induction us arbitrary: bp) (auto simp: upd_def split: prod.splits intro: bp_inv_update)

section \<open>Histories\<close>

datatype dop = Lookup int int | Retire pending_update

fun dop_time :: "dop \<Rightarrow> int" where
  "dop_time (Lookup addr now) = now"
| "dop_time (Retire u) = fst u"

fun dop_run :: "dop \<Rightarrow> DelayedBPred \<Rightarrow> DelayedBPred" where
  "dop_run (Lookup addr now) d = snd (d_predict d addr now)"
| "dop_run (Retire (c, pc, insn, taken, target)) d = d_update d c pc insn taken target"

fun retired :: "dop list \<Rightarrow> pending_update list" where
  "retired [] = []"
| "retired (Lookup a t # ops) = retired ops"
| "retired (Retire u # ops) = u # retired ops"

lemma retired_append [simp]: "retired (xs @ ys) = retired xs @ retired ys"
  by (induction xs rule: retired.induct) auto

lemma retired_times: "u \<in> set (retired ops) \<Longrightarrow> fst u \<in> dop_time ` set ops"
  by (induction ops rule: retired.induct) auto

lemma sorted_retired: "sorted (map dop_time ops) \<Longrightarrow> sorted (map fst (retired ops))"
  by (induction ops rule: retired.induct) (auto dest!: retired_times)

text \<open>The window invariant at time \<open>t\<close>.\<close>

definition window :: "pending_update list \<Rightarrow> int \<Rightarrow> int \<Rightarrow> DelayedBPred \<Rightarrow> bool" where
  "window hist g t d \<longleftrightarrow> gap d = g \<and> (\<exists>k. dbp d = fold upd (take k hist) BPred_init \<and> pending d = drop k hist
     \<and> (\<forall>u\<in>set (take k hist). due g t u))"

lemma due_mono: "due g t u \<Longrightarrow> t \<le> t' \<Longrightarrow> due g t' u"
  by (simp add: due_def)

lemma window_later: "window hist g t d \<Longrightarrow> t \<le> t' \<Longrightarrow> window hist g t' d"
  unfolding window_def using due_mono by blast

lemma takeWhile_append_all: "\<forall>x\<in>set xs. P x \<Longrightarrow> takeWhile P (xs @ ys) = xs @ takeWhile P ys"
  by (induction xs) auto

lemma window_drain:
  assumes "window hist g t d"
  shows "window hist g t (drain d t) \<and> dbp (drain d t) = fold upd (takeWhile (due g t) hist) BPred_init"
proof -
  obtain k where k: "dbp d = fold upd (take k hist) BPred_init" "pending d = drop k hist"
      "\<forall>u\<in>set (take k hist). due g t u" and g: "gap d = g"
    using assms by (auto simp: window_def)
  have all: "takeWhile (due g t) hist = take k hist @ takeWhile (due g t) (drop k hist)"
    using takeWhile_append_all [OF k(3), of "drop k hist"] by simp
  then have "fold upd (takeWhile (due g t) (pending d)) (dbp d) = fold upd (takeWhile (due g t) hist) BPred_init"
    using k by simp
  moreover have "dropWhile (due g t) (pending d) = drop (length (takeWhile (due g t) hist)) hist"
    using all k(2) by (metis append_take_drop_id append_same_eq dropWhile_eq_drop drop_drop length_append
        append.assoc append_eq_conv_conj takeWhile_dropWhile_id)
  ultimately show ?thesis
    using g unfolding window_def drain_eq
    by (auto simp: dropWhile_eq_drop dest: set_takeWhileD
        intro!: exI [of _ "length (takeWhile (due g t) hist)"] simp flip: takeWhile_eq_take)
qed

lemma window_retire:
  assumes "window hist g t d" shows "window (hist @ [(c, pc, insn, tk, tg)]) g t (d_update d c pc insn tk tg)"
proof -
  obtain k where k: "dbp d = fold upd (take k hist) BPred_init" "pending d = drop k hist"
      "\<forall>u\<in>set (take k hist). due g t u" and g: "gap d = g"
    using assms by (auto simp: window_def)
  define j where "j = min k (length hist)"
  have "take j (hist @ [x]) = take k hist \<and> drop j (hist @ [x]) = drop k hist @ [x]" for x
    by (auto simp: j_def min_def)
  with k g show ?thesis
    unfolding window_def d_update_def by (intro conjI exI [of _ j]) auto
qed

lemma window_run:
  assumes "sorted (map dop_time ops)" and "\<forall>op\<in>set ops. dop_time op \<le> t"
  shows "window (retired ops) g t (fold dop_run ops (DelayedBPred_init g))"
  using assms
proof (induction ops arbitrary: t rule: rev_induct)
  case Nil
  then show ?case by (simp add: window_def DelayedBPred_init_def)
next
  case (snoc op ops)
  let ?d = "fold dop_run ops (DelayedBPred_init g)"
  have w: "window (retired ops) g (dop_time op) ?d"
    using snoc.prems by (intro snoc.IH) (auto simp: sorted_append)
  have "window (retired (ops @ [op])) g (dop_time op) (dop_run op ?d)"
  proof (cases op)
    case (Lookup a n)
    with window_drain [OF w] show ?thesis by (simp add: d_predict_def)
  next
    case (Retire u)
    with window_retire [OF w] show ?thesis by (cases u) simp
  qed
  then show ?case using snoc.prems window_later by fastforce
qed

lemma takeWhile_due_filter:
  "sorted (map fst q) \<Longrightarrow> takeWhile (due g t) q = filter (due g t) q"
proof (induction q)
  case (Cons u q)
  have "filter (due g t) q = []" if "\<not> due g t u"
    using that Cons.prems by (auto simp: due_def filter_empty_conv)
  with Cons show ?case by auto
qed simp

text \<open>C9: the delayed predictor is the instantaneous one on the visible part of the history.
  After any sequence of lookups and retirements stamped with nondecreasing fetch cycles, a
  lookup at \<open>now\<close> answers exactly what a fresh predictor answers when trained on the
  retirements at least \<open>g\<close> cycles old, in program order, and on none of the later ones.\<close>

theorem delayed_visibility:
  assumes "sorted (map dop_time ops)" and "\<forall>op\<in>set ops. dop_time op \<le> now"
  shows "fst (d_predict (fold dop_run ops (DelayedBPred_init g)) addr now) =
    predict (fold upd (filter (\<lambda>u. now - fst u \<ge> g) (retired ops)) BPred_init) addr"
proof -
  have "filter (\<lambda>u. now - fst u \<ge> g) (retired ops) = takeWhile (due g now) (retired ops)"
    using takeWhile_due_filter [OF sorted_retired [OF assms(1)]] by (simp add: due_def [abs_def])
  with window_drain [OF window_run [OF assms]] show ?thesis by (simp add: d_predict_def)
qed

text \<open>A three-instruction loop: the jump at 8 retired at cycles 2, 5 and 8 is looked up at
  cycle 8 with only the first retirement visible, the gap being 4.\<close>

theorem delayed_visibility_witness:
  "fst (d_predict (fold dop_run [Retire (2, 8, 0x6F, True, 0), Lookup 8 5, Retire (5, 8, 0x6F, True, 0)]
      (DelayedBPred_init VISIBILITY_GAP)) 8 8) =
   predict (fold upd [(2, 8, 0x6F, True, 0)] BPred_init) 8"
  using delayed_visibility [of "[Retire (2, 8, 0x6F, True, 0), Lookup 8 5, Retire (5, 8, 0x6F, True, 0)]" 8
      VISIBILITY_GAP 8]
  by (simp add: VISIBILITY_GAP_def)

section \<open>Predictors as an interface\<close>

text \<open>
  What the cycle model and the scorers rely on in a predictor: a lookup that may settle pending
  work and an update, both keeping an invariant. Both forms provide it.
\<close>

locale bp_interface =
  fixes look :: "'s \<Rightarrow> int \<Rightarrow> int \<Rightarrow> (bool \<times> int) \<times> 's"
    and learn :: "'s \<Rightarrow> int \<Rightarrow> int \<Rightarrow> int \<Rightarrow> bool \<Rightarrow> int \<Rightarrow> 's"
    and inv :: "'s \<Rightarrow> bool"
  assumes inv_look: "inv s \<Longrightarrow> inv (snd (look s addr now))"
    and inv_learn: "inv s \<Longrightarrow> inv (learn s c pc insn taken target)"
    and look_none: "\<not> fst (fst (look s addr now)) \<Longrightarrow> fst (look s addr now) = (False, 0)"
begin

fun walk :: "'s \<Rightarrow> (int \<times> int \<times> int \<times> bool \<times> int) list \<Rightarrow> 's" where
  "walk s [] = s"
| "walk s ((c, pc, insn, taken, target) # xs) =
     walk (learn (snd (look s pc c)) c pc insn taken target) xs"

lemma inv_walk: "inv s \<Longrightarrow> inv (walk s xs)"
  by (induction s xs rule: walk.induct) (auto intro: inv_look inv_learn)

end

definition d_inv :: "DelayedBPred \<Rightarrow> bool" where
  "d_inv d \<longleftrightarrow> bp_inv (dbp d)"

lemma predict_none: "\<not> fst (predict bp addr) \<Longrightarrow> predict bp addr = (False, 0)"
  by (auto simp: predict_def Let_def split: option.splits if_splits)

interpretation instant: bp_interface
    "\<lambda>bp addr now. (predict bp addr, bp)" "\<lambda>bp c. update bp" bp_inv
  by unfold_locales (auto intro: bp_inv_update predict_none)

interpretation delayed: bp_interface d_predict d_update d_inv
proof unfold_locales
  fix s addr now c pc insn taken target
  show "d_inv s \<Longrightarrow> d_inv (snd (d_predict s addr now))"
    by (simp add: d_inv_def d_predict_def drain_eq bp_inv_fold_upd)
  show "d_inv s \<Longrightarrow> d_inv (d_update s c pc insn taken target)"
    by (simp add: d_inv_def d_update_def)
  show "\<not> fst (fst (d_predict s addr now)) \<Longrightarrow> fst (d_predict s addr now) = (False, 0)"
    using predict_none by (simp add: d_predict_def Let_def)
qed

end
