(* ===== verification/Cycle_Model.thy ===== *)
theory Cycle_Model
  imports Decode_Spec Bpred_Delay
begin

text \<open>
  The pipeline cycle model of \<^verbatim>\<open>tb/cosim/cycle_model.py\<close>: \<open>analyse\<close> predicts the
  distance from the first retirement to the last of a commit stream, with a static
  not-taken front end or with the delayed predictor in front of the fetch. The predictor walk
  keeps its own cycle clock; the main result is that the clock and the closed formula agree.
\<close>

section \<open>The model\<close>

type_synonym retire = "int \<times> int"

text \<open>A record of the commit stream; the list of its register and memory writes is never read.\<close>

definition muldiv_extra :: "ctrl \<Rightarrow> int res" where
  "muldiv_extra c = (
    if is_muldiv c \<noteq> 0 then
      (case map_of MULDIV_CYCLES (muldiv_op c) of
         None \<Rightarrow> Inl (KeyError ''MULDIV_CYCLES'')
       | Some k \<Rightarrow> Inr (k - 1))
    else Inr 0)"

fun muldiv_loop :: "retire list \<Rightarrow> int \<times> int \<Rightarrow> (int \<times> int) res" where
  "muldiv_loop [] s = Inr s"
| "muldiv_loop ((pc, insn) # rs) (cycles, n) =
    rbind (decode insn) (\<lambda>(ctrl, regs).
    rbind (muldiv_extra ctrl) (\<lambda>extra.
    muldiv_loop rs (if is_muldiv ctrl \<noteq> 0 then (cycles + extra, n + 1) else (cycles, n))))"

definition load_use :: "ctrl \<times> regs \<Rightarrow> ctrl \<times> regs \<Rightarrow> bool" where
  "load_use d nd = (case (d, nd) of ((ctrl, regs), (nctrl, nregs)) \<Rightarrow>
     mem_read ctrl \<noteq> 0 \<and> rd regs \<noteq> 0 \<and>
     ((uses_rs1 nctrl \<noteq> 0 \<and> rs1 nregs = rd regs) \<or> (uses_rs2 nctrl \<noteq> 0 \<and> rs2 nregs = rd regs)))"

definition seq_next :: "int \<Rightarrow> int" where
  "seq_next pc = (pc + 4) AND 0xFFFFFFFF"

fun hazard_loop :: "retire list \<Rightarrow> int list \<times> int list \<Rightarrow> (int list \<times> int list) res" where
  "hazard_loop ((pc, insn) # (nxt_pc, nxt_insn) # rs) (stalls, flushes) =
    rbind (decode insn) (\<lambda>(ctrl, regs).
    rbind (decode nxt_insn) (\<lambda>nd.
    let stalls = (if load_use (ctrl, regs) nd then stalls @ [pc] else stalls);
        flushes = (if nxt_pc \<noteq> seq_next pc \<or> jump ctrl \<noteq> 0 then flushes @ [pc] else flushes)
    in hazard_loop ((nxt_pc, nxt_insn) # rs) (stalls, flushes)))"
| "hazard_loop rs s = Inr s"

text \<open>The locals of the predictor walk.\<close>

record walk_state =
  w_bp :: DelayedBPred
  w_cyc :: int
  w_prev_mispredicted :: bool
  w_prev_pc :: "int option"
  w_prev_extra :: int
  w_prev_hold :: int
  w_pending_target :: "int option"
  w_mispredicts :: "int list"

definition walk_init :: walk_state where
  "walk_init = \<lparr>w_bp = DelayedBPred_init VISIBILITY_GAP, w_cyc = 0, w_prev_mispredicted = False,
     w_prev_pc = None, w_prev_extra = 0, w_prev_hold = 0, w_pending_target = None,
     w_mispredicts = []\<rparr>"

text \<open>The clock part of an iteration; \<open>first\<close> is \<^verbatim>\<open>i == 0\<close>.\<close>

definition walk_clock :: "int list \<Rightarrow> bool \<Rightarrow> int \<Rightarrow> int \<Rightarrow> walk_state \<Rightarrow> walk_state" where
  "walk_clock stall_at first pc extra w = (
    let w = (if first then w else
          let stall = (case w_prev_pc w of None \<Rightarrow> 0 | Some p \<Rightarrow> if p \<in> set stall_at then 1 else 0) in
          w\<lparr>w_cyc := w_cyc w + (1 + stall + (if w_prev_mispredicted w then 2 else 0) + extra),
            w_prev_hold := stall + w_prev_extra w\<rparr>)
    in w\<lparr>w_prev_pc := Some pc, w_prev_extra := extra, w_prev_mispredicted := False\<rparr>)"

text \<open>The transfer part: \<open>nxt_pc\<close> is the pc of the next record.\<close>

definition walk_transfer :: "ctrl \<Rightarrow> int \<Rightarrow> int \<Rightarrow> int \<Rightarrow> walk_state \<Rightarrow> walk_state" where
  "walk_transfer ctrl pc insn nxt_pc w = (
    let taken = (jump ctrl \<noteq> 0 \<or> nxt_pc \<noteq> seq_next pc);
        target = (if taken then nxt_pc else 0);
        f = w_cyc w - w_prev_hold w;
        suppressed = (SUPPRESS_AFTER_REDIRECT \<and> w_pending_target w = Some pc);
        (p, bp) = d_predict (w_bp w) pc f;
        (p_taken, p_target) = (if suppressed then (False, 0) else p);
        mis = (if taken then \<not> (p_taken \<and> p_target = target) else p_taken)
    in w\<lparr>w_mispredicts := (if mis then w_mispredicts w @ [pc] else w_mispredicts w),
         w_prev_mispredicted := mis,
         w_bp := d_update bp f pc insn taken target,
         w_pending_target := (if mis then Some (if taken then target else seq_next pc) else None)\<rparr>)"

text \<open>A non-transfer at the redirect target, and the last record whatever it is, only uses up the
  unpredicted slot.\<close>

definition walk_after :: "ctrl \<Rightarrow> int \<Rightarrow> int \<Rightarrow> retire list \<Rightarrow> walk_state \<Rightarrow> walk_state" where
  "walk_after ctrl pc insn rest w = (
    if \<not> (branch ctrl \<noteq> 0 \<or> jump ctrl \<noteq> 0) \<or> rest = [] then
      (if w_pending_target w = Some pc then w\<lparr>w_pending_target := None\<rparr> else w)
    else walk_transfer ctrl pc insn (fst (hd rest)) w)"

fun walk_loop :: "int list \<Rightarrow> bool \<Rightarrow> retire list \<Rightarrow> walk_state \<Rightarrow> walk_state res" where
  "walk_loop stall_at first [] w = Inr w"
| "walk_loop stall_at first ((pc, insn) # rs) w =
    rbind (decode insn) (\<lambda>(ctrl, regs).
    rbind (muldiv_extra ctrl) (\<lambda>extra.
    walk_loop stall_at False rs
      (walk_after ctrl pc insn rs (walk_clock stall_at first pc extra w))))"

record prediction =
  p_retired :: int
  p_stalls :: int
  p_flushes :: int
  p_muldiv :: int
  p_muldiv_cycles :: int
  p_stall_pcs :: "int list"
  p_flush_pcs :: "int list"
  p_predictor :: bool
  p_mispredicts :: int
  p_mispredict_pcs :: "int list"
  p_span :: int

definition analyse :: "retire list \<Rightarrow> bool \<Rightarrow> prediction res" where
  "analyse records predictor = (
    let n = int (length records) in
    rbind (muldiv_loop (tl records) (0, 0)) (\<lambda>(muldiv_cycles, muldiv_n).
    rbind (hazard_loop records ([], [])) (\<lambda>(stalls, flushes).
    rbind (if predictor then
             rbind (walk_loop stalls True records walk_init) (\<lambda>w. Inr (w_mispredicts w))
           else Inr []) (\<lambda>mispredicts.
    let control_cycles = 2 * int (if predictor then length mispredicts else length flushes) in
    Inr \<lparr>p_retired = n, p_stalls = int (length stalls), p_flushes = int (length flushes),
         p_muldiv = muldiv_n, p_muldiv_cycles = muldiv_cycles, p_stall_pcs = stalls,
         p_flush_pcs = flushes, p_predictor = predictor, p_mispredicts = int (length mispredicts),
         p_mispredict_pcs = mispredicts,
         p_span = (n - 1) + int (length stalls) + control_cycles + muldiv_cycles\<rparr>))))"

section \<open>The loops in closed form\<close>

definition md_cycles :: "int \<Rightarrow> int" where
  "md_cycles insn = (if is_muldiv (fst (decoded insn)) = 0 then 0
     else if muldiv_op (fst (decoded insn)) < 4 then 1 else 33)"

lemma muldiv_op_cases: "muldiv_op (fst (decoded w)) \<in> {0, 1, 2, 3, 4, 5, 6, 7}"
proof -
  have "0 \<le> muldiv_op c \<and> muldiv_op c \<le> 7" if "ctrl_wf c" for c
    using that by (simp add: ctrl_wf_def)
  from this [OF decoded_wf] have "0 \<le> muldiv_op (fst (decoded w))" "muldiv_op (fst (decoded w)) \<le> 7"
    by blast+
  then show ?thesis by auto
qed

lemma muldiv_extra_eq: "muldiv_extra (fst (decoded w)) = Inr (md_cycles w)"
  using muldiv_op_cases [of w]
  by (elim insertE emptyE;
      simp add: muldiv_extra_def md_cycles_def MULDIV_CYCLES_def MUL_CYCLES_def DIV_CYCLES_def)

lemma decode_bind: "rbind (decode w) f = f (decoded w)"
  by (simp add: decode_Inr)

definition pairs :: "'a list \<Rightarrow> ('a \<times> 'a) list" where
  "pairs xs = zip xs (tl xs)"

lemma pairs_simps [simp]: "pairs [] = []" "pairs [x] = []" "pairs (x # y # xs) = (x, y) # pairs (y # xs)"
  by (simp_all add: pairs_def)

definition stall_pair :: "retire \<times> retire \<Rightarrow> bool" where
  "stall_pair p = load_use (decoded (snd (fst p))) (decoded (snd (snd p)))"

definition flush_pair :: "retire \<times> retire \<Rightarrow> bool" where
  "flush_pair p \<longleftrightarrow> fst (snd p) \<noteq> seq_next (fst (fst p)) \<or> jump (fst (decoded (snd (fst p)))) \<noteq> 0"

lemma muldiv_loop_eq:
  "muldiv_loop rs (c, n) = Inr (c + sum_list (map (md_cycles \<circ> snd) rs),
     n + int (length (filter (\<lambda>r. is_muldiv (fst (decoded (snd r))) \<noteq> 0) rs)))"
proof (induction rs arbitrary: c n)
  case (Cons r rs)
  then show ?case
    by (cases r; cases "is_muldiv (fst (decoded (snd r))) = 0")
      (simp_all add: decode_bind case_prod_beta muldiv_extra_eq, simp_all add: md_cycles_def)
qed simp

lemma hazard_loop_eq:
  "hazard_loop rs (s, f) = Inr (s @ map (fst \<circ> fst) (filter stall_pair (pairs rs)),
     f @ map (fst \<circ> fst) (filter flush_pair (pairs rs)))"
proof (induction rs arbitrary: s f rule: induct_list012)
  case (3 x y rs)
  then show ?case
    by (cases x; cases y) (simp add: decode_bind case_prod_beta Let_def stall_pair_def flush_pair_def)
qed auto

section \<open>The predictor walk\<close>

definition stalls_of :: "retire list \<Rightarrow> int list" where
  "stalls_of rs = map (fst \<circ> fst) (filter stall_pair (pairs rs))"

definition stall_cost :: "retire \<times> retire \<Rightarrow> int" where
  "stall_cost p = (if stall_pair p then 1 else 0)"

lemma walk_transfer_clock:
  "w_cyc (walk_transfer c pc insn nxt w) = w_cyc w"
  "w_prev_pc (walk_transfer c pc insn nxt w) = w_prev_pc w"
  "w_mispredicts (walk_transfer c pc insn nxt w) =
     (if w_prev_mispredicted (walk_transfer c pc insn nxt w) then w_mispredicts w @ [pc]
      else w_mispredicts w)"
  by (simp_all add: walk_transfer_def Let_def case_prod_beta)

lemma walk_loop_clock:
  assumes "w_prev_pc w = Some (fst r)"
    and "\<And>p. p \<in> set (pairs (r # rs)) \<Longrightarrow> fst (fst p) \<in> set stalls \<longleftrightarrow> stall_pair p"
  shows "\<exists>w'. walk_loop stalls False rs w = Inr w' \<and>
    w_cyc w' + (if w_prev_mispredicted w' then 2 else 0) - 2 * int (length (w_mispredicts w'))
      = w_cyc w + (if w_prev_mispredicted w then 2 else 0) - 2 * int (length (w_mispredicts w))
        + sum_list (map (\<lambda>p. 1 + stall_cost p + md_cycles (snd (snd p))) (pairs (r # rs)))
    \<and> (w_prev_mispredicted w' \<longrightarrow> rs = [] \<and> w' = w)"
  using assms
proof (induction rs arbitrary: r w)
  case Nil
  then show ?case by simp
next
  case (Cons q rs)
  obtain pc insn where q: "q = (pc, insn)" by (cases q)
  define v where "v = walk_clock stalls False pc (md_cycles insn) w"
  define u where "u = walk_after (fst (decoded insn)) pc insn rs v"
  have st: "(fst r \<in> set stalls) = stall_pair (r, q)"
    using Cons.prems(2) [of "(r, q)"] by simp
  have v: "w_cyc v = w_cyc w + 1 + stall_cost (r, q) + (if w_prev_mispredicted w then 2 else 0) + md_cycles insn"
    "w_prev_pc v = Some pc" "\<not> w_prev_mispredicted v" "w_mispredicts v = w_mispredicts w"
    using Cons.prems(1) st by (simp_all add: v_def walk_clock_def stall_cost_def)
  have u: "w_cyc u = w_cyc v" "w_prev_pc u = Some (fst q)"
    "(if w_prev_mispredicted u then 2 else 0) - 2 * int (length (w_mispredicts u))
       = - 2 * int (length (w_mispredicts w))"
    using v by (auto simp: u_def q walk_after_def walk_transfer_clock)
  have last: "rs = [] \<Longrightarrow> \<not> w_prev_mispredicted u" using v(3) by (simp add: u_def walk_after_def)
  have run: "walk_loop stalls False (q # rs) w = walk_loop stalls False rs u"
    by (simp add: q decode_bind case_prod_beta muldiv_extra_eq u_def v_def)
  have "\<And>p. p \<in> set (pairs (q # rs)) \<Longrightarrow> fst (fst p) \<in> set stalls \<longleftrightarrow> stall_pair p"
    using Cons.prems(2) by (auto)
  from Cons.IH [OF u(2) this] obtain w' where w': "walk_loop stalls False rs u = Inr w'"
    "w_cyc w' + (if w_prev_mispredicted w' then 2 else 0) - 2 * int (length (w_mispredicts w'))
      = w_cyc u + (if w_prev_mispredicted u then 2 else 0) - 2 * int (length (w_mispredicts u))
        + sum_list (map (\<lambda>p. 1 + stall_cost p + md_cycles (snd (snd p))) (pairs (q # rs)))"
    "w_prev_mispredicted w' \<longrightarrow> rs = [] \<and> w' = u"
    by blast
  show ?case
  proof (intro exI [of _ w'] conjI)
    show "walk_loop stalls False (q # rs) w = Inr w'" using run w'(1) by simp
    show "w_prev_mispredicted w' \<longrightarrow> q # rs = [] \<and> w' = w" using w'(3) last by blast
    have "md_cycles (snd q) = md_cycles insn" by (simp add: q)
    then show "w_cyc w' + (if w_prev_mispredicted w' then 2 else 0) - 2 * int (length (w_mispredicts w'))
      = w_cyc w + (if w_prev_mispredicted w then 2 else 0) - 2 * int (length (w_mispredicts w))
        + sum_list (map (\<lambda>p. 1 + stall_cost p + md_cycles (snd (snd p))) (pairs (r # q # rs)))"
      unfolding w'(2) using u v(1) by simp
  qed
qed

lemma walk_loop_span:
  assumes "\<And>p. p \<in> set (pairs (r # rs)) \<Longrightarrow> fst (fst p) \<in> set stalls \<longleftrightarrow> stall_pair p"
  shows "\<exists>w. walk_loop stalls True (r # rs) walk_init = Inr w \<and>
    w_cyc w = 2 * int (length (w_mispredicts w))
        + sum_list (map (\<lambda>p. 1 + stall_cost p + md_cycles (snd (snd p))) (pairs (r # rs)))"
proof -
  obtain pc insn where r: "r = (pc, insn)" by (cases r)
  define v where "v = walk_clock stalls True pc (md_cycles insn) walk_init"
  define u where "u = walk_after (fst (decoded insn)) pc insn rs v"
  have v: "w_cyc v = 0" "w_prev_pc v = Some pc" "\<not> w_prev_mispredicted v" "w_mispredicts v = []"
    by (simp_all add: v_def walk_clock_def walk_init_def)
  have u: "w_cyc u = 0" "w_prev_pc u = Some (fst r)"
    "(if w_prev_mispredicted u then 2 else 0) - 2 * int (length (w_mispredicts u)) = 0"
    using v by (auto simp: u_def r walk_after_def walk_transfer_clock)
  have last: "rs = [] \<Longrightarrow> \<not> w_prev_mispredicted u" using v(3) by (simp add: u_def walk_after_def)
  have run: "walk_loop stalls True (r # rs) walk_init = walk_loop stalls False rs u"
    by (simp add: r decode_bind case_prod_beta muldiv_extra_eq u_def v_def)
  from walk_loop_clock [OF u(2) assms] show ?thesis
    using u last unfolding run by fastforce
qed

section \<open>The span\<close>

lemma analyse_static:
  "analyse rs False = Inr
    (let stalls = stalls_of rs; flushes = map (fst \<circ> fst) (filter flush_pair (pairs rs));
         md = sum_list (map (md_cycles \<circ> snd) (tl rs))
     in \<lparr>p_retired = int (length rs), p_stalls = int (length stalls), p_flushes = int (length flushes),
          p_muldiv = int (length (filter (\<lambda>r. is_muldiv (fst (decoded (snd r))) \<noteq> 0) (tl rs))),
          p_muldiv_cycles = md, p_stall_pcs = stalls, p_flush_pcs = flushes, p_predictor = False,
          p_mispredicts = 0, p_mispredict_pcs = [],
          p_span = int (length rs) - 1 + int (length stalls) + 2 * int (length flushes) + md\<rparr>)"
  by (simp add: analyse_def muldiv_loop_eq hazard_loop_eq Let_def stalls_of_def)

lemma pairs_length: "length (pairs (r # rs)) = length rs"
  by (simp add: pairs_def)

lemma pairs_snd: "map snd (pairs (r # rs)) = rs"
  by (simp add: pairs_def map_snd_zip_take)

lemma sum_pairs_snd: "sum_list (map (\<lambda>p. f (snd p)) (pairs (r # rs))) = sum_list (map f rs)"
proof -
  have "map (\<lambda>p. f (snd p)) (pairs (r # rs)) = map f (map snd (pairs (r # rs)))" by simp
  then show ?thesis by (simp only: pairs_snd)
qed

lemma sum_count: "sum_list (map (\<lambda>p. if P p then k else (0::int)) ps) = k * int (length (filter P ps))"
  by (induction ps) (auto simp: algebra_simps)

lemma pair_sum_split:
  "sum_list (map (\<lambda>p. 1 + stall_cost p + c p + md_cycles (snd (snd p))) (pairs (r # rs))) =
    int (length rs) + int (length (stalls_of (r # rs)))
      + sum_list (map c (pairs (r # rs))) + sum_list (map (md_cycles \<circ> snd) rs)"
proof -
  have "sum_list (map stall_cost (pairs (r # rs))) = int (length (stalls_of (r # rs)))"
    using sum_count [of stall_pair 1 "pairs (r # rs)"] by (simp add: stall_cost_def [abs_def] stalls_of_def)
  moreover have "sum_list (map (\<lambda>p. md_cycles (snd (snd p))) (pairs (r # rs))) = sum_list (map (md_cycles \<circ> snd) rs)"
    using sum_pairs_snd [of "md_cycles \<circ> snd" r rs] by simp
  ultimately show ?thesis
    using pairs_length [of r rs] by (simp add: sum_list_addf sum_list_triv)
qed

text \<open>The cost of retiring the second instruction of a pair after the first: one cycle, one more
  for a load-use hazard, two for a redirect, and its own extra EX occupancy.\<close>

definition step_cost :: "retire \<times> retire \<Rightarrow> int" where
  "step_cost p = 1 + stall_cost p + (if flush_pair p then 2 else 0) + md_cycles (snd (snd p))"

text \<open>Without a predictor, \<^verbatim>\<open>analyse\<close> never raises and its span is the sum of the step
  costs of the adjacent pairs: the closed formula counts every hazard once, on the pair where
  it happens, and the extra cycles of every M instruction but the first retired one.\<close>

theorem analyse_span_static:
  "\<exists>p. analyse (r # rs) False = Inr p \<and> p_span p = sum_list (map step_cost (pairs (r # rs)))"
proof -
  have "sum_list (map step_cost (pairs (r # rs))) = int (length rs) + int (length (stalls_of (r # rs)))
      + 2 * int (length (filter flush_pair (pairs (r # rs)))) + sum_list (map (md_cycles \<circ> snd) rs)"
    using pair_sum_split [of "\<lambda>p. if flush_pair p then 2 else 0" r rs]
      sum_count [of flush_pair 2 "pairs (r # rs)"]
    by (simp add: step_cost_def [abs_def])
  then show ?thesis by (simp add: analyse_static Let_def)
qed

text \<open>A commit stream of a fixed program: a pc always carries the same instruction, and a load
  is followed by the instruction after it.\<close>

definition program_trace :: "retire list \<Rightarrow> bool" where
  "program_trace rs \<longleftrightarrow>
     (\<forall>a\<in>set rs. \<forall>b\<in>set rs. fst a = fst b \<longrightarrow> snd a = snd b)
     \<and> (\<forall>(a, b)\<in>set (pairs rs). mem_read (fst (decoded (snd a))) \<noteq> 0 \<longrightarrow> fst b = seq_next (fst a))"

lemma pairs_mem: "(a, b) \<in> set (pairs rs) \<Longrightarrow> a \<in> set rs \<and> b \<in> set rs"
  by (cases rs) (auto simp: pairs_def dest: set_zip_leftD set_zip_rightD)

lemma stall_pair_mem_read: "stall_pair (a, b) \<Longrightarrow> mem_read (fst (decoded (snd a))) \<noteq> 0"
  by (simp add: stall_pair_def load_use_def case_prod_beta)

lemma program_trace_stalls:
  assumes "program_trace rs" and "p \<in> set (pairs rs)"
  shows "fst (fst p) \<in> set (stalls_of rs) \<longleftrightarrow> stall_pair p"
proof
  assume "fst (fst p) \<in> set (stalls_of rs)"
  then obtain a b where ab: "(a, b) \<in> set (pairs rs)" "stall_pair (a, b)" "fst a = fst (fst p)"
    by (auto simp: stalls_of_def)
  obtain c d where p: "p = (c, d)" by (cases p)
  have c: "snd c = snd a"
    using assms ab(1,3) pairs_mem [of a b rs] pairs_mem [of c d rs] p
    by (auto simp: program_trace_def)
  have "fst b = seq_next (fst a)"
    using assms(1) ab stall_pair_mem_read [OF ab(2)] by (auto simp: program_trace_def)
  moreover have "fst d = seq_next (fst c)"
    using assms p c stall_pair_mem_read [OF ab(2)] by (auto simp: program_trace_def)
  ultimately have "fst d = fst b" using ab(3) p by simp
  then have "snd d = snd b"
    using assms ab(1) pairs_mem [of a b rs] pairs_mem [of c d rs] p
    by (auto simp: program_trace_def)
  with c ab(2) p show "stall_pair p" by (simp add: stall_pair_def)
next
  assume "stall_pair p"
  with assms(2) show "fst (fst p) \<in> set (stalls_of rs)" by (auto simp: stalls_of_def)
qed

text \<open>C10: with the predictor, on the commit stream of any fixed program, the closed span formula
  equals the clock the walk kept while deciding the mispredicts: the cycle at which it retired
  the last record. So every lookup was made at the fetch cycle the reported span implies.\<close>

theorem analyse_span_predictor:
  assumes "program_trace (r # rs)"
  shows "\<exists>p w. analyse (r # rs) True = Inr p \<and> walk_loop (p_stall_pcs p) True (r # rs) walk_init = Inr w
    \<and> p_mispredict_pcs p = w_mispredicts w \<and> p_span p = w_cyc w"
proof -
  obtain w where w: "walk_loop (stalls_of (r # rs)) True (r # rs) walk_init = Inr w"
    "w_cyc w = 2 * int (length (w_mispredicts w))
        + sum_list (map (\<lambda>p. 1 + stall_cost p + md_cycles (snd (snd p))) (pairs (r # rs)))"
    using walk_loop_span [of r rs "stalls_of (r # rs)"] program_trace_stalls [OF assms] by blast
  have "sum_list (map (\<lambda>p. 1 + stall_cost p + md_cycles (snd (snd p))) (pairs (r # rs))) =
    int (length rs) + int (length (stalls_of (r # rs))) + sum_list (map (md_cycles \<circ> snd) rs)"
    using pair_sum_split [of "\<lambda>p. 0" r rs] by (simp add: sum_list_0)
  with w show ?thesis
    by (simp add: analyse_def muldiv_loop_eq hazard_loop_eq Let_def stalls_of_def)
qed

text \<open>\<^verbatim>\<open>lw x1, 0(x2); add x3, x1, x1; jal x0, -8\<close> and the loaded instruction again.\<close>

theorem analyse_span_predictor_witness:
  "\<exists>p w. analyse [(0, 0x12083), (4, 0x1081B3), (8, 0xFF9FF06F), (0, 0x12083)] True = Inr p
    \<and> walk_loop (p_stall_pcs p) True [(0, 0x12083), (4, 0x1081B3), (8, 0xFF9FF06F), (0, 0x12083)] walk_init = Inr w
    \<and> p_mispredict_pcs p = w_mispredicts w \<and> p_span p = w_cyc w"
proof -
  have "list_ex (\<lambda>(n, p, c). p = Major 0x6F \<and> mem_read c = 0) isa"
    by (simp add: isa_def isa_base_def bundle_defs)
  then have "\<exists>n c. (n, Major 0x6F, c) \<in> set isa \<and> mem_read c = 0"
    by (auto simp: list_ex_iff)
  moreover have "pat_matches (Major 0x6F) 0xFF9FF06F" by (simp add: bits_def)
  ultimately have "mem_read (fst (decoded 0xFF9FF06F)) = 0"
    using row_decoded by metis
  then have "program_trace [(0, 0x12083), (4, 0x1081B3), (8, 0xFF9FF06F), (0, 0x12083)]"
    by (simp add: program_trace_def seq_next_def)
  then show ?thesis by (rule analyse_span_predictor)
qed

section \<open>The walk keeps the predictor valid\<close>

lemma d_inv_init: "d_inv (DelayedBPred_init g)"
  by (simp add: d_inv_def DelayedBPred_init_def bp_inv_init)

lemma walk_after_inv: "d_inv (w_bp w) \<Longrightarrow> d_inv (w_bp (walk_after c pc insn rest w))"
  using delayed.inv_look [of "w_bp w"] delayed.inv_learn
  by (simp add: walk_after_def walk_transfer_def Let_def case_prod_beta)

lemma walk_clock_bp [simp]: "w_bp (walk_clock s f pc e w) = w_bp w"
  by (simp add: walk_clock_def Let_def)

lemma walk_loop_inv: "walk_loop s f rs w = Inr w' \<Longrightarrow> d_inv (w_bp w) \<Longrightarrow> d_inv (w_bp w')"
proof (induction rs arbitrary: f w)
  case (Cons r rs)
  then show ?case
    by (cases r) (simp add: decode_bind case_prod_beta muldiv_extra_eq walk_after_inv)
qed simp

end
