(* ===== verification/Py_Str.thy ===== *)
theory Py_Str
  imports Prelude
begin

text \<open>
  The string operations of the Python standard library that the modelled code uses, on ASCII
  strings: decimal and hexadecimal formatting and parsing, padding, joining, splitting and
  stripping, with the round trips on which the parsers rest.
\<close>

section \<open>Character classes\<close>

definition is_digit :: "char \<Rightarrow> bool" where
  "is_digit c \<longleftrightarrow> c \<in> set ''0123456789''"

definition is_space :: "char \<Rightarrow> bool" where
  "is_space c \<longleftrightarrow> c = CHR '' '' \<or> (9 \<le> (of_char c :: nat) \<and> (of_char c :: nat) \<le> 13)
     \<or> (28 \<le> (of_char c :: nat) \<and> (of_char c :: nat) \<le> 31)"

definition is_upper :: "char \<Rightarrow> bool" where
  "is_upper c \<longleftrightarrow> 65 \<le> (of_char c :: nat) \<and> (of_char c :: nat) \<le> 90"

definition is_lower :: "char \<Rightarrow> bool" where
  "is_lower c \<longleftrightarrow> 97 \<le> (of_char c :: nat) \<and> (of_char c :: nat) \<le> 122"

definition is_word :: "char \<Rightarrow> bool" where
  "is_word c \<longleftrightarrow> is_digit c \<or> is_upper c \<or> is_lower c \<or> c = CHR ''_''"

definition is_hex :: "char \<Rightarrow> bool" where
  "is_hex c \<longleftrightarrow> c \<in> set ''0123456789abcdefABCDEF''"

definition is_hex_lower :: "char \<Rightarrow> bool" where
  "is_hex_lower c \<longleftrightarrow> c \<in> set ''0123456789abcdef''"

definition is_hex_upper :: "char \<Rightarrow> bool" where
  "is_hex_upper c \<longleftrightarrow> c \<in> set ''0123456789ABCDEF''"

lemmas class_defs = is_digit_def is_space_def is_upper_def is_lower_def is_word_def is_hex_def
  is_hex_lower_def is_hex_upper_def

section \<open>Numbers\<close>

definition digit :: "nat \<Rightarrow> char" where
  "digit d = ''0123456789abcdef'' ! d"

fun show_base :: "nat \<Rightarrow> nat \<Rightarrow> string" where
  "show_base b n = (if n < b \<or> b < 2 then [digit n] else show_base b (n div b) @ [digit (n mod b)])"

declare show_base.simps [simp del]

definition show_nat :: "nat \<Rightarrow> string" where
  "show_nat n = show_base 10 n"

definition show_int :: "int \<Rightarrow> string" where
  "show_int i = (if i < 0 then CHR ''-'' # show_nat (nat (- i)) else show_nat (nat i))"

definition zfill :: "nat \<Rightarrow> string \<Rightarrow> string" where
  "zfill w s = replicate (w - length s) CHR ''0'' @ s"

definition ljust :: "nat \<Rightarrow> string \<Rightarrow> string" where
  "ljust w s = s @ replicate (w - length s) CHR '' ''"

text \<open>\<^verbatim>\<open>"%0wx" % n\<close> for a nonnegative number.\<close>

definition hex :: "nat \<Rightarrow> nat \<Rightarrow> string" where
  "hex w n = zfill w (show_base 16 n)"

fun digit_val :: "char \<Rightarrow> nat" where
  "digit_val c = (let v = (of_char c :: nat) in
     if 48 \<le> v \<and> v \<le> 57 then v - 48
     else if 97 \<le> v \<and> v \<le> 102 then v - 87
     else if 65 \<le> v \<and> v \<le> 70 then v - 55
     else 0)"

text \<open>\<^verbatim>\<open>int(s, b)\<close> for a string of digits.\<close>

definition read_base :: "nat \<Rightarrow> string \<Rightarrow> nat" where
  "read_base b s = foldl (\<lambda>v c. v * b + digit_val c) 0 s"

lemma digit_val_digit: "d < 16 \<Longrightarrow> digit_val (digit d) = d"
proof -
  have "\<forall>d\<in>set [0..<16]. digit_val (digit d) = d" by code_simp
  then show "d < 16 \<Longrightarrow> digit_val (digit d) = d" by simp
qed

lemma read_base_snoc: "read_base b (s @ [c]) = read_base b s * b + digit_val c"
  by (simp add: read_base_def)

lemma read_show_base: "2 \<le> b \<Longrightarrow> b \<le> 16 \<Longrightarrow> read_base b (show_base b n) = n"
proof (induction b n rule: show_base.induct)
  case (1 b n)
  show ?case
  proof (cases "n < b")
    case True
    with "1.prems" show ?thesis
      by (simp add: show_base.simps [of b n] read_base_def digit_val_digit del: digit_val.simps)
  next
    case False
    then have ne: "\<not> (n < b \<or> b < 2)" using "1.prems" by simp
    have "read_base b (show_base b (n div b)) = n div b" by (rule "1.IH" [OF ne "1.prems"])
    moreover have "n mod b < 16"
      using "1.prems" by (meson mod_less_divisor less_le_trans zero_less_numeral)
    ultimately show ?thesis
      using ne
      by (simp add: show_base.simps [of b n] read_base_snoc digit_val_digit div_mult_mod_eq
          del: digit_val.simps)
  qed
qed

lemma read_zfill: "read_base b (zfill w s) = read_base b s"
proof -
  have z: "read_base b (replicate k CHR ''0'' @ s) = read_base b s" for k
    by (induction k) (simp_all add: read_base_def)
  show ?thesis unfolding zfill_def by (rule z)
qed

lemma read_hex [simp]: "read_base 16 (hex w n) = n"
  by (simp add: hex_def read_zfill read_show_base)

lemma read_show_nat [simp]: "read_base 10 (show_nat n) = n"
  by (simp add: show_nat_def read_show_base)

lemma digit_lower_hex: "d < 16 \<Longrightarrow> is_hex_lower (digit d)"
proof -
  have "\<forall>d\<in>set [0..<16]. is_hex_lower (digit d)" by code_simp
  then show "d < 16 \<Longrightarrow> is_hex_lower (digit d)" by simp
qed

lemma digit_is_digit: "d < 10 \<Longrightarrow> is_digit (digit d)"
proof -
  have "\<forall>d\<in>set [0..<10]. is_digit (digit d)" by code_simp
  then show "d < 10 \<Longrightarrow> is_digit (digit d)" by simp
qed

lemma show_base_chars: "2 \<le> b \<Longrightarrow> c \<in> set (show_base b n) \<Longrightarrow> \<exists>d<b. c = digit d"
proof (induction b n rule: show_base.induct)
  case (1 b n)
  have "\<exists>d<b. digit (n mod b) = digit d"
    using "1.prems" by (intro exI [of _ "n mod b"]) simp
  with 1 show ?case
    by (cases "n < b") (auto simp: show_base.simps [of b n])
qed

lemma show_nat_digits: "list_all is_digit (show_nat n)"
  using show_base_chars [of 10] digit_is_digit by (auto simp: show_nat_def list_all_iff)

lemma hex_digits: "list_all is_hex_lower (hex w n)"
proof -
  have "is_hex_lower CHR ''0''" by code_simp
  then show ?thesis
    using show_base_chars [of 16] digit_lower_hex by (auto simp: hex_def zfill_def list_all_iff)
qed

lemma show_base_nonempty [simp]: "show_base b n \<noteq> []"
  by (simp add: show_base.simps [of b n])

lemma show_nat_nonempty [simp]: "show_nat n \<noteq> []"
  by (simp add: show_nat_def)

lemma show_base_length: "2 \<le> b \<Longrightarrow> 0 < k \<Longrightarrow> n < b ^ k \<Longrightarrow> length (show_base b n) \<le> k"
proof (induction k arbitrary: n)
  case (Suc k)
  show ?case
  proof (cases "n < b")
    case True
    then show ?thesis by (simp add: show_base.simps [of b n])
  next
    case False
    then have "0 < k" using Suc.prems by (cases k) auto
    moreover have "n div b < b ^ k"
      using Suc.prems by (simp add: less_mult_imp_div_less mult.commute)
    ultimately show ?thesis
      using Suc False by (simp add: show_base.simps [of b n])
  qed
qed simp

lemma hex_length: "0 < w \<Longrightarrow> n < 16 ^ w \<Longrightarrow> length (hex w n) = w"
  using show_base_length [of 16 w n] by (simp add: hex_def zfill_def)

section \<open>Lists of strings\<close>

fun join :: "string \<Rightarrow> string list \<Rightarrow> string" where
  "join sep [] = []"
| "join sep [s] = s"
| "join sep (s # ss) = s @ sep @ join sep ss"

text \<open>\<^verbatim>\<open>s.split(c)\<close>.\<close>

fun split_on :: "char \<Rightarrow> string \<Rightarrow> string list" where
  "split_on c [] = [[]]"
| "split_on c (x # xs) =
    (if x = c then [] # split_on c xs
     else (case split_on c xs of [] \<Rightarrow> [[x]] | l # ls \<Rightarrow> (x # l) # ls))"

lemma split_on_nonempty [simp]: "split_on c s \<noteq> []"
  by (induction s) (auto split: list.splits)

text \<open>\<^verbatim>\<open>s.split()\<close>: runs of white space separate, none is kept.\<close>

fun words_acc :: "string \<Rightarrow> string \<Rightarrow> string list" where
  "words_acc acc [] = (if acc = [] then [] else [rev acc])"
| "words_acc acc (x # xs) =
    (if is_space x then (if acc = [] then words_acc [] xs else rev acc # words_acc [] xs)
     else words_acc (x # acc) xs)"

definition split_ws :: "string \<Rightarrow> string list" where
  "split_ws s = words_acc [] s"

definition lstrip :: "string \<Rightarrow> string" where
  "lstrip s = dropWhile is_space s"

definition rstrip :: "string \<Rightarrow> string" where
  "rstrip s = rev (dropWhile is_space (rev s))"

definition strip :: "string \<Rightarrow> string" where
  "strip s = rstrip (lstrip s)"

text \<open>\<^verbatim>\<open>s.splitlines()\<close> on text whose only line break is the newline.\<close>

definition splitlines :: "string \<Rightarrow> string list" where
  "splitlines s = (let ls = split_on CHR 0x0A s in if last ls = [] then butlast ls else ls)"

definition startswith :: "string \<Rightarrow> string \<Rightarrow> bool" where
  "startswith s p \<longleftrightarrow> take (length p) s = p"

definition endswith :: "string \<Rightarrow> string \<Rightarrow> bool" where
  "endswith s p \<longleftrightarrow> length p \<le> length s \<and> drop (length s - length p) s = p"

fun is_sub :: "string \<Rightarrow> string \<Rightarrow> bool" where
  "is_sub p [] \<longleftrightarrow> p = []"
| "is_sub p (x # xs) \<longleftrightarrow> startswith (x # xs) p \<or> is_sub p xs"

text \<open>\<^verbatim>\<open>s.replace(old, new, 1)\<close>, and \<^verbatim>\<open>s.replace(old, new)\<close> for a nonempty \<open>old\<close>: the counter is the
  number of characters of the match still to be skipped.\<close>

fun replace1 :: "string \<Rightarrow> string \<Rightarrow> string \<Rightarrow> string" where
  "replace1 old new [] = (if old = [] then new else [])"
| "replace1 old new (c # cs) =
    (if startswith (c # cs) old then new @ drop (length old) (c # cs) else c # replace1 old new cs)"

fun skip_replace :: "string \<Rightarrow> string \<Rightarrow> nat \<Rightarrow> string \<Rightarrow> string" where
  "skip_replace old new k [] = []"
| "skip_replace old new (Suc k) (c # cs) = skip_replace old new k cs"
| "skip_replace old new 0 (c # cs) =
    (if startswith (c # cs) old then new @ skip_replace old new (length old - 1) cs
     else c # skip_replace old new 0 cs)"

definition replace_all :: "string \<Rightarrow> string \<Rightarrow> string \<Rightarrow> string" where
  "replace_all old new s = skip_replace old new 0 s"

text \<open>\<^verbatim>\<open>int(s, 0)\<close> of a stripped string: the base comes from the prefix, single underscores may
  separate digits, and a decimal number has no superfluous leading zeros.\<close>

fun grouped :: "(char \<Rightarrow> bool) \<Rightarrow> string \<Rightarrow> bool" where
  "grouped c [] \<longleftrightarrow> False"
| "grouped c [x] \<longleftrightarrow> c x"
| "grouped c (x # y # ys) \<longleftrightarrow> c x \<and> (if y = CHR ''_'' then grouped c ys else grouped c (y # ys))"

definition ungroup :: "string \<Rightarrow> string" where
  "ungroup s = filter (\<lambda>c. c \<noteq> CHR ''_'') s"

definition prefixed :: "string \<Rightarrow> (nat \<times> (char \<Rightarrow> bool)) option" where
  "prefixed p = (
    if p = ''0x'' \<or> p = ''0X'' then Some (16, is_hex)
    else if p = ''0b'' \<or> p = ''0B'' then Some (2, \<lambda>c. c \<in> set ''01'')
    else if p = ''0o'' \<or> p = ''0O'' then Some (8, \<lambda>c. c \<in> set ''01234567'')
    else None)"

definition nat0 :: "string \<Rightarrow> nat res" where
  "nat0 s = (let err = Inl (ValueError ''invalid literal for int() with base 0'') in
    case prefixed (take 2 s) of
      Some (b, c) \<Rightarrow>
        let r = (if startswith (drop 2 s) ''_'' then drop 3 s else drop 2 s)
        in if grouped c r then Inr (read_base b (ungroup r)) else err
    | None \<Rightarrow>
        if grouped is_digit s \<and> (hd s \<noteq> CHR ''0'' \<or> set (ungroup s) = {CHR ''0''})
        then Inr (read_base 10 (ungroup s)) else err)"

definition int0 :: "string \<Rightarrow> int res" where
  "int0 s = (
    if startswith s ''-'' then rbind (nat0 (drop 1 s)) (\<lambda>n. Inr (- int n))
    else if startswith s ''+'' then rbind (nat0 (drop 1 s)) (\<lambda>n. Inr (int n))
    else rbind (nat0 s) (\<lambda>n. Inr (int n)))"

text \<open>\<^verbatim>\<open>int(s)\<close> and \<^verbatim>\<open>int(s, 16)\<close>: surrounding space, a sign, single underscores and, in base
  sixteen, the prefix are accepted.\<close>

definition nat_base :: "nat \<Rightarrow> string \<Rightarrow> nat res" where
  "nat_base b s = (
    let r = (if b = 16 \<and> (take 2 s = ''0x'' \<or> take 2 s = ''0X'')
             then (if startswith (drop 2 s) ''_'' then drop 3 s else drop 2 s) else s)
    in if grouped (if b = 16 then is_hex else is_digit) r then Inr (read_base b (ungroup r))
       else Inl (ValueError ''invalid literal for int()''))"

definition int_base :: "nat \<Rightarrow> string \<Rightarrow> int res" where
  "int_base b t = (let s = strip t in
    if startswith s ''-'' then rbind (nat_base b (drop 1 s)) (\<lambda>n. Inr (- int n))
    else rbind (nat_base b (if startswith s ''+'' then drop 1 s else s)) (\<lambda>n. Inr (int n)))"

text \<open>\<^verbatim>\<open>s.count(old)\<close>.\<close>

function py_count :: "string \<Rightarrow> string \<Rightarrow> nat" where
  "py_count old s = (
    if old = [] then length s + 1
    else if s = [] then 0
    else if startswith s old then 1 + py_count old (drop (length old) s)
    else py_count old (tl s))"
  by auto
termination by (relation "measure (\<lambda>(old, s). length s)") auto

declare py_count.simps [simp del]

text \<open>\<^verbatim>\<open>os.path.basename\<close>.\<close>

definition basename :: "string \<Rightarrow> string" where
  "basename p = last (split_on CHR ''/'' p)"

text \<open>\<^verbatim>\<open>s.splitlines()\<close> on ASCII text.\<close>

definition line_break :: "char \<Rightarrow> bool" where
  "line_break c \<longleftrightarrow> c \<in> {CHR 0x0A, CHR 0x0B, CHR 0x0C, CHR 0x0D, CHR 0x1C, CHR 0x1D, CHR 0x1E}"

fun py_lines :: "string \<Rightarrow> string \<Rightarrow> string list" where
  "py_lines acc [] = (if acc = [] then [] else [rev acc])"
| "py_lines acc (c # cs) = (
    if c = CHR 0x0D then
      rev acc # (case cs of [] \<Rightarrow> [] | d # ds \<Rightarrow> if d = CHR 0x0A then py_lines [] ds else py_lines [] cs)
    else if line_break c then rev acc # py_lines [] cs
    else py_lines (c # acc) cs)"

definition isupper :: "string \<Rightarrow> bool" where
  "isupper s \<longleftrightarrow> list_ex is_upper s \<and> \<not> list_ex is_lower s"

text \<open>\<^verbatim>\<open>s.splitlines(True)\<close>, which keeps the line ends.\<close>

fun keep_lines :: "string \<Rightarrow> string \<Rightarrow> string list" where
  "keep_lines acc [] = (if acc = [] then [] else [rev acc])"
| "keep_lines acc (c # cs) = (
    if c = CHR 0x0D \<and> cs \<noteq> [] \<and> hd cs = CHR 0x0A then keep_lines (c # acc) cs
    else if line_break c then rev (c # acc) # keep_lines [] cs
    else keep_lines (c # acc) cs)"

lemma split_on_append:
  "c \<notin> set x \<Longrightarrow> split_on c (x @ c # s) = x # split_on c s"
  by (induction x) auto

lemma split_on_single: "c \<notin> set x \<Longrightarrow> split_on c x = [x]"
  by (induction x) auto

lemma split_on_join:
  "ls \<noteq> [] \<Longrightarrow> (\<And>l. l \<in> set ls \<Longrightarrow> c \<notin> set l) \<Longrightarrow> split_on c (join [c] ls) = ls"
  by (induction "[c]" ls rule: join.induct) (auto simp: split_on_append split_on_single)

lemma splitlines_lines:
  "(\<And>l. l \<in> set ls \<Longrightarrow> CHR 0x0A \<notin> set l) \<Longrightarrow> splitlines (concat (map (\<lambda>l. l @ [CHR 0x0A]) ls)) = ls"
proof -
  assume a: "\<And>l. l \<in> set ls \<Longrightarrow> CHR 0x0A \<notin> set l"
  then have "split_on CHR 0x0A (concat (map (\<lambda>l. l @ [CHR 0x0A]) ls)) = ls @ [[]]"
    by (induction ls) (auto simp: split_on_append)
  then show ?thesis by (simp add: splitlines_def)
qed

end
