(* ===== verification/Py_Regex.thy ===== *)
theory Py_Regex
  imports Py_Str
begin

text \<open>
  The fragment of Python's \<^verbatim>\<open>re\<close> that the sources use: backtracking match of sequences,
  ordered alternatives, greedy and lazy repetitions of a character class, optional parts,
  numbered groups, anchors and word boundaries. A match is driven by a continuation, so that
  the first success in priority order is the result, as in the library.
\<close>

section \<open>Expressions and matching\<close>

datatype re =
    Cls "char \<Rightarrow> bool"
  | Seq re re
  | Alt re re
  | Many "char \<Rightarrow> bool"
  | Lazy "char \<Rightarrow> bool"
  | Opt re
  | Group nat re
  | Eps
  | Bos
  | Eos
  | Bol
  | Eol
  | Wordb

type_synonym groups = "(nat \<times> string) list"
type_synonym 'a cont = "char option \<Rightarrow> string \<Rightarrow> groups \<Rightarrow> 'a option"

definition orelse :: "'a option \<Rightarrow> 'a option \<Rightarrow> 'a option" where
  "orelse a b = (case a of Some x \<Rightarrow> Some x | None \<Rightarrow> b)"

lemma orelse_simps [simp]: "orelse (Some x) b = Some x" "orelse None b = b" "orelse a None = a"
  by (simp_all add: orelse_def split: option.splits)

fun greedy :: "(char \<Rightarrow> bool) \<Rightarrow> 'a cont \<Rightarrow> char option \<Rightarrow> string \<Rightarrow> groups \<Rightarrow> 'a option" where
  "greedy c k p [] g = k p [] g"
| "greedy c k p (x # xs) g =
    (if c x then orelse (greedy c k (Some x) xs g) (k p (x # xs) g) else k p (x # xs) g)"

fun lazy :: "(char \<Rightarrow> bool) \<Rightarrow> 'a cont \<Rightarrow> char option \<Rightarrow> string \<Rightarrow> groups \<Rightarrow> 'a option" where
  "lazy c k p [] g = k p [] g"
| "lazy c k p (x # xs) g =
    orelse (k p (x # xs) g) (if c x then lazy c k (Some x) xs g else None)"

definition word_at :: "char option \<Rightarrow> bool" where
  "word_at c = (case c of None \<Rightarrow> False | Some x \<Rightarrow> is_word x)"

definition first :: "string \<Rightarrow> char option" where
  "first s = (case s of [] \<Rightarrow> None | x # xs \<Rightarrow> Some x)"

primrec mt :: "re \<Rightarrow> 'a cont \<Rightarrow> char option \<Rightarrow> string \<Rightarrow> groups \<Rightarrow> 'a option" where
  "mt (Cls c) k = (\<lambda>p s g. case s of [] \<Rightarrow> None | x # xs \<Rightarrow> if c x then k (Some x) xs g else None)"
| "mt (Seq a b) k = mt a (mt b k)"
| "mt (Alt a b) k = (\<lambda>p s g. orelse (mt a k p s g) (mt b k p s g))"
| "mt (Many c) k = greedy c k"
| "mt (Lazy c) k = lazy c k"
| "mt (Opt a) k = (\<lambda>p s g. orelse (mt a k p s g) (k p s g))"
| "mt (Group n a) k = (\<lambda>p s g.
     mt a (\<lambda>p' s' g'. k p' s' ((n, take (length s - length s') s) # g')) p s g)"
| "mt Eps k = k"
| "mt Bos k = (\<lambda>p s g. if p = None then k p s g else None)"
| "mt Eos k = (\<lambda>p s g. if s = [] \<or> s = [CHR 0x0A] then k p s g else None)"
| "mt Bol k = (\<lambda>p s g. if p = None \<or> p = Some CHR 0x0A then k p s g else None)"
| "mt Eol k = (\<lambda>p s g. if s = [] \<or> first s = Some CHR 0x0A then k p s g else None)"
| "mt Wordb k = (\<lambda>p s g. if word_at p \<noteq> word_at (first s) then k p s g else None)"

section \<open>Derived forms\<close>

definition ch :: "char \<Rightarrow> re" where "ch c = Cls (\<lambda>x. x = c)"

fun lit :: "string \<Rightarrow> re" where
  "lit [] = Eps"
| "lit (c # cs) = Seq (ch c) (lit cs)"

definition Plus :: "(char \<Rightarrow> bool) \<Rightarrow> re" where "Plus c = Seq (Cls c) (Many c)"

fun Rep :: "nat \<Rightarrow> re \<Rightarrow> re" where
  "Rep 0 r = Eps"
| "Rep (Suc n) r = Seq r (Rep n r)"

fun seqs :: "re list \<Rightarrow> re" where
  "seqs [] = Eps"
| "seqs (r # rs) = Seq r (seqs rs)"

fun alts :: "re list \<Rightarrow> re" where
  "alts [] = Cls (\<lambda>x. False)"
| "alts [r] = r"
| "alts (r # rs) = Alt r (alts rs)"

definition any_char :: "char \<Rightarrow> bool" where "any_char c \<longleftrightarrow> c \<noteq> CHR 0x0A"

section \<open>The library entry points\<close>

text \<open>The result of a match: the group bindings, group 0 being the whole match.\<close>

definition done_k :: "string \<Rightarrow> (groups \<times> string) cont" where
  "done_k s = (\<lambda>p s' g. Some ((0, take (length s - length s') s) # g, s'))"

definition match_at :: "re \<Rightarrow> char option \<Rightarrow> string \<Rightarrow> (groups \<times> string) option" where
  "match_at r p s = mt r (done_k s) p s []"

definition re_match :: "re \<Rightarrow> string \<Rightarrow> groups option" where
  "re_match r s = map_option fst (match_at r None s)"

definition re_fullmatch :: "re \<Rightarrow> string \<Rightarrow> groups option" where
  "re_fullmatch r s = mt r (\<lambda>p s' g. if s' = [] then Some ((0, s) # g) else None) None s []"

fun search_from :: "re \<Rightarrow> char option \<Rightarrow> string \<Rightarrow> (groups \<times> string) option" where
  "search_from r p [] = match_at r p []"
| "search_from r p (x # xs) = orelse (match_at r p (x # xs)) (search_from r (Some x) xs)"

definition re_search :: "re \<Rightarrow> string \<Rightarrow> groups option" where
  "re_search r s = map_option fst (search_from r None s)"

text \<open>\<^verbatim>\<open>finditer\<close> for expressions that do not match the empty string: the fuel is the length
  of the text, and every match consumes at least one character.\<close>

fun find_iter :: "nat \<Rightarrow> re \<Rightarrow> char option \<Rightarrow> string \<Rightarrow> groups list" where
  "find_iter 0 r p s = []"
| "find_iter (Suc n) r p s =
    (case search_from r p s of
       None \<Rightarrow> []
     | Some (g, s') \<Rightarrow>
         if length s' < length s
         then g # find_iter n r (Some (s ! (length s - length s' - 1))) s'
         else [g])"

definition re_finditer :: "re \<Rightarrow> string \<Rightarrow> groups list" where
  "re_finditer r s = find_iter (Suc (length s)) r None s"

definition group :: "groups \<Rightarrow> nat \<Rightarrow> string" where
  "group g n = (case map_of g n of Some s \<Rightarrow> s | None \<Rightarrow> [])"

text \<open>The matches of \<^verbatim>\<open>finditer\<close> with the positions where they start.\<close>

fun find_iter_pos :: "nat \<Rightarrow> re \<Rightarrow> nat \<Rightarrow> char option \<Rightarrow> string \<Rightarrow> (nat \<times> groups) list" where
  "find_iter_pos 0 r i p s = []"
| "find_iter_pos (Suc n) r i p s =
    (case search_from r p s of
       None \<Rightarrow> []
     | Some (g, s') \<Rightarrow>
         let stop = i + (length s - length s') in
         (stop - length (group g 0), g) #
         (if length s' < length s
          then find_iter_pos n r stop (Some (s ! (length s - length s' - 1))) s'
          else []))"

definition re_finditer_pos :: "re \<Rightarrow> string \<Rightarrow> (nat \<times> groups) list" where
  "re_finditer_pos r s = find_iter_pos (Suc (length s)) r 0 None s"

text \<open>\<^verbatim>\<open>re.sub(r, new, s)\<close> for a constant replacement, with the same fuel.\<close>

fun sub_iter :: "nat \<Rightarrow> re \<Rightarrow> string \<Rightarrow> char option \<Rightarrow> string \<Rightarrow> string" where
  "sub_iter 0 r new p s = s"
| "sub_iter (Suc n) r new p [] = []"
| "sub_iter (Suc n) r new p (x # xs) = (case match_at r p (x # xs) of
     None \<Rightarrow> x # sub_iter n r new (Some x) xs
   | Some (g, s') \<Rightarrow> if length s' \<le> length xs
       then new @ sub_iter n r new (Some ((x # xs) ! (length xs - length s'))) s'
       else x # sub_iter n r new (Some x) xs)"

definition re_sub :: "re \<Rightarrow> string \<Rightarrow> string \<Rightarrow> string" where
  "re_sub r new s = sub_iter (Suc (length s)) r new None s"

section \<open>Laws\<close>

lemma mt_lit: "mt (lit l) k p (l @ s) g = k (if l = [] then p else Some (last l)) s g"
  by (induction l arbitrary: p) (auto simp: ch_def)

lemma mt_lit_miss: "take (length l) s \<noteq> l \<Longrightarrow> mt (lit l) k p s g = None"
  by (induction l arbitrary: p s) (auto simp: ch_def split: list.splits)

lemma mt_lit_iff:
  "mt (lit l) k p s g = (if take (length l) s = l
     then k (if l = [] then p else Some (last l)) (drop (length l) s) g else None)"
proof (cases "take (length l) s = l")
  case True
  then have "s = l @ drop (length l) s" by (metis append_take_drop_id)
  with True show ?thesis using mt_lit [of l k p "drop (length l) s" g] by simp
qed (simp add: mt_lit_miss)

text \<open>A greedy repetition that stops at the right place on the first try.\<close>

lemma greedy_run:
  assumes "list_all c xs" and "s = [] \<or> \<not> c (hd s)"
    and "k (if xs = [] then p else Some (last xs)) s g = Some r"
  shows "greedy c k p (xs @ s) g = Some r"
  using assms
proof (induction xs arbitrary: p)
  case Nil
  then show ?case by (cases s) auto
next
  case (Cons x xs)
  then have "greedy c k (Some x) (xs @ s) g = Some r"
    by (intro Cons.IH) (auto split: if_splits)
  with Cons.prems show ?case by simp
qed

lemma plus_run:
  assumes "list_all c xs" "xs \<noteq> []" and "s = [] \<or> \<not> c (hd s)"
    and "k (Some (last xs)) s g = Some r"
  shows "mt (Plus c) k p (xs @ s) g = Some r"
proof (cases xs)
  case (Cons y ys)
  have "greedy c k (Some y) (ys @ s) g = Some r"
    using assms Cons by (intro greedy_run) (auto split: if_splits)
  with assms(1) Cons show ?thesis by (simp add: Plus_def)
qed (use assms(2) in simp)

text \<open>A match that fails whatever the repetition takes.\<close>

lemma greedy_None:
  assumes "\<And>i p. i \<le> length s \<Longrightarrow> list_all c (take i s) \<Longrightarrow> k p (drop i s) g = None"
  shows "greedy c k p s g = None"
  using assms
proof (induction s arbitrary: p)
  case Nil
  then show ?case using Nil [of 0] by simp
next
  case (Cons x xs)
  have "k p (x # xs) g = None" using Cons.prems [of 0 p] by simp
  moreover have "greedy c k (Some x) xs g = None" if "c x"
  proof (rule Cons.IH)
    fix i p assume "i \<le> length xs" "list_all c (take i xs)"
    then show "k p (drop i xs) g = None" using Cons.prems [of "Suc i" p] that by simp
  qed
  ultimately show ?case by simp
qed

lemma greedy_prefix:
  assumes "list_all c xs" and "s = [] \<or> \<not> c (hd s)"
  shows "greedy c k p (xs @ s) g =
    (case xs of [] \<Rightarrow> k p s g
     | x # ys \<Rightarrow> orelse (greedy c k (Some x) (ys @ s) g) (k p (x # ys @ s) g))"
  using assms by (cases xs; cases s) auto

text \<open>A fixed number of characters of a class.\<close>

lemma Rep_run:
  assumes "list_all c xs" and "length xs = n"
  shows "mt (Rep n (Cls c)) k p (xs @ s) g = k (if xs = [] then p else Some (last xs)) s g"
  using assms by (induction n arbitrary: xs p) (auto simp: length_Suc_conv)

section \<open>Successful matches, step by step\<close>

named_theorems re_intros "introduction rules for a successful match"

lemma ok_Seq [re_intros]: "mt a (mt b k) p s g = Some r \<Longrightarrow> mt (Seq a b) k p s g = Some r"
  by simp

lemma ok_seqs [re_intros]:
  "mt a (mt (seqs rs) k) p s g = Some r \<Longrightarrow> mt (seqs (a # rs)) k p s g = Some r"
  "k p s g = Some r \<Longrightarrow> mt (seqs []) k p s g = Some r"
  by simp_all

lemma ok_ch [re_intros]: "k (Some c) s g = Some r \<Longrightarrow> mt (ch c) k p ([c] @ s) g = Some r"
  by (simp add: ch_def)

lemma ok_lit [re_intros]: "l \<noteq> [] \<Longrightarrow> k (Some (last l)) s g = Some r \<Longrightarrow> mt (lit l) k p (l @ s) g = Some r"
  by (simp add: mt_lit)

lemma ok_Bos [re_intros]: "k None s g = Some r \<Longrightarrow> mt Bos k None s g = Some r"
  by simp

lemma ok_Eos [re_intros]: "k p [] g = Some r \<Longrightarrow> mt Eos k p [] g = Some r"
  by simp

lemma show_nat_first: "\<exists>c cs. show_nat n = c # cs \<and> is_digit c"
  using show_nat_digits [of n] show_nat_nonempty [of n] by (cases "show_nat n") auto

lemma digit_not: "is_digit c \<Longrightarrow> \<not> is_space c \<and> c \<noteq> CHR ''-''"
  by (auto simp: is_digit_def is_space_def)

lemma ok_digits [re_intros]:
  "s = [] \<or> \<not> is_digit (hd s) \<Longrightarrow> k (Some (last (show_nat n))) s g = Some r \<Longrightarrow>
    mt (Plus is_digit) k p (show_nat n @ s) g = Some r"
  by (rule plus_run) (simp_all add: show_nat_digits)

lemma ok_group_digits [re_intros]:
  "s = [] \<or> \<not> is_digit (hd s) \<Longrightarrow> k (Some (last (show_nat v))) s ((n, show_nat v) # g) = Some r \<Longrightarrow>
    mt (Group n (Plus is_digit)) k p (show_nat v @ s) g = Some r"
  unfolding mt.simps by (rule ok_digits) simp_all

lemma ok_spaces [re_intros]:
  "0 < m \<Longrightarrow> s = [] \<or> \<not> is_space (hd s) \<Longrightarrow> k (Some CHR '' '') s g = Some r \<Longrightarrow>
    mt (Plus is_space) k p (replicate m CHR '' '' @ s) g = Some r"
  by (rule plus_run) (simp_all add: list_all_iff is_space_def)

lemma ok_many_space [re_intros]:
  "s = [] \<or> \<not> is_space (hd s) \<Longrightarrow> k (Some CHR '' '') s g = Some r \<Longrightarrow>
    mt (Many is_space) k p ('' '' @ s) g = Some r"
  unfolding mt.simps by (rule greedy_run) (simp_all add: is_space_def)

lemma ok_no_minus [re_intros]:
  "k p (show_nat n @ s) g = Some r \<Longrightarrow> mt (Opt (ch CHR ''-'')) k p (show_nat n @ s) g = Some r"
  using show_nat_first [of n] digit_not by (auto simp: ch_def)

section \<open>What a match consumes\<close>

text \<open>The relation between the state before and after an expression, without the search order: every
  successful match passes its continuation a state related to the start.\<close>

primrec eats :: "re \<Rightarrow> char option \<Rightarrow> string \<Rightarrow> groups \<Rightarrow> char option \<Rightarrow> string \<Rightarrow> groups \<Rightarrow> bool" where
  "eats (Cls c) p s g p' s' g' \<longleftrightarrow> (\<exists>x. s = x # s' \<and> c x \<and> p' = Some x \<and> g' = g)"
| "eats (Seq a b) p s g p' s' g' \<longleftrightarrow> (\<exists>p1 s1 g1. eats a p s g p1 s1 g1 \<and> eats b p1 s1 g1 p' s' g')"
| "eats (Alt a b) p s g p' s' g' \<longleftrightarrow> eats a p s g p' s' g' \<or> eats b p s g p' s' g'"
| "eats (Many c) p s g p' s' g' \<longleftrightarrow> (\<exists>xs. s = xs @ s' \<and> list_all c xs \<and> g' = g)"
| "eats (Lazy c) p s g p' s' g' \<longleftrightarrow> (\<exists>xs. s = xs @ s' \<and> list_all c xs \<and> g' = g)"
| "eats (Opt a) p s g p' s' g' \<longleftrightarrow> eats a p s g p' s' g' \<or> (p' = p \<and> s' = s \<and> g' = g)"
| "eats (Group n a) p s g p' s' g' \<longleftrightarrow>
     (\<exists>g1. eats a p s g p' s' g1 \<and> g' = (n, take (length s - length s') s) # g1)"
| "eats Eps p s g p' s' g' \<longleftrightarrow> p' = p \<and> s' = s \<and> g' = g"
| "eats Bos p s g p' s' g' \<longleftrightarrow> p = None \<and> p' = p \<and> s' = s \<and> g' = g"
| "eats Eos p s g p' s' g' \<longleftrightarrow> (s = [] \<or> s = [CHR 0x0A]) \<and> p' = p \<and> s' = s \<and> g' = g"
| "eats Bol p s g p' s' g' \<longleftrightarrow> (p = None \<or> p = Some CHR 0x0A) \<and> p' = p \<and> s' = s \<and> g' = g"
| "eats Eol p s g p' s' g' \<longleftrightarrow> (s = [] \<or> first s = Some CHR 0x0A) \<and> p' = p \<and> s' = s \<and> g' = g"
| "eats Wordb p s g p' s' g' \<longleftrightarrow> word_at p \<noteq> word_at (first s) \<and> p' = p \<and> s' = s \<and> g' = g"

lemma orelse_Some: "orelse a b = Some r \<longleftrightarrow> a = Some r \<or> (a = None \<and> b = Some r)"
  by (cases a) auto

lemma greedy_eats: "greedy c k p s g = Some r \<Longrightarrow> \<exists>p' s'. (\<exists>xs. s = xs @ s' \<and> list_all c xs) \<and> k p' s' g = Some r"
proof (induction s arbitrary: p)
  case Nil
  then show ?case by auto
next
  case (Cons x xs)
  then consider "c x" "greedy c k (Some x) xs g = Some r" | "k p (x # xs) g = Some r"
    by (auto simp: orelse_Some split: if_splits)
  then show ?case
  proof cases
    case 1
    from Cons.IH [OF 1(2)] obtain p' s' ys where "xs = ys @ s'" "list_all c ys" "k p' s' g = Some r" by blast
    with 1(1) show ?thesis by (intro exI [of _ p'] exI [of _ s'] conjI exI [of _ "x # ys"]) auto
  next
    case 2
    then show ?thesis by (intro exI [of _ p] exI [of _ "x # xs"] conjI exI [of _ "[]"]) auto
  qed
qed

lemma lazy_eats: "lazy c k p s g = Some r \<Longrightarrow> \<exists>p' s'. (\<exists>xs. s = xs @ s' \<and> list_all c xs) \<and> k p' s' g = Some r"
proof (induction s arbitrary: p)
  case Nil
  then show ?case by auto
next
  case (Cons x xs)
  then consider "c x" "lazy c k (Some x) xs g = Some r" | "k p (x # xs) g = Some r"
    by (auto simp: orelse_Some split: if_splits)
  then show ?case
  proof cases
    case 1
    from Cons.IH [OF 1(2)] obtain p' s' ys where "xs = ys @ s'" "list_all c ys" "k p' s' g = Some r" by blast
    with 1(1) show ?thesis by (intro exI [of _ p'] exI [of _ s'] conjI exI [of _ "x # ys"]) auto
  next
    case 2
    then show ?thesis by (intro exI [of _ p] exI [of _ "x # xs"] conjI exI [of _ "[]"]) auto
  qed
qed

lemma mt_eats: "mt r k p s g = Some x \<Longrightarrow> \<exists>p' s' g'. eats r p s g p' s' g' \<and> k p' s' g' = Some x"
proof (induction r arbitrary: k p s g)
  case (Seq a b)
  from Seq.prems have "mt a (mt b k) p s g = Some x" by simp
  from Seq.IH(1) [OF this] obtain p1 s1 g1 where e: "eats a p s g p1 s1 g1" "mt b k p1 s1 g1 = Some x" by blast
  from Seq.IH(2) [OF e(2)] e(1) show ?case unfolding eats.simps by blast
next
  case (Alt a b)
  from Alt.prems have "mt a k p s g = Some x \<or> mt b k p s g = Some x" by (auto simp: orelse_Some)
  then show ?case unfolding eats.simps using Alt.IH by blast
next
  case (Many c)
  then have "greedy c k p s g = Some x" by simp
  from greedy_eats [OF this] show ?case unfolding eats.simps by blast
next
  case (Lazy c)
  then have "lazy c k p s g = Some x" by simp
  from lazy_eats [OF this] show ?case unfolding eats.simps by blast
next
  case (Opt a)
  from Opt.prems have "mt a k p s g = Some x \<or> k p s g = Some x" by (auto simp: orelse_Some)
  then show ?case
  proof
    assume "mt a k p s g = Some x"
    from Opt.IH [OF this] show ?thesis unfolding eats.simps by blast
  qed (intro exI [of _ p] exI [of _ s] exI [of _ g], simp)
next
  case (Group n a)
  from Group.IH [OF Group.prems [unfolded mt.simps]] obtain p' s' g1
    where "eats a p s g p' s' g1" "k p' s' ((n, take (length s - length s') s) # g1) = Some x" by blast
  then show ?case unfolding eats.simps by (intro exI conjI) (rule refl | assumption)+
next
  case (Cls c)
  from Cls.prems obtain y ys where y: "s = y # ys" "c y" "k (Some y) ys g = Some x"
    by (auto split: list.splits if_splits)
  then show ?case unfolding eats.simps by (intro exI conjI) (rule refl | assumption)+
next
  case Wordb
  from Wordb.prems have "word_at p \<noteq> word_at (first s)" "k p s g = Some x" by (simp_all split: if_splits)
  then show ?case unfolding eats.simps by blast
next
  case Eos
  from Eos.prems have "s = [] \<or> s = [CHR 0x0A]" "k p s g = Some x" by (simp_all split: if_splits)
  then show ?case unfolding eats.simps by blast
qed (simp_all split: if_splits, blast?)

lemma eats_lit: "eats (lit l) p s g p' s' g' \<Longrightarrow> s = l @ s' \<and> g' = g"
  by (induction l arbitrary: p s g) (force simp: ch_def)+

lemma eats_Rep: "eats (Rep n (Cls c)) p s g p' s' g' \<Longrightarrow> (\<exists>xs. s = xs @ s' \<and> list_all c xs \<and> length xs = n) \<and> g' = g"
proof (induction n arbitrary: p s g)
  case (Suc n)
  then obtain y s1 p1 where "s = y # s1" "c y" "eats (Rep n (Cls c)) p1 s1 g p' s' g'" by auto
  moreover from Suc.IH [OF this(3)] obtain xs where "s1 = xs @ s'" "list_all c xs" "length xs = n" "g' = g" by blast
  ultimately show ?case by (intro conjI exI [of _ "y # xs"]) auto
qed simp

lemma eats_Plus: "eats (Plus c) p s g p' s' g' \<Longrightarrow> (\<exists>xs. s = xs @ s' \<and> list_all c xs \<and> xs \<noteq> []) \<and> g' = g"
  unfolding Plus_def eats.simps by (elim exE conjE) (intro conjI exI [of _ "_ # _"], auto)

section \<open>Anchored lines\<close>

lemma re_match_Some: "re_match r s = Some g \<Longrightarrow> \<exists>p' s' g'. eats r None s [] p' s' g'
    \<and> g = (0, take (length s - length s') s) # g'"
  by (auto simp: re_match_def match_at_def done_k_def dest!: mt_eats)

lemma re_match_ok: "mt r (done_k s) None s [] = Some x \<Longrightarrow> \<exists>g. re_match r s = Some g"
  by (cases x) (simp add: re_match_def match_at_def)

lemma group_Cons: "group ((m, s) # g) n = (if m = n then s else group g n)"
  by (simp add: group_def)

lemma eats_suffix: "eats r p s g p' s' g' \<Longrightarrow> \<exists>xs. s = xs @ s'"
proof (induction r arbitrary: p s g p' s' g')
  case (Seq a b)
  from Seq.prems obtain p1 s1 g1 where e: "eats a p s g p1 s1 g1" "eats b p1 s1 g1 p' s' g'" by auto
  from Seq.IH(1) [OF e(1)] Seq.IH(2) [OF e(2)] show ?case by (metis append_assoc)
qed auto

lemma seqsE:
  assumes "eats (seqs (r # rs)) p s g p' s' g'"
  obtains p1 s1 g1 where "eats r p s g p1 s1 g1" "eats (seqs rs) p1 s1 g1 p' s' g'"
  using assms by auto

lemma seqs_NilD: "eats (seqs []) p s g p' s' g' \<Longrightarrow> s' = s \<and> g' = g"
  by simp

lemma seqs_end: "eats (seqs (rs @ [Eos])) p s g p' s' g' \<Longrightarrow> CHR 0x0A \<notin> set s \<Longrightarrow> eats (seqs rs) p s g p' [] g'"
proof (induction rs arbitrary: p s g)
  case (Cons r rs)
  from Cons.prems(1) obtain p1 s1 g1 where e: "eats r p s g p1 s1 g1" "eats (seqs (rs @ [Eos])) p1 s1 g1 p' s' g'"
    by (auto elim: seqsE)
  from eats_suffix [OF e(1)] Cons.prems(2) have "CHR 0x0A \<notin> set s1" by auto
  from Cons.IH [OF e(2) this] e(1) show ?case by auto
qed auto

text \<open>A line without a newline that matches an anchored expression is consumed by its parts.\<close>

lemma line_match:
  assumes "re_match (seqs (Bos # rs @ [Eos])) s = Some g" "CHR 0x0A \<notin> set s"
  obtains p' g' where "eats (seqs rs) None s [] p' [] g'" "\<And>n. n \<noteq> 0 \<Longrightarrow> group g n = group g' n"
    "map_of g 3 = map_of g' 3"
proof -
  from re_match_Some [OF assms(1)] obtain p' s' g' where e: "eats (seqs (Bos # rs @ [Eos])) None s [] p' s' g'"
    "g = (0, take (length s - length s') s) # g'" by blast
  from e(1) have "eats (seqs (rs @ [Eos])) None s [] p' s' g'" by (auto elim: seqsE)
  from seqs_end [OF this assms(2)] show thesis by (rule that) (auto simp: e(2) group_Cons)
qed

lemma eats_Group_drop:
  assumes "eats (Group n r) p s g p' s' g'" "\<And>g1. eats r p s g p' s' g1 \<Longrightarrow> \<exists>xs. s = xs @ s' \<and> P xs \<and> g1 = g"
  shows "\<exists>xs. s = xs @ s' \<and> P xs \<and> g' = (n, xs) # g"
proof -
  from assms(1) obtain g1 where "eats r p s g p' s' g1" "g' = (n, take (length s - length s') s) # g1" by auto
  with assms(2) [OF this(1)] show ?thesis by auto
qed

section \<open>Searches and backtracking\<close>

lemma search_skip:
  assumes "\<And>i q. i < length pre \<Longrightarrow> match_at r q (drop i (pre @ s)) = None"
  shows "\<exists>q. search_from r p (pre @ s) = search_from r q s"
  using assms
proof (induction pre arbitrary: p)
  case (Cons x xs)
  have "match_at r q ((x # xs) @ s) = None" for q using Cons.prems [of 0 q] by simp
  moreover have "\<exists>q. search_from r (Some x) (xs @ s) = search_from r q s"
  proof (rule Cons.IH)
    fix i q assume "i < length xs"
    then show "match_at r q (drop i (xs @ s)) = None" using Cons.prems [of "Suc i" q] by simp
  qed
  ultimately show ?case by simp
qed auto

lemma search_here: "match_at r q s = Some x \<Longrightarrow> search_from r q s = Some x"
  by (cases s) auto

lemma greedy_fails:
  assumes "\<And>i q. i \<le> length ys \<Longrightarrow> k q (drop i ys @ s) g = None" and "list_all c ys" "s = [] \<or> \<not> c (hd s)"
  shows "greedy c k p (ys @ s) g = None"
  using assms
proof (induction ys arbitrary: p)
  case Nil
  then show ?case using Nil.prems(1) [of 0] by (cases s) auto
next
  case (Cons y ys)
  have "greedy c k (Some y) (ys @ s) g = None"
  proof (rule Cons.IH)
    fix i q assume "i \<le> length ys"
    then show "k q (drop i ys @ s) g = None" using Cons.prems(1) [of "Suc i"] by simp
  qed (use Cons.prems in auto)
  moreover have "k p ((y # ys) @ s) g = None" using Cons.prems(1) [of 0] by simp
  ultimately show ?case by simp
qed

text \<open>A greedy repetition that gives back the end of its run.\<close>

lemma greedy_back:
  assumes "list_all c (xs @ ys)" "s = [] \<or> \<not> c (hd s)" "ys \<noteq> []"
    and "\<And>i q. 0 < i \<Longrightarrow> i \<le> length ys \<Longrightarrow> k q (drop i ys @ s) g = None"
    and "k (if xs = [] then p else Some (last xs)) (ys @ s) g = Some r"
  shows "greedy c k p (xs @ ys @ s) g = Some r"
  using assms(1,5)
proof (induction xs arbitrary: p)
  case Nil
  from assms(3) obtain y zs where y: "ys = y # zs" by (cases ys) auto
  have "greedy c k (Some y) (zs @ s) g = None"
  proof (rule greedy_fails)
    fix i q assume "i \<le> length zs"
    then show "k q (drop i zs @ s) g = None" using assms(4) [of "Suc i"] y by simp
  qed (use Nil y assms(2) in auto)
  then show ?case using Nil y by simp
next
  case (Cons x xs)
  have "greedy c k (Some x) (xs @ ys @ s) g = Some r"
    using Cons.prems by (intro Cons.IH) (auto split: if_splits)
  then show ?case using Cons.prems by simp
qed

end
