(* ===== verification/Gen_Random.thy ===== *)
theory Gen_Random
  imports Py_Float Py_Regex "HOL-Library.While_Combinator" "HOL-Library.AList"
begin

text \<open>
  The random program generator of \<^verbatim>\<open>tb/cosim/gen_random_prog.py\<close>. The class \<open>Gen\<close> is a
  record; an emitted line is a value of \<open>asm\<close> and \<open>show_asm\<close> is the text of it. The draws
  of \<^verbatim>\<open>random.Random(seed)\<close> are read from a tape that the seed determines: every draw is
  some tape value reduced to the range asked for, so a statement for all tapes covers every
  seed. An operation that may raise returns \<open>py_error + value \<times> state\<close>.
\<close>

section \<open>Tables\<close>

definition BASE_REG :: nat where "BASE_REG = 8"
definition DEFAULT_POOL :: "nat list" where
  "DEFAULT_POOL = [5, 6, 7, 9, 10, 11, 12, 13, 14, 15, 16, 17]"

definition SCRATCH_WORDS :: int where "SCRATCH_WORDS = 64"
definition SCRATCH_BYTES :: int where "SCRATCH_BYTES = SCRATCH_WORDS * 4"

definition RR_OPS :: "string list" where
  "RR_OPS = [''add'', ''sub'', ''sll'', ''slt'', ''sltu'', ''xor'', ''srl'', ''sra'', ''or'', ''and'']"
definition RI_OPS :: "string list" where
  "RI_OPS = [''addi'', ''slti'', ''sltiu'', ''xori'', ''ori'', ''andi'']"
definition SHIFT_I :: "string list" where "SHIFT_I = [''slli'', ''srli'', ''srai'']"
definition LOADS :: "(string \<times> int) list" where
  "LOADS = [(''lw'', 4), (''lh'', 2), (''lhu'', 2), (''lb'', 1), (''lbu'', 1)]"
definition STORES :: "(string \<times> int) list" where
  "STORES = [(''sw'', 4), (''sh'', 2), (''sb'', 1)]"
definition BRANCHES :: "string list" where
  "BRANCHES = [''beq'', ''bne'', ''blt'', ''bge'', ''bltu'', ''bgeu'']"
definition MULDIV :: "string list" where
  "MULDIV = [''mul'', ''mulh'', ''mulhsu'', ''mulhu'', ''div'', ''divu'', ''rem'', ''remu'']"
definition BM_RR :: "string list" where
  "BM_RR = [''sh1add'', ''sh2add'', ''sh3add'', ''andn'', ''orn'', ''xnor'',
     ''min'', ''minu'', ''max'', ''maxu'', ''rol'', ''ror'',
     ''bset'', ''bclr'', ''binv'', ''bext'', ''pack'', ''packh'', ''czero.eqz'', ''czero.nez'']"
definition BM_RI :: "string list" where
  "BM_RI = [''rori'', ''bseti'', ''bclri'', ''binvi'', ''bexti'']"
definition BM_UN :: "string list" where
  "BM_UN = [''clz'', ''ctz'', ''cpop'', ''sext.b'', ''sext.h'', ''zext.h'',
     ''orc.b'', ''rev8'', ''brev8'', ''zip'', ''unzip'']"

definition RAW_DISTANCE :: int where "RAW_DISTANCE = 3"
definition LOAD_USE_DISTANCE :: int where "LOAD_USE_DISTANCE = 3"

section \<open>Lines\<close>

datatype asm =
    Label nat
  | Base_hi
  | Base_lo
  | Nop
  | RR string nat nat nat
  | RI string nat nat int
  | UNA string nat nat
  | UP string nat int
  | LD string nat int nat
  | ST string nat int nat
  | BR string nat nat nat
  | JAL nat nat

definition label_name :: "nat \<Rightarrow> string" where "label_name n = ''.Lb'' @ show_nat n"

definition xreg :: "nat \<Rightarrow> string" where "xreg r = CHR ''x'' # show_nat r"

definition indent :: "string \<Rightarrow> string" where "indent s = ''        '' @ s"

fun show_asm :: "asm \<Rightarrow> string" where
  "show_asm (Label l) = label_name l @ '':''"
| "show_asm Base_hi = ''1:      auipc   '' @ xreg BASE_REG @ '', %pcrel_hi(scratch)''"
| "show_asm Base_lo = indent (''addi   '' @ xreg BASE_REG @ '', '' @ xreg BASE_REG @ '', %pcrel_lo(1b)'')"
| "show_asm Nop = indent ''nop''"
| "show_asm (RR op rd rs1 rs2) =
     indent (ljust 6 op @ '' '' @ xreg rd @ '', '' @ xreg rs1 @ '', '' @ xreg rs2)"
| "show_asm (RI op rd rs1 i) =
     indent (ljust 6 op @ '' '' @ xreg rd @ '', '' @ xreg rs1 @ '', '' @ show_int i)"
| "show_asm (UNA op rd rs1) = indent (ljust 6 op @ '' '' @ xreg rd @ '', '' @ xreg rs1)"
| "show_asm (UP op rd i) = indent (ljust 6 op @ '' '' @ xreg rd @ '', '' @ show_int i)"
| "show_asm (LD op rd off base) =
     indent (ljust 6 op @ '' '' @ xreg rd @ '', '' @ show_int off @ ''('' @ xreg base @ '')'')"
| "show_asm (ST op rs2 off base) =
     indent (ljust 6 op @ '' '' @ xreg rs2 @ '', '' @ show_int off @ ''('' @ xreg base @ '')'')"
| "show_asm (BR op rs1 rs2 l) =
     indent (ljust 6 op @ '' '' @ xreg rs1 @ '', '' @ xreg rs2 @ '', '' @ label_name l)"
| "show_asm (JAL rd l) = indent (''jal    '' @ xreg rd @ '', '' @ label_name l)"

section \<open>The generator's state\<close>

record Gen =
  tape :: "nat \<Rightarrow> nat"
  pos :: nat
  g_n :: nat
  pool :: "nat list"
  raw_d :: rat
  lu_d :: rat
  br_d :: rat
  mul_d :: rat
  bm_d :: rat
  out :: "asm list"
  idx :: int
  last_write :: "(nat \<times> int) list"
  last_was_load :: "(nat \<times> bool) list"
  label_n :: nat
  pending_labels :: "(int \<times> nat) list"
  label_hold :: bool

definition Gen_init :: "(nat \<Rightarrow> nat) \<Rightarrow> nat \<Rightarrow> nat list \<Rightarrow> rat \<Rightarrow> rat \<Rightarrow> rat \<Rightarrow> rat \<Rightarrow> rat \<Rightarrow> Gen" where
  "Gen_init t n p raw lu br mul bm =
     \<lparr>tape = t, pos = 0, g_n = n, pool = p, raw_d = raw, lu_d = lu, br_d = br, mul_d = mul, bm_d = bm,
      out = [], idx = 0, last_write = [], last_was_load = [], label_n = 0, pending_labels = [],
      label_hold = False\<rparr>"

section \<open>Draws\<close>

type_synonym 'a gm = "Gen \<Rightarrow> ('a \<times> Gen) res"

definition gret :: "'a \<Rightarrow> 'a gm" where "gret a g = Inr (a, g)"

definition gbind :: "'a gm \<Rightarrow> ('a \<Rightarrow> 'b gm) \<Rightarrow> 'b gm" where
  "gbind m f g = rbind (m g) (\<lambda>(a, g'). f a g')"

definition gdo :: "(Gen \<Rightarrow> Gen) \<Rightarrow> unit gm" where "gdo f g = Inr ((), f g)"

definition gthen :: "unit gm \<Rightarrow> 'b gm \<Rightarrow> 'b gm" where "gthen m k = gbind m (\<lambda>u. k)"

definition draw :: "Gen \<Rightarrow> nat \<times> Gen" where
  "draw g = (tape g (pos g), g\<lparr>pos := pos g + 1\<rparr>)"

definition rnd :: "Gen \<Rightarrow> rat \<times> Gen" where
  "rnd g = (let (k, g) = draw g in (of_nat (k mod 2 ^ 53) / 2 ^ 53, g))"

definition random :: "rat gm" where "random g = Inr (rnd g)"

definition randrange :: "int \<Rightarrow> int \<Rightarrow> int gm" where
  "randrange lo hi g = (
    if hi \<le> lo then Inl (ValueError ''empty range for randrange()'')
    else let (k, g) = draw g in Inr (lo + int k mod (hi - lo), g))"

definition choice :: "'a list \<Rightarrow> 'a gm" where
  "choice xs g = (if xs = [] then Inl IndexError
                  else let (k, g) = draw g in Inr (xs ! (k mod length xs), g))"

text \<open>\<^verbatim>\<open>self.rng.random() < p\<close> for a float literal \<open>p\<close>.\<close>

definition chance :: "rat \<Rightarrow> bool gm" where
  "chance p = gbind random (\<lambda>x. gret (x < fl p))"

section \<open>Emission\<close>

definition emit :: "asm \<Rightarrow> Gen \<Rightarrow> Gen" where
  "emit a g = (
    let due = (if label_hold g then [] else map snd (filter (\<lambda>(due_at, l). due_at \<le> idx g) (pending_labels g)));
        g = (if due \<noteq> [] then
               g\<lparr>out := out g @ map Label due,
                 pending_labels := filter (\<lambda>(due_at, l). l \<notin> set due) (pending_labels g)\<rparr>
             else g)
    in g\<lparr>out := out g @ [a], idx := idx g + 1\<rparr>)"

definition nop :: "Gen \<Rightarrow> Gen" where "nop g = emit Nop g"

definition nops :: "nat \<Rightarrow> Gen \<Rightarrow> Gen" where "nops n = (nop ^^ n)"

definition was_load :: "Gen \<Rightarrow> nat \<Rightarrow> bool" where
  "was_load g r = (map_of (last_was_load g) r = Some True)"

definition need_one :: "nat \<Rightarrow> int \<times> Gen \<Rightarrow> int \<times> Gen" where
  "need_one r = (\<lambda>(need, g).
    case map_of (last_write g) r of
      None \<Rightarrow> (need, g)
    | Some w \<Rightarrow>
        if r = 0 then (need, g)
        else
          let dist = idx g - w;
              want = (if was_load g r then LOAD_USE_DISTANCE else RAW_DISTANCE);
              density = (if was_load g r then lu_d g else raw_d g)
          in if dist < want then
               (let (x, g) = rnd g in (if x \<ge> density then max need (want - dist) else need, g))
             else (need, g))"

definition need_loop :: "nat list \<Rightarrow> Gen \<Rightarrow> int \<times> Gen" where
  "need_loop rs g = fold need_one rs (0, g)"

lemma emit_last_write [simp]: "last_write (emit a g) = last_write g" "idx (emit a g) = idx g + 1"
  by (simp_all add: emit_def Let_def)

lemma nops_fields [simp]: "last_write (nops n g) = last_write g" "idx (nops n g) = idx g + int n"
  by (induction n) (simp_all add: nops_def nop_def)

text \<open>A draw moves the tape and nothing else.\<close>

definition same_but_pos :: "Gen \<Rightarrow> Gen \<Rightarrow> bool" where
  "same_but_pos g g' \<longleftrightarrow> (\<exists>p. g' = g\<lparr>pos := p\<rparr>)"

lemma same_but_pos_refl [simp]: "same_but_pos g g"
  unfolding same_but_pos_def by (rule exI [of _ "pos g"]) simp

lemma same_but_pos_trans: "same_but_pos a b \<Longrightarrow> same_but_pos b c \<Longrightarrow> same_but_pos a c"
  by (auto simp: same_but_pos_def)

lemma same_but_pos_rnd [simp]: "same_but_pos g (snd (rnd g))"
  by (auto simp: same_but_pos_def rnd_def draw_def)

lemma same_but_posD:
  "same_but_pos g g' \<Longrightarrow> last_write g' = last_write g \<and> idx g' = idx g"
  by (auto simp: same_but_pos_def)

lemma need_one_same: "same_but_pos g (snd (need_one r (n, g)))"
  by (simp add: need_one_def Let_def case_prod_beta split: option.split)

lemma need_one_short:
  assumes "\<not> 0 < n" and "0 < fst (need_one r (n, g))"
  shows "\<exists>w. map_of (last_write g) r = Some w \<and> idx g - w < 3"
  using assms
  by (auto simp: need_one_def Let_def case_prod_beta LOAD_USE_DISTANCE_def RAW_DISTANCE_def
      split: option.splits if_splits)

lemma need_fold_same: "same_but_pos g (snd (fold need_one rs (n, g)))"
proof (induction rs arbitrary: n g)
  case (Cons r rs)
  show ?case
    using Cons.IH [where g = "snd (need_one r (n, g))" and n = "fst (need_one r (n, g))"]
      need_one_same [of g r n] by (auto intro: same_but_pos_trans)
qed simp

lemma need_fold_short:
  "0 < fst (fold need_one rs (n, g)) \<Longrightarrow> \<not> 0 < n \<Longrightarrow>
     \<exists>r\<in>set rs. \<exists>w. map_of (last_write g) r = Some w \<and> idx g - w < 3"
proof (induction rs arbitrary: n g)
  case (Cons r rs)
  show ?case
  proof (cases "0 < fst (need_one r (n, g))")
    case True
    then show ?thesis using need_one_short Cons.prems(2) by (metis list.set_intros(1))
  next
    case False
    then show ?thesis
      using Cons.IH [of "fst (need_one r (n, g))" "snd (need_one r (n, g))"] Cons.prems(1)
        same_but_posD [OF need_one_same [of g r n]] by auto
  qed
qed simp

lemma need_loop_same: "same_but_pos g (snd (need_loop rs g))"
  by (simp add: need_loop_def need_fold_same)

lemma need_loop_short:
  "0 < fst (need_loop rs g) \<Longrightarrow> \<exists>r\<in>set rs. \<exists>w. map_of (last_write g) r = Some w \<and> idx g - w < 3"
  using need_fold_short [of rs 0 g] by (simp add: need_loop_def)

text \<open>How many cycles short the sources are, in total.\<close>

definition shortfall :: "nat list \<Rightarrow> (nat \<times> int) list \<Rightarrow> int \<Rightarrow> nat" where
  "shortfall rs lw i = sum_list (map (\<lambda>r. case map_of lw r of None \<Rightarrow> 0 | Some w \<Rightarrow> nat (3 - (i - w))) rs)"

lemma sum_list_less:
  fixes f h :: "'a \<Rightarrow> nat"
  shows "(\<And>x. x \<in> set xs \<Longrightarrow> f x \<le> h x) \<Longrightarrow> y \<in> set xs \<Longrightarrow> f y < h y \<Longrightarrow>
    sum_list (map f xs) < sum_list (map h xs)"
proof (induction xs)
  case (Cons x xs)
  have le: "sum_list (map f xs) \<le> sum_list (map h xs)"
    using Cons.prems(1) by (intro sum_list_mono) auto
  show ?case
  proof (cases "f x < h x")
    case False
    then have "y \<in> set xs" using Cons.prems by auto
    then have "sum_list (map f xs) < sum_list (map h xs)" using Cons by auto
    moreover have "f x \<le> h x" using Cons.prems(1) by simp
    ultimately show ?thesis by simp
  qed (use le in simp)
qed simp

lemma shortfall_nops:
  assumes "r \<in> set rs" "map_of lw r = Some w" "i - w < 3" "0 < k"
  shows "shortfall rs lw (i + k) < shortfall rs lw i"
  unfolding shortfall_def
  using assms by (intro sum_list_less [of rs _ _ r]) (auto split: option.splits)

text \<open>\<^verbatim>\<open>_pad_for\<close>: the loop re-draws after each run of NOPs, so it is recursion on what the
  sources still lack.\<close>

function pad_for :: "nat list \<Rightarrow> Gen \<Rightarrow> Gen" where
  "pad_for rs g = (
    if fst (need_loop rs g) \<le> 0 then snd (need_loop rs g)
    else pad_for rs (nops (nat (fst (need_loop rs g))) (snd (need_loop rs g))))"
  by pat_completeness auto
termination
proof (relation "measure (\<lambda>(rs, g). shortfall rs (last_write g) (idx g))")
  fix rs g
  assume "\<not> fst (need_loop rs g) \<le> 0"
  then have n: "0 < fst (need_loop rs g)" by simp
  then obtain r w where "r \<in> set rs" "map_of (last_write g) r = Some w" "idx g - w < 3"
    using need_loop_short [of rs g] by auto
  with shortfall_nops [of r rs "last_write g" w "idx g" "fst (need_loop rs g)"] n
    same_but_posD [OF need_loop_same [of g rs]]
  show "((rs, nops (nat (fst (need_loop rs g))) (snd (need_loop rs g))), (rs, g))
      \<in> measure (\<lambda>(rs, g). shortfall rs (last_write g) (idx g))"
    by simp
qed simp

declare pad_for.simps [simp del]

definition wrote :: "nat \<Rightarrow> bool \<Rightarrow> Gen \<Rightarrow> Gen" where
  "wrote rd is_load g = (
    if rd \<noteq> 0 then g\<lparr>last_write := AList.update rd (idx g - 1) (last_write g),
                     last_was_load := AList.update rd is_load (last_was_load g)\<rparr>
    else g)"

definition rpick :: "nat gm" where "rpick g = choice (pool g) g"

definition P_X0_SOURCE :: rat where "P_X0_SOURCE = 0.05"
definition P_BM_EDGE :: rat where "P_BM_EDGE = 0.30"
definition P_MULDIV_EDGE :: rat where "P_MULDIV_EDGE = 0.30"
definition P_UPPER_FIELD_LIVE :: rat where "P_UPPER_FIELD_LIVE = 0.5"
definition P_ALIAS_BASE :: rat where "P_ALIAS_BASE = 0.25"
definition P_BRANCH_SAME_REG :: rat where "P_BRANCH_SAME_REG = 0.25"
definition P_JUMP :: rat where "P_JUMP = 0.15"

definition any_src :: "nat gm" where
  "any_src = gbind (chance P_X0_SOURCE) (\<lambda>z. if z then gret 0 else rpick)"

section \<open>Instructions\<close>

text \<open>Pad for the sources, emit, and record the write.\<close>

definition put :: "nat list \<Rightarrow> asm \<Rightarrow> nat \<Rightarrow> bool \<Rightarrow> Gen \<Rightarrow> Gen" where
  "put srcs a rd is_load g = wrote rd is_load (emit a (pad_for srcs g))"

definition bitmanip :: "unit gm" where
  "bitmanip =
    gbind (randrange 0 3) (\<lambda>kind.
    gbind rpick (\<lambda>rd.
    gbind any_src (\<lambda>rs1.
    if kind = 0 then
      gbind (choice BM_RR) (\<lambda>op.
      gbind any_src (\<lambda>rs2.
      gbind (if startswith op ''czero.'' then chance P_BM_EDGE else gret False) (\<lambda>edge.
      let rs2 = (if edge then 0 else rs2) in
      gdo (put [rs1, rs2] (RR op rd rs1 rs2) rd False))))
    else if kind = 1 then
      gbind (choice BM_RI) (\<lambda>op.
      gbind (chance P_BM_EDGE) (\<lambda>edge.
      gbind (if edge then choice [0, 31] else randrange 0 32) (\<lambda>sh.
      gdo (put [rs1] (RI op rd rs1 sh) rd False))))
    else
      gbind (choice BM_UN) (\<lambda>op.
      gdo (put [rs1] (UNA op rd rs1) rd False)))))"

definition reg_reg :: "unit gm" where
  "reg_reg =
    gbind (choice RR_OPS) (\<lambda>op.
    gbind rpick (\<lambda>rd.
    gbind any_src (\<lambda>rs1.
    gbind any_src (\<lambda>rs2.
    gdo (put [rs1, rs2] (RR op rd rs1 rs2) rd False)))))"

text \<open>The operand shapes random draws never produce; the result is the pair of source registers
  after the set-up instructions.\<close>

definition muldiv_edge :: "nat \<Rightarrow> nat \<Rightarrow> (nat \<times> nat) gm" where
  "muldiv_edge rs1 rs2 =
    gbind (randrange 0 3) (\<lambda>kind.
    if kind = 0 then gret (rs1, 0)
    else if kind = 1 then
      gbind rpick (\<lambda>rs2.
      gthen (gdo (put [] (RI ''addi'' rs2 0 (-1)) rs2 False))
      (gret (rs1, rs2)))
    else
      gbind rpick (\<lambda>rs1.
      gbind (\<lambda>g. choice (filter (\<lambda>r. r \<noteq> rs1) (pool g)) g) (\<lambda>rs2.
      gthen (gdo (put [] (UP ''lui'' rs1 0x80000) rs1 False))
      (gthen (gdo (put [] (RI ''addi'' rs2 0 (-1)) rs2 False))
      (gret (rs1, rs2))))))"

definition muldiv :: "unit gm" where
  "muldiv =
    gbind (choice MULDIV) (\<lambda>op.
    gbind rpick (\<lambda>rd.
    gbind any_src (\<lambda>rs1.
    gbind any_src (\<lambda>rs2.
    gbind (if hd op \<in> set ''dr'' then chance P_MULDIV_EDGE else gret False) (\<lambda>edge.
    gbind (if edge then muldiv_edge rs1 rs2 else gret (rs1, rs2)) (\<lambda>(rs1, rs2).
    gdo (put [rs1, rs2] (RR op rd rs1 rs2) rd False)))))))"

definition reg_imm :: "unit gm" where
  "reg_imm =
    gbind (chance 0.3) (\<lambda>shift.
    gbind (choice (if shift then SHIFT_I else RI_OPS)) (\<lambda>op.
    gbind (if shift then randrange 0 32 else randrange (-2048) 2048) (\<lambda>imm.
    gbind rpick (\<lambda>rd.
    gbind any_src (\<lambda>rs1.
    gdo (put [rs1] (RI op rd rs1 imm) rd False))))))"

text \<open>\<^verbatim>\<open>max(self.last_write, key=...)\<close>: the first key, in insertion order, with the largest
  value.\<close>

fun max_key :: "(nat \<times> int) list \<Rightarrow> (nat \<times> int) option" where
  "max_key [] = None"
| "max_key (x # xs) = (case max_key xs of None \<Rightarrow> Some x
     | Some y \<Rightarrow> if snd x \<ge> snd y then Some x else Some y)"

definition most_recent_write :: "Gen \<Rightarrow> nat option" where
  "most_recent_write g = map_option fst (max_key (last_write g))"

definition upper :: "unit gm" where
  "upper =
    gbind rpick (\<lambda>rd.
    gbind (randrange 0 (push_bit 20 1)) (\<lambda>imm.
    gbind (\<lambda>g. gret (most_recent_write g) g) (\<lambda>live.
    gbind (case live of None \<Rightarrow> gret False | Some l \<Rightarrow> chance P_UPPER_FIELD_LIVE) (\<lambda>use_live.
    let imm = (if use_live
               then (imm AND NOT (push_bit 3 0x1F)) OR push_bit 3 (int (the live)) else imm) in
    gbind (chance 0.7) (\<lambda>lui.
    gdo (put [] (UP (if lui then ''lui'' else ''auipc'') rd imm) rd False))))))"

definition hold :: "bool \<Rightarrow> Gen \<Rightarrow> Gen" where
  "hold b g = g\<lparr>label_hold := b\<rparr>"

definition mem_base :: "int \<Rightarrow> (nat \<times> int) gm" where
  "mem_base tot =
    gbind (chance P_ALIAS_BASE) (\<lambda>alias.
    if alias then
      gbind rpick (\<lambda>base.
      gbind (randrange 0 (tot + 1)) (\<lambda>k.
      gthen (gdo (put [] (RI ''addi'' base BASE_REG k) base False))
      (gthen (gdo (hold True))
      (gret (base, tot - k)))))
    else gret (BASE_REG, tot))"

definition mem :: "unit gm" where
  "mem =
    gbind (chance 0.5) (\<lambda>load.
    gbind (choice (if load then LOADS else STORES)) (\<lambda>(op, align).
    gbind (randrange 0 (SCRATCH_BYTES - 4)) (\<lambda>t.
    gbind (mem_base (t div align * align)) (\<lambda>(base, off).
    gthen (if load then
             gbind rpick (\<lambda>rd. gdo (put [base] (LD op rd off base) rd True))
           else
             gbind any_src (\<lambda>rs2. gdo (put [base, rs2] (ST op rs2 off base) 0 False)))
    (gdo (hold False))))))"

definition add_label :: "int \<Rightarrow> nat \<Rightarrow> Gen \<Rightarrow> Gen" where
  "add_label target l g = g\<lparr>pending_labels := pending_labels g @ [(target, l)]\<rparr>"

definition branch :: "unit gm" where
  "branch =
    gthen (gdo (\<lambda>g. g\<lparr>label_n := label_n g + 1\<rparr>))
    (gbind (\<lambda>g. gret (label_n g) g) (\<lambda>l.
    gbind (\<lambda>g. gret (idx g) g) (\<lambda>i.
    gbind (randrange 3 12) (\<lambda>d.
    let target = i + d in
    gbind (chance P_JUMP) (\<lambda>jmp.
    if jmp then
      gbind (chance 0.7) (\<lambda>w.
      gbind (if w then rpick else gret 0) (\<lambda>rd.
      gthen (gdo (add_label target l))
      (gdo (put [] (JAL rd l) rd False))))
    else
      gbind (choice BRANCHES) (\<lambda>op.
      gbind any_src (\<lambda>rs1.
      gbind (chance P_BRANCH_SAME_REG) (\<lambda>same.
      gbind (if same then gret rs1 else any_src) (\<lambda>rs2.
      gdo (\<lambda>g. emit (BR op rs1 rs2 l) (add_label target l (pad_for [rs1, rs2] g))))))))))))"

definition instruction :: "unit gm" where
  "instruction g = gbind random (\<lambda>pick.
    let base = fadd (fadd (br_d g) (mul_d g)) (bm_d g) in
    if pick < br_d g then branch
    else if pick < fadd (br_d g) (mul_d g) then muldiv
    else if pick < base then bitmanip
    else if pick < fadd base (fl 0.18) then mem
    else if pick < fadd base (fl 0.34) then upper
    else if pick < fadd base (fl 0.62) then reg_imm
    else reg_reg) g"

section \<open>The whole body\<close>

fun gfor :: "('a \<Rightarrow> unit gm) \<Rightarrow> 'a list \<Rightarrow> unit gm" where
  "gfor f [] = gret ()"
| "gfor f (x # xs) = gthen (f x) (gfor f xs)"

definition header :: "Gen \<Rightarrow> Gen" where
  "header g = (
    let g = g\<lparr>out := out g @ [Base_hi], idx := idx g + 1\<rparr>;
        g = nops (nat RAW_DISTANCE) g;
        g = emit Base_lo g;
        g = g\<lparr>last_write := AList.update BASE_REG (idx g - 1) (last_write g)\<rparr>
    in nops (nat RAW_DISTANCE) g)"

definition seed_lui :: "nat \<Rightarrow> unit gm" where
  "seed_lui r = gbind (randrange 0 (push_bit 20 1)) (\<lambda>i. gdo (put [] (UP ''lui'' r i) r False))"

definition seed_xori :: "nat \<Rightarrow> unit gm" where
  "seed_xori r = gthen (gdo (pad_for [r]))
    (gbind (randrange (-2048) 2048) (\<lambda>i. gdo (put [] (RI ''xori'' r r i) r False)))"

definition gen_body :: "unit gm" where
  "gen_body = gthen (gdo header)
    (gthen (\<lambda>g. gfor seed_lui (pool g) g)
    (gthen (\<lambda>g. gfor seed_xori (pool g) g)
    (\<lambda>g. gfor (\<lambda>i. instruction) [0..<g_n g] g)))"

text \<open>The final flush is a \<^verbatim>\<open>while\<close> loop that would not end if a label could never come due:
  \<open>None\<close> stands for that.\<close>

definition flush :: "Gen \<Rightarrow> Gen option" where
  "flush g = while_option (\<lambda>g. pending_labels g \<noteq> []) nop g"

definition gen_generate :: "Gen \<Rightarrow> asm list res option" where
  "gen_generate g = (case gen_body g of
     Inl e \<Rightarrow> Some (Inl e)
   | Inr (u, g) \<Rightarrow> map_option (\<lambda>g. Inr (out g)) (flush g))"

end
