(* ===== verification/Gen_Props.thy ===== *)
theory Gen_Props
  imports Gen_Random
begin

text \<open>
  What the generator promises of every program, for every seed: the invariant of its state, a
  small Hoare logic for operations that draw and may raise, and the four rules of the source's
  header (no trap before the final ECALL) as theorems.
\<close>

section \<open>What a line reads, writes and targets\<close>

fun writes :: "asm \<Rightarrow> nat option" where
  "writes Base_hi = Some BASE_REG"
| "writes Base_lo = Some BASE_REG"
| "writes (RR op rd a b) = Some rd"
| "writes (RI op rd a i) = Some rd"
| "writes (UNA op rd a) = Some rd"
| "writes (UP op rd i) = Some rd"
| "writes (LD op rd off base) = Some rd"
| "writes (JAL rd l) = Some rd"
| "writes a = None"

fun reads :: "asm \<Rightarrow> nat list" where
  "reads Base_lo = [BASE_REG]"
| "reads (RR op rd a b) = [a, b]"
| "reads (RI op rd a i) = [a]"
| "reads (UNA op rd a) = [a]"
| "reads (LD op rd off base) = [base]"
| "reads (ST op rs2 off base) = [base, rs2]"
| "reads (BR op a b l) = [a, b]"
| "reads a = []"

fun target :: "asm \<Rightarrow> nat option" where
  "target (BR op a b l) = Some l"
| "target (JAL rd l) = Some l"
| "target a = None"

fun is_label :: "asm \<Rightarrow> bool" where
  "is_label (Label l) = True"
| "is_label a = False"

definition ins :: "asm list \<Rightarrow> asm list" where "ins xs = filter (\<lambda>a. \<not> is_label a) xs"

definition labels :: "asm list \<Rightarrow> nat list" where
  "labels xs = concat (map (\<lambda>a. case a of Label l \<Rightarrow> [l] | _ \<Rightarrow> []) xs)"

lemma ins_simps [simp]: "ins [] = []" "ins (xs @ ys) = ins xs @ ins ys" "ins (map Label ls) = []"
  "ins (a # xs) = (if is_label a then ins xs else a # ins xs)"
  by (simp_all add: ins_def)

lemma labels_simps [simp]: "labels [] = []" "labels (xs @ ys) = labels xs @ labels ys"
  "labels (map Label ls) = ls" "labels (Label l # xs) = l # labels xs"
  by (simp_all add: labels_def comp_def)

lemma labels_other [simp]: "\<not> is_label a \<Longrightarrow> labels (a # xs) = labels xs"
  by (cases a) (simp_all add: labels_def)

lemma label_mem: "Label l \<in> set xs \<longleftrightarrow> l \<in> set (labels xs)"
proof (induction xs)
  case (Cons a xs)
  then show ?case by (cases a) (auto simp: labels_def)
qed simp

text \<open>A predicate of every element and what precedes it.\<close>

definition all_pre :: "('a list \<Rightarrow> 'a \<Rightarrow> bool) \<Rightarrow> 'a list \<Rightarrow> bool" where
  "all_pre P xs \<longleftrightarrow> (\<forall>i<length xs. P (take i xs) (xs ! i))"

lemma all_pre_Nil [simp]: "all_pre P []"
  by (simp add: all_pre_def)

lemma all_pre_snoc [simp]: "all_pre P (xs @ [a]) \<longleftrightarrow> all_pre P xs \<and> P xs a"
  by (auto simp: all_pre_def nth_append less_Suc_eq)

lemma all_pre_append_triv:
  "(\<And>ys a. a \<in> set zs \<Longrightarrow> P ys a) \<Longrightarrow> all_pre P (xs @ zs) \<longleftrightarrow> all_pre P xs"
proof (induction zs rule: rev_induct)
  case (snoc z zs)
  then show ?case by (simp flip: append_assoc)
qed simp

lemma all_pre_split: "all_pre P (xs @ a # ys) \<Longrightarrow> P xs a"
  by (auto simp: all_pre_def dest: spec [of _ "length xs"])

section \<open>The invariant\<close>

definition pool_ok :: "nat list \<Rightarrow> bool" where
  "pool_ok p \<longleftrightarrow> BASE_REG \<notin> set p \<and> (\<forall>r\<in>set p. 0 < r \<and> r < 32) \<and> 2 \<le> card (set p)"

lemma pool_ok_nonempty: "pool_ok p \<Longrightarrow> p \<noteq> []"
  by (auto simp: pool_ok_def)

lemma pool_ok_other: "pool_ok p \<Longrightarrow> filter (\<lambda>r. r \<noteq> a) p \<noteq> []"
proof
  assume "pool_ok p" and "filter (\<lambda>r. r \<noteq> a) p = []"
  then have "set p \<subseteq> {a}" by (auto simp: filter_empty_conv)
  then have "card (set p) \<le> 1" using card_mono [of "{a}" "set p"] by simp
  with \<open>pool_ok p\<close> show False by (simp add: pool_ok_def)
qed

text \<open>Sizes of the memory mnemonics.\<close>

definition access_size :: "string \<Rightarrow> int" where
  "access_size op = (case map_of (LOADS @ STORES) op of Some n \<Rightarrow> n | None \<Rightarrow> 0)"

text \<open>A legal line over a register pool: a mnemonic of the tables, destinations in the pool,
  sources in the pool or \<^verbatim>\<open>x0\<close>, immediates in the range of the encoding.\<close>

definition src_ok :: "nat list \<Rightarrow> nat \<Rightarrow> bool" where
  "src_ok p r \<longleftrightarrow> r = 0 \<or> r \<in> set p"

fun line_ok :: "nat list \<Rightarrow> asm \<Rightarrow> bool" where
  "line_ok p (RR op rd a b) \<longleftrightarrow>
     op \<in> set (RR_OPS @ MULDIV @ BM_RR) \<and> rd \<in> set p \<and> src_ok p a \<and> src_ok p b"
| "line_ok p (RI op rd a i) \<longleftrightarrow> rd \<in> set p \<and> (src_ok p a \<or> a = BASE_REG) \<and>
     ((op \<in> set RI_OPS \<and> -2048 \<le> i \<and> i < 2048) \<or> (op \<in> set (SHIFT_I @ BM_RI) \<and> 0 \<le> i \<and> i < 32))"
| "line_ok p (UNA op rd a) \<longleftrightarrow> op \<in> set BM_UN \<and> rd \<in> set p \<and> src_ok p a"
| "line_ok p (UP op rd i) \<longleftrightarrow> op \<in> {''lui'', ''auipc''} \<and> rd \<in> set p \<and> 0 \<le> i \<and> i < 2 ^ 20"
| "line_ok p (LD op rd off base) \<longleftrightarrow> op \<in> set (map fst LOADS) \<and> rd \<in> set p
     \<and> (base = BASE_REG \<or> base \<in> set p) \<and> 0 \<le> off \<and> off < 2048"
| "line_ok p (ST op rs2 off base) \<longleftrightarrow> op \<in> set (map fst STORES) \<and> src_ok p rs2
     \<and> (base = BASE_REG \<or> base \<in> set p) \<and> 0 \<le> off \<and> off < 2048"
| "line_ok p (BR op a b l) \<longleftrightarrow> op \<in> set BRANCHES \<and> src_ok p a \<and> src_ok p b"
| "line_ok p (JAL rd l) \<longleftrightarrow> rd = 0 \<or> rd \<in> set p"
| "line_ok p a \<longleftrightarrow> True"

text \<open>The offset of an aliased base from the reserved base register: what the \<^verbatim>\<open>addi\<close> right
  before it (NOPs apart) added.\<close>

definition base_offset :: "asm list \<Rightarrow> nat \<Rightarrow> int option" where
  "base_offset pre base = (
    if base = BASE_REG then Some 0
    else case dropWhile (\<lambda>a. a = Nop) (rev pre) of
           RI op rd a k # _ \<Rightarrow> if op = ''addi'' \<and> rd = base \<and> a = BASE_REG then Some k else None
         | _ \<Rightarrow> None)"

fun access :: "asm \<Rightarrow> (string \<times> int \<times> nat) option" where
  "access (LD op rd off base) = Some (op, off, base)"
| "access (ST op rs2 off base) = Some (op, off, base)"
| "access a = None"

definition access_ok :: "asm list \<Rightarrow> asm \<Rightarrow> bool" where
  "access_ok pre a = (case access a of None \<Rightarrow> True
     | Some (op, off, base) \<Rightarrow>
        (case base_offset pre base of None \<Rightarrow> False
         | Some k \<Rightarrow> 0 \<le> k \<and> 0 \<le> off \<and> access_size op dvd k + off \<and> k + off + access_size op \<le> SCRATCH_BYTES))"

definition forward_ok :: "asm list \<Rightarrow> asm \<Rightarrow> bool" where
  "forward_ok pre a = (case target a of None \<Rightarrow> True | Some l \<Rightarrow> Label l \<notin> set pre)"

text \<open>The distance, in emitted instructions, from the last write of every source.\<close>

definition raw_ok :: "asm list \<Rightarrow> asm \<Rightarrow> bool" where
  "raw_ok pre a \<longleftrightarrow> (\<forall>r\<in>set (reads a). \<forall>j<length pre. r \<noteq> 0 \<longrightarrow> writes (pre ! j) = Some r \<longrightarrow> 3 \<le> length pre - j)"

definition lw_ok :: "asm list \<Rightarrow> (nat \<times> int) list \<Rightarrow> bool" where
  "lw_ok xs lw \<longleftrightarrow> (\<forall>r w. map_of lw r = Some w \<longrightarrow> r < 32 \<and> w < int (length xs)) \<and>
     (\<forall>j<length xs. \<forall>r. r \<noteq> 0 \<longrightarrow> writes (xs ! j) = Some r \<longrightarrow> (\<exists>w. map_of lw r = Some w \<and> int j \<le> w))"

definition labels_ok :: "nat \<Rightarrow> asm list \<Rightarrow> nat list \<Rightarrow> bool" where
  "labels_ok n xs pend \<longleftrightarrow> distinct (labels xs @ pend) \<and> (\<forall>l\<in>set (labels xs @ pend). l \<le> n)
     \<and> all_pre forward_ok xs
     \<and> (\<forall>a\<in>set xs. \<forall>l. target a = Some l \<longrightarrow> l \<in> set (labels xs @ pend))"

definition Ginv :: "nat list \<Rightarrow> Gen \<Rightarrow> bool" where
  "Ginv p g \<longleftrightarrow> pool_ok p \<and> pool g = p \<and> idx g = int (length (ins (out g)))
     \<and> lw_ok (ins (out g)) (last_write g)
     \<and> labels_ok (label_n g) (out g) (map snd (pending_labels g))
     \<and> list_all (line_ok p) (out g) \<and> all_pre access_ok (out g)
     \<and> (raw_d g = 0 \<and> lu_d g = 0 \<longrightarrow> all_pre raw_ok (ins (out g)))"

lemma Ginv_same: "Ginv p g \<Longrightarrow> same_but_pos g g' \<Longrightarrow> Ginv p g'"
  by (auto simp: same_but_pos_def Ginv_def)

section \<open>Emission keeps the invariant\<close>

lemma labels_ok_move:
  assumes "labels_ok n xs pend" and "distinct (d @ k)" and "set (d @ k) = set pend"
  shows "labels_ok n (xs @ map Label d) k"
proof -
  have "all_pre forward_ok (xs @ map Label d)"
    using assms(1) by (subst all_pre_append_triv) (auto simp: labels_ok_def forward_ok_def)
  moreover have "distinct (labels xs @ d @ k)"
    using assms by (auto simp: labels_ok_def)
  moreover have m: "set (labels xs @ d @ k) = set (labels xs @ pend)" using assms(3) by auto
  have "\<forall>l\<in>set (labels xs @ d @ k). l \<le> n"
    unfolding m using assms(1) by (simp add: labels_ok_def)
  moreover have "\<forall>a\<in>set (xs @ map Label d). \<forall>l. target a = Some l \<longrightarrow> l \<in> set (labels xs @ d @ k)"
    unfolding m using assms(1) by (auto simp: labels_ok_def)
  ultimately show ?thesis by (simp add: labels_ok_def)
qed

lemma labels_ok_due:
  assumes "labels_ok n xs (map snd pend)"
  shows "labels_ok n (xs @ map Label (map snd (filter P pend)))
    (map snd (filter (\<lambda>x. snd x \<notin> set (map snd (filter P pend))) pend))"
    (is "labels_ok n (xs @ map Label ?d) (map snd ?k)")
proof (rule labels_ok_move [OF assms])
  have dist: "distinct (map snd pend)" using assms by (simp add: labels_ok_def)
  have "x \<notin> set (map snd ?k)" if "x \<in> set ?d" for x
    using that by (simp only: set_map set_filter) blast
  then have "set ?d \<inter> set (map snd ?k) = {}" by blast
  then show "distinct (?d @ map snd ?k)"
    using dist by (simp only: distinct_append distinct_map_filter simp_thms)
  show "set (?d @ map snd ?k) = set (map snd pend)"
    by (simp only: set_append set_map set_filter) blast
qed

lemma lw_ok_snoc:
  assumes "lw_ok xs lw" and "writes a = None \<or> writes a = Some 0"
  shows "lw_ok (xs @ [a]) lw"
  using assms by (fastforce simp: lw_ok_def nth_append less_Suc_eq)

lemma lw_ok_snoc_write:
  assumes "lw_ok xs lw" and "writes a = Some r" "r < 32"
  shows "lw_ok (xs @ [a]) (AList.update r (int (length xs)) lw)"
  using assms by (fastforce simp: lw_ok_def nth_append less_Suc_eq update_conv)

text \<open>Emission, with the labels that come due spelled out.\<close>

definition due_of :: "Gen \<Rightarrow> nat list" where
  "due_of g = (if label_hold g then [] else map snd (filter (\<lambda>x. fst x \<le> idx g) (pending_labels g)))"

lemma emit_eq:
  "emit a g = g\<lparr>out := out g @ map Label (due_of g) @ [a], idx := idx g + 1,
     pending_labels := filter (\<lambda>x. snd x \<notin> set (due_of g)) (pending_labels g)\<rparr>"
proof -
  have "emit a g = (let g = (if due_of g \<noteq> [] then g\<lparr>out := out g @ map Label (due_of g),
        pending_labels := filter (\<lambda>x. snd x \<notin> set (due_of g)) (pending_labels g)\<rparr> else g)
      in g\<lparr>out := out g @ [a], idx := idx g + 1\<rparr>)"
    by (simp only: emit_def due_of_def Let_def case_prod_unfold)
  then show ?thesis by (cases "due_of g = []") simp_all
qed

lemma labels_ok_emit:
  assumes "labels_ok n (out g) (map snd (pending_labels g))"
  shows "labels_ok n (out g @ map Label (due_of g))
    (map snd (filter (\<lambda>x. snd x \<notin> set (due_of g)) (pending_labels g)))"
  using assms labels_ok_due [of n "out g" "pending_labels g" "\<lambda>x. fst x \<le> idx g"]
  by (cases "label_hold g") (simp_all add: due_of_def)

lemma labels_ok_snoc:
  assumes "labels_ok n xs pend" and "\<not> is_label a"
    and "\<And>l. target a = Some l \<Longrightarrow> l \<in> set pend"
  shows "labels_ok n (xs @ [a]) pend"
proof -
  have l: "labels (xs @ [a]) = labels xs" using assms(2) by simp
  have "l \<notin> set (labels xs)" if "target a = Some l" for l
    using assms(1) assms(3) [OF that] by (auto simp: labels_ok_def)
  then have "forward_ok xs a"
    by (auto simp: forward_ok_def label_mem split: option.splits)
  then show ?thesis
    using assms by (auto simp: labels_ok_def l)
qed

lemma label_facts [simp]:
  "line_ok p (Label l)" "access_ok pre (Label l)" "\<not> is_label Nop" "writes Nop = None" "reads Nop = []"
  "target Nop = None" "line_ok p Nop" "access_ok pre Nop"
  by (simp_all add: access_ok_def)

text \<open>One emission of a line whose side conditions hold, before its write is recorded.\<close>

lemma emit_parts:
  assumes "Ginv p g" and "\<not> is_label a" and "line_ok p a"
    and "access_ok (out g @ map Label (due_of g)) a"
    and "\<And>l. target a = Some l \<Longrightarrow> l \<in> snd ` set (pending_labels g) \<and> l \<notin> set (due_of g)"
    and "raw_d g = 0 \<Longrightarrow> lu_d g = 0 \<Longrightarrow> raw_ok (ins (out g)) a"
  shows "pool (emit a g) = p" "idx (emit a g) = int (length (ins (out (emit a g))))"
    "ins (out (emit a g)) = ins (out g) @ [a]"
    "labels_ok (label_n (emit a g)) (out (emit a g)) (map snd (pending_labels (emit a g)))"
    "list_all (line_ok p) (out (emit a g))" "all_pre access_ok (out (emit a g))"
    "raw_d (emit a g) = 0 \<and> lu_d (emit a g) = 0 \<longrightarrow> all_pre raw_ok (ins (out (emit a g)))"
proof -
  show "pool (emit a g) = p" using assms(1) by (simp add: emit_eq Ginv_def)
  show i: "ins (out (emit a g)) = ins (out g) @ [a]" using assms(2) by (simp add: emit_eq)
  show "idx (emit a g) = int (length (ins (out (emit a g))))"
    using assms(1) i by (simp add: Ginv_def)
  have "labels_ok (label_n g) ((out g @ map Label (due_of g)) @ [a])
      (map snd (filter (\<lambda>x. snd x \<notin> set (due_of g)) (pending_labels g)))"
    using assms by (intro labels_ok_snoc labels_ok_emit) (auto simp: Ginv_def)
  then show "labels_ok (label_n (emit a g)) (out (emit a g)) (map snd (pending_labels (emit a g)))"
    by (simp add: emit_eq)
  show "list_all (line_ok p) (out (emit a g))"
    using assms(1,3) by (auto simp: emit_eq Ginv_def list_all_iff)
  have "all_pre access_ok (out g @ map Label (due_of g))"
    using assms(1) by (subst all_pre_append_triv) (auto simp: Ginv_def)
  then have "all_pre access_ok ((out g @ map Label (due_of g)) @ [a])"
    using assms(4) by (simp only: all_pre_snoc)
  then show "all_pre access_ok (out (emit a g))" by (simp add: emit_eq)
  show "raw_d (emit a g) = 0 \<and> lu_d (emit a g) = 0 \<longrightarrow> all_pre raw_ok (ins (out (emit a g)))"
    using assms(1,6) i by (auto simp: Ginv_def emit_eq)
qed

lemma emit_inv:
  assumes "Ginv p g" "\<not> is_label a" "line_ok p a" "access_ok (out g @ map Label (due_of g)) a"
    and "\<And>l. target a = Some l \<Longrightarrow> l \<in> snd ` set (pending_labels g) \<and> l \<notin> set (due_of g)"
    and "raw_d g = 0 \<Longrightarrow> lu_d g = 0 \<Longrightarrow> raw_ok (ins (out g)) a"
    and "writes a = None \<or> writes a = Some 0"
  shows "Ginv p (emit a g)"
proof -
  note e = emit_parts [OF assms(1-4) assms(5) assms(6)]
  have "lw_ok (ins (out g) @ [a]) (last_write g)"
    using assms(1,7) lw_ok_snoc by (simp add: Ginv_def)
  then have "lw_ok (ins (out (emit a g))) (last_write (emit a g))" by (simp only: e(3) emit_last_write)
  moreover have "pool_ok p" using assms(1) by (simp add: Ginv_def)
  ultimately show ?thesis
    unfolding Ginv_def using e(1,2,4,5,6,7) by blast
qed

lemma GinvI_written:
  assumes "pool_ok p" "pool h = p" "idx h = int (length (ins (out h)))"
    "labels_ok (label_n h) (out h) (map snd (pending_labels h))"
    "list_all (line_ok p) (out h)" "all_pre access_ok (out h)"
    "raw_d h = 0 \<and> lu_d h = 0 \<longrightarrow> all_pre raw_ok (ins (out h))" "lw_ok (ins (out h)) lw"
  shows "Ginv p (h\<lparr>last_write := lw, last_was_load := ll\<rparr>)"
  using assms by (simp add: Ginv_def)

lemma emit_wrote_inv:
  assumes "Ginv p g" "\<not> is_label a" "line_ok p a" "access_ok (out g @ map Label (due_of g)) a"
    and "\<And>l. target a = Some l \<Longrightarrow> l \<in> snd ` set (pending_labels g) \<and> l \<notin> set (due_of g)"
    and "raw_d g = 0 \<Longrightarrow> lu_d g = 0 \<Longrightarrow> raw_ok (ins (out g)) a"
    and "rd < 32" "writes a = Some rd \<or> rd = 0 \<and> writes a = None"
  shows "Ginv p (wrote rd ld (emit a g))"
proof (cases "rd = 0")
  case True
  have w: "writes a = None \<or> writes a = Some 0" using assms(8) True by blast
  have "Ginv p (emit a g)" by (rule emit_inv [OF assms(1-4) assms(5) assms(6) w])
  then show ?thesis by (simp add: wrote_def True)
next
  case False
  note e = emit_parts [OF assms(1-4) assms(5) assms(6)]
  have len: "idx g = int (length (ins (out g)))" using assms(1) by (simp add: Ginv_def)
  have "lw_ok (ins (out g) @ [a]) (AList.update rd (int (length (ins (out g)))) (last_write g))"
    using assms(1,7,8) False by (intro lw_ok_snoc_write) (auto simp: Ginv_def)
  then have "lw_ok (ins (out (emit a g))) (AList.update rd (idx (emit a g) - 1) (last_write (emit a g)))"
    using len by (simp only: e(3) emit_last_write) simp
  moreover have "pool_ok p" using assms(1) by (simp add: Ginv_def)
  ultimately have "Ginv p ((emit a g)\<lparr>last_write := AList.update rd (idx (emit a g) - 1) (last_write (emit a g)),
      last_was_load := AList.update rd ld (last_was_load (emit a g))\<rparr>)"
    by (intro GinvI_written e)
  then show ?thesis using False by (simp only: wrote_def not_False_eq_True if_True)
qed

lemma nop_inv:
  assumes "Ginv p g" shows "Ginv p (nop g)"
  unfolding nop_def
proof (rule emit_inv [OF assms])
  show "raw_ok (ins (out g)) Nop" by (simp add: raw_ok_def)
qed simp_all

lemma nops_Suc: "nops (Suc n) g = nops n (nop g)"
  by (simp add: nops_def funpow_swap1)

lemma nops_0 [simp]: "nops 0 g = g"
  by (simp add: nops_def)

lemma nops_inv: "Ginv p g \<Longrightarrow> Ginv p (nops n g)"
  by (induction n arbitrary: g) (simp_all add: nops_Suc nop_inv)

section \<open>Padding\<close>

lemma pad_for_Nil [simp]: "pad_for [] g = g"
  by (simp add: pad_for.simps [of "[]"] need_loop_def)

lemma pad_step:
  "\<not> fst (need_loop rs g) \<le> 0 \<Longrightarrow>
     pad_for rs g = pad_for rs (nops (nat (fst (need_loop rs g))) (snd (need_loop rs g)))"
  "fst (need_loop rs g) \<le> 0 \<Longrightarrow> pad_for rs g = snd (need_loop rs g)"
  by (simp_all add: pad_for.simps [of rs g])

lemma pad_for_rule:
  assumes "P g" and "\<And>g g'. P g \<Longrightarrow> same_but_pos g g' \<Longrightarrow> P g'"
    and "\<And>g. P g \<Longrightarrow> 0 < fst (need_loop rs g) \<Longrightarrow> P (nops (nat (fst (need_loop rs g))) (snd (need_loop rs g)))"
  shows "P (pad_for rs g)"
  using assms(1,3)
proof (induction rs g rule: pad_for.induct)
  case (1 rs g)
  show ?case
  proof (cases "fst (need_loop rs g) \<le> 0")
    case True
    then show ?thesis using assms(2) [OF "1.prems"(1) need_loop_same] pad_step(2) by simp
  next
    case False
    then have "P (nops (nat (fst (need_loop rs g))) (snd (need_loop rs g)))"
      by (intro "1.prems") simp
    from "1.IH" [OF False this "1.prems"(2)] show ?thesis using pad_step(1) [OF False] by simp
  qed
qed

lemma pad_for_inv: "Ginv p g \<Longrightarrow> Ginv p (pad_for rs g)"
  by (rule pad_for_rule) (auto intro: Ginv_same nops_inv need_loop_same)

lemma emit_fields [simp]:
  "raw_d (emit a g) = raw_d g" "lu_d (emit a g) = lu_d g" "label_n (emit a g) = label_n g"
  "label_hold (emit a g) = label_hold g" "pool (emit a g) = pool g" "g_n (emit a g) = g_n g"
  "last_was_load (emit a g) = last_was_load g"
  by (simp_all add: emit_eq)

definition frame :: "Gen \<Rightarrow> Gen \<Rightarrow> bool" where
  "frame g g' \<longleftrightarrow> raw_d g' = raw_d g \<and> lu_d g' = lu_d g \<and> label_n g' = label_n g
     \<and> label_hold g' = label_hold g \<and> pool g' = pool g \<and> last_write g' = last_write g
     \<and> last_was_load g' = last_was_load g"

lemma frame_refl [simp]: "frame g g"
  by (simp add: frame_def)

lemma frame_trans: "frame a b \<Longrightarrow> frame b c \<Longrightarrow> frame a c"
  by (simp add: frame_def)

lemma frame_same: "same_but_pos g g' \<Longrightarrow> frame g g'"
  by (auto simp: same_but_pos_def frame_def)

lemma frame_nops: "frame g (nops n g)"
proof (induction n arbitrary: g)
  case (Suc n)
  have "frame g (nop g)" by (simp add: frame_def nop_def)
  with Suc show ?case by (simp add: nops_Suc) (metis frame_trans)
qed simp

lemma frame_pad: "frame g (pad_for rs g)"
proof -
  have "frame g h \<Longrightarrow> frame g (nops n (snd (need_loop rs h)))" for h n
    using frame_nops frame_same [OF need_loop_same [of h rs]] frame_trans by blast
  then show ?thesis
    by (intro pad_for_rule [where P = "frame g"]) (auto intro: frame_same frame_trans)
qed

text \<open>How far padding goes: never past three instructions after the latest write.\<close>

lemma need_one_le:
  assumes "\<forall>r w. map_of (last_write g) r = Some w \<longrightarrow> w \<le> m" and "n \<le> max 0 (m + 3 - idx g)"
  shows "fst (need_one r (n, g)) \<le> max 0 (m + 3 - idx g)"
proof (cases "map_of (last_write g) r")
  case None
  with assms(2) show ?thesis by (simp add: need_one_def)
next
  case (Some w)
  with assms(1) have "w \<le> m" by blast
  with assms(2) Some show ?thesis
    by (auto simp: need_one_def Let_def case_prod_beta LOAD_USE_DISTANCE_def RAW_DISTANCE_def)
qed

lemma need_fold_le:
  assumes "\<forall>r w. map_of (last_write g) r = Some w \<longrightarrow> w \<le> m" and "n \<le> max 0 (m + 3 - idx g)"
  shows "fst (fold need_one rs (n, g)) \<le> max 0 (m + 3 - idx g)"
  using assms
proof (induction rs arbitrary: n g)
  case (Cons r rs)
  have s: "last_write (snd (need_one r (n, g))) = last_write g" "idx (snd (need_one r (n, g))) = idx g"
    using same_but_posD [OF need_one_same [of g r n]] by auto
  have "fst (fold need_one rs (fst (need_one r (n, g)), snd (need_one r (n, g)))) \<le> max 0 (m + 3 - idx g)"
    using Cons.IH [of "snd (need_one r (n, g))" "fst (need_one r (n, g))"] Cons.prems
      need_one_le [OF Cons.prems, of r] s by simp
  then show ?case by simp
qed simp

lemma pad_for_idx:
  assumes "\<forall>r w. map_of (last_write g) r = Some w \<longrightarrow> w < idx g"
  shows "idx (pad_for rs g) \<le> idx g + 2"
proof -
  define m where "m = idx g - 1"
  have "last_write (pad_for rs g) = last_write g \<and> idx (pad_for rs g) \<le> m + 3"
  proof (rule pad_for_rule [where P = "\<lambda>h. last_write h = last_write g \<and> idx h \<le> m + 3"])
    show "last_write g = last_write g \<and> idx g \<le> m + 3" by (simp add: m_def)
  next
    fix h h'
    assume "last_write h = last_write g \<and> idx h \<le> m + 3" "same_but_pos h h'"
    then show "last_write h' = last_write g \<and> idx h' \<le> m + 3" using same_but_posD by simp
  next
    fix h
    assume h: "last_write h = last_write g \<and> idx h \<le> m + 3" and pos: "0 < fst (need_loop rs h)"
    have "\<forall>r w. map_of (last_write h) r = Some w \<longrightarrow> w \<le> m" using assms h by (auto simp: m_def)
    then have "fst (need_loop rs h) \<le> max 0 (m + 3 - idx h)"
      using need_fold_le [of h m 0 rs] by (simp add: need_loop_def)
    then show "last_write (nops (nat (fst (need_loop rs h))) (snd (need_loop rs h))) = last_write g
      \<and> idx (nops (nat (fst (need_loop rs h))) (snd (need_loop rs h))) \<le> m + 3"
      using h pos same_but_posD [OF need_loop_same [of h rs]] by simp
  qed
  then show ?thesis by (simp add: m_def)
qed

text \<open>With both densities zero, every source is at least three instructions old afterwards.\<close>

lemma rnd_nonneg: "0 \<le> fst (rnd g)"
  by (simp add: rnd_def draw_def)

lemma need_one_mono: "n \<le> fst (need_one r (n, g))"
  by (auto simp: need_one_def Let_def case_prod_beta split: option.split)

lemma need_one_zero:
  assumes "raw_d g = 0" "lu_d g = 0" "r \<noteq> 0" "map_of (last_write g) r = Some w" "idx g - w < 3"
  shows "0 < fst (need_one r (n, g))"
  using assms rnd_nonneg [of g]
  by (auto simp: need_one_def Let_def case_prod_beta LOAD_USE_DISTANCE_def RAW_DISTANCE_def)

lemma need_fold_mono: "n \<le> fst (fold need_one rs (n, g))"
proof (induction rs arbitrary: n g)
  case (Cons r rs)
  show ?case
    using Cons.IH [of "fst (need_one r (n, g))" "snd (need_one r (n, g))"] need_one_mono [of n r g] by simp
qed simp

lemma need_fold_zero:
  assumes "raw_d g = 0" "lu_d g = 0" "r \<in> set rs" "r \<noteq> 0" "map_of (last_write g) r = Some w" "idx g - w < 3"
  shows "0 < fst (fold need_one rs (n, g))"
  using assms
proof (induction rs arbitrary: n g)
  case (Cons q rs)
  have s: "same_but_pos g (snd (need_one q (n, g)))" by (rule need_one_same)
  show ?case
  proof (cases "q = r")
    case True
    then have "0 < fst (need_one q (n, g))" using need_one_zero Cons.prems by blast
    then show ?thesis
      using need_fold_mono [of "fst (need_one q (n, g))" rs "snd (need_one q (n, g))"] by simp
  next
    case False
    then show ?thesis
      using Cons.IH [of "snd (need_one q (n, g))" "fst (need_one q (n, g))"] Cons.prems s
      by (auto simp: same_but_pos_def)
  qed
qed simp

lemma pad_for_dist:
  "raw_d g = 0 \<Longrightarrow> lu_d g = 0 \<Longrightarrow> r \<in> set rs \<Longrightarrow> r \<noteq> 0 \<Longrightarrow>
     map_of (last_write (pad_for rs g)) r = Some w \<Longrightarrow> 3 \<le> idx (pad_for rs g) - w"
proof (induction rs g rule: pad_for.induct)
  case (1 rs g)
  show ?case
  proof (cases "fst (need_loop rs g) \<le> 0")
    case True
    have "map_of (last_write g) r = Some w"
      using "1.prems"(5) pad_step(2) [OF True] same_but_posD [OF need_loop_same [of g rs]] by simp
    then have "\<not> idx g - w < 3"
      using need_fold_zero [OF "1.prems"(1-4), of w 0] True by (auto simp: need_loop_def)
    then show ?thesis
      using pad_step(2) [OF True] same_but_posD [OF need_loop_same [of g rs]] by simp
  next
    case False
    let ?h = "nops (nat (fst (need_loop rs g))) (snd (need_loop rs g))"
    have "frame g ?h" using frame_nops frame_same [OF need_loop_same] frame_trans by blast
    then show ?thesis
      using "1.IH" [OF False] "1.prems" pad_step(1) [OF False] by (simp add: frame_def)
  qed
qed

section \<open>A Hoare logic for drawing operations\<close>

text \<open>Total correctness: from every state of the precondition the operation returns.\<close>

definition triple :: "(Gen \<Rightarrow> bool) \<Rightarrow> 'a gm \<Rightarrow> ('a \<Rightarrow> Gen \<Rightarrow> bool) \<Rightarrow> bool" where
  "triple P m Q \<longleftrightarrow> (\<forall>g. P g \<longrightarrow> (\<exists>a g'. m g = Inr (a, g') \<and> Q a g'))"

definition stable :: "(Gen \<Rightarrow> bool) \<Rightarrow> bool" where
  "stable P \<longleftrightarrow> (\<forall>g g'. P g \<longrightarrow> same_but_pos g g' \<longrightarrow> P g')"

lemma triple_bind: "triple P m Q \<Longrightarrow> (\<And>a. triple (Q a) (f a) R) \<Longrightarrow> triple P (gbind m f) R"
  by (fastforce simp: triple_def gbind_def)

lemma triple_then: "triple P m (\<lambda>u. Q) \<Longrightarrow> triple Q k R \<Longrightarrow> triple P (gthen m k) R"
  unfolding gthen_def by (rule triple_bind)

lemma triple_ret: "(\<And>g. P g \<Longrightarrow> Q a g) \<Longrightarrow> triple P (gret a) Q"
  by (simp add: triple_def gret_def)

lemma triple_do: "(\<And>g. P g \<Longrightarrow> Q () (f g)) \<Longrightarrow> triple P (gdo f) Q"
  by (simp add: triple_def gdo_def)

lemma triple_pre: "triple P m Q \<Longrightarrow> (\<And>g. P' g \<Longrightarrow> P g) \<Longrightarrow> triple P' m Q"
  by (auto simp: triple_def)

lemma triple_if: "(b \<Longrightarrow> triple P m Q) \<Longrightarrow> (\<not> b \<Longrightarrow> triple P n Q) \<Longrightarrow> triple P (if b then m else n) Q"
  by simp

lemma triple_pure: "(\<phi> \<Longrightarrow> triple P m Q) \<Longrightarrow> triple (\<lambda>g. P g \<and> \<phi>) m Q"
  by (auto simp: triple_def)

lemma same_but_pos_draw: "same_but_pos g (snd (draw g))"
  by (auto simp: same_but_pos_def draw_def)

lemma bind_ret [simp]: "gbind (gret a) f = f a"
  by (rule ext) (simp add: gbind_def gret_def)

lemma bind_random:
  "stable P \<Longrightarrow> (\<And>x. triple P (f x) R) \<Longrightarrow> triple P (gbind random f) R"
  by (rule triple_bind [where Q = "\<lambda>x. P"])
    (auto simp: triple_def random_def stable_def prod_eq_iff intro!: exI)

lemma bind_chance:
  "stable P \<Longrightarrow> (\<And>b. triple P (f b) R) \<Longrightarrow> triple P (gbind (chance q) f) R"
  by (rule triple_bind [where Q = "\<lambda>x. P"])
    (auto simp: chance_def intro!: bind_random triple_ret)

lemma bind_range:
  assumes "stable P" "lo < hi" "\<And>x. lo \<le> x \<Longrightarrow> x < hi \<Longrightarrow> triple P (f x) R"
  shows "triple P (gbind (randrange lo hi) f) R"
proof (rule triple_bind [where Q = "\<lambda>x g. P g \<and> (lo \<le> x \<and> x < hi)"])
  have "0 \<le> int k mod (hi - lo)" "int k mod (hi - lo) < hi - lo" for k using assms(2) by simp_all
  then show "triple P (randrange lo hi) (\<lambda>x g. P g \<and> (lo \<le> x \<and> x < hi))"
    using assms(1,2) same_but_pos_draw
    by (auto simp: triple_def randrange_def stable_def Let_def case_prod_beta less_diff_eq add.commute)
qed (use assms(3) in \<open>auto intro: triple_pure\<close>)

lemma bind_choice:
  assumes "stable P" "xs \<noteq> []" "\<And>x. x \<in> set xs \<Longrightarrow> triple P (f x) R"
  shows "triple P (gbind (choice xs) f) R"
proof (rule triple_bind [where Q = "\<lambda>x g. P g \<and> x \<in> set xs"])
  show "triple P (choice xs) (\<lambda>x g. P g \<and> x \<in> set xs)"
    using assms(1,2) same_but_pos_draw
    by (auto simp: triple_def choice_def stable_def Let_def case_prod_beta)
qed (use assms(3) in \<open>auto intro: triple_pure\<close>)

section \<open>The instruction-level invariant\<close>

definition Gbase :: "Gen \<Rightarrow> bool" where
  "Gbase g \<longleftrightarrow> (\<exists>w. map_of (last_write g) BASE_REG = Some w \<and> w + 3 \<le> idx g)"

definition Jinv :: "nat list \<Rightarrow> bool \<Rightarrow> Gen \<Rightarrow> bool" where
  "Jinv p h g \<longleftrightarrow> Ginv p g \<and> Gbase g \<and> label_hold g = h"

lemma stable_J: "stable (Jinv p h)"
  unfolding stable_def Jinv_def by (auto simp: same_but_pos_def Ginv_def Gbase_def)

lemma J_drawable: "Jinv p h g \<Longrightarrow> pool g = p \<and> p \<noteq> []"
  using pool_ok_nonempty by (auto simp: Jinv_def Ginv_def)

lemma bind_rpick:
  assumes "stable P" "\<And>g. P g \<Longrightarrow> pool g = p \<and> p \<noteq> []" "\<And>r. r \<in> set p \<Longrightarrow> triple P (f r) R"
  shows "triple P (gbind rpick f) R"
proof (rule triple_bind [where Q = "\<lambda>r g. P g \<and> r \<in> set p"])
  show "triple P rpick (\<lambda>r g. P g \<and> r \<in> set p)"
    unfolding triple_def
  proof (intro allI impI)
    fix g assume g: "P g"
    then have "pool g = p" "p \<noteq> []" using assms(2) by auto
    then show "\<exists>a g'. rpick g = Inr (a, g') \<and> P g' \<and> a \<in> set p"
      using assms(1) g same_but_pos_draw
      by (auto simp: rpick_def choice_def stable_def Let_def case_prod_beta)
  qed
qed (use assms(3) in \<open>auto intro: triple_pure\<close>)

lemma bind_bind: "gbind (gbind m f) k = gbind m (\<lambda>a. gbind (f a) k)"
  by (rule ext) (auto simp: gbind_def rbind_def split: sum.splits)

lemma bind_if: "gbind (if b then m else n) f = (if b then gbind m f else gbind n f)"
  by simp

lemma bind_any_src:
  assumes "stable P" "\<And>g. P g \<Longrightarrow> pool g = p \<and> p \<noteq> []" "\<And>r. src_ok p r \<Longrightarrow> triple P (f r) R"
  shows "triple P (gbind any_src f) R"
  unfolding any_src_def bind_bind
  using assms by (auto simp: bind_if src_ok_def intro!: bind_chance triple_if bind_rpick [where p = p])

lemma J_pool: "Jinv p h g \<Longrightarrow> pool_ok p"
  by (simp add: Jinv_def Ginv_def)

lemma nop_idx: "idx g \<le> idx (pad_for rs g)"
  by (rule pad_for_rule [where P = "\<lambda>h. idx g \<le> idx h"]) (auto simp: same_but_pos_def same_but_posD [OF need_loop_same])

lemma J_pad: "Jinv p h g \<Longrightarrow> Jinv p h (pad_for rs g)"
  using pad_for_inv [of p g rs] frame_pad [of g rs] nop_idx [of g rs]
  by (fastforce simp: Jinv_def Gbase_def frame_def)

text \<open>From the bookkeeping to the real distances.\<close>

lemma raw_ok_lw:
  assumes "Ginv p g"
    and "\<And>r w. r \<in> set (reads a) \<Longrightarrow> r \<noteq> 0 \<Longrightarrow> map_of (last_write g) r = Some w \<Longrightarrow> 3 \<le> idx g - w"
  shows "raw_ok (ins (out g)) a"
  unfolding raw_ok_def
proof (intro ballI allI impI)
  fix r j
  assume r: "r \<in> set (reads a)" "j < length (ins (out g))" "r \<noteq> 0" "writes (ins (out g) ! j) = Some r"
  have "lw_ok (ins (out g)) (last_write g)" using assms(1) by (simp add: Ginv_def)
  with r obtain w where "map_of (last_write g) r = Some w" "int j \<le> w"
    unfolding lw_ok_def by blast
  then have "3 \<le> idx g - int j" using assms(2) [OF r(1,3)] by fastforce
  then show "3 \<le> length (ins (out g)) - j" using assms(1) by (simp add: Ginv_def)
qed

lemma raw_ok_padded:
  assumes "Jinv p h g" "raw_d g = 0" "lu_d g = 0" "set (reads a) \<subseteq> set rs \<union> {0, BASE_REG}"
  shows "raw_ok (ins (out (pad_for rs g))) a"
proof (rule raw_ok_lw)
  have j: "Jinv p h (pad_for rs g)" by (rule J_pad [OF assms(1)])
  then show "Ginv p (pad_for rs g)" by (simp add: Jinv_def)
  fix r w
  assume r: "r \<in> set (reads a)" "r \<noteq> 0" "map_of (last_write (pad_for rs g)) r = Some w"
  show "3 \<le> idx (pad_for rs g) - w"
  proof (cases "r \<in> set rs")
    case True
    then show ?thesis using pad_for_dist assms(2,3) r by blast
  next
    case False
    then have "r = BASE_REG" using assms(4) r by auto
    then show ?thesis using j r by (auto simp: Jinv_def Gbase_def)
  qed
qed

lemma J_wrote_emit:
  assumes "Jinv p h g" "Ginv p (wrote rd ld (emit a g))" "rd \<noteq> BASE_REG"
  shows "Jinv p h (wrote rd ld (emit a g))"
  using assms by (auto simp: Jinv_def Gbase_def wrote_def update_conv)

lemma put_J:
  assumes "Jinv p h g" and "\<not> is_label a" "line_ok p a" "target a = None" "access a = None"
    and "set (reads a) \<subseteq> set rs \<union> {0, BASE_REG}" and "rd \<in> set p" "writes a = Some rd"
  shows "Jinv p h (put rs a rd ld g)"
proof -
  have j: "Jinv p h (pad_for rs g)" by (rule J_pad [OF assms(1)])
  have rd: "rd < 32" "rd \<noteq> BASE_REG" using J_pool [OF assms(1)] assms(7) by (auto simp: pool_ok_def)
  have "Ginv p (wrote rd ld (emit a (pad_for rs g)))"
  proof (rule emit_wrote_inv)
    show "Ginv p (pad_for rs g)" using j by (simp add: Jinv_def)
    show "access_ok (out (pad_for rs g) @ map Label (due_of (pad_for rs g))) a"
      using assms(5) by (simp add: access_ok_def)
    assume "raw_d (pad_for rs g) = 0" "lu_d (pad_for rs g) = 0"
    then show "raw_ok (ins (out (pad_for rs g))) a"
      using raw_ok_padded [OF assms(1) _ _ assms(6)] frame_pad [of g rs] by (simp add: frame_def)
  qed (use assms rd in auto)
  then show ?thesis unfolding put_def by (rule J_wrote_emit [OF j _ rd(2)])
qed

lemma triple_put:
  assumes "\<not> is_label a" "line_ok p a" "target a = None" "access a = None"
    "set (reads a) \<subseteq> set rs \<union> {0, BASE_REG}" "rd \<in> set p" "writes a = Some rd"
  shows "triple (Jinv p h) (gdo (put rs a rd ld)) (\<lambda>u. Jinv p h)"
  by (rule triple_do) (rule put_J [OF _ assms])

lemma bind_put:
  assumes "\<not> is_label a" "line_ok p a" "target a = None" "access a = None"
    "set (reads a) \<subseteq> set rs \<union> {0, BASE_REG}" "rd \<in> set p" "writes a = Some rd" "triple (Jinv p h) k R"
  shows "triple (Jinv p h) (gthen (gdo (put rs a rd ld)) k) R"
  by (rule triple_then [OF triple_put [OF assms(1-7)] assms(8)])

section \<open>Every instruction keeps the invariant\<close>

lemma src_ok_simps [simp]: "src_ok p 0" "r \<in> set p \<Longrightarrow> src_ok p r"
  by (simp_all add: src_ok_def)

lemma reg_reg_J: "pool_ok p \<Longrightarrow> triple (Jinv p h) reg_reg (\<lambda>u. Jinv p h)"
  unfolding reg_reg_def
  by (intro bind_choice bind_rpick [where p = p, OF _ J_drawable] bind_any_src [where p = p, OF _ J_drawable] stable_J triple_put)
    (auto simp: RR_OPS_def)

lemma reg_imm_J: "pool_ok p \<Longrightarrow> triple (Jinv p h) reg_imm (\<lambda>u. Jinv p h)"
  unfolding reg_imm_def bind_if
  by (intro bind_chance bind_choice triple_if bind_range bind_rpick [where p = p, OF _ J_drawable]
      bind_any_src [where p = p, OF _ J_drawable] stable_J triple_put)
    (auto simp: RI_OPS_def SHIFT_I_def)

lemma bitmanip_J: "pool_ok p \<Longrightarrow> triple (Jinv p h) bitmanip (\<lambda>u. Jinv p h)"
  unfolding bitmanip_def bind_if Let_def bind_ret
  by (intro bind_chance bind_choice triple_if bind_range bind_rpick [where p = p, OF _ J_drawable]
      bind_any_src [where p = p, OF _ J_drawable] stable_J triple_put)
    (auto simp: BM_RR_def BM_RI_def BM_UN_def)

text \<open>The field trick of \<^verbatim>\<open>upper\<close> keeps the immediate in range.\<close>

lemma or_lt_pow: "0 \<le> (a::int) \<Longrightarrow> a < 2 ^ n \<Longrightarrow> 0 \<le> b \<Longrightarrow> b < 2 ^ n \<Longrightarrow> a OR b < 2 ^ n"
  by (rule OR_upper)

lemma upper_imm:
  assumes "0 \<le> i" "i < 2 ^ 20" "0 \<le> l" "l < (32::int)"
  shows "0 \<le> (i AND NOT (push_bit 3 0x1F)) OR push_bit 3 l"
    "(i AND NOT (push_bit 3 0x1F)) OR push_bit 3 l < 2 ^ 20"
proof -
  have a: "0 \<le> i AND NOT (push_bit 3 0x1F)" "i AND NOT (push_bit 3 0x1F) \<le> i"
    using assms by (simp_all add: AND_upper1)
  have b: "0 \<le> push_bit 3 l" "push_bit 3 l < 2 ^ 20" using assms by (simp_all add: push_bit_eq_mult)
  show "0 \<le> (i AND NOT (push_bit 3 0x1F)) OR push_bit 3 l" using a b by simp
  show "(i AND NOT (push_bit 3 0x1F)) OR push_bit 3 l < 2 ^ 20"
    using a b assms by (intro or_lt_pow) auto
qed

lemma max_key_mem: "max_key xs = Some x \<Longrightarrow> x \<in> set xs"
  by (induction xs arbitrary: x) (auto split: option.splits if_splits)

lemma Ginv_keys: "Ginv p g \<Longrightarrow> (r, w) \<in> set (last_write g) \<Longrightarrow> r < 32"
  using weak_map_of_SomeI [of r w "last_write g"] by (auto simp: Ginv_def lw_ok_def)

lemma bind_get:
  assumes "\<And>x. triple (\<lambda>g. P g \<and> sel g = x) (f x) R"
  shows "triple P (gbind (\<lambda>g. gret (sel g) g) f) R"
  using assms by (auto simp: triple_def gbind_def gret_def)

lemma bind_recent:
  assumes "\<And>l. (\<And>r. l = Some r \<Longrightarrow> r < 32) \<Longrightarrow> triple (Jinv p h) (f l) R"
  shows "triple (Jinv p h) (gbind (\<lambda>g. gret (most_recent_write g) g) f) R"
proof (rule bind_get)
  fix l
  have "r < 32" if "Jinv p h g" "most_recent_write g = Some r" for g r
    using that max_key_mem Ginv_keys by (fastforce simp: most_recent_write_def Jinv_def)
  then have "Jinv p h g \<and> most_recent_write g = l \<Longrightarrow> (\<forall>r. l = Some r \<longrightarrow> r < 32)" for g by blast
  with assms [of l] show "triple (\<lambda>g. Jinv p h g \<and> most_recent_write g = l) (f l) R"
    unfolding triple_def by blast
qed

lemma push20: "push_bit 20 1 = (2 ^ 20 :: int)"
  by (simp add: push_bit_eq_mult)

lemma upper_J:
  assumes "pool_ok p" shows "triple (Jinv p h) upper (\<lambda>u. Jinv p h)"
  unfolding upper_def
proof (intro bind_rpick [where p = p, OF _ J_drawable] bind_range stable_J bind_recent)
  fix rd i and l :: "nat option"
  assume rd: "rd \<in> set p" and i: "0 \<le> i" "i < (push_bit 20 1 :: int)" and l: "\<And>r. l = Some r \<Longrightarrow> r < 32"
  have put: "triple (Jinv p h) (gbind (chance 0.7) (\<lambda>lui. gdo (put [] (UP (if lui then ''lui'' else ''auipc'') rd j) rd False)))
      (\<lambda>u. Jinv p h)" if "0 \<le> j" "j < 2 ^ 20" for j
    using that rd by (intro bind_chance stable_J triple_put) auto
  have i': "i < 2 ^ 20" using i by (simp add: push20)
  show "triple (Jinv p h) (gbind (case l of None \<Rightarrow> gret False | Some l \<Rightarrow> chance P_UPPER_FIELD_LIVE) (\<lambda>use_live.
      let imm = (if use_live then (i AND NOT (push_bit 3 0x1F)) OR push_bit 3 (int (the l)) else i) in
      gbind (chance 0.7) (\<lambda>lui. gdo (put [] (UP (if lui then ''lui'' else ''auipc'') rd imm) rd False)))) (\<lambda>u. Jinv p h)"
  proof (cases l)
    case None
    then show ?thesis using put [OF i(1) i'] by (simp add: Let_def)
  next
    case (Some r)
    then have r: "0 \<le> int r" "int r < 32" using l by simp_all
    have "0 \<le> (if b then (i AND NOT (push_bit 3 0x1F)) OR push_bit 3 (int r) else i)"
      "(if b then (i AND NOT (push_bit 3 0x1F)) OR push_bit 3 (int r) else i) < 2 ^ 20" for b
      using upper_imm [OF i(1) i' r] i(1) i' by (simp_all only: split: if_split) simp_all
    then show ?thesis
      unfolding Some option.case option.sel Let_def by (intro bind_chance [OF stable_J] put)
  qed
qed (simp_all add: push20)

lemma bind_other:
  assumes "pool_ok p" "\<And>r. r \<in> set p \<Longrightarrow> triple (Jinv p h) (f r) R"
  shows "triple (Jinv p h) (gbind (\<lambda>g. choice (filter (\<lambda>r. r \<noteq> a) (pool g)) g) f) R"
proof -
  have "triple (Jinv p h) (gbind (choice (filter (\<lambda>r. r \<noteq> a) p)) f) R"
    using assms pool_ok_other [OF assms(1)] by (intro bind_choice stable_J) auto
  then show ?thesis by (auto simp: triple_def gbind_def Jinv_def Ginv_def)
qed

lemma muldiv_edge_J:
  assumes "pool_ok p" "src_ok p a" "\<And>x y. src_ok p x \<Longrightarrow> src_ok p y \<Longrightarrow> triple (Jinv p h) (f (x, y)) R"
  shows "triple (Jinv p h) (gbind (muldiv_edge a b) f) R"
proof -
  have then_bind: "gbind (gthen m k) f = gthen m (gbind k f)" for m :: "unit gm" and k :: "(nat \<times> nat) gm"
    by (simp add: gthen_def bind_bind)
  show ?thesis
    unfolding muldiv_edge_def bind_bind bind_if then_bind bind_ret
    by (intro bind_range triple_if stable_J bind_rpick [where p = p, OF _ J_drawable] bind_other [OF assms(1)] bind_put assms(3))
      (use assms(2) in \<open>auto simp: RI_OPS_def\<close>)
qed

lemma muldiv_J: "pool_ok p \<Longrightarrow> triple (Jinv p h) muldiv (\<lambda>u. Jinv p h)"
  unfolding muldiv_def bind_if bind_ret
  by (intro bind_chance bind_choice triple_if bind_rpick [where p = p, OF _ J_drawable]
      bind_any_src [where p = p, OF _ J_drawable] muldiv_edge_J stable_J)
    (auto simp: MULDIV_def intro!: triple_put)

section \<open>Memory accesses\<close>

text \<open>Between the aliasing \<^verbatim>\<open>addi\<close> and its access: \<open>label_hold\<close> keeps labels out, so
  only NOPs can come between.\<close>

definition Minv :: "nat list \<Rightarrow> nat \<Rightarrow> int \<Rightarrow> Gen \<Rightarrow> bool" where
  "Minv p base k g \<longleftrightarrow> (\<exists>h. Jinv p h g \<and> (base = BASE_REG \<or> base \<in> set p \<and> h)) \<and> base_offset (out g) base = Some k"

lemma M_J: "Minv p base k g \<Longrightarrow> Jinv p (label_hold g) g"
  by (auto simp: Minv_def Jinv_def)

lemma stable_M: "stable (Minv p base k)"
  unfolding stable_def
proof (intro allI impI)
  fix g g' assume m: "Minv p base k g" and s: "same_but_pos g g'"
  have "out g' = out g" using s by (auto simp: same_but_pos_def)
  then show "Minv p base k g'"
    using m s stable_J unfolding Minv_def stable_def by metis
qed

lemma M_drawable: "Minv p base k g \<Longrightarrow> pool g = p \<and> p \<noteq> []"
  using M_J J_drawable by blast

lemma due_hold: "label_hold g \<Longrightarrow> due_of g = []"
  by (simp add: due_of_def)

lemma base_offset_due:
  assumes "Minv p base k g" shows "base_offset (out g @ map Label (due_of g)) base = Some k"
  using assms by (auto simp: Minv_def Jinv_def due_hold base_offset_def)

lemma base_offset_nop: "base_offset (xs @ [Nop]) base = base_offset xs base"
  by (simp add: base_offset_def)

lemma J_nop: "Jinv p h g \<Longrightarrow> Jinv p h (nop g)"
  using nop_inv [of p g] by (auto simp: Jinv_def Gbase_def nop_def)

lemma M_nop:
  assumes "Minv p base k g" shows "Minv p base k (nop g)"
proof -
  have "out (nop g) = (out g @ map Label (due_of g)) @ [Nop]" by (simp add: nop_def emit_eq)
  then have "base_offset (out (nop g)) base = Some k"
    using base_offset_due [OF assms] base_offset_nop by metis
  then show ?thesis using assms J_nop unfolding Minv_def by blast
qed

lemma M_nops: "Minv p base k g \<Longrightarrow> Minv p base k (nops n g)"
  by (induction n arbitrary: g) (simp_all add: nops_Suc M_nop)

lemma M_pad: "Minv p base k g \<Longrightarrow> Minv p base k (pad_for rs g)"
  by (rule pad_for_rule [where P = "Minv p base k"])
    (use stable_M M_nops need_loop_same in \<open>auto simp: stable_def\<close>)

lemma hold_J: "Jinv p h g \<Longrightarrow> Jinv p b (hold b g)"
  by (auto simp: Jinv_def hold_def Ginv_def Gbase_def)

lemma mem_put:
  assumes "Minv p base k g" "access a = Some (op, off, base)" "line_ok p a" "0 \<le> k" "0 \<le> off"
    and "access_size op dvd k + off" "k + off + access_size op \<le> SCRATCH_BYTES"
    and "set (reads a) \<subseteq> set rs \<union> {0, BASE_REG}"
    and "rd \<in> set p \<and> writes a = Some rd \<or> rd = 0 \<and> writes a = None"
  shows "Jinv p (label_hold g) (put rs a rd ld g)"
proof -
  let ?g = "pad_for rs g"
  have m: "Minv p base k ?g" by (rule M_pad [OF assms(1)])
  have j: "Jinv p (label_hold g) ?g" using J_pad [OF M_J [OF assms(1)]] .
  have rd: "rd < 32" "rd \<noteq> BASE_REG" using J_pool [OF j] assms(9) by (auto simp: pool_ok_def BASE_REG_def)
  have a: "\<not> is_label a" "target a = None" using assms(2) by (cases a; simp)+
  have "Ginv p (wrote rd ld (emit a ?g))"
  proof (rule emit_wrote_inv)
    show "Ginv p ?g" using j by (simp add: Jinv_def)
    show "access_ok (out ?g @ map Label (due_of ?g)) a"
      using base_offset_due [OF m] assms(2,4-7) by (simp add: access_ok_def)
    assume "raw_d ?g = 0" "lu_d ?g = 0"
    then show "raw_ok (ins (out ?g)) a"
      using raw_ok_padded [OF M_J [OF assms(1)] _ _ assms(8)] frame_pad [of g rs] by (simp add: frame_def)
  qed (use assms(3,9) rd a in auto)
  then show ?thesis unfolding put_def by (rule J_wrote_emit [OF j _ rd(2)])
qed

lemma alias_put:
  assumes "Jinv p False g" "base \<in> set p" "0 \<le> k" "k < 2048"
  shows "Minv p base k (hold True (put [] (RI ''addi'' base BASE_REG k) base False g))"
proof -
  have "Jinv p True (hold True (put [] (RI ''addi'' base BASE_REG k) base False g))"
    using assms by (intro hold_J put_J) (auto simp: RI_OPS_def)
  moreover have "base_offset (out (hold True (put [] (RI ''addi'' base BASE_REG k) base False g))) base = Some k"
    using assms(2) J_pool [OF assms(1)]
    by (auto simp: base_offset_def hold_def put_def wrote_def emit_eq pool_ok_def)
  ultimately show ?thesis using assms(2) by (auto simp: Minv_def)
qed

lemma mem_base_J:
  assumes "0 \<le> tot" "tot < 252"
    and "\<And>base off k. 0 \<le> k \<Longrightarrow> 0 \<le> off \<Longrightarrow> off < 2048 \<Longrightarrow> k + off = tot \<Longrightarrow> base = BASE_REG \<or> base \<in> set p \<Longrightarrow>
      triple (Minv p base k) (f (base, off)) R"
  shows "triple (Jinv p False) (gbind (mem_base tot) f) R"
proof -
  have then_bind: "gbind (gthen m k) f = gthen m (gbind k f)" for m :: "unit gm" and k :: "(nat \<times> int) gm"
    by (simp add: gthen_def bind_bind)
  have al: "triple (Jinv p False) (gthen (gdo (put [] (RI ''addi'' base BASE_REG k) base False))
      (gthen (gdo (hold True)) (f (base, tot - k)))) R"
    if "base \<in> set p" "0 \<le> k" "k < tot + 1" for base k
    unfolding triple_def gthen_def gbind_def gdo_def
    using assms(3) [of k "tot - k" base] alias_put [of p _ base k] that assms(2)
    by (auto simp: triple_def)
  have "triple (Jinv p False) (f (BASE_REG, tot)) R"
    by (rule triple_pre [OF assms(3) [of 0]]) (use assms(1,2) in \<open>auto simp: Minv_def base_offset_def\<close>)
  then show ?thesis
    unfolding mem_base_def bind_bind bind_if then_bind bind_ret
    using assms(1) al
    by (intro bind_chance triple_if stable_J bind_rpick [where p = p, OF _ J_drawable] bind_range) auto
qed

lemma triple_put_mem:
  assumes "access a = Some (op, off, base)" "line_ok p a" "0 \<le> k" "0 \<le> off"
    and "access_size op dvd k + off" "k + off + access_size op \<le> SCRATCH_BYTES"
    and "set (reads a) \<subseteq> set rs \<union> {0, BASE_REG}"
    and "rd \<in> set p \<and> writes a = Some rd \<or> rd = 0 \<and> writes a = None"
  shows "triple (Minv p base k) (gdo (put rs a rd ld)) (\<lambda>u g. \<exists>h. Jinv p h g)"
  by (rule triple_do) (use mem_put [OF _ assms] in blast)

lemma mem_ops:
  "(op, al) \<in> set (if ld then LOADS else STORES) \<Longrightarrow> access_size op = al \<and> al \<in> {1, 2, 4}
     \<and> op \<in> set (map fst (if ld then LOADS else STORES))"
  by (cases ld) (auto simp: LOADS_def STORES_def access_size_def)

lemma mem_J:
  assumes "pool_ok p" shows "triple (Jinv p False) mem (\<lambda>u. Jinv p False)"
  unfolding mem_def
proof (intro bind_chance stable_J bind_choice bind_range)
  fix ld
  show "(if ld then LOADS else STORES) \<noteq> []" by (simp add: LOADS_def STORES_def)
next
  fix ld x
  assume x: "x \<in> set (if ld then LOADS else STORES)"
  obtain op al where xe: "x = (op, al)" by (cases x)
  have op: "access_size op = al" "al \<in> {1, 2, 4}" "op \<in> set (map fst (if ld then LOADS else STORES))"
    using mem_ops [OF x [unfolded xe]] by auto
  have main: "triple (Jinv p False) (gbind (mem_base (t div al * al)) (\<lambda>(base, off).
      gthen (if ld then gbind rpick (\<lambda>rd. gdo (put [base] (LD op rd off base) rd True))
             else gbind any_src (\<lambda>rs2. gdo (put [base, rs2] (ST op rs2 off base) 0 False)))
      (gdo (hold False)))) (\<lambda>u. Jinv p False)" if t: "0 \<le> t" "t < SCRATCH_BYTES - 4" for t
  proof (rule mem_base_J)
    show "0 \<le> t div al * al" using t op(2) by (auto simp: zero_le_mult_iff pos_imp_zdiv_nonneg_iff)
    have le: "t div al * al \<le> t" using op(2) by (auto intro: div_times_less_eq_dividend)
    then show "t div al * al < 252" using t by (simp add: SCRATCH_BYTES_def SCRATCH_WORDS_def)
    fix base k off
    assume k: "0 \<le> k" "0 \<le> off" "off < 2048" "k + off = t div al * al" "base = BASE_REG \<or> base \<in> set p"
    have acc: "access_size op dvd k + off" "k + off + access_size op \<le> SCRATCH_BYTES"
      using k le t op by (auto simp: SCRATCH_BYTES_def SCRATCH_WORDS_def)
    have "triple (Minv p base k) (if ld then gbind rpick (\<lambda>rd. gdo (put [base] (LD op rd off base) rd True))
             else gbind any_src (\<lambda>rs2. gdo (put [base, rs2] (ST op rs2 off base) 0 False))) (\<lambda>u g. \<exists>h. Jinv p h g)"
      using k(1-3,5) op(3) acc
      by (intro triple_if bind_rpick [where p = p, OF stable_M M_drawable]
          bind_any_src [where p = p, OF stable_M M_drawable] triple_put_mem) auto
    then have "triple (Minv p base k) (gthen (if ld then gbind rpick (\<lambda>rd. gdo (put [base] (LD op rd off base) rd True))
             else gbind any_src (\<lambda>rs2. gdo (put [base, rs2] (ST op rs2 off base) 0 False))) (gdo (hold False))) (\<lambda>u. Jinv p False)"
      by (rule triple_then) (auto intro: triple_do hold_J)
    then show "triple (Minv p base k) (case (base, off) of (base, off) \<Rightarrow>
      gthen (if ld then gbind rpick (\<lambda>rd. gdo (put [base] (LD op rd off base) rd True))
             else gbind any_src (\<lambda>rs2. gdo (put [base, rs2] (ST op rs2 off base) 0 False)))
      (gdo (hold False))) (\<lambda>u. Jinv p False)" by simp
  qed
  show "triple (Jinv p False) (case x of (op, align) \<Rightarrow> gbind (randrange 0 (SCRATCH_BYTES - 4)) (\<lambda>t.
    gbind (mem_base (t div align * align)) (\<lambda>(base, off).
    gthen (if ld then gbind rpick (\<lambda>rd. gdo (put [base] (LD op rd off base) rd True))
             else gbind any_src (\<lambda>rs2. gdo (put [base, rs2] (ST op rs2 off base) 0 False)))
    (gdo (hold False))))) (\<lambda>u. Jinv p False)"
    unfolding xe split_conv
    by (rule bind_range [OF stable_J _ main]) (simp_all add: SCRATCH_BYTES_def SCRATCH_WORDS_def)
qed

section \<open>Branches\<close>

text \<open>A fresh label, the instruction count at the time it was chosen, and that count plus the
  padding that may follow.\<close>

definition Kinv :: "nat list \<Rightarrow> nat \<Rightarrow> int \<Rightarrow> Gen \<Rightarrow> bool" where
  "Kinv p l m g \<longleftrightarrow> Jinv p False g \<and> l \<le> label_n g \<and> idx g \<le> m
     \<and> l \<notin> set (labels (out g)) \<and> l \<notin> snd ` set (pending_labels g)"

lemma stable_K: "stable (Kinv p l m)"
  unfolding stable_def
proof (intro allI impI)
  fix g g' assume k: "Kinv p l m g" and s: "same_but_pos g g'"
  have "Jinv p False g'" using k s stable_J unfolding Kinv_def stable_def by blast
  then show "Kinv p l m g'" using k s by (auto simp: Kinv_def same_but_pos_def)
qed

lemma K_drawable: "Kinv p l m g \<Longrightarrow> pool g = p \<and> p \<noteq> []"
  unfolding Kinv_def using J_drawable by blast

lemma nops_fresh:
  assumes "l \<notin> set (labels (out g))" "l \<notin> snd ` set (pending_labels g)"
  shows "l \<notin> set (labels (out (nops n g))) \<and> l \<notin> snd ` set (pending_labels (nops n g))"
  using assms
proof (induction n arbitrary: g)
  case (Suc n)
  have "set (due_of g) \<subseteq> snd ` set (pending_labels g)" by (auto simp: due_of_def)
  then have "l \<notin> set (labels (out (nop g)))" "l \<notin> snd ` set (pending_labels (nop g))"
    using Suc.prems by (auto simp: nop_def emit_eq)
  then show ?case using Suc.IH by (simp add: nops_Suc)
qed simp

lemma pad_for_fresh:
  assumes "l \<notin> set (labels (out g))" "l \<notin> snd ` set (pending_labels g)"
  shows "l \<notin> set (labels (out (pad_for rs g))) \<and> l \<notin> snd ` set (pending_labels (pad_for rs g))"
proof (rule pad_for_rule [where P = "\<lambda>g. l \<notin> set (labels (out g)) \<and> l \<notin> snd ` set (pending_labels g)"])
  fix h :: Gen
  assume h: "l \<notin> set (labels (out h)) \<and> l \<notin> snd ` set (pending_labels h)"
  have "out (snd (need_loop rs h)) = out h" "pending_labels (snd (need_loop rs h)) = pending_labels h"
    using need_loop_same [of h rs] by (auto simp: same_but_pos_def)
  then show "l \<notin> set (labels (out (nops (nat (fst (need_loop rs h))) (snd (need_loop rs h))))) \<and>
      l \<notin> snd ` set (pending_labels (nops (nat (fst (need_loop rs h))) (snd (need_loop rs h))))"
    using h by (intro nops_fresh) auto
qed (use assms in \<open>auto simp: same_but_pos_def\<close>)

lemma K_pad:
  assumes "Kinv p l m g" shows "Kinv p l (m + 2) (pad_for rs g)"
proof -
  have j: "Jinv p False g" using assms by (simp add: Kinv_def)
  have "\<forall>r w. map_of (last_write g) r = Some w \<longrightarrow> w < idx g"
    using j by (auto simp: Jinv_def Ginv_def lw_ok_def)
  then have "idx (pad_for rs g) \<le> idx g + 2" by (rule pad_for_idx)
  then show ?thesis
    using assms J_pad [OF j] pad_for_fresh [of l g rs] frame_pad [of g rs]
    by (auto simp: Kinv_def frame_def)
qed

lemma add_label_Ginv:
  assumes "Kinv p l m g" shows "Ginv p (add_label t l g)"
proof -
  have "labels_ok (label_n g) (out g) (map snd (pending_labels g))"
    using assms by (simp add: Kinv_def Jinv_def Ginv_def)
  then have "labels_ok (label_n g) (out g) (map snd (pending_labels g @ [(t, l)]))"
    using assms by (fastforce simp: labels_ok_def Kinv_def)
  then show ?thesis
    using assms by (auto simp: add_label_def Kinv_def Jinv_def Ginv_def)
qed

lemma add_label_J: "Kinv p l m g \<Longrightarrow> Jinv p False (add_label t l g)"
  using add_label_Ginv by (auto simp: Jinv_def Kinv_def Gbase_def add_label_def)

lemma not_due:
  assumes "Kinv p l m g" "m < t"
  shows "l \<in> snd ` set (pending_labels (add_label t l g)) \<and> l \<notin> set (due_of (add_label t l g))"
  using assms by (auto simp: add_label_def due_of_def Kinv_def)

lemma jal_J:
  assumes "Kinv p l m g" "m < t" "rd = 0 \<or> rd \<in> set p"
  shows "Jinv p False (put [] (JAL rd l) rd False (add_label t l g))"
proof -
  have p: "pool_ok p" using assms(1) J_pool by (auto simp: Kinv_def)
  then have rd: "rd < 32" "rd \<noteq> BASE_REG" using assms(3) by (auto simp: pool_ok_def BASE_REG_def)
  have "Ginv p (wrote rd False (emit (JAL rd l) (add_label t l g)))"
    using assms(3) rd not_due [OF assms(1,2)]
    by (intro emit_wrote_inv add_label_Ginv [OF assms(1)]) (auto simp: access_ok_def raw_ok_def)
  then show ?thesis
    unfolding put_def pad_for_Nil by (rule J_wrote_emit [OF add_label_J [OF assms(1)] _ rd(2)])
qed

lemma br_J:
  assumes "Kinv p l m g" "m + 2 < t" "op \<in> set BRANCHES" "src_ok p a" "src_ok p b"
  shows "Jinv p False (emit (BR op a b l) (add_label t l (pad_for [a, b] g)))"
proof -
  let ?g = "pad_for [a, b] g"
  have k: "Kinv p l (m + 2) ?g" by (rule K_pad [OF assms(1)])
  have "Ginv p (emit (BR op a b l) (add_label t l ?g))"
  proof (rule emit_inv)
    show "Ginv p (add_label t l ?g)" by (rule add_label_Ginv [OF k])
    fix l' assume "target (BR op a b l) = Some l'"
    then show "l' \<in> snd ` set (pending_labels (add_label t l ?g)) \<and> l' \<notin> set (due_of (add_label t l ?g))"
      using not_due [OF k assms(2)] by simp
  next
    assume "raw_d (add_label t l ?g) = 0" "lu_d (add_label t l ?g) = 0"
    then have "raw_ok (ins (out ?g)) (BR op a b l)"
      using assms(1) frame_pad [of g "[a, b]"]
      by (intro raw_ok_padded [of p False]) (auto simp: Kinv_def add_label_def frame_def)
    then show "raw_ok (ins (out (add_label t l ?g))) (BR op a b l)" by (simp add: add_label_def)
  qed (use assms in \<open>auto simp: access_ok_def\<close>)
  then show ?thesis
    using add_label_J [OF k, of t] by (auto simp: Jinv_def Gbase_def)
qed

lemma labels_ok_Suc: "labels_ok n xs pend \<Longrightarrow> labels_ok (n + 1) xs pend"
  by (auto simp: labels_ok_def intro: le_SucI)

lemma labels_ok_fresh: "labels_ok n xs pend \<Longrightarrow> n + 1 \<notin> set (labels xs) \<and> n + 1 \<notin> set pend"
  unfolding labels_ok_def by (metis UnCI Suc_eq_plus1 Suc_n_not_le_n set_append)

lemma K_start:
  assumes "Jinv p False g"
  shows "Kinv p (label_n g + 1) (idx g) (g\<lparr>label_n := label_n g + 1\<rparr>)"
proof -
  have lo: "labels_ok (label_n g) (out g) (map snd (pending_labels g))"
    using assms by (simp add: Jinv_def Ginv_def)
  then have "labels_ok (label_n g + 1) (out g) (map snd (pending_labels g))"
    by (rule labels_ok_Suc)
  then have "Jinv p False (g\<lparr>label_n := label_n g + 1\<rparr>)"
    using assms by (auto simp: Jinv_def Ginv_def Gbase_def)
  then show ?thesis using labels_ok_fresh [OF lo] by (simp add: Kinv_def)
qed

lemma branch_J: "triple (Jinv p False) branch (\<lambda>u. Jinv p False)"
proof -
  define tail where "tail = (\<lambda>l i. gbind (randrange 3 12) (\<lambda>d.
    let target = i + d in
    gbind (chance P_JUMP) (\<lambda>jmp.
    if jmp then
      gbind (chance 0.7) (\<lambda>w.
      gbind (if w then rpick else gret 0) (\<lambda>rd.
      gthen (gdo (add_label target l))
      (gdo (put [] (JAL rd l) rd False))))
    else
      gbind (choice BRANCHES) (\<lambda>op.
      gbind any_src (\<lambda>rs1.
      gbind (chance P_BRANCH_SAME_REG) (\<lambda>same.
      gbind (if same then gret rs1 else any_src) (\<lambda>rs2.
      gdo (\<lambda>g. emit (BR op rs1 rs2 l) (add_label target l (pad_for [rs1, rs2] g))))))))))"
  have two: "gthen (gdo f) (gdo h) = gdo (\<lambda>g. h (f g))" for f h
    by (rule ext) (simp add: gthen_def gbind_def gdo_def)
  have t: "triple (Kinv p l i) (tail l i) (\<lambda>u. Jinv p False)" for l i
    unfolding tail_def Let_def bind_if bind_ret two
    by (intro bind_range bind_chance bind_choice triple_if stable_K triple_do
        bind_rpick [where p = p, OF stable_K K_drawable] bind_any_src [where p = p, OF stable_K K_drawable])
      (auto intro: jal_J br_J simp: BRANCHES_def)
  define start where "start = (\<lambda>g :: Gen. g\<lparr>label_n := label_n g + 1\<rparr>)"
  have "branch g = tail (label_n (start g)) (idx (start g)) (start g)" for g
    by (simp only: branch_def tail_def start_def gthen_def gbind_def gdo_def gret_def rbind_simps split_conv)
  moreover have "Kinv p (label_n (start g)) (idx (start g)) (start g)" if "Jinv p False g" for g
    using K_start [OF that] by (simp add: start_def)
  ultimately show ?thesis
    using t unfolding triple_def by metis
qed

lemma instruction_J:
  assumes "pool_ok p" shows "triple (Jinv p False) instruction (\<lambda>u. Jinv p False)"
proof -
  have "triple (Jinv p False) (gbind random (\<lambda>pick.
    let base = fadd (fadd (br_d h) (mul_d h)) (bm_d h) in
    if pick < br_d h then branch
    else if pick < fadd (br_d h) (mul_d h) then muldiv
    else if pick < base then bitmanip
    else if pick < fadd base (fl 0.18) then mem
    else if pick < fadd base (fl 0.34) then upper
    else if pick < fadd base (fl 0.62) then reg_imm
    else reg_reg)) (\<lambda>u. Jinv p False)" for h
    unfolding Let_def using assms
    by (intro bind_random triple_if stable_J branch_J muldiv_J bitmanip_J mem_J upper_J reg_imm_J reg_reg_J)
  then show ?thesis unfolding triple_def instruction_def by blast
qed

section \<open>The whole body\<close>

definition header_lines :: "asm list" where
  "header_lines = [Base_hi, Nop, Nop, Nop, Base_lo, Nop, Nop, Nop]"

lemma emit_plain:
  "pending_labels g = [] \<Longrightarrow> emit a g = g\<lparr>out := out g @ [a], idx := idx g + 1\<rparr>"
  by (simp add: emit_eq due_of_def)

lemma nops_3:
  assumes "pending_labels g = []"
  shows "nops 3 g = g\<lparr>out := out g @ [Nop, Nop, Nop], idx := idx g + 3\<rparr>"
  using assms by (simp add: numeral_3_eq_3 nops_Suc nop_def emit_plain)

lemma header_fields:
  fixes g :: Gen
  assumes "pending_labels g = []" "out g = []" "idx g = 0" "last_write g = []"
  shows "out (header g) = header_lines" "idx (header g) = 8" "last_write (header g) = [(BASE_REG, 4)]"
    "pending_labels (header g) = []" "label_n (header g) = label_n g" "pool (header g) = pool g"
    "label_hold (header g) = label_hold g"
  using assms by (simp_all add: header_def Let_def nops_3 emit_plain header_lines_def RAW_DISTANCE_def)

lemma header_closed:
  "ins header_lines = header_lines" "labels header_lines = []"
  "all_pre access_ok header_lines" "all_pre forward_ok header_lines" "all_pre raw_ok header_lines"
  by code_simp+

lemma header_lw: "lw_ok header_lines [(8, 4)]"
  by (auto simp: lw_ok_def header_lines_def BASE_REG_def nth_Cons' split: if_splits)

lemma header_J:
  assumes "pool_ok p" shows "Jinv p False (header (Gen_init t n p raw lu br mul bm))"
proof -
  have lo: "labels_ok 0 header_lines []"
    using header_closed by (auto simp: labels_ok_def header_lines_def)
  have lk: "list_all (line_ok p) header_lines" by (simp add: header_lines_def)
  have len: "length header_lines = 8" by (simp add: header_lines_def)
  define g where "g = header (Gen_init t n p raw lu br mul bm)"
  have "out g = header_lines" "idx g = 8" "last_write g = [(BASE_REG, 4)]" "pending_labels g = []"
    "label_n g = 0" "pool g = p" "label_hold g = False"
    unfolding g_def by (subst header_fields; simp add: Gen_init_def)+
  then have "Jinv p False g"
    using assms header_closed header_lw lo lk len by (simp add: Jinv_def Ginv_def Gbase_def BASE_REG_def)
  then show ?thesis by (simp add: g_def)
qed

lemma gfor_triple: "(\<And>x. x \<in> set xs \<Longrightarrow> triple P (f x) (\<lambda>u. P)) \<Longrightarrow> triple P (gfor f xs) (\<lambda>u. P)"
  by (induction xs) (auto intro: triple_ret triple_then)

lemma seed_lui_J: "r \<in> set p \<Longrightarrow> triple (Jinv p h) (seed_lui r) (\<lambda>u. Jinv p h)"
  unfolding seed_lui_def by (intro bind_range stable_J triple_put) (auto simp: push20)

lemma triple_pad: "triple (Jinv p h) (gdo (pad_for rs)) (\<lambda>u. Jinv p h)"
  by (rule triple_do) (rule J_pad)

text \<open>The \<^verbatim>\<open>xori\<close> of a seeded register draws its immediate after the padding; padding again
  would add nothing, so the emission is the padded one with an empty source list.\<close>

lemma pad_idem_raw:
  assumes "Jinv p h (pad_for [r] g)" "Jinv p h g" "r \<in> set p" "-2048 \<le> i" "i < 2048" "same_but_pos (pad_for [r] g) g'"
  shows "Jinv p h (put [] (RI ''xori'' r r i) r False g')"
proof -
  have j: "Jinv p h g'" using assms(1,6) stable_J unfolding stable_def by blast
  have rd: "r < 32" "r \<noteq> BASE_REG" using J_pool [OF j] assms(3) by (auto simp: pool_ok_def)
  have "Ginv p (wrote r False (emit (RI ''xori'' r r i) g'))"
  proof (rule emit_wrote_inv)
    show "Ginv p g'" using j by (simp add: Jinv_def)
    show "line_ok p (RI ''xori'' r r i)" using assms by (simp add: RI_OPS_def src_ok_def)
    assume z: "raw_d g' = 0" "lu_d g' = 0"
    have "raw_d g = 0" "lu_d g = 0"
      using z assms(6) frame_pad [of g "[r]"] by (auto simp: frame_def same_but_pos_def)
    then have "raw_ok (ins (out (pad_for [r] g))) (RI ''xori'' r r i)"
      by (intro raw_ok_padded [OF assms(2)]) auto
    then show "raw_ok (ins (out g')) (RI ''xori'' r r i)" using assms(6) by (auto simp: same_but_pos_def)
  qed (use rd in \<open>simp_all add: access_ok_def\<close>)
  then show ?thesis unfolding put_def pad_for_Nil by (rule J_wrote_emit [OF j _ rd(2)])
qed

lemma seed_xori_J:
  assumes "r \<in> set p" shows "triple (Jinv p h) (seed_xori r) (\<lambda>u. Jinv p h)"
  unfolding triple_def
proof (intro allI impI)
  fix g assume j: "Jinv p h g"
  let ?g = "pad_for [r] g"
  let ?i = "-2048 + int (fst (draw ?g)) mod (2048 - -2048)" and ?g' = "snd (draw ?g)"
  have "seed_xori r g = Inr ((), put [] (RI ''xori'' r r ?i) r False ?g')"
    by (simp add: seed_xori_def gthen_def gbind_def gdo_def randrange_def Let_def case_prod_beta)
  moreover have "-2048 \<le> ?i" "?i < 2048" by simp_all
  then have "Jinv p h (put [] (RI ''xori'' r r ?i) r False ?g')"
    by (intro pad_idem_raw [OF J_pad [OF j] j assms] same_but_pos_draw)
  ultimately show "\<exists>a g'. seed_xori r g = Inr (a, g') \<and> Jinv p h g'" by blast
qed

lemma triple_poolfor:
  "(\<And>x. x \<in> set p \<Longrightarrow> triple (Jinv p h) (f x) (\<lambda>u. Jinv p h)) \<Longrightarrow> triple (Jinv p h) (\<lambda>g. gfor f (pool g) g) (\<lambda>u. Jinv p h)"
  using gfor_triple [of p "Jinv p h" f] J_drawable unfolding triple_def by metis

lemma gen_body_J:
  assumes "pool_ok p"
  shows "triple (\<lambda>g. g = Gen_init t n p raw lu br mul bm) gen_body (\<lambda>u. Jinv p False)"
  unfolding gen_body_def
proof (intro triple_then)
  show "triple (\<lambda>g. g = Gen_init t n p raw lu br mul bm) (gdo header) (\<lambda>u. Jinv p False)"
    by (rule triple_do) (simp add: header_J [OF assms])
  show "triple (Jinv p False) (\<lambda>g. gfor seed_lui (pool g) g) (\<lambda>u. Jinv p False)"
    by (rule triple_poolfor) (rule seed_lui_J)
  show "triple (Jinv p False) (\<lambda>g. gfor seed_xori (pool g) g) (\<lambda>u. Jinv p False)"
    by (rule triple_poolfor) (rule seed_xori_J)
  show "triple (Jinv p False) (\<lambda>g. gfor (\<lambda>i. instruction) [0..<g_n g] g) (\<lambda>u. Jinv p False)"
  proof -
    have "triple (Jinv p False) (gfor (\<lambda>i. instruction) xs) (\<lambda>u. Jinv p False)" for xs :: "nat list"
      by (rule gfor_triple) (rule instruction_J [OF assms])
    then show ?thesis by (simp add: triple_def)
  qed
qed

section \<open>The final flush ends\<close>

lemma sum_filter_less:
  fixes f h :: "'a \<Rightarrow> nat"
  assumes "\<And>x. x \<in> set xs \<Longrightarrow> Q x \<Longrightarrow> f x < h x" "\<And>x. x \<in> set xs \<Longrightarrow> 0 < h x" "xs \<noteq> []"
  shows "sum_list (map f (filter Q xs)) < sum_list (map h xs)"
  using assms
proof (induction xs)
  case (Cons x xs)
  show ?case
  proof (cases "xs = []")
    case True
    then show ?thesis using Cons.prems by simp
  next
    case False
    then have "sum_list (map f (filter Q xs)) < sum_list (map h xs)" using Cons by simp
    then show ?thesis using Cons.prems(1) [of x] by fastforce
  qed
qed simp

definition outstanding :: "Gen \<Rightarrow> nat" where
  "outstanding g = sum_list (map (\<lambda>x. 1 + nat (fst x - idx g)) (pending_labels g))"

lemma flush_step:
  assumes "\<not> label_hold g" "pending_labels g \<noteq> []"
  shows "outstanding (nop g) < outstanding g"
proof -
  have p: "pending_labels (nop g) = filter (\<lambda>x. snd x \<notin> set (due_of g)) (pending_labels g)"
    "idx (nop g) = idx g + 1" by (simp_all add: nop_def emit_eq)
  have "1 + nat (fst x - (idx g + 1)) < 1 + nat (fst x - idx g)"
    if "x \<in> set (pending_labels g)" "snd x \<notin> set (due_of g)" for x
  proof -
    have "idx g < fst x" using that assms(1) by (auto simp: due_of_def)
    then show ?thesis by simp
  qed
  then show ?thesis
    unfolding outstanding_def p using assms(2) by (intro sum_filter_less) auto
qed

lemma flush_returns:
  assumes "Jinv p False g"
  shows "\<exists>g'. flush g = Some g' \<and> Jinv p False g' \<and> pending_labels g' = []"
proof -
  have "\<exists>g'. while_option (\<lambda>g. pending_labels g \<noteq> []) nop g = Some g'"
    using assms J_nop flush_step
    by (intro measure_while_option_Some [where P = "Jinv p False" and f = outstanding]) (auto simp: Jinv_def)
  then obtain g' where g': "while_option (\<lambda>g. pending_labels g \<noteq> []) nop g = Some g'" by blast
  have "Jinv p False g'"
    using while_option_rule [where P = "Jinv p False", OF _ g' assms] J_nop by blast
  then show ?thesis
    using g' while_option_stop [OF g'] by (auto simp: flush_def)
qed

section \<open>The densities never change\<close>

definition keeps :: "'a gm \<Rightarrow> bool" where
  "keeps m \<longleftrightarrow> (\<forall>g a g'. m g = Inr (a, g') \<longrightarrow> raw_d g' = raw_d g \<and> lu_d g' = lu_d g)"

named_theorems keeps_intros "operations that keep the densities"

lemma keeps_bind [keeps_intros]: "keeps m \<Longrightarrow> (\<And>a. keeps (f a)) \<Longrightarrow> keeps (gbind m f)"
  by (fastforce simp: keeps_def gbind_def rbind_Inr_iff)

lemma keeps_then [keeps_intros]: "keeps m \<Longrightarrow> keeps k \<Longrightarrow> keeps (gthen m k)"
  unfolding gthen_def by (rule keeps_bind)

lemma keeps_ret [keeps_intros]: "keeps (gret a)"
  by (simp add: keeps_def gret_def)

lemma keeps_get [keeps_intros]: "keeps (\<lambda>g. gret (sel g) g)"
  by (simp add: keeps_def gret_def)

lemma keeps_if [keeps_intros]: "keeps m \<Longrightarrow> keeps n \<Longrightarrow> keeps (if b then m else n)"
  by simp

lemma draw_dens: "raw_d (snd (draw g)) = raw_d g" "lu_d (snd (draw g)) = lu_d g"
  by (simp_all add: draw_def)

lemma keeps_random [keeps_intros]: "keeps random"
  by (auto simp: keeps_def random_def rnd_def Let_def draw_def)

lemma keeps_choice [keeps_intros]: "keeps (choice xs)" "keeps (\<lambda>g. choice (sel g) g)" "keeps rpick"
  by (auto simp: keeps_def choice_def rpick_def Let_def case_prod_beta draw_dens split: if_splits)

lemma keeps_randrange [keeps_intros]: "keeps (randrange lo hi)"
  by (auto simp: keeps_def randrange_def Let_def case_prod_beta draw_dens split: if_splits)

lemma keeps_chance [keeps_intros]: "keeps (chance q)"
  unfolding chance_def by (intro keeps_intros)

lemma keeps_any_src [keeps_intros]: "keeps any_src"
  unfolding any_src_def by (intro keeps_intros)

lemma put_dens: "raw_d (put rs a rd ld g) = raw_d g" "lu_d (put rs a rd ld g) = lu_d g"
  "raw_d (pad_for rs g) = raw_d g" "lu_d (pad_for rs g) = lu_d g"
  "raw_d (nops k g) = raw_d g" "lu_d (nops k g) = lu_d g"
  using frame_pad [of g rs] frame_nops [of g k] by (simp_all add: put_def wrote_def frame_def)

lemma keeps_do: "(\<And>g. raw_d (f g) = raw_d g \<and> lu_d (f g) = lu_d g) \<Longrightarrow> keeps (gdo f)"
  by (simp add: keeps_def gdo_def)

lemma keeps_put [keeps_intros]: "keeps (gdo (put rs a rd ld))" "keeps (gdo (hold b))" "keeps (gdo (add_label t l))"
  "keeps (gdo (pad_for rs))" "keeps (gdo (\<lambda>g. g\<lparr>label_n := label_n g + 1\<rparr>))"
  "keeps (gdo (\<lambda>g. emit a (add_label t l (pad_for rs g))))" "keeps (gdo header)"
  by (rule keeps_do; simp add: put_dens hold_def add_label_def header_def Let_def)+

lemma keeps_case [keeps_intros]:
  "(\<And>a b. keeps (f a b)) \<Longrightarrow> keeps (case x of (a, b) \<Rightarrow> f a b)"
  "keeps m \<Longrightarrow> (\<And>a. keeps (h a)) \<Longrightarrow> keeps (case y of None \<Rightarrow> m | Some a \<Rightarrow> h a)"
  by (simp_all split: prod.split option.split)

lemma keeps_ops [keeps_intros]:
  "keeps reg_reg" "keeps reg_imm" "keeps bitmanip" "keeps upper" "keeps muldiv" "keeps mem" "keeps branch"
  unfolding reg_reg_def reg_imm_def bitmanip_def upper_def muldiv_def muldiv_edge_def mem_def mem_base_def
    branch_def Let_def
  by (intro keeps_intros)+

lemma keeps_instruction: "keeps instruction"
proof -
  have "keeps (gbind random (\<lambda>pick.
    let base = fadd (fadd (br_d h) (mul_d h)) (bm_d h) in
    if pick < br_d h then branch
    else if pick < fadd (br_d h) (mul_d h) then muldiv
    else if pick < base then bitmanip
    else if pick < fadd base (fl 0.18) then mem
    else if pick < fadd base (fl 0.34) then upper
    else if pick < fadd base (fl 0.62) then reg_imm
    else reg_reg))" for h
    unfolding Let_def by (intro keeps_intros)
  then show ?thesis unfolding keeps_def instruction_def by blast
qed

lemma keeps_gfor: "(\<And>x. keeps (f x)) \<Longrightarrow> keeps (gfor f xs)"
  by (induction xs) (auto intro: keeps_intros)

lemma keeps_gfor_sel: "(\<And>x. keeps (f x)) \<Longrightarrow> keeps (\<lambda>g. gfor f (sel g) g)"
  using keeps_gfor [of f] unfolding keeps_def by blast

lemma keeps_body: "keeps gen_body"
  unfolding gen_body_def seed_lui_def seed_xori_def
  by (intro keeps_then keeps_gfor_sel keeps_intros keeps_instruction)

lemma flush_dens: "flush g = Some g' \<Longrightarrow> raw_d g' = raw_d g \<and> lu_d g' = lu_d g"
  using while_option_rule [where P = "\<lambda>h. raw_d h = raw_d g \<and> lu_d h = lu_d g" and b = "\<lambda>g. pending_labels g \<noteq> []" and c = nop]
  by (simp add: flush_def nop_def)

lemma gen_generate_ok:
  assumes "pool_ok p"
  shows "\<exists>g. gen_generate (Gen_init t n p raw lu br mul bm) = Some (Inr (out g)) \<and> Jinv p False g
    \<and> pending_labels g = [] \<and> raw_d g = raw \<and> lu_d g = lu"
proof -
  obtain u g where g: "gen_body (Gen_init t n p raw lu br mul bm) = Inr (u, g)" "Jinv p False g"
    using gen_body_J [OF assms] unfolding triple_def by blast
  have "raw_d g = raw" "lu_d g = lu"
    using keeps_body g(1) unfolding keeps_def by (auto simp: Gen_init_def)
  then show ?thesis
    using flush_returns [OF g(2)] flush_dens g(1) by (fastforce simp: gen_generate_def)
qed

end
