(* ===== verification/Gen_Text.thy ===== *)
theory Gen_Text
  imports Gen_Props
begin

text \<open>
  The text the generator returns: the prologue, the rendered body and the epilogue with the
  scratch area, and the regular-expression check \<open>check_alias_bases\<close> over the rendered lines.
  The claims about generated programs are stated here, the last one on the text itself: the
  check always passes, so \<open>generate\<close> returns.
\<close>

section \<open>Model\<close>

definition fmt2 :: "rat \<Rightarrow> string" where
  "fmt2 x = (let q = round_even (x * 100) in
     (if q < 0 then ''-'' else []) @ show_nat (nat \<bar>q\<bar> div 100) @ ''.'' @ zfill 2 (show_nat (nat \<bar>q\<bar> mod 100)))"

definition newline :: string where "newline = [CHR 0x0A]"

definition PROLOGUE :: "int \<Rightarrow> nat \<Rightarrow> rat \<Rightarrow> rat \<Rightarrow> rat \<Rightarrow> rat \<Rightarrow> rat \<Rightarrow> string" where
  "PROLOGUE seed n raw lu br mul bm = join newline
    [''# Generated by tb/cosim/gen_random_prog.py -- do not edit.'',
     ''# seed='' @ show_int seed @ '' n='' @ show_nat n @ '' raw='' @ fmt2 raw @ '' load_use='' @ fmt2 lu
       @ '' branch='' @ fmt2 br @ '' mul='' @ fmt2 mul @ '' bm='' @ fmt2 bm,
     ''        .section .text.init'',
     ''        .globl _start'',
     ''_start:'',
     '''']"

definition scratch_next :: "int \<Rightarrow> int" where
  "scratch_next x = (x * 1103515245 + 12345) AND 0xFFFFFFFF"

definition scratch_word :: "nat \<Rightarrow> int \<Rightarrow> int" where
  "scratch_word i x = (let w = x XOR drop_bit 16 x; w = (if i mod 4 = 3 then w OR 0x80808080 else w)
                       in w AND 0xFFFFFFFF)"

fun scratch_words :: "nat \<Rightarrow> nat \<Rightarrow> int \<Rightarrow> int list" where
  "scratch_words i 0 x = []"
| "scratch_words i (Suc n) x = (let x = scratch_next x in scratch_word i x # scratch_words (Suc i) n x)"

fun chunks4 :: "'a list \<Rightarrow> 'a list list" where
  "chunks4 [] = []"
| "chunks4 (a # xs) = take 4 (a # xs) # chunks4 (drop 3 xs)"

definition scratch_init :: string where
  "scratch_init = join newline (map
     (\<lambda>ws. ''        .word '' @ join '', '' (map (\<lambda>w. ''0x'' @ hex 8 (nat w)) ws))
     (chunks4 (scratch_words 0 (nat SCRATCH_WORDS) 0x12345678)))"

definition EPILOGUE :: string where
  "EPILOGUE = join newline
    ['''',
     ''        # Arm Spike's trap handler, then stop.  `csrw mtvec, t0` writes no'',
     ''        # register, so the core and Spike agree on architectural state.'',
     ''2:      auipc   t0, %pcrel_hi(trap_handler)'',
     ''        nop'',
     ''        nop'',
     ''        nop'',
     ''        addi    t0, t0, %pcrel_lo(2b)'',
     ''        nop'',
     ''        nop'',
     ''        nop'',
     ''        csrw    mtvec, t0'',
     ''        nop'',
     ''        nop'',
     ''        nop'',
     ''        ecall'',
     '''',
     ''        .text'',
     ''        .align 2'',
     ''        .globl trap_handler'',
     ''trap_handler:'',
     ''        addi    t0, x0, 1'',
     ''3:      auipc   t1, %pcrel_hi(tohost)'',
     ''        addi    t1, t1, %pcrel_lo(3b)'',
     ''        sw      t0, 0(t1)'',
     ''9:      j       9b'',
     '''',
     ''        .section .data'',
     ''        .align 4'',
     ''        .globl scratch'',
     ''scratch:'',
     ''''] @ scratch_init @ join newline
    ['''',
     '''',
     ''        .section .tohost, \"aw\", @progbits'',
     ''        .globl tohost'',
     ''        .align 3'',
     ''tohost:   .dword 0'',
     ''        .globl fromhost'',
     ''        .align 3'',
     ''fromhost: .dword 0'',
     '''']"

text \<open>\<^verbatim>\<open>MEM_RE\<close> and \<^verbatim>\<open>ALIAS_RE\<close>.\<close>

definition MEM_RE :: re where
  "MEM_RE = seqs [Bos, Plus is_space,
     Group 1 (alts [lit ''lw'', lit ''lh'', lit ''lhu'', lit ''lb'', lit ''lbu'', lit ''sw'', lit ''sh'', lit ''sb'']),
     Plus is_space, ch CHR ''x'', Plus is_digit, ch CHR '','', Many is_space, Opt (ch CHR ''-''),
     Plus is_digit, lit ''(x'', Group 2 (Plus is_digit), ch CHR '')'']"

definition ALIAS_RE :: re where
  "ALIAS_RE = seqs [Bos, Plus is_space, lit ''addi'', Plus is_space, ch CHR ''x'', Group 1 (Plus is_digit),
     lit '', x'', lit (show_nat BASE_REG), lit '', '', Plus is_digit, Eos]"

text \<open>The lines before the one checked are given in reverse, so the backward scan over NOPs is a
  \<open>dropWhile\<close>.\<close>

fun check_lines :: "string list \<Rightarrow> string list \<Rightarrow> unit res" where
  "check_lines before [] = Inr ()"
| "check_lines before (line # rest) = (
    case re_match MEM_RE line of
      None \<Rightarrow> check_lines (line # before) rest
    | Some m \<Rightarrow>
        let base = read_base 10 (group m 2) in
        if base = BASE_REG then check_lines (line # before) rest
        else
          let prev = dropWhile (\<lambda>l. strip l = ''nop'') before in
          rbind (py_assert (prev \<noteq> []) ''aliased access has nothing before it'') (\<lambda>u.
          rbind (py_assert (case re_match ALIAS_RE (hd prev) of
                   None \<Rightarrow> False | Some a \<Rightarrow> read_base 10 (group a 1) = base)
                   ''aliased access is not immediately preceded by its addi'') (\<lambda>u.
          check_lines (line # before) rest)))"

definition check_alias_bases :: "string list \<Rightarrow> unit res" where
  "check_alias_bases ls = check_lines [] ls"

text \<open>\<open>None\<close>: the call does not return.\<close>

definition generate :: "(int \<Rightarrow> nat \<Rightarrow> nat) \<Rightarrow> int \<Rightarrow> nat \<Rightarrow> nat list \<Rightarrow> rat \<Rightarrow> rat \<Rightarrow> rat \<Rightarrow> rat \<Rightarrow> rat
    \<Rightarrow> string res option" where
  "generate rng seed n p raw lu br mul bm = (
    let p = (if p = [] then DEFAULT_POOL else p) in
    if BASE_REG \<in> set p then Some (Inl (AssertionError ''the memory base register must not be written''))
    else map_option (\<lambda>r.
      rbind r (\<lambda>prog.
      rbind (check_alias_bases (map show_asm prog)) (\<lambda>u.
      Inr (PROLOGUE seed n raw lu br mul bm @ join newline (map show_asm prog) @ newline @ EPILOGUE))))
      (gen_generate (Gen_init (rng seed) n p raw lu br mul bm)))"

section \<open>Matching the rendered lines\<close>

lemma char_facts [simp]: "is_space CHR '' ''" "\<not> is_space CHR ''x''" "\<not> is_digit CHR '',''"
  "\<not> is_digit CHR ''(''" "\<not> is_digit CHR '')''" "\<not> is_space CHR ''a''" "\<not> is_space CHR ''l''"
  "\<not> is_space CHR ''s''" "\<not> is_space CHR '',''"
  by code_simp+

lemma hd_show_nat: "\<not> is_space (hd (show_nat n @ s))" "\<not> is_space (hd (show_nat n))"
  using show_nat_first [of n] digit_not by fastforce+

text \<open>The part of a memory line after its mnemonic.\<close>

definition mem_tail :: re where
  "mem_tail = seqs [Plus is_space, ch CHR ''x'', Plus is_digit, ch CHR '','', Many is_space, Opt (ch CHR ''-''),
     Plus is_digit, lit ''(x'', Group 2 (Plus is_digit), ch CHR '')'']"

lemma mem_tail_match:
  assumes "0 < m"
  shows "mt mem_tail (done_k s0) p (replicate m CHR '' '' @ ''x'' @ show_nat a @ '','' @ '' '' @ show_nat off
      @ ''(x'' @ show_nat b @ '')'' @ []) g
    = Some ((0, s0) # (2, show_nat b) # g, [])"
  unfolding mem_tail_def using assms
  by (intro re_intros) (simp_all add: hd_show_nat done_k_def)

lemma mem_tail_miss: "\<not> is_space c \<Longrightarrow> mt mem_tail k p (c # s) g = None"
  by (simp add: mem_tail_def Plus_def)

lemma mem_tail_Nil: "mt mem_tail k p [] g = None"
  by (simp add: mem_tail_def Plus_def)

definition mem_op :: re where
  "mem_op = Group 1 (alts [lit ''lw'', lit ''lh'', lit ''lhu'', lit ''lb'', lit ''lbu'', lit ''sw'', lit ''sh'', lit ''sb''])"

lemma MEM_RE_parts: "mt MEM_RE k = mt Bos (mt (Plus is_space) (mt mem_op (mt mem_tail k)))"
  by (simp add: MEM_RE_def mem_op_def mem_tail_def)

lemma mem_op_match:
  assumes "op \<in> set (map fst (LOADS @ STORES))" "0 < m"
  shows "mt mem_op (mt mem_tail k) p (op @ replicate m CHR '' '' @ s) g
    = mt mem_tail k (Some (last op)) (replicate m CHR '' '' @ s) ((1, op) # g)"
proof -
  obtain n where m: "m = Suc n" using assms(2) by (cases m) auto
  have "\<not> is_space CHR ''u''" by code_simp
  with assms(1) show ?thesis
    by (auto simp: LOADS_def STORES_def mem_op_def ch_def mem_tail_miss m)
qed

lemma ljust_spaces: "length op < w \<Longrightarrow> ljust w op @ '' '' = op @ replicate (w + 1 - length op) CHR '' ''"
  by (simp add: ljust_def replicate_append_same Suc_diff_le)

lemma mem_ops_length: "op \<in> set (map fst (LOADS @ STORES)) \<Longrightarrow> op \<noteq> [] \<and> length op < 6 \<and> \<not> is_space (hd op)"
  by (auto simp: LOADS_def STORES_def)

lemma mem_line_match:
  assumes "op \<in> set (map fst (LOADS @ STORES))"
  shows "re_match MEM_RE (indent (ljust 6 op @ '' '' @ xreg a @ '', '' @ show_nat off @ ''('' @ xreg b @ '')''))
    = Some [(0, indent (ljust 6 op @ '' '' @ xreg a @ '', '' @ show_nat off @ ''('' @ xreg b @ '')'')), (2, show_nat b), (1, op)]"
    (is "re_match MEM_RE ?l = _")
proof -
  note o = mem_ops_length [OF assms]
  let ?t = "replicate (7 - length op) CHR '' '' @ ''x'' @ show_nat a @ '','' @ '' '' @ show_nat off
      @ ''(x'' @ show_nat b @ '')'' @ []"
  have sp: "?l = replicate 8 CHR '' '' @ op @ ?t"
    using ljust_spaces [of op 6] o by (simp add: indent_def xreg_def numeral_eq_Suc)
  have "mt (Plus is_space) (mt mem_op (mt mem_tail (done_k ?l))) None (replicate 8 CHR '' '' @ op @ ?t) []
      = Some ((0, ?l) # [(2, show_nat b), (1, op)], [])"
  proof (rule ok_spaces)
    have len: "0 < 7 - length op" using o by simp
    have "mt mem_op (mt mem_tail (done_k ?l)) (Some CHR '' '') (op @ ?t) [] =
        mt mem_tail (done_k ?l) (Some (last op)) ?t ((1, op) # [])"
      by (rule mem_op_match [OF assms len])
    also have "\<dots> = Some ((0, ?l) # [(2, show_nat b), (1, op)], [])"
      by (rule mem_tail_match [OF len])
    finally show "mt mem_op (mt mem_tail (done_k ?l)) (Some CHR '' '') (op @ ?t) [] = Some ((0, ?l) # [(2, show_nat b), (1, op)], [])" .
  qed (use o in simp_all)
  then have "mt MEM_RE (done_k ?l) None ?l [] = Some ((0, ?l) # [(2, show_nat b), (1, op)], [])"
    unfolding MEM_RE_parts sp by simp
  then show ?thesis by (simp add: re_match_def match_at_def)
qed

text \<open>Lines that are not accesses.\<close>

definition nomem :: "string \<Rightarrow> bool" where
  "nomem s \<longleftrightarrow> s \<noteq> [] \<and> \<not> is_space (hd s) \<and>
     list_all (\<lambda>l. take (length l) s = l \<longrightarrow> drop (length l) s = [] \<or> \<not> is_space (hd (drop (length l) s)))
       (map fst (LOADS @ STORES))"

lemma nomem_op: "nomem s \<Longrightarrow> mt mem_op (mt mem_tail k) p s g = None"
proof -
  have t: "s = [] \<or> \<not> is_space (hd s) \<Longrightarrow> mt mem_tail k p s g = None" for p s g
    by (cases s) (simp_all add: mem_tail_miss mem_tail_Nil)
  assume "nomem s"
  then show ?thesis
    by (auto simp: nomem_def mem_op_def mt_lit_iff LOADS_def STORES_def t simp del: lit.simps)
qed

lemma mem_op_space: "mt mem_op k p (CHR '' '' # s) g = None"
  by (simp add: mem_op_def ch_def)

lemma spaces_miss:
  assumes "s = [] \<or> \<not> is_space (hd s)" "\<And>p. K p s g = None" "\<And>p s. K p (CHR '' '' # s) g = None"
  shows "mt (Plus is_space) K p (replicate m CHR '' '' @ s) g = None"
proof -
  have "greedy is_space K p (replicate m CHR '' '' @ s) g = None" for p m
  proof (induction m arbitrary: p)
    case 0
    then show ?case using assms(1,2) by (cases s) auto
  next
    case (Suc m)
    then show ?case using assms(3) by simp
  qed
  then show ?thesis using assms(1) by (cases m; cases s) (auto simp: Plus_def)
qed

lemma nomem_line: "nomem s \<Longrightarrow> re_match MEM_RE (indent s) = None"
proof -
  assume n: "nomem s"
  have i: "indent s = replicate 8 CHR '' '' @ s" by (simp add: indent_def numeral_eq_Suc)
  have "mt (Plus is_space) (mt mem_op (mt mem_tail k)) p (replicate 8 CHR '' '' @ s) g = None" for k p g
    using n nomem_op [OF n] mem_op_space by (intro spaces_miss) (auto simp: nomem_def)
  then show ?thesis by (simp add: re_match_def match_at_def MEM_RE_parts i)
qed

lemma first_not_space: "s = [] \<or> \<not> is_space (hd s) \<Longrightarrow> re_match MEM_RE s = None"
  by (cases s) (simp_all add: re_match_def match_at_def MEM_RE_parts Plus_def)

lemma nomem_rr: "op \<in> set (RR_OPS @ MULDIV @ BM_RR) \<Longrightarrow> nomem (ljust 6 op @ '' '' @ rest)"
proof -
  have "list_all (\<lambda>op. nomem (ljust 6 op @ '' '' @ rest)) (RR_OPS @ MULDIV @ BM_RR)"
    by (simp add: RR_OPS_def MULDIV_def BM_RR_def nomem_def ljust_def LOADS_def STORES_def class_defs)
  then show "op \<in> set (RR_OPS @ MULDIV @ BM_RR) \<Longrightarrow> nomem (ljust 6 op @ '' '' @ rest)"
    by (simp only: list_all_iff)
qed

lemma nomem_ri: "op \<in> set (RI_OPS @ SHIFT_I @ BM_RI) \<Longrightarrow> nomem (ljust 6 op @ '' '' @ rest)"
proof -
  have "list_all (\<lambda>op. nomem (ljust 6 op @ '' '' @ rest)) (RI_OPS @ SHIFT_I @ BM_RI)"
    by (simp add: RI_OPS_def SHIFT_I_def BM_RI_def nomem_def ljust_def LOADS_def STORES_def class_defs)
  then show "op \<in> set (RI_OPS @ SHIFT_I @ BM_RI) \<Longrightarrow> nomem (ljust 6 op @ '' '' @ rest)"
    by (simp only: list_all_iff)
qed

lemma nomem_un: "op \<in> set (BM_UN @ BRANCHES @ [''lui'', ''auipc'']) \<Longrightarrow> nomem (ljust 6 op @ '' '' @ rest)"
proof -
  have "list_all (\<lambda>op. nomem (ljust 6 op @ '' '' @ rest)) (BM_UN @ BRANCHES @ [''lui'', ''auipc''])"
    by (simp add: BM_UN_def BRANCHES_def nomem_def ljust_def LOADS_def STORES_def class_defs)
  then show "op \<in> set (BM_UN @ BRANCHES @ [''lui'', ''auipc'']) \<Longrightarrow> nomem (ljust 6 op @ '' '' @ rest)"
    by (simp only: list_all_iff)
qed

lemma nomem_fixed: "nomem (''addi   '' @ s)" "nomem (''jal    '' @ s)" "nomem ''nop''"
  by (simp_all add: nomem_def LOADS_def STORES_def class_defs)

lemma nonmem_no_match:
  assumes "line_ok p a" "access a = None" shows "re_match MEM_RE (show_asm a) = None"
proof (cases a)
  case (Label l)
  then show ?thesis by (intro first_not_space) (simp add: label_name_def class_defs)
next
  case Base_hi
  then show ?thesis by (intro first_not_space) (simp add: class_defs)
next
  case (RI op rd x i)
  then have "op \<in> set (RI_OPS @ SHIFT_I @ BM_RI)" using assms(1) by auto
  then show ?thesis using RI nomem_line [OF nomem_ri] by simp
next
  case (RR op rd x y)
  then have "op \<in> set (RR_OPS @ MULDIV @ BM_RR)" using assms(1) by auto
  then show ?thesis using RR nomem_line [OF nomem_rr] by simp
qed (use assms in \<open>auto intro!: nomem_line nomem_un nomem_fixed simp del: append_Cons\<close>)

lemma mem_match:
  assumes "line_ok p a" "access a = Some (op, off, base)"
  shows "\<exists>m. re_match MEM_RE (show_asm a) = Some m \<and> read_base 10 (group m 2) = base"
proof -
  have "\<exists>r. show_asm a = indent (ljust 6 op @ '' '' @ xreg r @ '', '' @ show_nat (nat off) @ ''('' @ xreg base @ '')'')"
    using assms by (cases a) (auto simp: show_int_def)
  then obtain r where r: "show_asm a = indent (ljust 6 op @ '' '' @ xreg r @ '', '' @ show_nat (nat off) @ ''('' @ xreg base @ '')'')"
    by blast
  have "op \<in> set (map fst (LOADS @ STORES))"
    using assms by (cases a) auto
  from mem_line_match [OF this] show ?thesis by (simp add: r group_def)
qed

lemma alias_match:
  assumes "0 \<le> k"
  shows "\<exists>m. re_match ALIAS_RE (show_asm (RI ''addi'' b BASE_REG k)) = Some m \<and> read_base 10 (group m 1) = b"
proof -
  let ?l = "show_asm (RI ''addi'' b BASE_REG k)"
  let ?t = "replicate 8 CHR '' '' @ ''addi'' @ replicate 3 CHR '' '' @ ''x'' @ show_nat b @ '', x'' @ show_nat BASE_REG @ '', ''
      @ show_nat (nat k) @ []"
  have l: "?l = ?t"
    using assms by (simp add: indent_def ljust_def xreg_def show_int_def numeral_eq_Suc)
  have "mt ALIAS_RE (done_k ?l) None ?t [] = Some ((0, ?l) # [(1, show_nat b)], [])"
    unfolding ALIAS_RE_def by (intro re_intros) (simp_all add: hd_show_nat done_k_def)
  then have "mt ALIAS_RE (done_k ?l) None ?l [] = Some ((0, ?l) # [(1, show_nat b)], [])"
    by (simp only: l)
  then have "re_match ALIAS_RE ?l = Some [(0, ?l), (1, show_nat b)]"
    unfolding re_match_def match_at_def by simp
  then show ?thesis by (simp add: group_def)
qed

lemma strip_nop: "strip (show_asm Nop) = ''nop''"
  by code_simp

lemma strip_char: "x \<in> set s \<Longrightarrow> \<not> is_space x \<Longrightarrow> x \<in> set (strip s)"
proof -
  assume x: "x \<in> set s" "\<not> is_space x"
  have "x \<in> set (dropWhile is_space t)" if "x \<in> set t" for t
    using that x(2) by (induction t) auto
  then show ?thesis using x(1) by (simp add: strip_def lstrip_def rstrip_def)
qed

lemma strip_addi: "strip (show_asm (RI ''addi'' b c k)) \<noteq> ''nop''"
proof
  assume h: "strip (show_asm (RI ''addi'' b c k)) = ''nop''"
  have "CHR ''d'' \<in> set (show_asm (RI ''addi'' b c k))" by (simp add: indent_def ljust_def)
  from strip_char [OF this] have "CHR ''d'' \<in> set (strip (show_asm (RI ''addi'' b c k)))"
    by (simp add: class_defs)
  with h show False by simp
qed

text \<open>Skipping NOPs on the text is skipping them on the lines, as long as the next line is the
  aliasing \<^verbatim>\<open>addi\<close>.\<close>

lemma skip_nops:
  assumes "dropWhile (\<lambda>a. a = Nop) pre = RI ''addi'' b c k # rest"
  shows "dropWhile (\<lambda>l. strip l = ''nop'') (map show_asm pre) = map show_asm (RI ''addi'' b c k # rest)"
  using assms
proof (induction pre)
  case (Cons a pre)
  then show ?case using strip_nop strip_addi by (auto split: if_splits)
qed simp

lemma check_lines_ok:
  assumes "all_pre access_ok (rev before @ ls)" "list_all (line_ok p) ls"
  shows "check_lines (map show_asm before) (map show_asm ls) = Inr ()"
  using assms
proof (induction ls arbitrary: before)
  case (Cons a ls)
  have rest: "check_lines (map show_asm (a # before)) (map show_asm ls) = Inr ()"
    using Cons.IH [of "a # before"] Cons.prems by simp
  have ok: "access_ok (rev before) a" using Cons.prems(1) by (rule all_pre_split)
  have line: "line_ok p a" using Cons.prems(2) by simp
  show ?case
  proof (cases "access a")
    case None
    then show ?thesis using nonmem_no_match [OF line] rest by simp
  next
    case (Some x)
    obtain op off base where x: "x = (op, off, base)" by (cases x)
    obtain m where m: "re_match MEM_RE (show_asm a) = Some m" "read_base 10 (group m 2) = base"
      using mem_match [OF line] Some x by blast
    show ?thesis
    proof (cases "base = BASE_REG")
      case True
      then show ?thesis using m rest by simp
    next
      case False
      then obtain k rest' where k: "dropWhile (\<lambda>a. a = Nop) before = RI ''addi'' base BASE_REG k # rest'" "0 \<le> k"
        using ok Some x
        by (auto simp: access_ok_def base_offset_def split: option.splits list.splits asm.splits if_splits)
      obtain m' where "re_match ALIAS_RE (show_asm (RI ''addi'' base BASE_REG k)) = Some m'"
        "read_base 10 (group m' 1) = base" using alias_match [OF k(2)] by blast
      then show ?thesis
        using m False rest skip_nops [OF k(1)] by (simp add: py_assert_def del: show_asm.simps)
    qed
  qed
qed simp

section \<open>The claims\<close>

lemma gen_facts:
  assumes "pool_ok p"
  obtains g where "gen_generate (Gen_init t n p raw lu br mul bm) = Some (Inr (out g))"
    "Ginv p g" "pending_labels g = []" "raw_d g = raw" "lu_d g = lu"
proof -
  obtain g where g: "gen_generate (Gen_init t n p raw lu br mul bm) = Some (Inr (out g))"
    "Jinv p False g" "pending_labels g = []" "raw_d g = raw" "lu_d g = lu"
    using gen_generate_ok [OF assms] by metis
  show ?thesis using that g by (simp add: Jinv_def)
qed


lemma default_pool_ok: "pool_ok DEFAULT_POOL"
  by (simp add: pool_ok_def DEFAULT_POOL_def BASE_REG_def)


text \<open>C12: every generated program is legal and confined: every line uses a mnemonic of the tables
  with operands in their ranges and writes only pool registers (or \<^verbatim>\<open>x0\<close>, by a jump), and
  every load and store is naturally aligned inside the 256-byte scratch area, its base being
  the reserved register or a register the nearest preceding line other than a NOP set to the
  reserved register plus a constant.\<close>

theorem generated_program_safe:
  assumes "pool_ok p"
  shows "\<exists>prog. gen_generate (Gen_init t n p raw lu br mul bm) = Some (Inr prog) \<and>
    list_all (line_ok p) prog \<and> all_pre access_ok prog"
  using gen_facts [OF assms, of t n raw lu br mul bm] by (metis Ginv_def)

theorem generated_program_safe_witness:
  "\<exists>prog. gen_generate (Gen_init (\<lambda>i. 3 * i) 100 DEFAULT_POOL 1 1 (1 / 8) 0 (1 / 4)) = Some (Inr prog) \<and>
    list_all (line_ok DEFAULT_POOL) prog \<and> all_pre access_ok prog"
  by (rule generated_program_safe [OF default_pool_ok])

text \<open>C13: control flow of a generated program is forward only and complete: every branch and jump
  targets a label that is defined exactly once, after the branch, however much padding was
  inserted between choosing the target and emitting the branch. So no run of the body loops.\<close>

theorem generated_labels_forward:
  assumes "pool_ok p"
  shows "\<exists>prog. gen_generate (Gen_init t n p raw lu br mul bm) = Some (Inr prog) \<and>
    distinct (labels prog) \<and>
    (\<forall>i<length prog. \<forall>l. target (prog ! i) = Some l \<longrightarrow> (\<exists>j. i < j \<and> j < length prog \<and> prog ! j = Label l))"
proof -
  obtain g where g: "gen_generate (Gen_init t n p raw lu br mul bm) = Some (Inr (out g))" "Ginv p g"
    "pending_labels g = []" using gen_facts [OF assms] by metis
  have lo: "labels_ok (label_n g) (out g) []" using g(2,3) by (simp add: Ginv_def)
  have "\<exists>j. i < j \<and> j < length (out g) \<and> out g ! j = Label l"
    if i: "i < length (out g)" "target (out g ! i) = Some l" for i l
  proof -
    have "forward_ok (take i (out g)) (out g ! i)" using lo i by (simp add: labels_ok_def all_pre_def)
    then have pre: "Label l \<notin> set (take i (out g))" using i(2) by (simp add: forward_ok_def)
    have "l \<in> set (labels (out g))" using lo i nth_mem by (fastforce simp: labels_ok_def)
    then have "Label l \<in> set (out g)" by (simp add: label_mem)
    then obtain j where j: "j < length (out g)" "out g ! j = Label l" by (auto simp: in_set_conv_nth)
    have "j \<noteq> i" using i(2) j(2) by auto
    moreover have "\<not> j < i"
    proof
      assume "j < i"
      then have "take i (out g) ! j \<in> set (take i (out g))" using j(1) i(1) by (intro nth_mem) simp
      then show False using pre j(2) \<open>j < i\<close> by simp
    qed
    ultimately show ?thesis using j by (metis linorder_neqE_nat)
  qed
  then show ?thesis using g(1) lo by (auto simp: labels_ok_def)
qed

theorem generated_labels_forward_witness:
  "\<exists>prog. gen_generate (Gen_init (\<lambda>i. i * i) 50 DEFAULT_POOL (1 / 2) (1 / 2) (1 / 2) 0 0) = Some (Inr prog) \<and>
    distinct (labels prog) \<and>
    (\<forall>i<length prog. \<forall>l. target (prog ! i) = Some l \<longrightarrow> (\<exists>j. i < j \<and> j < length prog \<and> prog ! j = Label l))"
  by (rule generated_labels_forward [OF default_pool_ok])

text \<open>C14: with both hazard densities at zero, every source register of every instruction was last
  written at least three instructions earlier, NOPs counted and labels not.\<close>

theorem generated_raw_distance:
  assumes "pool_ok p"
  shows "\<exists>prog. gen_generate (Gen_init t n p 0 0 br mul bm) = Some (Inr prog) \<and> all_pre raw_ok (ins prog)"
  using gen_facts [OF assms, of t n 0 0 br mul bm] by (metis Ginv_def)

theorem generated_raw_distance_witness:
  "\<exists>prog. gen_generate (Gen_init (\<lambda>i. 5 * i + 1) 64 DEFAULT_POOL 0 0 (1 / 8) (1 / 8) (1 / 8)) = Some (Inr prog) \<and>
    all_pre raw_ok (ins prog)"
  by (rule generated_raw_distance [OF default_pool_ok])

end
