(* ===== verification/Commit_Log.thy ===== *)
theory Commit_Log
  imports Py_Regex Cycle_Model
begin

text \<open>
  The lockstep comparison of two commit logs: \<^verbatim>\<open>tb/cosim/spike_asm.py\<close> (parsing of
  Spike's output and of \<^verbatim>\<open>nm\<close>), \<^verbatim>\<open>tb/cosim/commit_diff.py\<close> (the formatter, the RTL log
  parser and the differ) and the verdict \<open>run_one\<close> of \<^verbatim>\<open>tb/cosim/test_cosim_a5.py\<close>, which
  joins the diff with the cycle model. The outputs of Spike, \<^verbatim>\<open>nm\<close> and the simulator are
  arguments. A commit is a pc, an instruction word and the register writes, all nonnegative.
\<close>

type_synonym commit = "nat \<times> nat \<times> (nat \<times> nat) list"

section \<open>Spike's side\<close>

definition COMMIT_RE :: re where
  "COMMIT_RE = seqs [Bos, lit ''core'', Plus is_space, Plus is_digit, lit '':'', Plus is_space, Plus is_digit,
     Plus is_space, lit ''0x'', Group 1 (Plus is_hex_lower), Plus is_space,
     lit ''('', Group 2 (seqs [lit ''0x'', Plus is_hex_lower]), lit '')'', Group 3 (Many any_char), Eos]"

definition WRITE_RE :: re where
  "WRITE_RE = seqs [Wordb, lit ''x'', Group 1 (Plus is_digit), Plus is_space,
     Group 2 (seqs [lit ''0x'', Plus is_hex_lower])]"

text \<open>\<^verbatim>\<open>int(s, 16)\<close> of a string that may carry the \<^verbatim>\<open>0x\<close> prefix.\<close>

definition int16 :: "string \<Rightarrow> nat" where
  "int16 s = read_base 16 (if startswith s ''0x'' then drop 2 s else s)"

definition spike_line :: "string \<Rightarrow> commit option" where
  "spike_line line = (case re_match COMMIT_RE line of
     None \<Rightarrow> None
   | Some m \<Rightarrow> Some (int16 (group m 1), int16 (group m 2),
       map (\<lambda>w. (read_base 10 (group w 1), int16 (group w 2))) (re_finditer WRITE_RE (group m 3))))"

definition spike_trace :: "string \<Rightarrow> commit list" where
  "spike_trace text = List.map_filter spike_line (splitlines text)"

text \<open>\<^verbatim>\<open>symbol\<close>, on the output of \<^verbatim>\<open>nm\<close>.\<close>

fun symbol_in :: "string list \<Rightarrow> string \<Rightarrow> nat option" where
  "symbol_in [] name = None"
| "symbol_in (line # ls) name = (let parts = split_ws line in
     if length parts = 3 \<and> parts ! 2 = name then Some (int16 (parts ! 0)) else symbol_in ls name)"

definition symbol :: "string \<Rightarrow> string \<Rightarrow> nat option" where
  "symbol nm name = symbol_in (splitlines nm) name"

definition skipped_traps :: "string \<Rightarrow> commit list \<Rightarrow> nat list option" where
  "skipped_traps nm trace = (case symbol nm ''trap_handler'' of
     None \<Rightarrow> None
   | Some h \<Rightarrow> Some (concat (map (\<lambda>(pc, w, writes). if pc = h then map snd writes else []) trace)))"

definition BASE :: nat where "BASE = 0x80000000"

fun spike_loop :: "nat option \<Rightarrow> commit list \<Rightarrow> commit list" where
  "spike_loop handler [] = []"
| "spike_loop handler ((pc, insn, writes) # trace) = (
    if pc < BASE then spike_loop handler trace
    else if handler = Some pc then []
    else (pc, insn, filter (\<lambda>(r, v). r \<noteq> 0) writes) # spike_loop handler trace)"

definition spike_records :: "string \<Rightarrow> string \<Rightarrow> commit list res" where
  "spike_records text nm = (
    let trace = spike_trace text in
    if trace = [] then Inl (RuntimeError ''Spike produced no commit trace'')
    else Inr (spike_loop (symbol nm ''trap_handler'') trace))"

section \<open>The formatter and the RTL's side\<close>

definition hex32 :: "nat \<Rightarrow> string" where "hex32 n = ''0x'' @ hex 8 n"

definition render_write :: "nat \<times> nat \<Rightarrow> string" where
  "render_write w = '' '' @ ljust 3 (CHR ''x'' # show_nat (fst w)) @ '' '' @ hex32 (snd w)"

definition render :: "commit \<Rightarrow> string" where
  "render c = (case c of (pc, insn, writes) \<Rightarrow>
     ''core   0: 3 '' @ hex32 pc @ '' ('' @ hex32 insn @ '')'' @ concat (map render_write writes))"

definition hex8 :: re where "hex8 = Rep 8 (Cls is_hex_lower)"

definition RTL_LINE_RE :: re where
  "RTL_LINE_RE = seqs [Bos, lit ''core'', Plus is_space, Plus is_digit, lit '':'', Plus is_space, Plus is_digit,
     Plus is_space, lit ''0x'', Group 1 hex8, Plus is_space, lit ''(0x'', Group 2 hex8, lit '')'',
     Opt (seqs [Plus is_space, lit ''x'', Group 3 (Plus is_digit), Plus is_space, lit ''0x'', Group 4 hex8]),
     Many is_space, Eos]"

fun rtl_loop :: "nat option \<Rightarrow> string list \<Rightarrow> commit list res" where
  "rtl_loop stop_pc [] = Inr []"
| "rtl_loop stop_pc (line # ls) = (
    if line = [] then rtl_loop stop_pc ls
    else case re_match RTL_LINE_RE line of
      None \<Rightarrow> Inl (RuntimeError ''RTL trace line does not match Spike's format'')
    | Some m \<Rightarrow>
        let pc = read_base 16 (group m 1); insn = read_base 16 (group m 2) in
        if stop_pc = Some pc then Inr []
        else
          let writes = (case map_of m 3 of None \<Rightarrow> []
                        | Some r \<Rightarrow> [(read_base 10 r, read_base 16 (group m 4))])
          in rbind (rtl_loop stop_pc ls) (\<lambda>out. Inr ((pc, insn, writes) # out)))"

text \<open>The lines of a text file; the empty piece after the last newline is skipped like any
  other empty line.\<close>

definition rtl_records :: "string \<Rightarrow> nat option \<Rightarrow> commit list res" where
  "rtl_records text stop_pc = rtl_loop stop_pc (split_on CHR 0x0A text)"

section \<open>The differ\<close>

text \<open>The first index at which the renderings differ; \<open>None\<close> when the common part agrees.\<close>

fun first_diff :: "nat \<Rightarrow> commit list \<Rightarrow> commit list \<Rightarrow> nat option" where
  "first_diff i (s # ss) (r # rs) = (if render s \<noteq> render r then Some i else first_diff (Suc i) ss rs)"
| "first_diff i ss rs = None"

definition side :: "commit list \<Rightarrow> nat \<Rightarrow> string" where
  "side recs i = (if i < length recs then render (recs ! i) else ''<end of log>'')"

definition show_writes :: "(nat \<times> nat) list \<Rightarrow> string" where
  "show_writes ws = ''['' @ join '', '' (map (\<lambda>(r, v). ''('' @ show_nat r @ '', '' @ show_nat v @ '')'') ws) @ '']''"

definition diff_what :: "commit \<Rightarrow> commit \<Rightarrow> string list" where
  "diff_what sp sr = (case (sp, sr) of ((pc, insn, ws), (pc', insn', ws')) \<Rightarrow>
     if pc \<noteq> pc' then [''  pc differs:   spike '' @ hex32 pc @ ''  rtl '' @ hex32 pc']
     else if insn \<noteq> insn' then
       [''  insn differs: spike '' @ hex32 insn @ ''  rtl '' @ hex32 insn' @
        ''  (the RTL fetched a different word at the same pc)'']
     else [''  same pc and insn; the register writeback differs:'',
           ''    spike '' @ show_writes ws, ''    rtl   '' @ show_writes ws'])"

definition diff :: "commit list \<Rightarrow> commit list \<Rightarrow> nat \<Rightarrow> string option" where
  "diff spike rtl context = (
    let n = min (length spike) (length rtl); f = first_diff 0 spike rtl in
    if f = None \<and> length spike = length rtl then None
    else
      let first = (case f of None \<Rightarrow> n | Some i \<Rightarrow> i);
          lo = first - context;
          hi = min (max (length spike) (length rtl)) (first + context + 1);
          head = (if first < n
                  then [''FIRST DIVERGENCE at commit #'' @ show_nat first @
                        '' (pc '' @ hex32 (fst (spike ! first)) @ '')'']
                  else [''LOGS AGREE for '' @ show_nat n @ '' commits but differ in LENGTH: spike '' @
                        show_nat (length spike) @ '', rtl '' @ show_nat (length rtl)]);
          rows = map (\<lambda>i. let s = side spike i; r = side rtl i in
                     (if s = r then ''  '' else ''>>'') @ ljust 4 (show_nat i) @ ''  '' @ ljust 50 s @ ''  '' @ r)
                   [lo..<hi];
          tail = (if first < n then diff_what (spike ! first) (rtl ! first) else [])
      in Some (join [CHR 0x0A]
           (head @ [[], ''  '' @ ljust 4 [] @ ''  '' @ ljust 50 ''SPIKE'' @ ''  RTL''] @ rows @ [[]] @ tail)))"

section \<open>The verdict on one program\<close>

definition SPAN_RE :: re where
  "SPAN_RE = seqs [lit ''span='', Group 1 (seqs [Opt (ch CHR ''-''), Plus is_digit])]"

definition read_int :: "string \<Rightarrow> int" where
  "read_int s = (case s of c # cs \<Rightarrow> if c = CHR ''-'' then - int (read_base 10 cs) else int (read_base 10 s)
                 | [] \<Rightarrow> 0)"

definition CORE_HAS_PREDICTOR :: bool where "CORE_HAS_PREDICTOR = True"

text \<open>What the external programs gave for one ELF: the simulator's exit code and output, the
  trace file it wrote (\<open>None\<close> if there is none), Spike's output and the symbol table.\<close>

record run_io =
  sim_rc :: int
  sim_out :: string
  sim_trace :: "string option"
  spike_out :: string
  nm_out :: string

definition retire_stream :: "commit list \<Rightarrow> retire list" where
  "retire_stream cs = map (\<lambda>(pc, insn, ws). (int pc, int insn)) cs"

definition run_one :: "run_io \<Rightarrow> bool \<Rightarrow> bool res" where
  "run_one io check_cycles = (
    let handler = symbol (nm_out io) ''trap_handler'' in
    if handler = None then Inl (TypeError ''%x format: an integer is required'')
    else case (if sim_rc io \<noteq> 0 then None else sim_trace io) of
      None \<Rightarrow> Inr False
    | Some trace \<Rightarrow>
        rbind (spike_records (spike_out io) (nm_out io)) (\<lambda>sp.
        rbind (rtl_records trace handler) (\<lambda>rt.
        if diff sp rt 6 \<noteq> None then Inr False
        else if check_cycles then
          (case re_search SPAN_RE (strip (sim_out io)) of
             None \<Rightarrow> Inr False
           | Some m \<Rightarrow>
               let actual = read_int (group m 1) in
               rbind (analyse (retire_stream rt) CORE_HAS_PREDICTOR) (\<lambda>pred.
               Inr (\<not> p_span pred \<noteq> actual)))
        else Inr True)))"


section \<open>The formatter and the parser agree\<close>

definition commit_ok :: "commit \<Rightarrow> bool" where
  "commit_ok c = (case c of (pc, insn, writes) \<Rightarrow>
     pc < 2 ^ 32 \<and> insn < 2 ^ 32 \<and> length writes \<le> 1 \<and> (\<forall>(r, v)\<in>set writes. v < 2 ^ 32))"

lemma ok_hex8 [re_intros]:
  assumes "n < 2 ^ 32" and "k (Some (last (hex 8 n))) s ((i, hex 8 n) # g) = Some r"
  shows "mt (Group i hex8) k p (hex 8 n @ s) g = Some r"
proof -
  have len: "length (hex 8 n) = 8" using assms(1) by (intro hex_length) simp_all
  then have "hex 8 n \<noteq> []" by auto
  with assms(2) len show ?thesis
    by (simp add: hex8_def Rep_run [OF hex_digits len])
qed

lemma ok_many_nil [re_intros]: "k p [] g = Some r \<Longrightarrow> mt (Many c) k p [] g = Some r"
  by simp

lemma ok_opt [re_intros]: "mt a k p s g = Some r \<Longrightarrow> mt (Opt a) k p s g = Some r"
  by simp

lemma seqs_append: "mt (seqs (xs @ ys)) k = mt (seqs xs) (mt (seqs ys) k)"
  by (induction xs) simp_all

lemma ok_opt_nil [re_intros]: "k p [] g = Some r \<Longrightarrow> mt (Opt (seqs (Plus c # rs))) k p [] g = Some r"
  by (simp add: Plus_def)

definition line_head :: "nat \<Rightarrow> nat \<Rightarrow> string" where
  "line_head pc insn = ''core'' @ replicate 3 CHR '' '' @ show_nat 0 @ '':'' @ replicate 1 CHR '' '' @ show_nat 3 @
     replicate 1 CHR '' '' @ ''0x'' @ hex 8 pc @ replicate 1 CHR '' '' @ ''(0x'' @ hex 8 insn @ '')''"

lemma render_nil: "render (pc, insn, []) = line_head pc insn"
  by (simp add: render_def line_head_def hex32_def show_nat_def show_base.simps digit_def eval_nat_numeral)

definition write_part :: "nat \<Rightarrow> nat \<Rightarrow> string" where
  "write_part r v = replicate 1 CHR '' '' @ ''x'' @ show_nat r @ replicate (3 - length (CHR ''x'' # show_nat r) + 1) CHR '' '' @
     ''0x'' @ hex 8 v"

lemma render_one: "render (pc, insn, [(r, v)]) = line_head pc insn @ write_part r v"
proof -
  have "render_write (r, v) = write_part r v"
    by (simp add: render_write_def write_part_def ljust_def hex32_def replicate_add [symmetric]
        replicate_app_Cons_same)
  then show ?thesis
    using render_nil [of pc insn] by (simp add: render_def)
qed

definition head_re :: "re list" where
  "head_re = [Bos, lit ''core'', Plus is_space, Plus is_digit, lit '':'', Plus is_space, Plus is_digit,
     Plus is_space, lit ''0x'', Group 1 hex8, Plus is_space, lit ''(0x'', Group 2 hex8, lit '')'']"

definition write_re :: "re list" where
  "write_re = [Plus is_space, lit ''x'', Group 3 (Plus is_digit), Plus is_space, lit ''0x'', Group 4 hex8]"

lemma RTL_LINE_RE_eq: "mt RTL_LINE_RE k = mt (seqs head_re) (mt (seqs [Opt (seqs write_re), Many is_space, Eos]) k)"
  by (simp add: RTL_LINE_RE_def head_re_def write_re_def)

lemma show_small: "show_nat 0 = ''0''" "show_nat 3 = ''3''"
  by (simp_all add: show_nat_def show_base.simps digit_def eval_nat_numeral)

lemma head_ok:
  assumes "pc < 2 ^ 32" "insn < 2 ^ 32"
    and "k (Some CHR '')'') s [(2, hex 8 insn), (1, hex 8 pc)] = Some r"
  shows "mt (seqs head_re) k None (line_head pc insn @ s) [] = Some r"
  unfolding head_re_def line_head_def append_assoc
  apply (intro re_intros)
  apply (rule assms | simp add: show_small is_space_def is_digit_def del: One_nat_def)+
  done

lemma write_ok:
  assumes "v < 2 ^ 32"
    and "k (Some (last (hex 8 v))) [] ((4, hex 8 v) # (3, show_nat rg) # g) = Some r"
  shows "mt (seqs write_re) k p (write_part rg v @ []) g = Some r"
  unfolding write_re_def write_part_def append_assoc
  apply (intro re_intros)
  apply (rule assms | simp add: show_small is_space_def is_digit_def del: One_nat_def)+
  done

lemma match_nil:
  assumes "pc < 2 ^ 32" "insn < 2 ^ 32"
  shows "re_match RTL_LINE_RE (line_head pc insn) =
    Some [(0, line_head pc insn), (2, hex 8 insn), (1, hex 8 pc)]"
proof -
  have "mt RTL_LINE_RE (done_k (line_head pc insn)) None (line_head pc insn @ []) [] =
    Some ([(0, line_head pc insn), (2, hex 8 insn), (1, hex 8 pc)], [])"
    unfolding RTL_LINE_RE_eq
    by (rule head_ok [OF assms]) (simp add: write_re_def Plus_def done_k_def)
  then show ?thesis by (simp add: re_match_def match_at_def)
qed

lemma match_one:
  assumes "pc < 2 ^ 32" "insn < 2 ^ 32" "v < 2 ^ 32"
  shows "re_match RTL_LINE_RE (line_head pc insn @ write_part rg v) =
    Some [(0, line_head pc insn @ write_part rg v), (4, hex 8 v), (3, show_nat rg),
      (2, hex 8 insn), (1, hex 8 pc)]"
    (is "re_match _ ?l = Some ?g")
proof -
  have w: "mt (seqs write_re) (mt (seqs [Many is_space, Eos]) (done_k ?l)) (Some CHR '')'')
      (write_part rg v @ []) [(2, hex 8 insn), (1, hex 8 pc)] = Some (?g, [])"
    by (rule write_ok [OF assms(3)]) (simp add: done_k_def)
  have "mt RTL_LINE_RE (done_k ?l) None ?l [] = Some (?g, [])"
    unfolding RTL_LINE_RE_eq
    by (rule head_ok [OF assms(1,2)]) (use w in \<open>simp add: orelse_def\<close>)
  then show ?thesis by (simp add: re_match_def match_at_def)
qed

lemma render_ok_cases:
  assumes "commit_ok c"
  obtains pc insn where "c = (pc, insn, [])" "pc < 2 ^ 32" "insn < 2 ^ 32" "render c = line_head pc insn"
  | pc insn rg v where "c = (pc, insn, [(rg, v)])" "pc < 2 ^ 32" "insn < 2 ^ 32" "v < 2 ^ 32"
      "render c = line_head pc insn @ write_part rg v"
proof -
  obtain pc insn ws where c: "c = (pc, insn, ws)" by (cases c)
  show thesis
  proof (cases ws)
    case Nil
    with assms c show thesis by (intro that(1)) (auto simp: commit_ok_def render_nil)
  next
    case (Cons w ws')
    obtain rg v where w: "w = (rg, v)" by (cases w)
    have "ws' = []" using assms c Cons by (auto simp: commit_ok_def)
    with assms c Cons w show thesis by (intro that(2)) (auto simp: commit_ok_def render_one)
  qed
qed

lemma rtl_loop_render:
  assumes "commit_ok c" and "stop_pc \<noteq> Some (fst c)"
  shows "rtl_loop stop_pc (render c # ls) = rbind (rtl_loop stop_pc ls) (\<lambda>out. Inr (c # out))"
  using assms(1)
proof (cases rule: render_ok_cases)
  case (1 pc insn)
  have "line_head pc insn \<noteq> []" by (simp add: line_head_def)
  with 1 assms(2) show ?thesis by (simp add: match_nil group_def Let_def)
next
  case (2 pc insn rg v)
  have "line_head pc insn \<noteq> []" by (simp add: line_head_def)
  with 2 assms(2) show ?thesis by (simp add: match_one group_def Let_def)
qed

lemma rtl_loop_renders:
  assumes "\<forall>c\<in>set cs. commit_ok c \<and> stop_pc \<noteq> Some (fst c)"
  shows "rtl_loop stop_pc (map render cs) = Inr cs"
  using assms by (induction cs) (simp_all add: rtl_loop_render del: rtl_loop.simps(2))

lemma render_inj: "commit_ok c \<Longrightarrow> commit_ok d \<Longrightarrow> render c = render d \<Longrightarrow> c = d"
  using rtl_loop_render [of c None "[]"] rtl_loop_render [of d None "[]"] by simp
lemma digits_no_newline: "CHR 0x0A \<notin> set (show_nat m)" "CHR 0x0A \<notin> set (hex w m)"
proof -
  have "\<not> is_digit CHR 0x0A" "\<not> is_hex_lower CHR 0x0A" by code_simp+
  then show "CHR 0x0A \<notin> set (show_nat m)" "CHR 0x0A \<notin> set (hex w m)"
    using show_nat_digits [of m] hex_digits [of w m] by (auto simp only: list_all_iff)
qed

lemma head_no_newline: "CHR 0x0A \<notin> set (line_head pc insn)"
  using digits_no_newline by (simp add: line_head_def)

lemma write_no_newline: "CHR 0x0A \<notin> set (write_part rg v)"
  using digits_no_newline by (simp add: write_part_def)

lemma render_no_newline: "commit_ok c \<Longrightarrow> CHR 0x0A \<notin> set (render c)"
  by (erule render_ok_cases) (simp_all only: set_append Un_iff head_no_newline write_no_newline simp_thms)

lemma split_on_lines:
  "(\<And>l. l \<in> set ls \<Longrightarrow> c \<notin> set l) \<Longrightarrow> split_on c (concat (map (\<lambda>l. l @ [c]) ls)) = ls @ [[]]"
  by (induction ls) (auto simp: split_on_append)

lemma rtl_loop_snoc_empty: "rtl_loop stop_pc (ls @ [[]]) = rtl_loop stop_pc ls"
  by (induction ls) (auto simp: Let_def split: option.splits)

lemma rtl_records_render:
  assumes "\<forall>c\<in>set cs. commit_ok c \<and> stop_pc \<noteq> Some (fst c)"
  shows "rtl_records (concat (map (\<lambda>c. render c @ [CHR 0x0A]) cs)) stop_pc = Inr cs"
proof -
  have "CHR 0x0A \<notin> set l" if "l \<in> set (map render cs)" for l
  proof -
    from that obtain c where "c \<in> set cs" "l = render c" by (metis imageE list.set_map)
    with assms show ?thesis using render_no_newline by blast
  qed
  then have "split_on CHR 0x0A (concat (map (\<lambda>l. l @ [CHR 0x0A]) (map render cs))) = map render cs @ [[]]"
    by (rule split_on_lines)
  then have "split_on CHR 0x0A (concat (map (\<lambda>c. render c @ [CHR 0x0A]) cs)) = map render cs @ [[]]"
    by (simp only: map_map comp_def)
  then show ?thesis
    using rtl_loop_renders [OF assms] by (simp add: rtl_records_def rtl_loop_snoc_empty)
qed

section \<open>What the differ decides\<close>

lemma first_diff_None:
  "first_diff i ss rs = None \<longleftrightarrow>
    (\<forall>j < min (length ss) (length rs). render (ss ! j) = render (rs ! j))"
proof (induction i ss rs rule: first_diff.induct)
  case (1 i s ss r rs)
  show ?case using 1 by (auto simp: less_Suc_eq_0_disj)
qed simp_all

lemma first_diff_Some:
  "first_diff i ss rs = Some j \<Longrightarrow>
    i \<le> j \<and> j - i < min (length ss) (length rs) \<and> render (ss ! (j - i)) \<noteq> render (rs ! (j - i)) \<and>
    (\<forall>l < j - i. render (ss ! l) = render (rs ! l))"
proof (induction i ss rs rule: first_diff.induct)
  case (1 i s ss r rs)
  show ?case
  proof (cases "render s = render r")
    case True
    with 1 have a: "Suc i \<le> j" "j - Suc i < min (length ss) (length rs)"
      "render (ss ! (j - Suc i)) \<noteq> render (rs ! (j - Suc i))"
      "\<forall>l < j - Suc i. render (ss ! l) = render (rs ! l)" by auto
    then have d: "j - i = Suc (j - Suc i)" by simp
    show ?thesis
      using a True unfolding d by (auto simp: less_Suc_eq_0_disj)
  next
    case False
    with 1 show ?thesis by auto
  qed
qed simp_all

lemma diff_None: "diff spike rtl context = None \<longleftrightarrow> map render spike = map render rtl"
proof -
  have "diff spike rtl context = None \<longleftrightarrow> first_diff 0 spike rtl = None \<and> length spike = length rtl"
    by (simp add: diff_def Let_def)
  also have "\<dots> \<longleftrightarrow> map render spike = map render rtl"
    by (auto simp: first_diff_None list_eq_iff_nth_eq)
  finally show ?thesis .
qed

lemma map_render_inj:
  "\<forall>c\<in>set xs \<union> set ys. commit_ok c \<Longrightarrow> map render xs = map render ys \<Longrightarrow> xs = ys"
  by (erule map_inj_on) (blast intro: inj_onI render_inj)

lemma spike_loop_eq:
  "spike_loop handler trace =
    map (\<lambda>(pc, insn, ws). (pc, insn, filter (\<lambda>(r, v). r \<noteq> 0) ws))
      (takeWhile (\<lambda>c. handler \<noteq> Some (fst c)) (filter (\<lambda>c. BASE \<le> fst c) trace))"
  by (induction handler trace rule: spike_loop.induct) auto

lemma spike_records_Inr:
  "spike_records text nm = Inr recs \<longleftrightarrow> spike_trace text \<noteq> [] \<and>
    recs = map (\<lambda>(pc, insn, ws). (pc, insn, filter (\<lambda>(r, v). r \<noteq> 0) ws))
      (takeWhile (\<lambda>c. symbol nm ''trap_handler'' \<noteq> Some (fst c)) (filter (\<lambda>c. BASE \<le> fst c) (spike_trace text)))"
  by (auto simp: spike_records_def spike_loop_eq Let_def)

lemma rtl_loop_before_stop:
  "rtl_loop stop_pc ls = Inr recs \<Longrightarrow> c \<in> set recs \<Longrightarrow> stop_pc \<noteq> Some (fst c)"
  by (induction ls arbitrary: recs)
    (auto simp: Let_def rbind_Inr_iff split: if_splits option.splits)

section \<open>The properties\<close>

text \<open>C15: the commit-line formatter and the parser of the RTL log are inverse: a log written by
  \<open>render\<close>, one line per commit, is read back as exactly the commits, whatever the width of the
  register names, provided the values are 32-bit and each commit writes at most one register.\<close>

theorem rtl_log_roundtrip:
  assumes "\<forall>c\<in>set cs. commit_ok c \<and> stop_pc \<noteq> Some (fst c)"
  shows "rtl_records (concat (map (\<lambda>c. render c @ [CHR 0x0A]) cs)) stop_pc = Inr cs"
  by (rule rtl_records_render [OF assms])

theorem rtl_log_roundtrip_witness:
  "rtl_records (concat (map (\<lambda>c. render c @ [CHR 0x0A])
      [(0x80000000, 0x500513, [(10, 5)]), (0x80000004, 0x13, [])])) (Some 0x80000100) =
    Inr [(0x80000000, 0x500513, [(10, 5)]), (0x80000004, 0x13, [])]"
  by (rule rtl_log_roundtrip) (simp add: commit_ok_def)

text \<open>C16: on 32-bit logs the differ passes exactly the equal ones: it returns \<^verbatim>\<open>None\<close> if and
  only if the two commit lists are equal, so neither the fixed-width rendering nor the comparison
  of renderings hides a difference in a pc, an instruction, a register or a value.\<close>

theorem diff_exact:
  assumes "\<forall>c\<in>set spike \<union> set rtl. commit_ok c"
  shows "diff spike rtl context = None \<longleftrightarrow> spike = rtl"
proof
  assume "diff spike rtl context = None"
  then have "map render spike = map render rtl" by (simp only: diff_None)
  then show "spike = rtl" by (rule map_render_inj [OF assms])
next
  assume "spike = rtl"
  then show "diff spike rtl context = None" by (simp only: diff_None)
qed

theorem diff_exact_witness:
  "(diff [(0x80000000, 0x500513, [(10, 5)])] [(0x80000000, 0x500513, [(10, 6)])] 6 = None) =
    ([(0x80000000, 0x500513, [(10, 5)])] = [(0x80000000::nat, 0x500513::nat, [(10::nat, 6::nat)])])"
  by (rule diff_exact) (simp add: commit_ok_def)

text \<open>When the logs differ inside their common length, the reported commit is the first
  that differs: the report starts with that index, and all commits before it are equal.\<close>

theorem diff_first:
  assumes "\<forall>c\<in>set spike \<union> set rtl. commit_ok c"
    and "i < min (length spike) (length rtl)" and "spike ! i \<noteq> rtl ! i"
    and "take i spike = take i rtl"
  shows "\<exists>rest. diff spike rtl context = Some (''FIRST DIVERGENCE at commit #'' @ show_nat i @ rest)"
proof -
  have "\<exists>j. first_diff 0 spike rtl = Some j"
    using assms render_inj [of "spike ! i" "rtl ! i"] first_diff_None [of 0 spike rtl] by fastforce
  then obtain j where j: "first_diff 0 spike rtl = Some j" by blast
  note f = first_diff_Some [OF j]
  have "\<not> i < j"
    using f assms render_inj [of "spike ! i" "rtl ! i"] by fastforce
  moreover have "\<not> j < i"
  proof
    assume "j < i"
    then have "spike ! j = rtl ! j" by (metis assms(4) nth_take)
    with f show False by simp
  qed
  ultimately have "j = i" by simp
  with j assms(2) show ?thesis
    by (simp add: diff_def Let_def)
qed

theorem diff_first_witness:
  "\<exists>rest. diff [(0x80000000, 0x500513, [(10, 5)])] [(0x80000000, 0x500513, [(10, 6)])] 6 =
    Some (''FIRST DIVERGENCE at commit #'' @ show_nat 0 @ rest)"
  by (rule diff_first) (simp_all add: commit_ok_def)
text \<open>C17: a program passes the cosimulation check exactly when the simulator exited cleanly, the
  renderings of its log and of Spike's commits (from the reset address, up to the trap handler,
  writes to \<^verbatim>\<open>x0\<close> dropped) are equal line by line, and the span the simulator reported is the
  one the cycle model computes from the log.\<close>

theorem run_one_passes:
  "run_one io True = Inr True \<longleftrightarrow>
    (\<exists>h trace rt m pred. symbol (nm_out io) ''trap_handler'' = Some h \<and>
      sim_rc io = 0 \<and> sim_trace io = Some trace \<and> rtl_records trace (Some h) = Inr rt \<and>
      spike_trace (spike_out io) \<noteq> [] \<and>
      map render (map (\<lambda>(pc, insn, ws). (pc, insn, filter (\<lambda>(r, v). r \<noteq> 0) ws))
        (takeWhile (\<lambda>c. fst c \<noteq> h) (filter (\<lambda>c. BASE \<le> fst c) (spike_trace (spike_out io))))) =
      map render rt \<and>
      re_search SPAN_RE (strip (sim_out io)) = Some m \<and>
      analyse (retire_stream rt) True = Inr pred \<and> p_span pred = read_int (group m 1))"
  (is "_ \<longleftrightarrow> ?R")
proof -
  have sp: "spike_records (spike_out io) (nm_out io) = Inr recs \<longleftrightarrow> spike_trace (spike_out io) \<noteq> [] \<and>
      recs = map (\<lambda>(pc, insn, ws). (pc, insn, filter (\<lambda>(r, v). r \<noteq> 0) ws))
        (takeWhile (\<lambda>c. fst c \<noteq> h) (filter (\<lambda>c. BASE \<le> fst c) (spike_trace (spike_out io))))"
    if "symbol (nm_out io) ''trap_handler'' = Some h" for h recs
    unfolding spike_records_Inr that by (simp add: eq_commute)
  show ?thesis
    unfolding run_one_def Let_def diff_None not_not
    apply (cases "symbol (nm_out io) ''trap_handler''")
     apply simp
    apply (auto simp: rbind_Inr_iff sp CORE_HAS_PREDICTOR_def split: option.splits if_splits)
    done
qed
end
