(* ===== verification/Sim_Tests.thy ===== *)
theory Sim_Tests
  imports Commit_Log
begin

text \<open>
  The drivers that run a program on the simulator: the memory image and the arithmetic model of
  \<^verbatim>\<open>tb/unit/test_core_verilator.py\<close>, the cosimulation batch of
  \<^verbatim>\<open>tb/cosim/test_cosim_a5.py\<close>, the directed programs, the riscv-tests suite and the
  CSR and minstret tests of \<^verbatim>\<open>tb/cosim\<close>. An ELF is what the toolchain and Spike say of it; a
  simulator is a function of the memory image and its arguments. Both are arguments of the model.
\<close>

text \<open>\<open>elf_image\<close> is what \<^verbatim>\<open>objcopy -O binary\<close> writes (\<open>None\<close> when it fails), \<open>elf_nm\<close> the symbol
  table, \<open>elf_spike log isa\<close> Spike's exit code and output, with or without \<^verbatim>\<open>--log-commits\<close>.\<close>

record elf =
  elf_image :: "nat list option"
  elf_nm :: string
  elf_spike :: "bool \<Rightarrow> string \<Rightarrow> int \<times> string"

record sim_result =
  s_rc :: int
  s_out :: string
  s_trace :: "string option"

type_synonym sim = "string \<Rightarrow> string list \<Rightarrow> sim_result"

definition ISA_BASE :: string where
  "ISA_BASE = ''rv32im_zba_zbb_zbs_zbkb_zicond_zkr_zkt_zicsr_zicntr''"

definition ISA :: string where
  "ISA = ''rv32im_zba_zbb_zbs_zbkb_zicond_zkr_zkt_zicsr_zicntr''"

section \<open>The memory image\<close>

fun from_bytes_little :: "nat list \<Rightarrow> nat" where
  "from_bytes_little [] = 0"
| "from_bytes_little (b # bs) = b + 256 * from_bytes_little bs"

definition pad4 :: "nat list \<Rightarrow> nat list" where
  "pad4 raw = raw @ replicate (nat ((- int (length raw)) mod 4)) 0"

definition word_line :: "nat list \<Rightarrow> nat \<Rightarrow> string" where
  "word_line raw i = hex 8 (from_bytes_little (take 4 (drop (4 * i) raw))) @ [CHR 0x0A]"

definition elf_to_hex :: "elf \<Rightarrow> (string \<times> nat) res" where
  "elf_to_hex elf = (case elf_image elf of
     None \<Rightarrow> Inl (RuntimeError ''objcopy failed'')
   | Some raw \<Rightarrow>
       let raw = pad4 raw
       in Inr (concat (map (word_line raw) [0..<length raw div 4]), length raw div 4))"

section \<open>The checksum program and its arithmetic model\<close>

definition data_re :: re where
  "data_re = seqs [Bol, lit ''checksum_data:'', Many is_space, ch CHR 0x0A, Group 1 (Lazy (\<lambda>c. True)),
     Bol, Many is_space, lit ''.align'']"

fun word_toks :: "string list \<Rightarrow> int list res" where
  "word_toks [] = Inr []"
| "word_toks (tok # toks) = (
    let tok = strip tok in
    if tok = [] then word_toks toks
    else rbind (int0 tok) (\<lambda>w. rbind (word_toks toks) (\<lambda>ws. Inr (w # ws))))"

fun word_lines :: "string list \<Rightarrow> int list res" where
  "word_lines [] = Inr []"
| "word_lines (line # ls) = (
    let line = strip (hd (split_on CHR ''#'' line)) in
    if \<not> startswith line ''.word'' then word_lines ls
    else rbind (word_toks (split_on CHR '','' (drop 5 line))) (\<lambda>ws.
         rbind (word_lines ls) (\<lambda>ws'. Inr (ws @ ws'))))"

definition parse_data_words :: "string \<Rightarrow> int list res" where
  "parse_data_words asm = (case re_search data_re asm of
     None \<Rightarrow> Inl (RuntimeError ''could not find checksum_data'')
   | Some m \<Rightarrow>
       rbind (word_lines (splitlines (group m 1))) (\<lambda>words.
       if words = [] then Inl (RuntimeError ''checksum_data has no .word literals'') else Inr words))"

definition checksum_step :: "int \<Rightarrow> int \<Rightarrow> int" where
  "checksum_step acc w = (let acc = u32 (push_bit 1 acc OR drop_bit 31 acc) in u32 (acc + w))"

definition checksum_tail :: "int \<Rightarrow> int" where
  "checksum_tail acc = (
    let s3 = acc; s4 = acc AND 0xFF; s5 = acc AND 0xFFFF; s6 = u32 (- 0x80); s7 = u32 (- 3);
        s8 = 0x44332211; s9 = 0x22; s10 = 0x44
    in foldl (\<lambda>acc v. u32 (acc + v)) acc [s3, s4, s5, s6, s7, s8, s9, s10])"

definition model :: "int list \<Rightarrow> int" where
  "model words = checksum_tail (foldl checksum_step 0 words)"

fun final_reg_loop :: "nat \<Rightarrow> nat \<Rightarrow> commit list \<Rightarrow> nat \<Rightarrow> nat \<Rightarrow> (nat \<times> nat) res" where
  "final_reg_loop handler reg [] val n_prog = Inl (RuntimeError ''Spike never reached trap_handler'')"
| "final_reg_loop handler reg ((pc, insn, writes) # trace) val n_prog = (
    if pc = handler then Inr (val, n_prog)
    else final_reg_loop handler reg trace
      (foldl (\<lambda>val (r, v). if r = reg then v else val) val writes)
      (if BASE \<le> pc then n_prog + 1 else n_prog))"

definition spike_final_reg :: "elf \<Rightarrow> nat \<Rightarrow> (nat \<times> nat) res" where
  "spike_final_reg elf reg = (
    let trace = spike_trace (snd (elf_spike elf True ISA_BASE)) in
    if trace = [] then Inl (RuntimeError ''Spike produced no commit trace'')
    else case symbol (elf_nm elf) ''trap_handler'' of
        None \<Rightarrow> Inl (RuntimeError ''no trap_handler symbol in the ELF'')
      | Some handler \<Rightarrow> final_reg_loop handler reg trace 0 0)"

text \<open>The driver: \<open>mk_elf\<close> is the built ELF or the error, \<open>build\<close> gives the simulator for a number of
  memory words unless verilator fails.\<close>

definition t4_main :: "string \<Rightarrow> elf res \<Rightarrow> (nat \<Rightarrow> sim option) \<Rightarrow> int res" where
  "t4_main asm mk_elf build = (
    rbind (parse_data_words asm) (\<lambda>words.
    let expect = model words in
    rbind mk_elf (\<lambda>elf.
    rbind (spike_final_reg elf 9) (\<lambda>(spike_val, n_retired).
    let handler = symbol (elf_nm elf) ''trap_handler'' in
    if int spike_val \<noteq> expect then Inr 1
    else
      rbind (elf_to_hex elf) (\<lambda>(hexf, nwords).
      case build (max nwords 4096) of
        None \<Rightarrow> Inr 1
      | Some exe \<Rightarrow>
          (case handler of
             None \<Rightarrow> Inl (TypeError ''%x format: an integer is required'')
           | Some h \<Rightarrow>
               let r = exe hexf [''--expect'', hex32 (nat expect), ''--reg'', ''9'', ''--expect-retired'',
                         show_nat n_retired, ''--stop-pc'', hex32 h]
               in Inr (if s_rc r = 0 \<and> is_sub ''CORE_TB_OK'' (s_out r) then 0 else 1)))))))"

section \<open>Cosimulation of one ELF and of a batch\<close>

definition run_elf :: "sim \<Rightarrow> elf \<Rightarrow> bool res" where
  "run_elf exe elf = (
    rbind (elf_to_hex elf) (\<lambda>(hexf, n).
    case symbol (elf_nm elf) ''trap_handler'' of
      None \<Rightarrow> Inl (TypeError ''%x format: an integer is required'')
    | Some h \<Rightarrow>
        let r = exe hexf [''--no-check'', ''+trace_file='', ''--stop-pc'', hex32 h, ''--max-cycles'', ''2000000'']
        in run_one \<lparr>sim_rc = s_rc r, sim_out = s_out r, sim_trace = s_trace r,
             spike_out = snd (elf_spike elf True ISA_BASE), nm_out = elf_nm elf\<rparr> True))"

text \<open>\<open>mk i\<close> is the generated program of seed \<open>i\<close>, assembled. The loop gives up once three programs
  have failed.\<close>

fun random_loop :: "sim \<Rightarrow> (nat \<Rightarrow> elf res) \<Rightarrow> nat list \<Rightarrow> nat list \<Rightarrow> nat list res" where
  "random_loop exe mk [] failures = Inr failures"
| "random_loop exe mk (i # is) failures =
    rbind (mk i) (\<lambda>elf.
    rbind (run_elf exe elf) (\<lambda>ok.
    if ok then random_loop exe mk is failures
    else
      let failures = failures @ [i]
      in if 3 \<le> length failures then Inr failures else random_loop exe mk is failures))"

text \<open>The seeds are counted from 1, so that 0 stands for the checksum program among the failures.\<close>

definition a5_main :: "sim \<Rightarrow> elf res \<Rightarrow> (nat \<Rightarrow> elf res) \<Rightarrow> nat \<Rightarrow> int res" where
  "a5_main exe a4 mk num = (
    rbind a4 (\<lambda>elf.
    rbind (run_elf exe elf) (\<lambda>ok.
    rbind (random_loop exe mk [1..<Suc num] (if ok then [] else [0])) (\<lambda>failures.
    Inr (if failures \<noteq> [] then 1 else 0)))))"

section \<open>The directed programs\<close>

definition DIRECTED_PROGRAMS :: "(string \<times> string) list" where
  "DIRECTED_PROGRAMS = [
    (''a6_forward'', ''sw/tests/a6_forward.S''),
    (''a7_loaduse'', ''sw/tests/a7_loaduse.S''),
    (''a8_control'', ''sw/tests/a8_control.S''),
    (''a14_muldiv'', ''sw/tests/a14_muldiv.S''),
    (''a19_bpred'', ''sw/tests/a19_bpred.S'')]"

text \<open>\<open>compile path\<close> is \<open>None\<close> when the source does not exist.\<close>

fun directed_loop :: "sim \<Rightarrow> (string \<Rightarrow> elf res option) \<Rightarrow> (string \<times> string) list \<Rightarrow> string list res" where
  "directed_loop exe compile [] = Inr []"
| "directed_loop exe compile ((name, src) # progs) = (case compile src of
     None \<Rightarrow> rbind (directed_loop exe compile progs) (\<lambda>fs. Inr (name # fs))
   | Some mk \<Rightarrow>
       rbind mk (\<lambda>elf.
       rbind (run_elf exe elf) (\<lambda>ok.
       rbind (directed_loop exe compile progs) (\<lambda>fs. Inr (if ok then fs else name # fs)))))"

definition directed_main :: "sim \<Rightarrow> (string \<Rightarrow> elf res option) \<Rightarrow> string option \<Rightarrow> int res" where
  "directed_main exe compile only = (
    let progs = filter (\<lambda>p. only = None \<or> only = Some (fst p)) DIRECTED_PROGRAMS in
    if progs = [] then Inr 1
    else rbind (directed_loop exe compile progs) (\<lambda>failures. Inr (if failures \<noteq> [] then 1 else 0)))"

section \<open>The riscv-tests suite\<close>

definition RV32UI :: "string list" where
  "RV32UI = [
    ''add'', ''addi'', ''and'', ''andi'', ''auipc'', ''beq'', ''bge'', ''bgeu'', ''blt'', ''bltu'',
    ''bne'', ''jal'', ''jalr'', ''lb'', ''lbu'', ''lh'', ''lhu'', ''lui'', ''lw'', ''or'', ''ori'',
    ''sb'', ''sh'', ''simple'', ''sll'', ''slli'', ''slt'', ''slti'', ''sltiu'', ''sltu'', ''sra'',
    ''srai'', ''srl'', ''srli'', ''sub'', ''sw'', ''xor'', ''xori'', ''ld_st'', ''st_ld'']"

definition RV32UM :: "string list" where
  "RV32UM = [''mul'', ''mulh'', ''mulhsu'', ''mulhu'', ''div'', ''divu'', ''rem'', ''remu'']"

definition RV32MI :: "string list" where
  "RV32MI = [
    ''csr'', ''mcsr'', ''illegal'', ''ma_fetch'', ''ma_addr'', ''scall'', ''sbreak'',
    ''shamt'', ''lw-misaligned'', ''lh-misaligned'', ''sh-misaligned'',
    ''sw-misaligned'', ''zicntr'', ''instret_overflow'']"

text \<open>The names of \<^verbatim>\<open>SKIPPED\<close>; the reasons are printed, never read.\<close>

definition SKIPPED :: "(string \<times> string) list" where
  "SKIPPED = [
    (''rv32ui'', ''fence_i''),
    (''rv32ui'', ''ma_data''),
    (''rv32mi'', ''breakpoint''),
    (''rv32mi'', ''pmpaddr'')]"

definition run_spike :: "elf \<Rightarrow> bool" where
  "run_spike elf \<longleftrightarrow> fst (elf_spike elf False ISA) = 0"

definition run_rtl :: "sim \<Rightarrow> elf \<Rightarrow> bool res" where
  "run_rtl exe elf = (
    rbind (elf_to_hex elf) (\<lambda>(hexf, n).
    case symbol (elf_nm elf) ''tohost'' of
      None \<Rightarrow> Inr False
    | Some tohost \<Rightarrow>
        let r = exe hexf [''--tohost'', hex32 tohost, ''--expect-tohost'', ''1'', ''--max-cycles'', ''2000000'']
        in Inr (s_rc r = 0 \<and> is_sub ''CORE_TB_OK'' (s_out r))))"

text \<open>\<open>compile (suite, name)\<close> raises for a missing source and gives \<open>None\<close> when the compiler fails.\<close>

record rv_report =
  rv_failures :: "(string \<times> string) list"
  rv_spike_failures :: "(string \<times> string) list"

fun rv_loop :: "sim \<Rightarrow> (string \<times> string \<Rightarrow> elf option res) \<Rightarrow> (string \<times> string) list \<Rightarrow> rv_report \<Rightarrow>
    rv_report res" where
  "rv_loop exe compile [] rep = Inr rep"
| "rv_loop exe compile (test # plan) rep =
    rbind (compile test) (\<lambda>built.
    case built of
      None \<Rightarrow> rv_loop exe compile plan (rep\<lparr>rv_failures := rv_failures rep @ [test]\<rparr>)
    | Some elf \<Rightarrow>
        if \<not> run_spike elf
        then rv_loop exe compile plan (rep\<lparr>rv_spike_failures := rv_spike_failures rep @ [test]\<rparr>)
        else
          rbind (run_rtl exe elf) (\<lambda>ok.
          rv_loop exe compile plan (if ok then rep else rep\<lparr>rv_failures := rv_failures rep @ [test]\<rparr>)))"

definition rv_plan :: "string \<Rightarrow> string option \<Rightarrow> (string \<times> string) list" where
  "rv_plan suite only = (
    let plan = (if suite = ''all'' \<or> suite = ''rv32ui'' then map (Pair ''rv32ui'') RV32UI else [])
             @ (if suite = ''all'' \<or> suite = ''rv32um'' then map (Pair ''rv32um'') RV32UM else [])
             @ (if suite = ''all'' \<or> suite = ''rv32mi'' then map (Pair ''rv32mi'') RV32MI else [])
    in case only of None \<Rightarrow> plan | Some n \<Rightarrow> filter (\<lambda>p. snd p = n) plan)"

definition rv_main :: "bool \<Rightarrow> sim \<Rightarrow> (string \<times> string \<Rightarrow> elf option res) \<Rightarrow> string \<Rightarrow> string option \<Rightarrow> int res" where
  "rv_main checked_out exe compile suite only = (
    if \<not> checked_out then Inr 0
    else
      let plan = rv_plan suite only in
      if only \<noteq> None \<and> plan = [] then Inr 2
      else rbind (rv_loop exe compile plan \<lparr>rv_failures = [], rv_spike_failures = []\<rparr>) (\<lambda>rep.
           Inr (if rv_failures rep \<noteq> [] then 1 else 0)))"

section \<open>The CSR and minstret tests\<close>

fun commits_before :: "nat \<Rightarrow> commit list \<Rightarrow> nat \<Rightarrow> nat res" where
  "commits_before target [] n = Inl (RuntimeError ''Spike never reached the symbol'')"
| "commits_before target ((pc, insn, writes) # trace) n = (
    if pc = target then Inr n
    else commits_before target trace (if BASE \<le> pc then n + 1 else n))"

definition spike_commits_before :: "elf \<Rightarrow> string \<Rightarrow> nat res" where
  "spike_commits_before elf name = (case symbol (elf_nm elf) name of
     None \<Rightarrow> Inl (RuntimeError ''no such symbol'')
   | Some target \<Rightarrow>
       let trace = spike_trace (snd (elf_spike elf True ISA)) in
       if trace = [] then Inl (RuntimeError ''Spike produced no commit trace'')
       else commits_before target trace 0)"

definition csr_run :: "sim \<Rightarrow> elf \<Rightarrow> string list \<Rightarrow> bool res" where
  "csr_run exe elf extra = (
    rbind (elf_to_hex elf) (\<lambda>(hexf, n).
    case symbol (elf_nm elf) ''tohost'' of
      None \<Rightarrow> Inl (TypeError ''%x format: an integer is required'')
    | Some tohost \<Rightarrow>
        Inr (s_rc (exe hexf ([''--tohost'', hex32 tohost, ''--expect-tohost'', ''1'',
          ''--max-cycles'', ''2000000''] @ extra)) = 0)))"

definition csr_main :: "sim \<Rightarrow> (string \<Rightarrow> elf res) \<Rightarrow> int res" where
  "csr_main exe compile = (
    rbind (compile ''sw/tests/a9_csr.S'') (\<lambda>elf.
    rbind (csr_run exe elf []) (\<lambda>ok1.
    rbind (compile ''sw/tests/a9_minstret.S'') (\<lambda>elf.
    rbind (spike_commits_before elf ''probe'') (\<lambda>expect.
    rbind (csr_run exe elf [''--expect'', show_nat expect, ''--reg'', ''9'']) (\<lambda>ok2.
    Inr (if \<not> ok1 \<or> \<not> ok2 then 1 else 0)))))))"

section \<open>The memory image is the program\<close>

lemma length_pad4: "length (pad4 raw) mod 4 = 0"
proof -
  have "int (length (pad4 raw)) mod 4 = 0"
    by (simp add: pad4_def mod_add_right_eq)
  then show ?thesis by presburger
qed

lemma from_bytes_little_bound:
  "\<forall>b\<in>set bs. b < 256 \<Longrightarrow> from_bytes_little bs < 256 ^ length bs"
  by (induction bs) auto

lemma from_bytes_little_nth:
  "\<forall>b\<in>set bs. b < 256 \<Longrightarrow> j < length bs \<Longrightarrow> from_bytes_little bs div 256 ^ j mod 256 = bs ! j"
proof (induction bs arbitrary: j)
  case (Cons b bs)
  show ?case
  proof (cases j)
    case (Suc i)
    then have "from_bytes_little (b # bs) div 256 ^ j = from_bytes_little bs div 256 ^ i"
      using Cons.prems by (simp add: div_mult2_eq)
    with Cons Suc show ?thesis by simp
  qed (use Cons.prems in simp)
qed simp

lemma splitlines_words:
  "splitlines (concat (map (word_line raw) ks)) = map (\<lambda>i. hex 8 (from_bytes_little (take 4 (drop (4 * i) raw)))) ks"
proof -
  have "splitlines (concat (map (\<lambda>l. l @ [CHR 0x0A])
      (map (\<lambda>i. hex 8 (from_bytes_little (take 4 (drop (4 * i) raw)))) ks))) =
    map (\<lambda>i. hex 8 (from_bytes_little (take 4 (drop (4 * i) raw)))) ks"
    by (rule splitlines_lines) (auto simp: digits_no_newline)
  then show ?thesis by (simp only: map_map comp_def word_line_def [abs_def])
qed

text \<open>The memory image is the program: line \<open>i\<close> of the image file is one 32-bit word, and byte
  \<open>j\<close> of the loaded binary is byte \<open>j mod 4\<close> of word \<open>j div 4\<close>, little-endian; the bytes past the
  end of the binary, up to a whole word, are zero.\<close>

theorem image_is_program:
  assumes "elf_image elf = Some raw" and "\<forall>b\<in>set raw. b < 256"
  shows "\<exists>img n. elf_to_hex elf = Inr (img, n) \<and> length (splitlines img) = n \<and>
    length raw \<le> 4 * n \<and> 4 * n < length raw + 4 \<and>
    (\<forall>j < 4 * n. read_base 16 (splitlines img ! (j div 4)) div 256 ^ (j mod 4) mod 256 =
      (if j < length raw then raw ! j else 0))"
proof -
  define p where "p = pad4 raw"
  define n where "n = length p div 4"
  define img where "img = concat (map (word_line p) [0..<n])"
  have len: "length p = 4 * n" using length_pad4 [of raw] unfolding n_def p_def by presburger
  have lines: "splitlines img = map (\<lambda>i. hex 8 (from_bytes_little (take 4 (drop (4 * i) p)))) [0..<n]"
    unfolding img_def by (rule splitlines_words)
  have byte: "read_base 16 (splitlines img ! (j div 4)) div 256 ^ (j mod 4) mod 256 =
      (if j < length raw then raw ! j else 0)" if j: "j < 4 * n" for j
proof -
    have i: "j div 4 < n" using j by (simp add: div_less_iff_less_mult mult.commute)
    have w: "length (take 4 (drop (4 * (j div 4)) p)) = 4" using i len by simp
    have b: "\<forall>b\<in>set (take 4 (drop (4 * (j div 4)) p)). b < 256"
      using assms(2) by (auto simp: p_def pad4_def dest!: in_set_takeD in_set_dropD)
    have "read_base 16 (splitlines img ! (j div 4)) div 256 ^ (j mod 4) mod 256 =
      take 4 (drop (4 * (j div 4)) p) ! (j mod 4)"
      using from_bytes_little_nth [OF b, of "j mod 4"] w i by (simp add: lines)
    also have "\<dots> = p ! (4 * (j div 4) + j mod 4)" using w len i by simp
    also have "\<dots> = p ! j" by simp
    also have "\<dots> = (if j < length raw then raw ! j else 0)"
      using j len by (simp add: p_def pad4_def nth_append)
    finally show ?thesis .
  qed
  have "elf_to_hex elf = Inr (img, n)"
    using assms(1) by (simp add: elf_to_hex_def Let_def img_def n_def p_def)
  moreover have "length (splitlines img) = n" by (simp add: lines)
  moreover have "length raw \<le> 4 * n" "4 * n < length raw + 4"
    using len by (simp_all add: p_def pad4_def flip: len)
  ultimately show ?thesis using byte by blast
qed

theorem image_is_program_witness:
  "\<exists>img n. elf_to_hex \<lparr>elf_image = Some [0x13, 5, 0x50, 0, 1], elf_nm = [], elf_spike = \<lambda>l i. (0, [])\<rparr> =
      Inr (img, n) \<and> length (splitlines img) = n \<and>
    length [0x13::nat, 5, 0x50, 0, 1] \<le> 4 * n \<and> 4 * n < length [0x13::nat, 5, 0x50, 0, 1] + 4 \<and>
    (\<forall>j < 4 * n. read_base 16 (splitlines img ! (j div 4)) div 256 ^ (j mod 4) mod 256 =
      (if j < length [0x13::nat, 5, 0x50, 0, 1] then [0x13, 5, 0x50, 0, 1] ! j else 0))"
  by (rule image_is_program) simp_all
section \<open>What a passing batch means\<close>

text \<open>The checksum model is the program's word arithmetic: rotate left by one, add, and the
  wrapping sum of the read-backs.\<close>

lemma checksum_step_word:
  "checksum_step (uint a) w = uint (word_rotl 1 (a :: 32 word) + word_of_int w)"
proof -
  have "u32 (push_bit 1 (uint a) OR drop_bit 31 (uint a)) = uint (word_rotl 1 a)"
  proof (rule bit_eqI)
    fix i
    show "bit (u32 (push_bit 1 (uint a) OR drop_bit 31 (uint a))) i = bit (uint (word_rotl 1 a)) i"
      by (cases i) (auto simp: u32_def mask32_eq MASK32_def bit_simps bit_mult_2 bit_word_rotl_iff
          dest: bit_imp_le_length)
  qed
  then show ?thesis
    by (simp add: checksum_step_def Let_def u32_def MASK32_def mask32_eq uint_word_ariths uint_word_of_int
        flip: take_bit_eq_mask) (simp add: take_bit_eq_mod mod_simps)
qed

lemma random_loop_Inr:
  "random_loop exe mk ks fs = Inr fs \<longleftrightarrow> (\<forall>k\<in>set ks. rbind (mk k) (run_elf exe) = Inr True)"
proof (induction ks arbitrary: fs)
  case (Cons k ks)
  have grow: "random_loop exe mk ks fs = Inr gs \<Longrightarrow> length fs \<le> length gs" for ks fs gs
    by (induction ks arbitrary: fs) (fastforce simp: rbind_Inr_iff Let_def split: if_splits)+
  have "random_loop exe mk ks (fs @ [k]) \<noteq> Inr fs" using grow [of ks "fs @ [k]" fs] by auto
  with Cons.IH [of fs] show ?case
    by (auto simp: rbind_Inr_iff Let_def)
qed simp

lemma random_loop_grows: "random_loop exe mk ks fs = Inr gs \<Longrightarrow> fs \<noteq> [] \<Longrightarrow> gs \<noteq> []"
  by (induction ks arbitrary: fs) (fastforce simp: rbind_Inr_iff Let_def split: if_splits)+

lemma u32_add_word: "u32 (uint (a :: 32 word) + v) = uint (a + word_of_int v)"
  by (simp add: u32_def MASK32_def mask32_eq uint_word_ariths uint_word_of_int flip: take_bit_eq_mask)
    (simp add: take_bit_eq_mod mod_simps)

definition checksum_word :: "int list \<Rightarrow> 32 word" where
  "checksum_word words = (
    let a = foldl (\<lambda>a w. word_rotl 1 a + word_of_int w) 0 words
    in a + a + (a AND 0xFF) + (a AND 0xFFFF) - 0x80 - 3 + 0x44332211 + 0x22 + 0x44)"

lemma foldl_checksum_word:
  "foldl checksum_step (uint a) words = uint (foldl (\<lambda>a w. word_rotl 1 (a :: 32 word) + word_of_int w) a words)"
  by (induction words arbitrary: a) (simp_all add: checksum_step_word)

lemma checksum_tail_word:
  "checksum_tail (uint (a :: 32 word)) =
    uint (a + a + (a AND 0xFF) + (a AND 0xFFFF) - 0x80 - 3 + 0x44332211 + 0x22 + 0x44)"
  by (simp add: checksum_tail_def Let_def u32_add_word word_of_u32 of_int_and_eq)

text \<open>The arithmetic model of the checksum program is the program's own 32-bit arithmetic:
  rotate left by one and add for every data word, whatever integers the source's literals are,
  then the wrapping sum of the eight read-backs.\<close>

theorem checksum_model_word: "model words = uint (checksum_word words)"
proof -
  have "foldl checksum_step 0 words = uint (foldl (\<lambda>a w. word_rotl 1 (a :: 32 word) + word_of_int w) 0 words)"
    using foldl_checksum_word [of 0] by simp
  then show ?thesis by (simp add: model_def checksum_word_def Let_def checksum_tail_word)
qed

text \<open>The cosimulation batch exits with 0 exactly when the checksum program and every one of
  the generated programs was built and passed; an early stop after three failures, or a failure
  that later successes would hide, is impossible in a run that reports success.\<close>

theorem a5_main_zero:
  "a5_main exe a4 mk num = Inr 0 \<longleftrightarrow>
    rbind a4 (run_elf exe) = Inr True \<and> (\<forall>i\<in>{1..num}. rbind (mk i) (run_elf exe) = Inr True)"
proof -
  have zero: "random_loop exe mk ks fs = Inr [] \<longleftrightarrow> fs = [] \<and> random_loop exe mk ks [] = Inr []" for ks fs
    using random_loop_grows [of exe mk ks fs "[]"] by auto
  have "a5_main exe a4 mk num = Inr 0 \<longleftrightarrow>
      (\<exists>elf ok. a4 = Inr elf \<and> run_elf exe elf = Inr ok \<and> random_loop exe mk [1..<Suc num] (if ok then [] else [0]) = Inr [])"
    by (auto simp: a5_main_def rbind_Inr_iff split: if_splits)
  also have "\<dots> \<longleftrightarrow> rbind a4 (run_elf exe) = Inr True \<and> random_loop exe mk [1..<Suc num] [] = Inr []"
    unfolding zero [of _ "if _ then _ else _"] by (auto simp: rbind_Inr_iff)
  also have "random_loop exe mk [1..<Suc num] [] = Inr [] \<longleftrightarrow>
      (\<forall>i\<in>{1..num}. rbind (mk i) (run_elf exe) = Inr True)"
    unfolding random_loop_Inr by (auto simp del: upt_Suc)
  finally show ?thesis .
qed

theorem a5_main_zero_witness:
  "a5_main (\<lambda>img args. \<lparr>s_rc = 1, s_out = [], s_trace = None\<rparr>)
      (Inr \<lparr>elf_image = Some [], elf_nm = ''80000100 T trap_handler'', elf_spike = \<lambda>l i. (0, [])\<rparr>)
      (\<lambda>i. Inl (RuntimeError [])) 2 \<noteq> Inr 0"
  unfolding a5_main_zero by simp (rule impI, rule exI [of _ 1], simp)

definition rv_pass :: "sim \<Rightarrow> (string \<times> string \<Rightarrow> elf option res) \<Rightarrow> string \<times> string \<Rightarrow> bool" where
  "rv_pass exe compile t \<longleftrightarrow>
    (\<exists>elf. compile t = Inr (Some elf) \<and> (run_spike elf \<longrightarrow> run_rtl exe elf = Inr True))"

lemma rv_loop_keeps_failure:
  "rv_loop exe compile plan rep = Inr rep' \<Longrightarrow> rv_failures rep \<noteq> [] \<Longrightarrow> rv_failures rep' \<noteq> []"
proof (induction plan arbitrary: rep)
  case (Cons t plan)
  then obtain built where b: "compile t = Inr built" by (auto simp: rbind_Inr_iff)
  show ?case
  proof (cases built)
    case None
    with Cons b show ?thesis by auto
  next
    case (Some elf)
    have "rv_failures (rep\<lparr>rv_failures := rv_failures rep @ [t]\<rparr>) \<noteq> []" by simp
    with Cons b Some show ?thesis
      by (cases "run_spike elf") (fastforce simp: rbind_Inr_iff split: if_splits)+
  qed
qed simp

lemma rv_loop_pass:
  "rv_failures rep = [] \<Longrightarrow>
    (\<exists>rep'. rv_loop exe compile plan rep = Inr rep' \<and> rv_failures rep' = []) \<longleftrightarrow>
    (\<forall>t\<in>set plan. rv_pass exe compile t)"
proof (induction plan arbitrary: rep)
  case (Cons t plan)
  show ?case
  proof (cases "rv_pass exe compile t")
    case True
    then obtain elf where "compile t = Inr (Some elf)" "run_spike elf \<longrightarrow> run_rtl exe elf = Inr True"
      by (auto simp: rv_pass_def)
    with Cons True show ?thesis by (cases "run_spike elf") auto
  next
    case False
    have "rv_failures rep' \<noteq> []" if r: "rv_loop exe compile (t # plan) rep = Inr rep'" for rep'
    proof -
      from r obtain built where b: "compile t = Inr built" by (auto simp: rbind_Inr_iff)
      show ?thesis
      proof (cases built)
        case None
        with r b show ?thesis by (auto dest: rv_loop_keeps_failure)
      next
        case (Some elf)
        with False b have "run_spike elf" "run_rtl exe elf \<noteq> Inr True" by (auto simp: rv_pass_def)
        with r b Some show ?thesis
          by (auto simp: rbind_Inr_iff split: if_splits dest: rv_loop_keeps_failure)
      qed
    qed
    with False show ?thesis by auto
  qed
qed simp

text \<open>The riscv-tests driver exits with 0 exactly when the suite is not checked out, or every
  selected test was compiled and the RTL passed each one that Spike passes. A test that fails on
  Spike never runs on the RTL and does not count: the run exits with 0 even when every test fails
  on Spike.\<close>

theorem rv_main_zero:
  "rv_main checked_out exe compile suite only = Inr 0 \<longleftrightarrow>
    \<not> checked_out \<or>
    (only = None \<or> rv_plan suite only \<noteq> []) \<and>
    (\<forall>t\<in>set (rv_plan suite only). \<exists>elf. compile t = Inr (Some elf) \<and>
      (run_spike elf \<longrightarrow> run_rtl exe elf = Inr True))"
proof -
  have "rv_main checked_out exe compile suite only = Inr 0 \<longleftrightarrow> \<not> checked_out \<or>
    (only = None \<or> rv_plan suite only \<noteq> []) \<and>
    (\<exists>rep'. rv_loop exe compile (rv_plan suite only) \<lparr>rv_failures = [], rv_spike_failures = []\<rparr> = Inr rep' \<and>
      rv_failures rep' = [])"
    by (cases "rv_loop exe compile (rv_plan suite only) \<lparr>rv_failures = [], rv_spike_failures = []\<rparr>")
      (auto simp: rv_main_def Let_def)
  then show ?thesis
    by (simp add: rv_loop_pass rv_pass_def)
qed

theorem rv_main_zero_witness:
  "rv_main True (\<lambda>img args. \<lparr>s_rc = 1, s_out = [], s_trace = None\<rparr>)
      (\<lambda>t. Inr (Some \<lparr>elf_image = Some [], elf_nm = [], elf_spike = \<lambda>l i. (1, [])\<rparr>)) ''all'' None = Inr 0"
  unfolding rv_main_zero by (simp add: run_spike_def)

end
