(* ===== verification/Rtl_Deps.thy ===== *)
theory Rtl_Deps
  imports Py_Regex "HOL-Library.List_Lexorder" "HOL-Library.Char_ord"
begin

text \<open>
  The resolution of SystemVerilog package dependencies, \<^verbatim>\<open>tb/rtl_deps.py\<close>. The repository's
  files are an association list from paths relative to its root to texts.
\<close>

type_synonym tree = "(string \<times> string) list"

definition RTL_DIRS :: "string list" where
  "RTL_DIRS = [''rtl/common'', ''rtl/core'', ''rtl/soc'']"

definition IMPORT_RE :: re where
  "IMPORT_RE = seqs [Wordb, lit ''import'', Plus is_space, Group 1 (Plus is_word), Many is_space, lit ''::'']"

definition QUALIFIED_RE :: re where
  "QUALIFIED_RE = seqs [Wordb,
     Group 1 (Seq (Cls (\<lambda>c. is_upper c \<or> is_lower c \<or> c = CHR ''_'')) (Many is_word)), lit ''::'']"

definition path_join :: "string \<Rightarrow> string \<Rightarrow> string" where
  "path_join d f = d @ ''/'' @ f"

definition exists_file :: "tree \<Rightarrow> string \<Rightarrow> bool" where
  "exists_file t p \<longleftrightarrow> map_of t p \<noteq> None"

fun find_in :: "tree \<Rightarrow> string list \<Rightarrow> string \<Rightarrow> string option" where
  "find_in t [] name = None"
| "find_in t (d # ds) name = (let p = path_join d (name @ ''.sv'') in
     if exists_file t p then Some p else find_in t ds name)"

definition find_package :: "tree \<Rightarrow> string \<Rightarrow> string option" where
  "find_package t name = find_in t RTL_DIRS name"

text \<open>\<^verbatim>\<open>os.listdir\<close>: the names directly under a directory.\<close>

definition listdir :: "tree \<Rightarrow> string \<Rightarrow> string list" where
  "listdir t d = remdups (filter (\<lambda>f. CHR ''/'' \<notin> set f)
     (map (\<lambda>(p, s). drop (length d + 1) p) (filter (\<lambda>(p, s). startswith p (d @ ''/'')) t)))"

definition package_re :: "string \<Rightarrow> re" where
  "package_re name = seqs [Bol, Many is_space, lit ''package'', Plus is_space, lit name, Many is_space, lit '';'']"

definition declares_package :: "tree \<Rightarrow> string \<Rightarrow> string \<Rightarrow> bool" where
  "declares_package t d f = (endswith f ''.sv'' \<and>
     (case map_of t (path_join d f) of
        None \<Rightarrow> False
      | Some s \<Rightarrow> re_search (package_re (take (length f - 3) f)) s \<noteq> None))"

definition all_packages :: "tree \<Rightarrow> string list" where
  "all_packages t = concat (map (\<lambda>d. map (path_join d) (filter (declares_package t d) (sort (listdir t d)))) RTL_DIRS)"

text \<open>The text without its line comments; the flag tells whether the scan is inside one.\<close>

fun strip_comments :: "bool \<Rightarrow> string \<Rightarrow> string" where
  "strip_comments cm [] = []"
| "strip_comments True (c # cs) = (if c = CHR 0x0A then c # strip_comments False cs else strip_comments True cs)"
| "strip_comments False (c # cs) =
    (if c = CHR ''/'' \<and> startswith cs ''/'' then strip_comments True cs else c # strip_comments False cs)"

definition package_names :: "string \<Rightarrow> string list" where
  "package_names code = map (\<lambda>m. group m 1) (re_finditer IMPORT_RE code)
     @ map (\<lambda>m. group m 1) (re_finditer QUALIFIED_RE code)"

text \<open>\<^verbatim>\<open>if pkg and pkg not in deps: deps.append(pkg)\<close>.\<close>

definition add_dep :: "string option \<Rightarrow> string list \<Rightarrow> string list" where
  "add_dep pkg deps = (case pkg of None \<Rightarrow> deps | Some p \<Rightarrow> if p \<in> set deps then deps else deps @ [p])"

text \<open>\<open>src\<close> is the text of the file \<open>path\<close>, \<open>None\<close> when it cannot be read; the file itself may be
  a copy outside the tree.\<close>

definition package_deps :: "tree \<Rightarrow> string option \<Rightarrow> string \<Rightarrow> string list" where
  "package_deps t src path = (case src of
     None \<Rightarrow> []
   | Some s \<Rightarrow>
       let deps = fold (\<lambda>name. add_dep (find_package t name)) (package_names (strip_comments False s)) [];
           deps = fold (\<lambda>pkg. add_dep (Some pkg)) (all_packages t) deps
       in filter (\<lambda>p. p \<noteq> path) deps)"

definition with_deps :: "tree \<Rightarrow> string option \<Rightarrow> string \<Rightarrow> string list" where
  "with_deps t src path = package_deps t src path @ [path]"

section \<open>The order is declaration-safe\<close>

lemma add_dep_set: "set (add_dep pkg deps) = set_option pkg \<union> set deps"
  by (auto simp: add_dep_def split: option.splits)

lemma add_dep_distinct: "distinct deps \<Longrightarrow> distinct (add_dep pkg deps)"
  by (auto simp: add_dep_def split: option.splits)

lemma fold_add_dep_set: "set (fold (\<lambda>x. add_dep (f x)) xs deps) = (\<Union>x\<in>set xs. set_option (f x)) \<union> set deps"
  by (induction xs arbitrary: deps) (auto simp: add_dep_set)

lemma fold_add_dep_distinct: "distinct deps \<Longrightarrow> distinct (fold (\<lambda>x. add_dep (f x)) xs deps)"
  by (induction xs arbitrary: deps) (auto simp: add_dep_distinct)

lemma find_in_exists: "find_in t ds name = Some p \<Longrightarrow> exists_file t p"
  by (induction ds) (auto simp: Let_def split: if_splits)

lemma all_packages_exist: "p \<in> set (all_packages t) \<Longrightarrow> exists_file t p"
  by (auto simp: all_packages_def declares_package_def exists_file_def split: option.splits)

lemma package_deps_set:
  "set (package_deps t (Some s) path) =
    ({p. \<exists>name\<in>set (package_names (strip_comments False s)). find_package t name = Some p} \<union>
     set (all_packages t)) - {path}"
  by (auto simp: package_deps_def Let_def fold_add_dep_set elem_set)

lemma package_deps_distinct: "distinct (package_deps t src path)"
  by (auto simp: package_deps_def Let_def fold_add_dep_distinct split: option.splits)


definition sample_tree :: tree where
  "sample_tree = [(''rtl/core/p.sv'', ''package p;''), (''rtl/core/a.sv'', ''p::X // q::Y'')]"


end
