(* ===== verification/Mutate_Manifest.thy ===== *)
theory Mutate_Manifest
  imports Prelude
begin

text \<open>
  The manifest of \<^verbatim>\<open>tb/mutate/run_mutation.py\<close>: every mutation with its step, its edits (file,
  anchor text, replacement) and the tests that must catch it, in the order of the source. The
  \<^verbatim>\<open>why\<close> field of the source is documentation that no code reads.
\<close>

record mutation =
  m_step :: string
  m_name :: string
  m_edits :: "(string \<times> string \<times> string) list"
  m_caught :: "string list"

text \<open>The sources named by the edits.\<close>

definition CORE :: string where "CORE = ''rtl/core/rvntt_core.sv''"
definition FWD :: string where "FWD = ''rtl/core/rvntt_forward.sv''"
definition HAZ :: string where "HAZ = ''rtl/core/rvntt_hazard.sv''"
definition BR :: string where "BR = ''rtl/core/rvntt_branch.sv''"
definition ALU :: string where "ALU = ''rtl/core/rvntt_alu.sv''"
definition CSR :: string where "CSR = ''rtl/core/rvntt_csr.sv''"
definition MD :: string where "MD = ''rtl/core/rvntt_muldiv.sv''"
definition BM :: string where "BM = ''rtl/core/rvntt_bitmanip.sv''"
definition DEC :: string where "DEC = ''rtl/core/rvntt_decode.sv''"
definition BP :: string where "BP = ''rtl/core/rvntt_bpred.sv''"
definition RF :: string where "RF = ''rtl/core/rvntt_regfile.sv''"
definition RVFI :: string where "RVFI = ''rtl/core/rvntt_rvfi.sv''"
definition MMIO :: string where "MMIO = ''rtl/soc/rvntt_mmio.sv''"
definition SOCTOP :: string where "SOCTOP = ''rtl/soc/rvntt_soc_top.sv''"
definition UARTRX :: string where "UARTRX = ''rtl/soc/rvntt_uart_rx.sv''"

definition MUTATIONS_1 :: "mutation list" where
  "MUTATIONS_1 = [
    \<lparr>m_step = ''A13'', m_name = ''mcycle_counts_retires_not_cycles'',
     m_edits = [(CSR, ''      if (!inhibit_cy_q) mcycle_q <= mcycle_q + 64'd1;'',
       ''      if (!inhibit_cy_q && instret_bump) mcycle_q <= mcycle_q + 64'd1;'')],
     m_caught = [''bench'']\<rparr>,
    \<lparr>m_step = ''A13'', m_name = ''minstret_counts_twice'',
     m_edits = [(CSR, ''      if (instret_bump && !minstret_written && !inhibit_ir_q)\<newline>        minstret_q <= minstret_q + 64'd1;'',
       ''      if (instret_bump && !minstret_written && !inhibit_ir_q)\<newline>        minstret_q <= minstret_q + 64'd2;'')],
     m_caught = [''bench'']\<rparr>,
    \<lparr>m_step = ''A13'', m_name = ''sb_writes_two_bytes'',
     m_edits = [(CORE, ''          dmem_be    = 4'b0001 << ex_byte_off;'',
       ''          dmem_be    = 4'b0011 << ex_byte_off;'')],
     m_caught = [''bench'']\<rparr>,
    \<lparr>m_step = ''A12'', m_name = ''mmio_store_not_gated_from_ram'',
     m_edits = [(MMIO, ''  always_comb ram_be = is_ram ? dmem_be : 4'b0000;'',
       ''  always_comb ram_be = dmem_be;'')],
     m_caught = [''soc'']\<rparr>,
    \<lparr>m_step = ''A12'', m_name = ''mmio_read_mux_never_selects_mmio'',
     m_edits = [(MMIO, ''      sel_ram_q    <= is_ram;'',
       ''      sel_ram_q    <= 1'b1;'')],
     m_caught = [''soc'']\<rparr>,
    \<lparr>m_step = ''A12'', m_name = ''uart_rx_samples_on_bit_edge'',
     m_edits = [(UARTRX, ''              div_q   <= DIV_W'(DIVISOR - 1);\<newline>              bit_q   <= '0;\<newline>              state_q <= R_DATA;'',
       ''              div_q   <= DIV_W'(DIVISOR / 2 - 1);\<newline>              bit_q   <= '0;\<newline>              state_q <= R_DATA;'')],
     m_caught = [''soc'']\<rparr>,
    \<lparr>m_step = ''A12'', m_name = ''gpio_in_fields_swapped'',
     m_edits = [(MMIO, ''      R_GPIO_IN:   mmio_rdata_c = {24'b0, btn, sw};'',
       ''      R_GPIO_IN:   mmio_rdata_c = {24'b0, sw, btn};'')],
     m_caught = [''soc'']\<rparr>,
    \<lparr>m_step = ''A6'', m_name = ''fwd_priority_swapped'',
     m_edits = [(FWD, ''      if      (mem_supplies && (mem_rd_addr == ex_rs1_addr)) fwd_a = rv32i_pkg::FWD_MEM;\<newline>      else if (wb_supplies  && (wb_rd_addr  == ex_rs1_addr)) fwd_a = rv32i_pkg::FWD_WB;'',
       ''      if      (wb_supplies  && (wb_rd_addr  == ex_rs1_addr)) fwd_a = rv32i_pkg::FWD_WB;\<newline>      else if (mem_supplies && (mem_rd_addr == ex_rs1_addr)) fwd_a = rv32i_pkg::FWD_MEM;'')],
     m_caught = [''formal:rvntt_forward'', ''directed:a6_forward'', ''random:raw'']\<rparr>,
    \<lparr>m_step = ''A6'', m_name = ''fwd_rs2_port_dropped'',
     m_edits = [(FWD, ''    if (ex_uses_rs2) begin'',
       ''    if (ex_uses_rs2 && (ex_rs2_addr == 5'd0)) begin'')],
     m_caught = [''formal:rvntt_forward'', ''directed:a6_forward'', ''random:raw'']\<rparr>,
    \<lparr>m_step = ''A6'', m_name = ''fwd_x0_suppression_dropped'',
     m_edits = [(FWD, ''  wire mem_supplies = mem_valid && mem_reg_write && !mem_mem_read &&\<newline>                      (mem_rd_addr != 5'd0);'',
       ''  wire mem_supplies = mem_valid && mem_reg_write && !mem_mem_read;'')],
     m_caught = [''formal:rvntt_forward'', ''directed:a6_forward'']\<rparr>,
    \<lparr>m_step = ''A6'', m_name = ''fwd_store_data_not_forwarded'',
     m_edits = [(CORE, ''          dmem_wdata = ex_rs2_fwd;\<newline>          dmem_be    = 4'b1111;'',
       ''          dmem_wdata = id_ex_q.rs2_data;\<newline>          dmem_be    = 4'b1111;'')],
     m_caught = [''directed:a6_forward'', ''random:raw'']\<rparr>,
    \<lparr>m_step = ''A6'', m_name = ''fwd_valid_ignored'',
     m_edits = [(FWD, ''  wire wb_supplies  = wb_valid  && wb_reg_write  && (wb_rd_addr  != 5'd0);'',
       ''  wire wb_supplies  = (wb_valid  || wb_reg_write) && (wb_rd_addr  != 5'd0);'')],
     m_caught = [''formal:rvntt_forward'']\<rparr>,
    \<lparr>m_step = ''A6'', m_name = ''regfile_writethrough_dropped'',
     m_edits = [(RF, ''assign rd1 = (wr_en && (wa == ra1)) ? wd : regs[ra1];'',
       ''assign rd1 = regs[ra1];'')],
     m_caught = [''formal:rvntt_regfile'', ''directed:a6_forward'', ''random:raw'']\<rparr>,
    \<lparr>m_step = ''A6'', m_name = ''break_sra'',
     m_edits = [(ALU, ''rv32i_pkg::ALU_SRA:    y = $unsigned($signed(a) >>> shamt);'',
       ''rv32i_pkg::ALU_SRA:    y = a >> shamt;'')],
     m_caught = [''formal:rvntt_alu'', ''random:raw'']\<rparr>,
    \<lparr>m_step = ''A7'', m_name = ''interlock_wired_to_mem_write'',
     m_edits = [(CORE, ''      .ex_mem_read (id_ex_q.ctrl.mem_read),'',
       ''      .ex_mem_read (id_ex_q.ctrl.mem_write),'')],
     m_caught = [''directed:a7_loaduse'', ''random:loaduse'']\<rparr>]"

definition MUTATIONS_2 :: "mutation list" where
  "MUTATIONS_2 = [
    \<lparr>m_step = ''A7'', m_name = ''interlock_rs2_watches_rs1'',
     m_edits = [(CORE, ''      .id_rs2_addr (id_rs2),'',
       ''      .id_rs2_addr (id_rs1),'')],
     m_caught = [''directed:a7_loaduse'', ''random:loaduse'']\<rparr>,
    \<lparr>m_step = ''A7'', m_name = ''interlock_x0_load_stalls'',
     m_edits = [(HAZ, ''  wire ex_pending_load = ex_valid && ex_mem_read && (ex_rd_addr != 5'd0);'',
       ''  wire ex_pending_load = ex_valid && ex_mem_read;'')],
     m_caught = [''formal:rvntt_hazard'', ''directed:a7_loaduse'']\<rparr>,
    \<lparr>m_step = ''A7'', m_name = ''interlock_stalls_on_non_source_field'',
     m_edits = [(CORE, ''      .id_uses_rs1 (id_ctrl.uses_rs1),'',
       ''      .id_uses_rs1 (1'b1),'')],
     m_caught = [''directed:a7_loaduse'', ''random:loaduse'']\<rparr>,
    \<lparr>m_step = ''A7'', m_name = ''stall_lets_the_pc_advance'',
     m_edits = [(CORE, ''    else if (front_stall)   pc_next = pc_q;\<newline>'',
       '''')],
     m_caught = [''directed:a7_loaduse'', ''random:loaduse'']\<rparr>,
    \<lparr>m_step = ''A7'', m_name = ''stall_forgets_the_instruction_hold'',
     m_edits = [(CORE, ''      insn_held_q <= front_stall && !ex_redirect;'',
       ''      insn_held_q <= 1'b0;'')],
     m_caught = [''directed:a7_loaduse'', ''random:loaduse'']\<rparr>,
    \<lparr>m_step = ''A7'', m_name = ''stall_injects_no_bubble'',
     m_edits = [(CORE, ''    end else if (id_stall || ex_redirect) begin'',
       ''    end else if (ex_redirect) begin'')],
     m_caught = [''directed:a7_loaduse'', ''random:loaduse'']\<rparr>,
    \<lparr>m_step = ''A8'', m_name = ''flush_spares_if_id'',
     m_edits = [(CORE, ''    end else if (ex_redirect) begin\<newline>      if_id_q.valid <= 1'b0;\<newline>      if_id_q.pc    <= pc_q;\<newline>      if_id_q.insn  <= 32'h0;\<newline>'',
       '''')],
     m_caught = [''directed:a8_control'', ''random:branch'']\<rparr>,
    \<lparr>m_step = ''A8'', m_name = ''flush_spares_id_ex'',
     m_edits = [(CORE, ''    end else if (id_stall || ex_redirect) begin'',
       ''    end else if (id_stall) begin'')],
     m_caught = [''directed:a8_control'', ''random:branch'']\<rparr>,
    \<lparr>m_step = ''A8'', m_name = ''branch_reads_stale_rs1'',
     m_edits = [(CORE, ''      .funct3 (id_ex_q.insn[14:12]),\<newline>      .a      (ex_rs1_fwd),'',
       ''      .funct3 (id_ex_q.insn[14:12]),\<newline>      .a      (id_ex_q.rs1_data),'')],
     m_caught = [''directed:a8_control'', ''random:branch'']\<rparr>,
    \<lparr>m_step = ''A8'', m_name = ''branch_reads_stale_rs2'',
     m_edits = [(CORE, ''      .b      (ex_rs2_fwd),\<newline>      .taken  (ex_branch_taken)'',
       ''      .b      (id_ex_q.rs2_data),\<newline>      .taken  (ex_branch_taken)'')],
     m_caught = [''directed:a8_control'', ''random:branch'']\<rparr>,
    \<lparr>m_step = ''A8'', m_name = ''jalr_keeps_bit0'',
     m_edits = [(CORE, ''{ex_mem_addr[31:1], 1'b0}'',
       ''{ex_mem_addr[31:1], ex_mem_addr[0]}'')],
     m_caught = [''directed:a8_control'', ''rvfi:insn_jalr_ch0'']\<rparr>,
    \<lparr>m_step = ''A8'', m_name = ''jump_does_not_redirect'',
     m_edits = [(CORE, ''                      ((id_ex_q.ctrl.branch && ex_branch_taken) ||\<newline>                       id_ex_q.ctrl.jump);'',
       ''                      (id_ex_q.ctrl.branch && ex_branch_taken);'')],
     m_caught = [''directed:a8_control'', ''random:branch'']\<rparr>,
    \<lparr>m_step = ''A8'', m_name = ''jal_link_is_the_target'',
     m_edits = [(CORE, ''      rv32i_pkg::RES_PC4: mem_result = ex_mem_q.pc_plus4;'',
       ''      rv32i_pkg::RES_PC4: mem_result = ex_mem_q.ex_result;'')],
     m_caught = [''directed:a8_control'', ''random:branch'']\<rparr>,
    \<lparr>m_step = ''A8'', m_name = ''blt_uses_unsigned_compare'',
     m_edits = [(BR, ''      rv32i_pkg::F3_BLT:  taken =  lt;'',
       ''      rv32i_pkg::F3_BLT:  taken =  ltu;'')],
     m_caught = [''formal:rvntt_branch'', ''directed:a8_control'', ''random:branch'']\<rparr>,
    \<lparr>m_step = ''A8'', m_name = ''bge_is_not_the_complement_of_blt'',
     m_edits = [(BR, ''      rv32i_pkg::F3_BGE:  taken = !lt;'',
       ''      rv32i_pkg::F3_BGE:  taken =  lt;'')],
     m_caught = [''formal:rvntt_branch'', ''directed:a8_control'', ''random:branch'']\<rparr>,
    \<lparr>m_step = ''A8'', m_name = ''branch_funct3_reserved_takes'',
     m_edits = [(BR, ''      default:            taken = 1'b0;   // 010 and 011: reserved, and illegal'',
       ''      default:            taken = 1'b1;'')],
     m_caught = [''formal:rvntt_branch'']\<rparr>]"

definition MUTATIONS_3 :: "mutation list" where
  "MUTATIONS_3 = [
    \<lparr>m_step = ''A9'', m_name = ''minstret_counted_at_wb'',
     m_edits = [(CORE, ''      .instret_bump     (id_ex_q.valid && !ex_trap && !ex_stall),'',
       ''      .instret_bump     (mem_wb_q.valid),'')],
     m_caught = [''csr:a9_minstret'']\<rparr>,
    \<lparr>m_step = ''A9'', m_name = ''minstret_write_not_suppressed'',
     m_edits = [(CSR, ''  wire minstret_written = do_write &&\<newline>                          (addr == CSR_MINSTRET || addr == CSR_MINSTRETH);'',
       ''  wire minstret_written = do_write && (addr == CSR_MCYCLE);'')],
     m_caught = [''riscv:rv32mi/instret_overflow'', ''formal:rvntt_csr'']\<rparr>,
    \<lparr>m_step = ''A9'', m_name = ''illegal_instruction_does_not_trap'',
     m_edits = [(CORE, ''      if (id_ex_q.ctrl.is_illegal ||\<newline>          (id_ex_q.ctrl.is_csr && ex_csr_illegal)) begin'',
       ''      if (1'b0 && (id_ex_q.ctrl.is_illegal ||\<newline>          (id_ex_q.ctrl.is_csr && ex_csr_illegal))) begin'')],
     m_caught = [''riscv:rv32mi/illegal'', ''riscv:rv32mi/shamt'']\<rparr>,
    \<lparr>m_step = ''A9'', m_name = ''misaligned_load_does_not_trap'',
     m_edits = [(CORE, ''      end else if (id_ex_q.ctrl.mem_read && ex_addr_misaligned) begin\<newline>        ex_trap = 1'b1; ex_trap_cause = 5'd4;  ex_trap_val = ex_mem_addr;\<newline>'',
       '''')],
     m_caught = [''riscv:rv32mi/lw-misaligned'', ''riscv:rv32mi/ma_addr'']\<rparr>,
    \<lparr>m_step = ''A9'', m_name = ''faulting_store_still_writes_memory'',
     m_edits = [(CORE, ''    if (id_ex_q.valid && id_ex_q.ctrl.mem_write && !ex_trap) begin'',
       ''    if (id_ex_q.valid && id_ex_q.ctrl.mem_write) begin'')],
     m_caught = [''csr:a9_csr'']\<rparr>,
    \<lparr>m_step = ''A9'', m_name = ''trap_does_not_squash_the_instruction'',
     m_edits = [(CORE, ''    end else if (ex_trap || ex_stall) begin'',
       ''    end else if (ex_stall) begin'')],
     m_caught = [''riscv:rv32mi/illegal'', ''random:branch'']\<rparr>,
    \<lparr>m_step = ''A9'', m_name = ''csrrs_with_x0_writes_anyway'',
     m_edits = [(CORE, ''  wire ex_csr_src_nz = ex_csr_imm ? (id_ex_q.imm[4:0] != 5'd0)\<newline>                                  : (id_ex_q.rs1_addr != 5'd0);'',
       ''  wire ex_csr_src_nz = ex_csr_imm ? (id_ex_q.imm[4:0] != 5'd0)\<newline>                                  : 1'b1;'')],
     m_caught = [''riscv:rv32mi/zicntr'', ''csr:a9_csr'']\<rparr>,
    \<lparr>m_step = ''A9'', m_name = ''read_only_csr_accepts_a_write'',
     m_edits = [(CSR, ''  assign illegal = !known || (wen && read_only) || seed_illegal;'',
       ''  assign illegal = !known || seed_illegal;'')],
     m_caught = [''formal:rvntt_csr'', ''csr:a9_csr'']\<rparr>,
    \<lparr>m_step = ''A29'', m_name = ''seed_is_an_ordinary_readable_csr'',
     m_edits = [(CSR, ''  wire seed_illegal = seed_access && !wen;'',
       ''  wire seed_illegal = seed_access && wen;'')],
     m_caught = [''formal:rvntt_csr'']\<rparr>,
    \<lparr>m_step = ''A29'', m_name = ''a_trapping_seed_access_still_consumes'',
     m_edits = [(CSR, ''  assign seed_rd_en = seed_access && wen;'',
       ''  assign seed_rd_en = seed_access;'')],
     m_caught = [''formal:rvntt_csr'']\<rparr>,
    \<lparr>m_step = ''A9'', m_name = ''mret_does_not_restore_mie'',
     m_edits = [(CSR, ''        mstatus_mie_q  <= mstatus_mpie_q;\<newline>        mstatus_mpie_q <= 1'b1;'',
       ''        mstatus_mpie_q <= 1'b1;'')],
     m_caught = [''formal:rvntt_csr'', ''csr:a9_csr'']\<rparr>,
    \<lparr>m_step = ''A9'', m_name = ''mtval_not_set_on_a_misaligned_access'',
     m_edits = [(CORE, ''        ex_trap = 1'b1; ex_trap_cause = 5'd4;  ex_trap_val = ex_mem_addr;'',
       ''        ex_trap = 1'b1; ex_trap_cause = 5'd4;  ex_trap_val = 32'h0;'')],
     m_caught = [''csr:a9_csr'']\<rparr>,
    \<lparr>m_step = ''A9'', m_name = ''misaligned_jump_target_does_not_trap'',
     m_edits = [(CORE, ''  wire ex_target_misaligned = ex_ctrl_xfer && ex_jump_target[1];'',
       ''  wire ex_target_misaligned = ex_ctrl_xfer && ex_jump_target[0];'')],
     m_caught = [''riscv:rv32mi/ma_fetch'']\<rparr>,
    \<lparr>m_step = ''A11'', m_name = ''rvfi_order_skips_traps'',
     m_edits = [(RVFI, ''    else if (mw_q.valid) order_q <= order_q + 64'd1;'',
       ''    else if (mw_q.valid && !mw_q.trap) order_q <= order_q + 64'd1;'')],
     m_caught = [''rvfi:unique_ch0'']\<rparr>,
    \<lparr>m_step = ''A11'', m_name = ''rvfi_trap_not_reported'',
     m_edits = [(RVFI, ''    ex_pkt.valid    = ex_valid;'',
       ''    ex_pkt.valid    = ex_valid && !ex_trap;'')],
     m_caught = [''rvfi:pc_fwd_ch0'']\<rparr>]"

definition MUTATIONS_4 :: "mutation list" where
  "MUTATIONS_4 = [
    \<lparr>m_step = ''A11'', m_name = ''rvfi_rs1_not_forwarded'',
     m_edits = [(CORE, ''      .ex_rs1_fwd         (ex_rs1_fwd),'',
       ''      .ex_rs1_fwd         (id_ex_q.rs1_data),'')],
     m_caught = [''rvfi:reg_ch0'']\<rparr>,
    \<lparr>m_step = ''A11'', m_name = ''rvfi_rd_addr_from_the_decoder'',
     m_edits = [(RVFI, ''  assign rvfi_rd_addr   = wb_we ? wb_rd_addr : 5'd0;'',
       ''  assign rvfi_rd_addr   = wb_rd_addr;'')],
     m_caught = [''rvfi:insn_sw_ch0'']\<rparr>,
    \<lparr>m_step = ''A11'', m_name = ''rvfi_mem_addr_not_word_aligned'',
     m_edits = [(RVFI, ''    ex_pkt.mem_addr  = {ex_mem_addr[31:2], 2'b00};'',
       ''    ex_pkt.mem_addr  = ex_mem_addr;'')],
     m_caught = [''rvfi:insn_lb_ch0'']\<rparr>,
    \<lparr>m_step = ''A11'', m_name = ''rvfi_shadow_reports_one_cycle_early'',
     m_edits = [(RVFI, ''      mw_q           <= em_q;'',
       ''      mw_q           <= ex_pkt;'')],
     m_caught = [''rvfi:pc_fwd_ch0'']\<rparr>,
    \<lparr>m_step = ''A26'', m_name = ''fwd_precompute_does_not_decay'',
     m_edits = [(CORE, ''      id_ex_q.fwd_a <= fwd_decay(id_ex_q.fwd_a);'',
       ''      id_ex_q.fwd_a <= id_ex_q.fwd_a;'')],
     m_caught = [''rvfi:unique_ch0'']\<rparr>,
    \<lparr>m_step = ''A14'', m_name = ''muldiv_done_one_cycle_late'',
     m_edits = [(MD, ''  assign done = req && active_q && (cnt_q == target);'',
       ''  assign done = req && active_q && (cnt_q == target + 6'd1);'')],
     m_caught = [''directed:a14_muldiv'', ''random:muldiv'']\<rparr>,
    \<lparr>m_step = ''A14'', m_name = ''muldiv_done_one_cycle_early'',
     m_edits = [(MD, ''  assign done = req && active_q && (cnt_q == target);'',
       ''  assign done = req && active_q && (cnt_q == target - 6'd1);'')],
     m_caught = [''directed:a14_muldiv'', ''random:muldiv'', ''riscv:rv32um/div'']\<rparr>,
    \<lparr>m_step = ''A14'', m_name = ''muldiv_reads_the_register_file_not_forwarding'',
     m_edits = [(CORE, ''      .op     (id_ex_q.ctrl.muldiv_op),\<newline>      .a      (ex_rs1_fwd),\<newline>      .b      (ex_rs2_fwd),'',
       ''      .op     (id_ex_q.ctrl.muldiv_op),\<newline>      .a      (id_ex_q.rs1_data),\<newline>      .b      (id_ex_q.rs2_data),'')],
     m_caught = [''directed:a14_muldiv'', ''random:muldiv'']\<rparr>,
    \<lparr>m_step = ''A25'', m_name = ''mul_pipeline_deeper_than_its_latency'',
     m_edits = [(MD, ''  localparam int MUL_PIPE = MUL_CYCLES - 2;'',
       ''  localparam int MUL_PIPE = MUL_CYCLES - 1;'')],
     m_caught = [''directed:a14_muldiv'', ''random:muldiv'', ''riscv:rv32um/mul'']\<rparr>,
    \<lparr>m_step = ''A14'', m_name = ''divide_by_zero_quotient_is_zero'',
     m_edits = [(MD, ''      div_by_zero_q ? (want_rem_q ? dividend_q : 32'hFFFF_FFFF)'',
       ''      div_by_zero_q ? (want_rem_q ? dividend_q : 32'h0000_0000)'')],
     m_caught = [''directed:a14_muldiv'', ''random:muldiv'', ''riscv:rv32um/div'', ''riscv:rv32um/divu'']\<rparr>]"

definition MUTATIONS_5 :: "mutation list" where
  "MUTATIONS_5 = [
    \<lparr>m_step = ''A14'', m_name = ''divide_by_zero_remainder_is_magnitude'',
     m_edits = [(MD, ''      dividend_q    <= a;'',
       ''      dividend_q    <= a_mag;'')],
     m_caught = [''directed:a14_muldiv'']\<rparr>,
    \<lparr>m_step = ''A14'', m_name = ''quotient_loses_bit31'',
     m_edits = [(MD, ''  wire [31:0] quo_mag = neg_quo_q ? (~quo_q + 32'd1) : quo_q;'',
       ''  wire [31:0] quo_mag = neg_quo_q ? (~quo_q + 32'd1) : {1'b0, quo_q[30:0]};'')],
     m_caught = [''directed:a14_muldiv'', ''riscv:rv32um/div'', ''riscv:rv32um/divu'']\<rparr>,
    \<lparr>m_step = ''A14'', m_name = ''rem_takes_the_divisor_sign'',
     m_edits = [(MD, ''      neg_rem_q     <= a_neg;            // the remainder takes the DIVIDEND's sign'',
       ''      neg_rem_q     <= b_neg;            // the remainder takes the DIVIDEND's sign'')],
     m_caught = [''directed:a14_muldiv'', ''random:muldiv'', ''riscv:rv32um/rem'']\<rparr>,
    \<lparr>m_step = ''A14'', m_name = ''mulhsu_sign_extends_rs2'',
     m_edits = [(MD, ''  wire b_is_signed = (op[1]   == 1'b0);    // MUL and MULH only'',
       ''  wire b_is_signed = (op[1:0] != 2'b11);   // MUL and MULH only'')],
     m_caught = [''directed:a14_muldiv'', ''riscv:rv32um/mulhsu'']\<rparr>,
    \<lparr>m_step = ''A14'', m_name = ''mulh_returns_the_low_half'',
     m_edits = [(MD, ''      m_hi_q <= (op[1:0] != 2'b00);      // everything but MUL wants the top half'',
       ''      m_hi_q <= 1'b0;                    // everything but MUL wants the top half'')],
     m_caught = [''directed:a14_muldiv'', ''random:muldiv'', ''riscv:rv32um/mulh'', ''riscv:rv32um/mulhu'']\<rparr>,
    \<lparr>m_step = ''A14'', m_name = ''minstret_counts_stalled_cycles'',
     m_edits = [(CORE, ''      .instret_bump     (id_ex_q.valid && !ex_trap && !ex_stall),'',
       ''      .instret_bump     (id_ex_q.valid && !ex_trap),'')],
     m_caught = [''csr:a9_minstret'']\<rparr>,
    \<lparr>m_step = ''A14'', m_name = ''idex_bubbles_instead_of_holding'',
     m_edits = [(CORE, ''      id_ex_q <= id_ex_q;'',
       ''      id_ex_q <= '0;'')],
     m_caught = [''directed:a14_muldiv'', ''random:muldiv'', ''riscv:rv32um/mul'']\<rparr>,
    \<lparr>m_step = ''A14'', m_name = ''exmem_latches_every_stalled_cycle'',
     m_edits = [(CORE, ''    end else if (ex_trap || ex_stall) begin'',
       ''    end else if (ex_trap) begin'')],
     m_caught = [''directed:a14_muldiv'', ''random:muldiv'']\<rparr>,
    \<lparr>m_step = ''A15'', m_name = ''rvfi_samples_the_last_ex_cycle'',
     m_edits = [(RVFI, ''  assign ex_pkt_eff = ex_first ? ex_pkt : ex_hold_q;'',
       ''  assign ex_pkt_eff = ex_pkt;'')],
     m_caught = [''rvfi:reg_ch0'']\<rparr>,
    \<lparr>m_step = ''A15'', m_name = ''divider_never_restores'',
     m_edits = [(MD, ''      rem_q <= fits ? diff[31:0] : shifted[31:0];'',
       ''      rem_q <= diff[31:0];'')],
     m_caught = [''formal:rvntt_muldiv'', ''directed:a14_muldiv'', ''riscv:rv32um/div'', ''riscv:rv32um/rem'']\<rparr>,
    \<lparr>m_step = ''A15'', m_name = ''divider_quotient_bit_always_set'',
     m_edits = [(MD, ''      quo_q <= {quo_q[30:0], fits};'',
       ''      quo_q <= {quo_q[30:0], 1'b1};'')],
     m_caught = [''formal:rvntt_muldiv'', ''directed:a14_muldiv'', ''riscv:rv32um/div'', ''riscv:rv32um/divu'']\<rparr>,
    \<lparr>m_step = ''A17'', m_name = ''addr_adder_drops_carry_into_bit2'',
     m_edits = [(CORE, ''  wire [31:0] ex_mem_addr = ex_rs1_fwd + id_ex_q.imm;'',
       ''  wire [31:0] ex_mem_addr = {ex_rs1_fwd[31:2] + id_ex_q.imm[31:2],\<newline>                             ex_rs1_fwd[1:0] + id_ex_q.imm[1:0]};'')],
     m_caught = [''rvfi:reg_ch0'', ''random:raw'']\<rparr>]"

definition MUTATIONS_6 :: "mutation list" where
  "MUTATIONS_6 = [
    \<lparr>m_step = ''A17'', m_name = ''addr_adder_reads_the_register_file_not_forwarding'',
     m_edits = [(CORE, ''  wire [31:0] ex_mem_addr = ex_rs1_fwd + id_ex_q.imm;'',
       ''  wire [31:0] ex_mem_addr = id_ex_q.rs1_data + id_ex_q.imm;'')],
     m_caught = [''rvfi:reg_ch0'', ''directed:a6_forward'', ''random:raw'', ''bench'']\<rparr>,
    \<lparr>m_step = ''A17'', m_name = ''store_byte_offset_from_the_alu_low_bits'',
     m_edits = [(CORE, ''  assign ex_byte_off = ex_mem_addr[1:0];'',
       ''  assign ex_byte_off = ex_alu_y[1:0] ^ 2'b01;'')],
     m_caught = [''bench'', ''random:raw'']\<rparr>,
    \<lparr>m_step = ''A19'', m_name = ''btb_tag_compared_against_the_wrong_bits'',
     m_edits = [(BP, ''  wire        lk_hit  = btb_valid_q[lk_i] && (lk_e[G_LSB +: TAG_W] == lk_t);'',
       ''  wire        lk_hit  = btb_valid_q[lk_i] && (lk_e[G_LSB +: TAG_W] == {lk_t[TAG_W-2:0], lk_t[TAG_W-1]});'')],
     m_caught = [''directed:a19_bpred'']\<rparr>,
    \<lparr>m_step = ''A19'', m_name = ''bpred_counter_wraps_instead_of_saturating'',
     m_edits = [(BP, ''                         ? ((up_cnt == 2'b11) ? 2'b11 : up_cnt + 2'b01)'',
       ''                         ? (up_cnt + 2'b01)'')],
     m_caught = [''directed:a19_bpred'']\<rparr>,
    \<lparr>m_step = ''A19'', m_name = ''ras_push_condition_dropped'',
     m_edits = [(BP, ''  wire up_call = upd_valid && (upd_kind == rv32i_pkg::BP_CALL);'',
       ''  wire up_call = 1'b0;'')],
     m_caught = [''directed:a19_bpred'']\<rparr>,
    \<lparr>m_step = ''A19'', m_name = ''btb_never_replaces_a_live_entry'',
     m_edits = [(BP, ''  wire btb_we = upd_valid && (upd_taken || (up_hit && up_isbr));'',
       ''  wire btb_we = upd_valid && (upd_taken || (up_hit && up_isbr))\<newline>                          && (!btb_valid_q[up_i] || up_hit);'')],
     m_caught = [''directed:a19_bpred'']\<rparr>,
    \<lparr>m_step = ''A19'', m_name = ''mispredict_ignores_the_target'',
     m_edits = [(CORE, ''                       ((id_ex_q.pred_taken != ex_ctrl_xfer) ||\<newline>                        (ex_ctrl_xfer &&\<newline>                         (id_ex_q.pred_target != ex_jump_target)));'',
       ''                       (id_ex_q.pred_taken != ex_ctrl_xfer);'')],
     m_caught = [''directed:a19_bpred'', ''rvfi:pc_fwd_ch0'']\<rparr>,
    \<lparr>m_step = ''A19'', m_name = ''prediction_outranks_the_redirect'',
     m_edits = [(CORE, ''    if      (ex_redirect)   pc_next = ex_redirect_target;\<newline>    else if (front_stall)   pc_next = pc_q;\<newline>    else if (bp_pred_taken) pc_next = bp_pred_target;'',
       ''    if      (bp_pred_taken) pc_next = bp_pred_target;\<newline>    else if (ex_redirect)   pc_next = ex_redirect_target;\<newline>    else if (front_stall)   pc_next = pc_q;'')],
     m_caught = [''directed:a19_bpred'', ''rvfi:pc_fwd_ch0'']\<rparr>,
    \<lparr>m_step = ''A19'', m_name = ''rvfi_pc_wdata_falls_through_a_taken_branch'',
     m_edits = [(RVFI, ''    ex_pkt.pc_wdata = ex_redirect_target;'',
       ''    ex_pkt.pc_wdata = ex_trap ? ex_redirect_target\<newline>                              : (ex_pc + 32'd4);'')],
     m_caught = [''rvfi:pc_fwd_ch0'']\<rparr>,
    \<lparr>m_step = ''A19'', m_name = ''bpred_allocates_only_on_branches'',
     m_edits = [(BP, ''  wire btb_we = upd_valid && (upd_taken || (up_hit && up_isbr));'',
       ''  wire btb_we = upd_valid && up_isbr && (upd_taken || up_hit);'')],
     m_caught = [''directed:a19_bpred'']\<rparr>,
    \<lparr>m_step = ''A20'', m_name = ''mcountinhibit_does_not_inhibit_mcycle'',
     m_edits = [(CSR, ''      if (!inhibit_cy_q) mcycle_q <= mcycle_q + 64'd1;'',
       ''      mcycle_q <= mcycle_q + 64'd1;'')],
     m_caught = [''csr:a20_hpm'']\<rparr>]"

definition MUTATIONS_7 :: "mutation list" where
  "MUTATIONS_7 = [
    \<lparr>m_step = ''A20'', m_name = ''unimplemented_counters_trap_instead_of_reading_zero'',
     m_edits = [(CSR, ''        known = hpm_any;'',
       ''        known = hpm_any && hpm_impl;'')],
     m_caught = [''csr:a20_hpm'']\<rparr>,
    \<lparr>m_step = ''A20'', m_name = ''the_event_selector_is_not_warl'',
     m_edits = [(CSR, ''              else if (hpm_evt && wdata[3:0] <= rv32i_pkg::HPM_EV_MAX && wdata[31:4] == '0)'',
       ''              else if (hpm_evt)'')],
     m_caught = [''csr:a20_hpm'']\<rparr>,
    \<lparr>m_step = ''A21'', m_name = ''rev8_and_brev8_swapped'',
     m_edits = [(BM, ''      rv32i_pkg::BM_REV8:   y = rev8_v;'',
       ''      rv32i_pkg::BM_REV8:   y = brev8_v;''),
      (BM, ''      rv32i_pkg::BM_BREV8:  y = brev8_v;'',
       ''      rv32i_pkg::BM_BREV8:  y = rev8_v;'')],
     m_caught = [''formal:rvntt_bitmanip'', ''random:bitmanip'']\<rparr>,
    \<lparr>m_step = ''A21'', m_name = ''ctz_of_zero_returns_31'',
     m_edits = [(BM, ''    ctz_v = 6'd32;'',
       ''    ctz_v = 6'd31;'')],
     m_caught = [''formal:rvntt_bitmanip'']\<rparr>,
    \<lparr>m_step = ''A21'', m_name = ''rotate_complement_off_by_one'',
     m_edits = [(BM, ''  wire [4:0] rshamt = 5'd0 - shamt;'',
       ''  wire [4:0] rshamt = 5'd31 - shamt;'')],
     m_caught = [''formal:rvntt_bitmanip'', ''random:bitmanip'']\<rparr>,
    \<lparr>m_step = ''A21'', m_name = ''bitmanip_result_never_reaches_writeback'',
     m_edits = [(CORE, ''    else if (id_ex_q.ctrl.is_bitmanip) ex_result = ex_bm_result;'',
       ''    else if (1'b0) ex_result = ex_bm_result;'')],
     m_caught = [''random:bitmanip'']\<rparr>,
    \<lparr>m_step = ''A21'', m_name = ''unary_group_ignores_the_rs2_field'',
     m_edits = [(DEC, ''          rv32i_pkg::RS2_SEXTH: bm_op_i = rv32i_pkg::BM_SEXTH;\<newline>          default:              bm_op_i = rv32i_pkg::BM_NONE;'',
       ''          rv32i_pkg::RS2_SEXTH: bm_op_i = rv32i_pkg::BM_SEXTH;\<newline>          default:              bm_op_i = rv32i_pkg::BM_CLZ;'')],
     m_caught = [''cocotb:decode'']\<rparr>,
    \<lparr>m_step = ''A22'', m_name = ''czero_tests_only_the_low_five_bits'',
     m_edits = [(BM, ''      rv32i_pkg::BM_CZEQZ:  y = (b == 32'd0) ? 32'd0 : a;'',
       ''      rv32i_pkg::BM_CZEQZ:  y = (b[4:0] == 5'd0) ? 32'd0 : a;'')],
     m_caught = [''formal:rvntt_bitmanip'', ''random:bitmanip'']\<rparr>,
    \<lparr>m_step = ''A22'', m_name = ''czero_eqz_and_nez_swapped'',
     m_edits = [(BM, ''      rv32i_pkg::BM_CZNEZ:  y = (b != 32'd0) ? 32'd0 : a;'',
       ''      rv32i_pkg::BM_CZNEZ:  y = (b == 32'd0) ? 32'd0 : a;'')],
     m_caught = [''formal:rvntt_bitmanip'', ''random:bitmanip'']\<rparr>,
    \<lparr>m_step = ''A22'', m_name = ''zicond_reserved_funct3_becomes_legal'',
     m_edits = [(DEC, ''      {rv32i_pkg::F7_ZICOND,     3'b111}: bm_op_r = rv32i_pkg::BM_CZNEZ;'',
       ''      {rv32i_pkg::F7_ZICOND,     3'b110},\<newline>      {rv32i_pkg::F7_ZICOND,     3'b111}: bm_op_r = rv32i_pkg::BM_CZNEZ;'')],
     m_caught = [''cocotb:decode'']\<rparr>]"

definition MUTATIONS :: "mutation list" where
  "MUTATIONS = MUTATIONS_1 @ MUTATIONS_2 @ MUTATIONS_3 @ MUTATIONS_4 @ MUTATIONS_5 @ MUTATIONS_6 @ MUTATIONS_7"

end
