(* ===== verification/Mutate.thy ===== *)
theory Mutate
  imports Complex_Main Sim_Tests Rtl_Deps Mutate_Manifest
begin

text \<open>
  The mutation-testing harness, \<^verbatim>\<open>tb/mutate/run_mutation.py\<close>: mirroring of the RTL with the
  anchored edits, dispatch of the named tests, the verdict on a mutation, the baseline, and the
  exit code of the run. The external programs (Verilator, the simulators, SymbiYosys,
  riscv-formal, the SoC and benchmark testbenches, cocotb, the compiler) are the fields of a record
  \<open>tools\<close>; each is a function of the sources it reads.
\<close>

section \<open>Sources and edits\<close>

definition RTL :: "string list" where
  "RTL = [
    ''rtl/core/rv32i_pkg.sv'',
    ''rtl/core/rvntt_decode.sv'',
    ''rtl/core/rvntt_alu.sv'',
    ''rtl/core/rvntt_immgen.sv'',
    ''rtl/core/rvntt_regfile.sv'',
    ''rtl/core/rvntt_forward.sv'',
    ''rtl/core/rvntt_hazard.sv'',
    ''rtl/core/rvntt_branch.sv'',
    ''rtl/core/rvntt_csr.sv'',
    ''rtl/core/rvntt_muldiv.sv'',
    ''rtl/core/rvntt_bitmanip.sv'',
    ''rtl/core/rvntt_seed.sv'',
    ''rtl/core/rvntt_entropy.sv'',
    ''rtl/core/rvntt_entropy_health.sv'',
    ''rtl/core/rvntt_bpred.sv'',
    ''rtl/core/rvntt_core.sv'',
    ''rtl/soc/rvntt_ram.sv'',
    ''rtl/soc/rvntt_core_sim_top.sv'']"

definition MIRROR_EXTRA :: "string list" where
  "MIRROR_EXTRA = [RVFI, MMIO, SOCTOP, UARTRX,
    ''rtl/soc/rvntt_soc_sim_top.sv'', ''rtl/soc/rvntt_clkgen.sv'',
    ''rtl/soc/rvntt_uart_tx.sv'', ''rtl/soc/rvntt_ram.sv'',
    ''rtl/common/rvntt_sync_reset.sv'']"

fun copy_files :: "tree \<Rightarrow> string list \<Rightarrow> tree res" where
  "copy_files repo [] = Inr []"
| "copy_files repo (p # ps) = (case map_of repo p of
     None \<Rightarrow> Inl (Fail ''FileNotFoundError'')
   | Some s \<Rightarrow> rbind (copy_files repo ps) (\<lambda>d. Inr ((p, s) # d)))"

definition write_file :: "string \<Rightarrow> string \<Rightarrow> tree \<Rightarrow> tree" where
  "write_file rel s d = map (\<lambda>(p, t). if p = rel then (p, s) else (p, t)) d"

type_synonym edit = "string \<times> string \<times> string"

fun apply_edits :: "edit list \<Rightarrow> tree \<Rightarrow> tree \<times> string option" where
  "apply_edits [] d = (d, None)"
| "apply_edits ((rel, old, new) # es) d = (case map_of d rel of
     None \<Rightarrow> (d, Some (rel @ '' is not in the build's source list''))
   | Some s \<Rightarrow>
       let n = py_count old s in
       if n = 0 then (d, Some (''anchor not found in '' @ rel))
       else if n > 1 then (d, Some (''anchor matches '' @ show_nat n @ '' times in '' @ rel @
         '' -- ambiguous, so the mutation would land on whichever comes first''))
       else apply_edits es (write_file rel (replace1 old new s) d))"

definition mirror_rtl :: "tree \<Rightarrow> edit list \<Rightarrow> (tree \<times> string option) res" where
  "mirror_rtl repo edits = rbind (copy_files repo (RTL @ MIRROR_EXTRA)) (\<lambda>d. Inr (apply_edits edits d))"

section \<open>The external programs\<close>

record suite =
  cfg_n :: nat
  cfg_length :: nat
  cfg_raw :: rat
  cfg_lu :: rat
  cfg_br :: rat
  cfg_mul :: rat
  cfg_bm :: rat
  cfg_seed :: nat

text \<open>\<open>assemble_random cfg seed\<close> is the generated program of that seed, assembled.\<close>

record tools =
  verilator :: "tree \<Rightarrow> int \<times> string"
  simulator :: "tree \<Rightarrow> sim"
  sby :: "tree \<Rightarrow> string \<Rightarrow> int"
  riscv_formal :: "tree \<Rightarrow> string \<Rightarrow> string \<Rightarrow> int \<times> string"
  soc_runner :: "tree \<Rightarrow> int \<times> string"
  bench_runner :: "tree \<Rightarrow> int \<times> string"
  cocotb :: "tree \<Rightarrow> string \<Rightarrow> int"
  compile_s :: "string \<Rightarrow> elf res"
  compile_test :: "string \<Rightarrow> string \<Rightarrow> elf option res"
  assemble_random :: "suite \<Rightarrow> nat \<Rightarrow> elf res"
  a4_build :: "elf res"

definition build :: "tools \<Rightarrow> tree \<Rightarrow> string + sim" where
  "build T d = (let (rc, out) = verilator T d in
     if rc \<noteq> 0 then
       (let ls = splitlines (strip out) in Inl (join '' / '' (drop (length ls - 3) ls)))
     else Inr (simulator T d))"

definition FORMAL_DEPTH :: "(string \<times> nat) list" where
  "FORMAL_DEPTH = [(''rvntt_muldiv'', 37)]"

definition FORMAL_DEPTH_DEFAULT :: nat where "FORMAL_DEPTH_DEFAULT = 8"

definition nl :: "string" where "nl = [CHR 0x0A]"

definition sby_script :: "string \<Rightarrow> string list \<Rightarrow> string" where
  "sby_script design srcs = (
    let depth = (case map_of FORMAL_DEPTH design of None \<Rightarrow> FORMAL_DEPTH_DEFAULT | Some n \<Rightarrow> n)
    in ''[options]'' @ nl @ ''mode bmc'' @ nl @ ''depth '' @ show_nat depth @ nl @ nl @
      ''[engines]'' @ nl @ ''smtbmc bitwuzla'' @ nl @ nl @
      ''[script]'' @ nl @ ''read -define FORMAL'' @ nl @
      join nl (map (\<lambda>s. ''read -formal '' @ basename s) srcs) @ nl @ ''prep -top '' @ design @ nl @ nl @
      ''[files]'' @ nl @ join nl srcs @ nl)"

text \<open>Paths inside the mirror of the mutation \<open>name\<close>.\<close>

definition in_mirror :: "string \<Rightarrow> string \<Rightarrow> string" where
  "in_mirror name rel = ''rtl_'' @ name @ ''/'' @ rel"

definition run_formal :: "tools \<Rightarrow> tree \<Rightarrow> string \<Rightarrow> tree \<Rightarrow> string \<Rightarrow> bool" where
  "run_formal T repo name d design = (
    let core = ''rtl/core/'' @ design @ ''.sv'';
        src = (if exists_file d core then core else ''rtl/soc/'' @ design @ ''.sv'');
        srcs = with_deps repo (map_of d src) (in_mirror name src)
    in sby T d (sby_script design srcs) = 0)"

definition run_rvfi :: "tools \<Rightarrow> tree \<Rightarrow> string \<Rightarrow> string \<Rightarrow> bool res" where
  "run_rvfi T d check core_name = (let rc = fst (riscv_formal T d core_name check) in
     if rc \<noteq> 0 \<and> rc \<noteq> 1 then Inl (RuntimeError ''riscv-formal could not run'') else Inr (rc = 0))"

definition run_soc :: "tools \<Rightarrow> tree \<Rightarrow> bool res" where
  "run_soc T d = (let (rc, out) = soc_runner T d in
     if \<not> is_sub ''SOC_TB_OK'' out \<and> \<not> is_sub ''SOC_TB_FAIL'' out
     then Inl (RuntimeError ''the SoC testbench did not run'') else Inr (rc = 0))"

definition run_bench :: "tools \<Rightarrow> tree \<Rightarrow> bool res" where
  "run_bench T d = (let (rc, out) = bench_runner T d in
     if \<not> is_sub ''BENCH_TB_OK'' out \<and> \<not> is_sub ''BENCH_TB_FAIL'' out
     then Inl (RuntimeError ''the benchmark testbench did not run'') else Inr (rc = 0))"

section \<open>The programs, built once\<close>

definition RANDOM_SUITES :: "(string \<times> suite) list" where
  "RANDOM_SUITES = [
    (''raw'', \<lparr>cfg_n = 8, cfg_length = 250, cfg_raw = 1, cfg_lu = 0, cfg_br = 0, cfg_mul = 0, cfg_bm = 0,
      cfg_seed = 0xA6000000\<rparr>),
    (''loaduse'', \<lparr>cfg_n = 8, cfg_length = 250, cfg_raw = 1, cfg_lu = 1, cfg_br = 0, cfg_mul = 0, cfg_bm = 0,
      cfg_seed = 0xA7000000\<rparr>),
    (''branch'', \<lparr>cfg_n = 8, cfg_length = 250, cfg_raw = 1, cfg_lu = 1, cfg_br = 12 / 100, cfg_mul = 0, cfg_bm = 0,
      cfg_seed = 0xA8000000\<rparr>),
    (''bitmanip'', \<lparr>cfg_n = 8, cfg_length = 250, cfg_raw = 1, cfg_lu = 1, cfg_br = 10 / 100, cfg_mul = 0,
      cfg_bm = 35 / 100, cfg_seed = 0xB1000000\<rparr>),
    (''muldiv'', \<lparr>cfg_n = 8, cfg_length = 250, cfg_raw = 1, cfg_lu = 1, cfg_br = 12 / 100, cfg_mul = 12 / 100,
      cfg_bm = 0, cfg_seed = 0xA1400000\<rparr>)]"

text \<open>The keys of the cache \<^verbatim>\<open>self.elfs\<close>; the source's string for each is \<open>key_string\<close>. A single
  ELF is cached as a one-element list. The instruction count Spike gives for \<^verbatim>\<open>a9_minstret\<close> is
  cached beside them.\<close>

datatype fx_key = K_directed string | K_a4 | K_riscv string string | K_csr string | K_random string

fun key_string :: "fx_key \<Rightarrow> string" where
  "key_string (K_directed prog) = prog"
| "key_string K_a4 = ''a4''"
| "key_string (K_riscv suite name) = ''rv_'' @ suite @ ''_'' @ name"
| "key_string (K_csr name) = ''csr_'' @ name"
| "key_string (K_random suite) = ''r_'' @ suite"

record fixture =
  fx_elfs :: "(fx_key \<times> elf list) list"
  fx_expect :: "nat option"

definition fixture_init :: fixture where
  "fixture_init = \<lparr>fx_elfs = [], fx_expect = None\<rparr>"

fun random_elfs_of :: "tools \<Rightarrow> suite \<Rightarrow> nat list \<Rightarrow> elf list res" where
  "random_elfs_of T cfg [] = Inr []"
| "random_elfs_of T cfg (i # ks) =
    rbind (assemble_random T cfg (cfg_seed cfg + i)) (\<lambda>e.
    rbind (random_elfs_of T cfg ks) (\<lambda>es. Inr (e # es)))"

text \<open>What each key stands for, computed afresh.\<close>

fun make_elfs :: "tools \<Rightarrow> fx_key \<Rightarrow> elf list res" where
  "make_elfs T (K_directed prog) = (case map_of DIRECTED_PROGRAMS prog of
     None \<Rightarrow> Inl (KeyError prog)
   | Some src \<Rightarrow> rbind (compile_s T src) (\<lambda>e. Inr [e]))"
| "make_elfs T K_a4 = rbind (a4_build T) (\<lambda>e. Inr [e])"
| "make_elfs T (K_riscv suite name) = rbind (compile_test T suite name) (\<lambda>r. case r of
     None \<Rightarrow> Inl (RuntimeError ''compiling failed'')
   | Some e \<Rightarrow> Inr [e])"
| "make_elfs T (K_csr name) = rbind (compile_s T (''sw/tests/'' @ name @ ''.S'')) (\<lambda>e. Inr [e])"
| "make_elfs T (K_random suite) = (case map_of RANDOM_SUITES suite of
     None \<Rightarrow> Inl (KeyError suite)
   | Some cfg \<Rightarrow> random_elfs_of T cfg [0..<cfg_n cfg])"

definition get_elfs :: "tools \<Rightarrow> fx_key \<Rightarrow> fixture \<Rightarrow> (elf list \<times> fixture) res" where
  "get_elfs T k fx = (case map_of (fx_elfs fx) k of
     Some es \<Rightarrow> Inr (es, fx)
   | None \<Rightarrow> rbind (make_elfs T k) (\<lambda>es. Inr (es, fx\<lparr>fx_elfs := (k, es) # fx_elfs fx\<rparr>)))"

definition get_expect :: "elf \<Rightarrow> fixture \<Rightarrow> (nat \<times> fixture) res" where
  "get_expect elf fx = (case fx_expect fx of
     Some n \<Rightarrow> Inr (n, fx)
   | None \<Rightarrow> rbind (spike_commits_before elf ''probe'') (\<lambda>n. Inr (n, fx\<lparr>fx_expect := Some n\<rparr>)))"

section \<open>The tests\<close>

fun all_pass :: "sim \<Rightarrow> elf list \<Rightarrow> bool res" where
  "all_pass exe [] = Inr True"
| "all_pass exe (e # es) = rbind (run_elf exe e) (\<lambda>ok. if ok then all_pass exe es else Inr False)"

text \<open>\<^verbatim>\<open>kind.split(":", 1)[1]\<close> and \<^verbatim>\<open>suite, name = s.split("/")\<close>.\<close>

definition after_colon :: "string \<Rightarrow> string" where
  "after_colon kind = drop 1 (dropWhile (\<lambda>c. c \<noteq> CHR '':'') kind)"

definition split_pair :: "string \<Rightarrow> (string \<times> string) res" where
  "split_pair s = (case split_on CHR ''/'' s of [a, b] \<Rightarrow> Inr (a, b) | _ \<Rightarrow> Inl (ValueError ''unpack''))"

definition run_test :: "tools \<Rightarrow> tree \<Rightarrow> string \<Rightarrow> fixture \<Rightarrow> sim \<Rightarrow> tree \<Rightarrow> string \<Rightarrow> (bool \<times> fixture) res" where
  "run_test T repo kind fx exe d mut_name = (
    let arg = after_colon kind in
    if startswith kind ''formal:'' then Inr (run_formal T repo mut_name d arg, fx)
    else if startswith kind ''rvfi:'' then
      rbind (run_rvfi T d arg (''mut_'' @ mut_name @ ''_'' @ arg)) (\<lambda>ok. Inr (ok, fx))
    else if kind = ''soc'' then rbind (run_soc T d) (\<lambda>ok. Inr (ok, fx))
    else if kind = ''bench'' then rbind (run_bench T d) (\<lambda>ok. Inr (ok, fx))
    else if startswith kind ''directed:'' then
      rbind (get_elfs T (K_directed arg) fx) (\<lambda>(es, fx).
      rbind (run_elf exe (hd es)) (\<lambda>ok. Inr (ok, fx)))
    else if startswith kind ''riscv:'' then
      rbind (split_pair arg) (\<lambda>(suite, name).
      rbind (get_elfs T (K_riscv suite name) fx) (\<lambda>(es, fx).
      rbind (run_rtl exe (hd es)) (\<lambda>ok. Inr (ok, fx))))
    else if startswith kind ''csr:'' then
      rbind (get_elfs T (K_csr arg) fx) (\<lambda>(es, fx).
      if arg = ''a9_minstret'' then
        rbind (get_expect (hd es) fx) (\<lambda>(n, fx).
        rbind (csr_run exe (hd es) [''--expect'', show_nat n, ''--reg'', ''9'']) (\<lambda>ok. Inr (ok, fx)))
      else rbind (csr_run exe (hd es) []) (\<lambda>ok. Inr (ok, fx)))
    else if startswith kind ''cocotb:'' then Inr (cocotb T d arg = 0, fx)
    else if kind = ''a4'' then
      rbind (get_elfs T K_a4 fx) (\<lambda>(es, fx).
      rbind (run_elf exe (hd es)) (\<lambda>ok. Inr (ok, fx)))
    else if startswith kind ''random:'' then
      rbind (get_elfs T (K_random arg) fx) (\<lambda>(es, fx).
      rbind (all_pass exe es) (\<lambda>ok. Inr (ok, fx)))
    else Inl (ValueError (''unknown test kind: '' @ kind)))"

fun prebuild_fixtures :: "tools \<Rightarrow> string list \<Rightarrow> fixture \<Rightarrow> fixture res" where
  "prebuild_fixtures T [] fx = Inr fx"
| "prebuild_fixtures T (kind # kinds) fx = (
    let arg = after_colon kind in
    rbind (if startswith kind ''directed:'' then rbind (get_elfs T (K_directed arg) fx) (\<lambda>(es, fx). Inr fx)
           else if startswith kind ''riscv:'' then
             rbind (split_pair arg) (\<lambda>(suite, name).
             rbind (get_elfs T (K_riscv suite name) fx) (\<lambda>(es, fx). Inr fx))
           else if startswith kind ''csr:'' then
             rbind (get_elfs T (K_csr arg) fx) (\<lambda>(es, fx).
             if arg = ''a9_minstret'' then rbind (get_expect (hd es) fx) (\<lambda>(n, fx). Inr fx) else Inr fx)
           else if startswith kind ''random:'' then rbind (get_elfs T (K_random arg) fx) (\<lambda>(es, fx). Inr fx)
           else if kind = ''a4'' then rbind (get_elfs T K_a4 fx) (\<lambda>(es, fx). Inr fx)
           else Inr fx)
      (prebuild_fixtures T kinds))"

section \<open>The verdict on a mutation\<close>

datatype verdict = NO_OP | BUILD_ERR | UNCHECKED | ESCAPED | PARTIAL | CAUGHT

record job_result =
  j_name :: string
  j_verdict :: verdict
  j_detail :: string
  j_problem :: bool

fun run_catchers :: "tools \<Rightarrow> tree \<Rightarrow> string \<Rightarrow> sim \<Rightarrow> tree \<Rightarrow> string list \<Rightarrow> string list \<Rightarrow> string list \<Rightarrow> fixture \<Rightarrow>
    (string list \<times> string list \<times> fixture) res" where
  "run_catchers T repo name exe d [] caught_by missed fx = Inr (caught_by, missed, fx)"
| "run_catchers T repo name exe d (kind # kinds) caught_by missed fx =
    rbind (run_test T repo kind fx exe d name) (\<lambda>(ok, fx).
    if ok then run_catchers T repo name exe d kinds caught_by (missed @ [kind]) fx
    else run_catchers T repo name exe d kinds (caught_by @ [kind]) missed fx)"

definition judge :: "mutation \<Rightarrow> string list \<Rightarrow> string list \<Rightarrow> job_result" where
  "judge m caught_by missed = (
    if m_caught m = [] then
      \<lparr>j_name = m_name m, j_verdict = UNCHECKED, j_detail = ''(no catcher declared -- see the manifest)'', j_problem = False\<rparr>
    else if caught_by = [] then
      \<lparr>j_name = m_name m, j_verdict = ESCAPED, j_detail = ''declared: '' @ join '', '' (m_caught m), j_problem = True\<rparr>
    else if missed \<noteq> [] then
      \<lparr>j_name = m_name m, j_verdict = PARTIAL,
       j_detail = ''caught: '' @ join '', '' caught_by @ '' | NOT by: '' @ join '', '' missed, j_problem = True\<rparr>
    else \<lparr>j_name = m_name m, j_verdict = CAUGHT, j_detail = join '', '' caught_by, j_problem = False\<rparr>)"

definition mutation_job :: "tools \<Rightarrow> tree \<Rightarrow> mutation \<Rightarrow> fixture \<Rightarrow> (job_result \<times> fixture) res" where
  "mutation_job T repo m fx = (
    rbind (mirror_rtl repo (m_edits m)) (\<lambda>(d, err).
    case err of
      Some e \<Rightarrow> Inr (\<lparr>j_name = m_name m, j_verdict = NO_OP, j_detail = e, j_problem = True\<rparr>, fx)
    | None \<Rightarrow>
        (case build T d of
           Inl e \<Rightarrow> Inr (\<lparr>j_name = m_name m, j_verdict = BUILD_ERR, j_detail = e, j_problem = True\<rparr>, fx)
         | Inr exe \<Rightarrow>
             rbind (run_catchers T repo (m_name m) exe d (m_caught m) [] [] fx) (\<lambda>(caught_by, missed, fx).
             Inr (judge m caught_by missed, fx)))))"

fun run_jobs :: "tools \<Rightarrow> tree \<Rightarrow> mutation list \<Rightarrow> fixture \<Rightarrow> job_result list res" where
  "run_jobs T repo [] fx = Inr []"
| "run_jobs T repo (m # ms) fx =
    rbind (mutation_job T repo m fx) (\<lambda>(r, fx).
    rbind (run_jobs T repo ms fx) (\<lambda>rs. Inr (r # rs)))"

section \<open>The baseline\<close>

record base_task =
  t_results :: "(string \<times> bool) list"
  t_error :: "py_error option"

text \<open>The loop of \<^verbatim>\<open>baseline_job\<close>; an exception ends it and is kept.\<close>

fun baseline_job :: "tools \<Rightarrow> tree \<Rightarrow> sim \<Rightarrow> tree \<Rightarrow> string list \<Rightarrow> fixture \<Rightarrow> base_task \<times> fixture" where
  "baseline_job T repo exe d [] fx = (\<lparr>t_results = [], t_error = None\<rparr>, fx)"
| "baseline_job T repo exe d (kind # kinds) fx = (case run_test T repo kind fx exe d ''base'' of
     Inl e \<Rightarrow> (\<lparr>t_results = [], t_error = Some e\<rparr>, fx)
   | Inr (ok, fx) \<Rightarrow>
       let (r, fx) = baseline_job T repo exe d kinds fx
       in (r\<lparr>t_results := (kind, ok) # t_results r\<rparr>, fx))"

definition is_exe_kind :: "string \<Rightarrow> bool" where
  "is_exe_kind k \<longleftrightarrow> startswith k ''directed:'' \<or> startswith k ''riscv:'' \<or> startswith k ''csr:'' \<or>
     startswith k ''random:'' \<or> k = ''a4''"

definition specs_of :: "string list \<Rightarrow> string list list" where
  "specs_of wanted = (
    let exe_kinds = filter is_exe_kind wanted;
        solo_kinds = filter (\<lambda>k. k \<notin> set exe_kinds) wanted
    in (if exe_kinds \<noteq> [] then [exe_kinds] else []) @ map (\<lambda>k. [k]) solo_kinds)"

text \<open>The later result of a kind replaces an earlier one, as in \<^verbatim>\<open>dict.update\<close>.\<close>

fun run_baseline :: "tools \<Rightarrow> tree \<Rightarrow> sim \<Rightarrow> tree \<Rightarrow> string list list \<Rightarrow> (string \<times> bool) list \<Rightarrow> nat \<Rightarrow> fixture \<Rightarrow>
    (string \<times> bool) list \<times> nat \<times> fixture" where
  "run_baseline T repo exe d [] results problems fx = (results, problems, fx)"
| "run_baseline T repo exe d (spec # specs) results problems fx = (
    let (r, fx) = baseline_job T repo exe d spec fx
    in run_baseline T repo exe d specs (rev (t_results r) @ results)
         (if t_error r = None then problems else problems + 1) fx)"

definition baseline_problems :: "string list \<Rightarrow> (string \<times> bool) list \<Rightarrow> nat" where
  "baseline_problems wanted results = length (filter (\<lambda>k. map_of results k \<noteq> Some True) wanted)"

section \<open>The run\<close>

fun stale_edits :: "tree \<Rightarrow> string \<Rightarrow> edit list \<Rightarrow> (string \<times> string \<times> nat) list res" where
  "stale_edits repo name [] = Inr []"
| "stale_edits repo name ((path, old, new) # es) = (case map_of repo path of
     None \<Rightarrow> Inl (Fail ''FileNotFoundError'')
   | Some s \<Rightarrow>
       rbind (stale_edits repo name es) (\<lambda>rest.
       let n = py_count old s in Inr (if n \<noteq> 1 then (name, path, n) # rest else rest)))"

fun stale_anchors :: "tree \<Rightarrow> mutation list \<Rightarrow> (string \<times> string \<times> nat) list res" where
  "stale_anchors repo [] = Inr []"
| "stale_anchors repo (m # ms) =
    rbind (stale_edits repo (m_name m) (m_edits m)) (\<lambda>a.
    rbind (stale_anchors repo ms) (\<lambda>b. Inr (a @ b)))"

definition select :: "mutation list \<Rightarrow> string option \<Rightarrow> string option \<Rightarrow> mutation list" where
  "select ms only_step only = filter (\<lambda>m. (only_step = None \<or> only_step = Some (m_step m)) \<and> (only = None \<or> only = Some (m_name m))) ms"

text \<open>The part of \<open>main\<close> after the baseline simulator \<open>exe\<close> of the unmutated mirror \<open>d\<close> is built:
  fixtures, baseline, mutations, exit code.\<close>

definition run_manifest :: "tools \<Rightarrow> tree \<Rightarrow> mutation list \<Rightarrow> tree \<Rightarrow> sim \<Rightarrow> int res" where
  "run_manifest T repo muts d exe = (
    let wanted = sort (remdups (concat (map m_caught muts))) in
    rbind (prebuild_fixtures T wanted fixture_init) (\<lambda>fx.
    let (results, errors, fx) = run_baseline T repo exe d (specs_of wanted) [] 0 fx in
    if errors + baseline_problems wanted results \<noteq> 0 then Inr 1
    else
      rbind (run_jobs T repo muts fx) (\<lambda>rs.
      Inr (if filter j_problem rs = [] then 0 else 1))))"

definition mutate_main :: "tools \<Rightarrow> tree \<Rightarrow> mutation list \<Rightarrow> string option \<Rightarrow> string option \<Rightarrow> bool \<Rightarrow> int res" where
  "mutate_main T repo manifest only_step only check_anchors = (
    let muts = select manifest only_step only in
    if muts = [] then Inr 2
    else
      rbind (stale_anchors repo muts) (\<lambda>stale.
      if stale \<noteq> [] then Inr 1
      else if check_anchors then Inr 0
      else
        rbind (mirror_rtl repo []) (\<lambda>(d, err).
        rbind (py_assert (err = None) ''base mirror'') (\<lambda>u.
        case build T d of
          Inl e \<Rightarrow> Inr 1
        | Inr exe \<Rightarrow> run_manifest T repo muts d exe))))"

end
