(* ===== verification/Mutate_Props.thy ===== *)
theory Mutate_Props
  imports Mutate
begin

text \<open>
  What the mutation harness establishes: the edit engine replaces one anchored place and nothing
  else, the cache of built programs never changes a result, so the verdicts do not depend on the
  order or the process in which mutations run, and a run that reports success means that the
  unmutated RTL passes every named test and every mutation fails each of its declared catchers.
\<close>

section \<open>Counting and replacing\<close>

lemma startswith_append: "startswith s p \<Longrightarrow> s = p @ drop (length p) s"
  unfolding startswith_def by (metis append_take_drop_id)

lemma startswith_prefix [simp]: "startswith (p @ s) p"
  by (simp add: startswith_def)

lemma py_count_Nil [simp]: "old \<noteq> [] \<Longrightarrow> py_count old [] = 0"
  by (subst py_count.simps) simp

lemma py_count_Cons:
  "old \<noteq> [] \<Longrightarrow> py_count old (c # cs) =
    (if startswith (c # cs) old then Suc (py_count old (drop (length old) (c # cs))) else py_count old cs)"
  by (subst py_count.simps) simp

lemma py_count_0: "old \<noteq> [] \<Longrightarrow> py_count old s = 0 \<longleftrightarrow> \<not> (\<exists>pre post. s = pre @ old @ post)"
proof (induction old s rule: py_count.induct)
  case (1 old s)
  show ?case
  proof (cases s)
    case Nil
    with 1(3) show ?thesis by simp
  next
    case (Cons c cs)
    show ?thesis
    proof (cases "startswith s old")
      case True
      then have "s = [] @ old @ drop (length old) s" using startswith_append by simp
      with True Cons 1(3) show ?thesis
        by (metis py_count_Cons nat.distinct(1))
    next
      case False
      have "(\<exists>pre post. s = pre @ old @ post) \<longleftrightarrow> (\<exists>pre post. cs = pre @ old @ post)"
      proof
        assume "\<exists>pre post. s = pre @ old @ post"
        then obtain pre post where "s = pre @ old @ post" by blast
        with False Cons show "\<exists>pre post. cs = pre @ old @ post"
          by (cases pre) (use startswith_prefix [of old post] in auto)
      next
        assume "\<exists>pre post. cs = pre @ old @ post"
        then show "\<exists>pre post. s = pre @ old @ post" by (metis Cons append_Cons)
      qed
      with False Cons 1 show ?thesis by (simp add: py_count_Cons)
    qed
  qed
qed

text \<open>A single match: the text before it is kept, the replacement stands in its place, and what
  follows is kept and holds no further match.\<close>

lemma replace1_single:
  "old \<noteq> [] \<Longrightarrow> py_count old s = 1 \<Longrightarrow>
    \<exists>pre post. s = pre @ old @ post \<and> replace1 old new s = pre @ new @ post \<and> py_count old post = 0"
proof (induction old s rule: py_count.induct)
  case (1 old s)
  show ?case
  proof (cases s)
    case Nil
    with 1(3,4) show ?thesis by simp
  next
    case (Cons c cs)
    show ?thesis
    proof (cases "startswith s old")
      case True
      then have "py_count old (drop (length old) s) = 0"
        using 1(3,4) Cons by (simp add: py_count_Cons)
      moreover have "s = [] @ old @ drop (length old) s" using startswith_append [OF True] by simp
      moreover have "replace1 old new s = [] @ new @ drop (length old) s" using True Cons by simp
      ultimately show ?thesis by blast
    next
      case False
      then have "py_count old cs = 1" using 1(3,4) Cons by (simp add: py_count_Cons)
      with 1 Cons False obtain pre post where
        "cs = pre @ old @ post" "replace1 old new cs = pre @ new @ post" "py_count old post = 0" by auto
      with Cons False have "s = (c # pre) @ old @ post" "replace1 old new s = (c # pre) @ new @ post"
        by simp_all
      with \<open>py_count old post = 0\<close> show ?thesis by blast
    qed
  qed
qed

section \<open>The mirror\<close>

lemma map_of_write_file:
  "map_of (write_file rel s d) p = (if p = rel \<and> map_of d p \<noteq> None then Some s else map_of d p)"
  by (induction d) (auto simp: write_file_def)

lemma copy_files_map:
  "copy_files repo ps = Inr d \<Longrightarrow> map_of d p = (if p \<in> set ps then map_of repo p else None)"
  by (induction ps arbitrary: d) (auto simp: rbind_Inr_iff split: option.splits)

lemma mirror_single:
  assumes "mirror_rtl repo [(rel, old, new)] = Inr (d, None)" and "old \<noteq> []"
  shows "\<exists>pre post. map_of repo rel = Some (pre @ old @ post) \<and> map_of d rel = Some (pre @ new @ post) \<and>
    py_count old (pre @ old @ post) = 1 \<and>
    (\<forall>p. p \<noteq> rel \<longrightarrow> map_of d p = (if p \<in> set (RTL @ MIRROR_EXTRA) then map_of repo p else None))"
proof -
  from assms(1) obtain c where c: "copy_files repo (RTL @ MIRROR_EXTRA) = Inr c"
    and e: "apply_edits [(rel, old, new)] c = (d, None)"
    by (auto simp: mirror_rtl_def rbind_Inr_iff)
  note cm = copy_files_map [OF c]
  from e obtain s where s: "map_of c rel = Some s" and one: "py_count old s = 1"
    and d: "d = write_file rel (replace1 old new s) c"
    by (auto simp: Let_def split: option.splits if_splits)
  obtain pre post where "s = pre @ old @ post" "replace1 old new s = pre @ new @ post"
    using replace1_single [OF assms(2) one] by blast
  moreover have "map_of repo rel = Some s" using s cm [of rel] by (simp split: if_splits)
  moreover have "map_of d rel = Some (replace1 old new s)" using s by (simp add: d map_of_write_file)
  moreover have "map_of d p = (if p \<in> set (RTL @ MIRROR_EXTRA) then map_of repo p else None)" if "p \<noteq> rel" for p
    using that cm [of p] by (simp add: d map_of_write_file)
  ultimately show ?thesis using one by metis
qed

section \<open>The cache is transparent\<close>

definition fx_ok :: "tools \<Rightarrow> fixture \<Rightarrow> bool" where
  "fx_ok T fx \<longleftrightarrow>
    (\<forall>k es. map_of (fx_elfs fx) k = Some es \<longrightarrow> make_elfs T k = Inr es) \<and>
    (\<forall>n. fx_expect fx = Some n \<longrightarrow>
      (\<exists>es. make_elfs T (K_csr ''a9_minstret'') = Inr es \<and> spike_commits_before (hd es) ''probe'' = Inr n))"

lemma fx_ok_init [simp]: "fx_ok T fixture_init"
  by (simp add: fx_ok_def fixture_init_def)

text \<open>Two runs from cached states agree: the same error, or the same value and again valid caches;
  \<open>P\<close> records what is known of the value.\<close>

definition agree :: "tools \<Rightarrow> ('a \<Rightarrow> bool) \<Rightarrow> ('a \<times> fixture) res \<Rightarrow> ('a \<times> fixture) res \<Rightarrow> bool" where
  "agree T P a b = (case (a, b) of
     (Inl e, Inl e') \<Rightarrow> e = e'
   | (Inr (x, fx), Inr (y, fy)) \<Rightarrow> x = y \<and> P x \<and> fx_ok T fx \<and> fx_ok T fy
   | _ \<Rightarrow> False)"

lemma agree_simps:
  "agree T P (Inl e) (Inl e') \<longleftrightarrow> e = e'"
  "agree T P (Inl e) (Inr q) \<longleftrightarrow> False"
  "agree T P (Inr p) (Inl e') \<longleftrightarrow> False"
  "agree T P (Inr (x, fx)) (Inr (y, fy)) \<longleftrightarrow> x = y \<and> P x \<and> fx_ok T fx \<and> fx_ok T fy"
  by (simp_all add: agree_def split: prod.splits)

lemma agree_bind:
  assumes "agree T P a b"
    and "\<And>x fx fy. P x \<Longrightarrow> fx_ok T fx \<Longrightarrow> fx_ok T fy \<Longrightarrow> agree T Q (f (x, fx)) (g (x, fy))"
  shows "agree T Q (rbind a f) (rbind b g)"
  using assms by (cases a; cases b) (auto simp: agree_simps)

lemma agree_res:
  assumes "\<And>x. m = Inr x \<Longrightarrow> agree T Q (f x) (g x)"
  shows "agree T Q (rbind m f) (rbind m g)"
  using assms by (cases m) (simp_all add: agree_def)

lemma agree_value: "P x \<Longrightarrow> fx_ok T fx \<Longrightarrow> fx_ok T fy \<Longrightarrow> agree T P (Inr (x, fx)) (Inr (x, fy))"
  by (simp add: agree_def)

lemma agree_error: "agree T P (Inl e) (Inl e)"
  by (simp add: agree_def)

lemma agree_mono: "agree T P a b \<Longrightarrow> (\<And>x. P x \<Longrightarrow> Q x) \<Longrightarrow> agree T Q a b"
  by (auto simp: agree_def split: sum.splits prod.splits)

lemma get_elfs_make:
  assumes "fx_ok T fx"
  shows "(case make_elfs T k of
      Inl e \<Rightarrow> get_elfs T k fx = Inl e
    | Inr es \<Rightarrow> (\<exists>fx'. get_elfs T k fx = Inr (es, fx') \<and> fx_ok T fx'))"
proof (cases "map_of (fx_elfs fx) k")
  case None
  show ?thesis
  proof (cases "make_elfs T k")
    case (Inr es)
    with assms have "fx_ok T (fx\<lparr>fx_elfs := (k, es) # fx_elfs fx\<rparr>)"
      by (auto simp: fx_ok_def)
    with None Inr show ?thesis by (simp add: get_elfs_def)
  qed (use None in \<open>simp add: get_elfs_def\<close>)
next
  case (Some es)
  with assms have "make_elfs T k = Inr es" by (simp add: fx_ok_def)
  with Some assms show ?thesis by (simp add: get_elfs_def)
qed

lemma agree_get_elfs:
  assumes "fx_ok T fx" "fx_ok T fy"
  shows "agree T (\<lambda>es. make_elfs T k = Inr es) (get_elfs T k fx) (get_elfs T k fy)"
  using get_elfs_make [OF assms(1), of k] get_elfs_make [OF assms(2), of k]
  by (cases "make_elfs T k") (auto simp: agree_def)

lemma get_expect_make:
  assumes "fx_ok T fx" and "make_elfs T (K_csr ''a9_minstret'') = Inr es"
  shows "(case spike_commits_before (hd es) ''probe'' of
      Inl e \<Rightarrow> get_expect (hd es) fx = Inl e
    | Inr n \<Rightarrow> (\<exists>fx'. get_expect (hd es) fx = Inr (n, fx') \<and> fx_ok T fx'))"
proof (cases "fx_expect fx")
  case None
  show ?thesis
  proof (cases "spike_commits_before (hd es) ''probe''")
    case (Inr n)
    with assms have "fx_ok T (fx\<lparr>fx_expect := Some n\<rparr>)" by (simp add: fx_ok_def)
    with None Inr show ?thesis by (simp add: get_expect_def)
  qed (use None in \<open>simp add: get_expect_def\<close>)
next
  case (Some n)
  with assms have "spike_commits_before (hd es) ''probe'' = Inr n" by (auto simp: fx_ok_def)
  with Some assms show ?thesis by (simp add: get_expect_def)
qed

lemma agree_get_expect:
  assumes "fx_ok T fx" "fx_ok T fy" "make_elfs T (K_csr ''a9_minstret'') = Inr es"
  shows "agree T (\<lambda>n. True) (get_expect (hd es) fx) (get_expect (hd es) fy)"
  using get_expect_make [OF assms(1,3)] get_expect_make [OF assms(2,3)]
  by (cases "spike_commits_before (hd es) ''probe''") (auto simp: agree_def)

lemmas agree_intros = agree_value agree_error agree_res agree_bind [OF agree_get_elfs] agree_bind [OF agree_get_expect]

lemma agree_run_test:
  assumes "fx_ok T fx" "fx_ok T fy"
  shows "agree T (\<lambda>ok. True) (run_test T repo kind fx exe d name) (run_test T repo kind fy exe d name)"
  using assms unfolding run_test_def Let_def
  by (auto intro!: agree_intros split: prod.splits)

text \<open>The outcome of a test, computed with an empty cache.\<close>

definition passes :: "tools \<Rightarrow> tree \<Rightarrow> string \<Rightarrow> sim \<Rightarrow> tree \<Rightarrow> string \<Rightarrow> bool res" where
  "passes T repo kind exe d name = rbind (run_test T repo kind fixture_init exe d name) (\<lambda>(ok, fx). Inr ok)"

lemma run_test_passes:
  assumes "fx_ok T fx"
  shows "(case passes T repo kind exe d name of
      Inl e \<Rightarrow> run_test T repo kind fx exe d name = Inl e
    | Inr ok \<Rightarrow> (\<exists>fx'. run_test T repo kind fx exe d name = Inr (ok, fx') \<and> fx_ok T fx'))"
  using agree_run_test [OF fx_ok_init assms, of repo kind exe d name] unfolding passes_def
  by (cases "run_test T repo kind fixture_init exe d name"; cases "run_test T repo kind fx exe d name")
    (auto simp: agree_simps)

lemma run_test_Inr:
  assumes "fx_ok T fx" and "run_test T repo kind fx exe d name = Inr (ok, fx')"
  shows "passes T repo kind exe d name = Inr ok \<and> fx_ok T fx'"
  using run_test_passes [OF assms(1), of repo kind exe d name] assms(2)
  by (cases "passes T repo kind exe d name") auto

lemma agree_run_catchers:
  "fx_ok T fx \<Longrightarrow> fx_ok T fy \<Longrightarrow>
    agree T (\<lambda>r. True)
      (rbind (run_catchers T repo name exe d kinds cs ms fx) (\<lambda>(a, b, fx). Inr ((a, b), fx)))
      (rbind (run_catchers T repo name exe d kinds cs ms fy) (\<lambda>(a, b, fx). Inr ((a, b), fx)))"
proof (induction kinds arbitrary: cs ms fx fy)
  case (Cons kind kinds)
  show ?case
    using agree_run_test [OF Cons.prems, of repo kind exe d name] Cons.IH
    by (cases "run_test T repo kind fx exe d name"; cases "run_test T repo kind fy exe d name")
      (auto simp: agree_simps)
qed (simp add: agree_simps)

lemma agree_mutation_job:
  assumes "fx_ok T fx" "fx_ok T fy"
  shows "agree T (\<lambda>r. True) (mutation_job T repo m fx) (mutation_job T repo m fy)"
proof -
  have c: "agree T (\<lambda>r. True)
      (rbind (run_catchers T repo (m_name m) exe d (m_caught m) [] [] fx) (\<lambda>(cs, ms, fx). Inr (judge m cs ms, fx)))
      (rbind (run_catchers T repo (m_name m) exe d (m_caught m) [] [] fy) (\<lambda>(cs, ms, fx). Inr (judge m cs ms, fx)))" for exe d
    using agree_run_catchers [OF assms, of repo "m_name m" exe d "m_caught m" "[]" "[]"]
    by (cases "run_catchers T repo (m_name m) exe d (m_caught m) [] [] fx";
        cases "run_catchers T repo (m_name m) exe d (m_caught m) [] [] fy") (auto simp: agree_simps)
  show ?thesis
    unfolding mutation_job_def
    by (rule agree_res) (auto simp: c assms agree_simps split: option.splits sum.splits)
qed

text \<open>What a single job reports, whatever the cache it starts from.\<close>

definition job_report :: "tools \<Rightarrow> tree \<Rightarrow> mutation \<Rightarrow> job_result res" where
  "job_report T repo m = rbind (mutation_job T repo m fixture_init) (\<lambda>(r, fx). Inr r)"

lemma mutation_job_report:
  assumes "fx_ok T fx"
  shows "rbind (mutation_job T repo m fx) (\<lambda>(r, fx). Inr r) = job_report T repo m"
  using agree_mutation_job [OF assms fx_ok_init, of repo m] unfolding job_report_def
  by (cases "mutation_job T repo m fx"; cases "mutation_job T repo m fixture_init") (auto simp: agree_simps)

lemma mutation_job_keeps:
  "fx_ok T fx \<Longrightarrow> mutation_job T repo m fx = Inr (r, fx') \<Longrightarrow> fx_ok T fx'"
  using agree_mutation_job [of T fx fx repo m] by (simp add: agree_simps)

fun collect_res :: "'a res list \<Rightarrow> 'a list res" where
  "collect_res [] = Inr []"
| "collect_res (r # rs) = rbind r (\<lambda>x. rbind (collect_res rs) (\<lambda>xs. Inr (x # xs)))"

lemma run_jobs_independent:
  "fx_ok T fx \<Longrightarrow> run_jobs T repo ms fx = collect_res (map (job_report T repo) ms)"
proof (induction ms arbitrary: fx)
  case (Cons m ms)
  show ?case
  proof (cases "mutation_job T repo m fx")
    case (Inl e)
    with mutation_job_report [OF Cons.prems, of repo m] show ?thesis by (simp flip: \<open>_ = job_report T repo m\<close>)
  next
    case (Inr p)
    then obtain r fx' where p: "mutation_job T repo m fx = Inr (r, fx')" by (cases p) auto
    then have "fx_ok T fx'" using mutation_job_keeps Cons.prems by blast
    with Cons.IH p mutation_job_report [OF Cons.prems, of repo m, symmetric] show ?thesis by simp
  qed
qed simp

lemma collect_res_Inr:
  "collect_res rs = Inr xs \<longleftrightarrow> map Inr xs = rs"
  by (induction rs arbitrary: xs) (auto simp: rbind_Inr_iff)

lemma run_catchers_Inr:
  "fx_ok T fx \<Longrightarrow> run_catchers T repo name exe d kinds cs ms fx = Inr (cs', ms', fx') \<Longrightarrow>
    (\<forall>k\<in>set kinds. \<exists>ok. passes T repo k exe d name = Inr ok) \<and>
    cs' = cs @ filter (\<lambda>k. passes T repo k exe d name = Inr False) kinds \<and>
    ms' = ms @ filter (\<lambda>k. passes T repo k exe d name = Inr True) kinds"
proof (induction kinds arbitrary: cs ms fx)
  case (Cons k ks)
  from Cons.prems(2) obtain ok fx1 where r: "run_test T repo k fx exe d name = Inr (ok, fx1)"
    and rest: "run_catchers T repo name exe d ks (if ok then cs else cs @ [k]) (if ok then ms @ [k] else ms) fx1 =
      Inr (cs', ms', fx')"
    by (auto simp: rbind_Inr_iff split: if_splits)
  note p = run_test_Inr [OF Cons.prems(1) r]
  from Cons.IH [OF conjunct2 [OF p] rest] p show ?case by (cases ok) auto
qed simp

section \<open>What a successful run means\<close>

definition caught_as_declared :: "tools \<Rightarrow> tree \<Rightarrow> mutation \<Rightarrow> bool" where
  "caught_as_declared T repo m \<longleftrightarrow>
    (\<exists>d exe. mirror_rtl repo (m_edits m) = Inr (d, None) \<and> build T d = Inr exe \<and>
      (\<forall>kind\<in>set (m_caught m). passes T repo kind exe d (m_name m) = Inr False))"

lemma job_report_clean:
  assumes "job_report T repo m = Inr r" and "\<not> j_problem r"
  shows "caught_as_declared T repo m"
proof -
  from assms(1) obtain fx where j: "mutation_job T repo m fixture_init = Inr (r, fx)"
    by (auto simp: job_report_def rbind_Inr_iff)
  then obtain d err where mir: "mirror_rtl repo (m_edits m) = Inr (d, err)"
    by (auto simp: mutation_job_def rbind_Inr_iff)
  with j assms(2) obtain exe where err: "err = None" and b: "build T d = Inr exe"
    by (auto simp: mutation_job_def split: option.splits sum.splits)
  with j mir obtain cs ms fx' where rc: "run_catchers T repo (m_name m) exe d (m_caught m) [] [] fixture_init = Inr (cs, ms, fx')"
    and r: "r = judge m cs ms"
    by (auto simp: mutation_job_def rbind_Inr_iff)
  note c = run_catchers_Inr [OF fx_ok_init rc]
  have "ms = []" if "m_caught m \<noteq> []" using r assms(2) that by (auto simp: judge_def split: if_splits)
  moreover have "m_caught m = [] \<Longrightarrow> ms = []" using c by simp
  ultimately have "\<forall>kind\<in>set (m_caught m). passes T repo kind exe d (m_name m) \<noteq> Inr True"
    using c by (cases "m_caught m = []") (auto simp: filter_empty_conv)
  with c have "\<forall>kind\<in>set (m_caught m). passes T repo kind exe d (m_name m) = Inr False"
    by (metis (full_types))
  with mir err b show ?thesis unfolding caught_as_declared_def by blast
qed

lemma baseline_job_results:
  "fx_ok T fx \<Longrightarrow> baseline_job T repo exe d kinds fx = (r, fx') \<Longrightarrow>
    fx_ok T fx' \<and> (\<forall>(k, ok)\<in>set (t_results r). passes T repo k exe d ''base'' = Inr ok)"
proof (induction kinds arbitrary: fx r fx')
  case (Cons k ks)
  show ?case
  proof (cases "run_test T repo k fx exe d ''base''")
    case (Inl e)
    with Cons.prems show ?thesis by auto
  next
    case (Inr p)
    then obtain ok fx1 where t: "run_test T repo k fx exe d ''base'' = Inr (ok, fx1)" by (cases p) auto
    note p = run_test_Inr [OF Cons.prems(1) t]
    obtain r1 fx2 where b: "baseline_job T repo exe d ks fx1 = (r1, fx2)" by fastforce
    from Cons.IH [OF conjunct2 [OF p] b] p t b Cons.prems(2) show ?thesis by auto
  qed
qed auto

lemma run_baseline_results:
  "fx_ok T fx \<Longrightarrow> \<forall>(k, ok)\<in>set acc. passes T repo k exe d ''base'' = Inr ok \<Longrightarrow>
    run_baseline T repo exe d specs acc n fx = (results, n', fx') \<Longrightarrow>
    fx_ok T fx' \<and> (\<forall>(k, ok)\<in>set results. passes T repo k exe d ''base'' = Inr ok)"
proof (induction specs arbitrary: fx acc n)
  case (Cons s specs)
  obtain r fx1 where b: "baseline_job T repo exe d s fx = (r, fx1)" by fastforce
  note j = baseline_job_results [OF Cons.prems(1) b]
  from j Cons.prems(2) have acc: "\<forall>(k, ok)\<in>set (rev (t_results r) @ acc). passes T repo k exe d ''base'' = Inr ok"
    by auto
  from Cons.IH [OF conjunct1 [OF j] acc] Cons.prems(3) b show ?case by simp
qed auto

lemma get_elfs_keeps: "fx_ok T fx \<Longrightarrow> get_elfs T k fx = Inr (es, fx') \<Longrightarrow> make_elfs T k = Inr es \<and> fx_ok T fx'"
  using get_elfs_make [of T fx k] by (cases "make_elfs T k") auto

lemma get_expect_keeps:
  "fx_ok T fx \<Longrightarrow> make_elfs T (K_csr ''a9_minstret'') = Inr es \<Longrightarrow> get_expect (hd es) fx = Inr (n, fx') \<Longrightarrow> fx_ok T fx'"
  using get_expect_make [of T fx es] by (cases "spike_commits_before (hd es) ''probe''") auto

lemma prebuild_keeps: "fx_ok T fx \<Longrightarrow> prebuild_fixtures T kinds fx = Inr fx' \<Longrightarrow> fx_ok T fx'"
proof (induction kinds arbitrary: fx)
  case (Cons k ks)
  from Cons.prems(2) obtain fx1 where one: "prebuild_fixtures T [k] fx = Inr fx1" and rest: "prebuild_fixtures T ks fx1 = Inr fx'"
    by (auto simp: rbind_Inr_iff Let_def)
  from one Cons.prems(1) have "fx_ok T fx1"
    by (auto simp: rbind_Inr_iff Let_def split: if_splits dest!: get_elfs_keeps [OF Cons.prems(1)] dest: get_expect_keeps)
  with Cons.IH rest show ?case by blast
qed simp

lemma stale_edits_none:
  "stale_edits repo name es = Inr [] \<longleftrightarrow> (\<forall>(path, old, new)\<in>set es. \<exists>s. map_of repo path = Some s \<and> py_count old s = 1)"
  by (induction repo name es rule: stale_edits.induct) (auto simp: rbind_Inr_iff Let_def split: option.splits)

lemma stale_anchors_none:
  "stale_anchors repo ms = Inr [] \<longleftrightarrow>
    (\<forall>m\<in>set ms. \<forall>(path, old, new)\<in>set (m_edits m). \<exists>s. map_of repo path = Some s \<and> py_count old s = 1)"
  by (induction ms) (auto simp: rbind_Inr_iff stale_edits_none)

lemma run_manifest_sound:
  assumes "run_manifest T repo muts d exe = Inr 0"
  shows "(\<forall>m\<in>set muts. \<forall>kind\<in>set (m_caught m). passes T repo kind exe d ''base'' = Inr True) \<and>
    (\<forall>m\<in>set muts. caught_as_declared T repo m)"
proof -
  define wanted where "wanted = sort (remdups (concat (map m_caught muts)))"
  from assms obtain fx where pre: "prebuild_fixtures T wanted fixture_init = Inr fx"
    by (auto simp: run_manifest_def wanted_def rbind_Inr_iff Let_def)
  obtain results errors fx' where run: "run_baseline T repo exe d (specs_of wanted) [] 0 fx = (results, errors, fx')"
    by (metis prod_cases3)
  with assms pre have clean: "baseline_problems wanted results = 0"
    and "rbind (run_jobs T repo muts fx') (\<lambda>rs. Inr (if filter j_problem rs = [] then 0 else 1)) = Inr (0::int)"
    by (auto simp: run_manifest_def wanted_def Let_def split: if_splits)
  then obtain rs where jobs: "run_jobs T repo muts fx' = Inr rs" and ok: "\<forall>r\<in>set rs. \<not> j_problem r"
    by (auto simp: rbind_Inr_iff filter_empty_conv split: if_splits)
  have "fx_ok T fx" by (rule prebuild_keeps [OF fx_ok_init pre])
  from run_baseline_results [OF this _ run]
  have fx': "fx_ok T fx'" and res: "\<forall>(k, ok)\<in>set results. passes T repo k exe d ''base'' = Inr ok"
    by simp_all
  have "passes T repo kind exe d ''base'' = Inr True" if "m \<in> set muts" "kind \<in> set (m_caught m)" for m kind
  proof -
    have "kind \<in> set wanted" using that by (auto simp: wanted_def)
    with clean have "map_of results kind = Some True"
      by (auto simp: baseline_problems_def filter_empty_conv)
    with res show ?thesis by (auto dest: map_of_SomeD)
  qed
  moreover have "caught_as_declared T repo m" if "m \<in> set muts" for m
  proof -
    have "map Inr rs = map (job_report T repo) muts"
      using jobs run_jobs_independent [OF fx'] by (simp add: collect_res_Inr)
    with that obtain r where "r \<in> set rs" "job_report T repo m = Inr r"
      by (metis (no_types, lifting) imageE imageI list.set_map)
    with ok show ?thesis by (intro job_report_clean) auto
  qed
  ultimately show ?thesis by blast
qed

text \<open>C19: a run of the mutation harness that exits with 0 has established all that it is for: every
  anchor of every selected mutation matches its file exactly once, the unmutated RTL builds and
  passes every test the selected mutations name, and every selected mutation applies, builds, and
  fails each of its declared catchers; no verdict comes from a test that could not run.\<close>

theorem mutation_run_sound:
  assumes "mutate_main T repo manifest st on False = Inr 0"
  shows "select manifest st on \<noteq> [] \<and>
    (\<forall>m\<in>set (select manifest st on). \<forall>(path, old, new)\<in>set (m_edits m).
       \<exists>s. map_of repo path = Some s \<and> py_count old s = 1) \<and>
    (\<exists>d exe. mirror_rtl repo [] = Inr (d, None) \<and> build T d = Inr exe \<and>
      (\<forall>m\<in>set (select manifest st on). \<forall>kind\<in>set (m_caught m). passes T repo kind exe d ''base'' = Inr True)) \<and>
    (\<forall>m\<in>set (select manifest st on). caught_as_declared T repo m)"
proof -
  let ?muts = "select manifest st on"
  from assms obtain d where sel: "?muts \<noteq> []" "stale_anchors repo ?muts = Inr []"
      and mir: "mirror_rtl repo [] = Inr (d, None)"
      and b: "(case build T d of Inl e \<Rightarrow> Inr 1 | Inr exe \<Rightarrow> run_manifest T repo ?muts d exe) = Inr 0"
    by (auto simp: mutate_main_def rbind_Inr_iff Let_def split: if_splits)
  from b obtain exe where base: "mirror_rtl repo [] = Inr (d, None)" "build T d = Inr exe"
      and run: "run_manifest T repo ?muts d exe = Inr 0"
    using mir by (cases "build T d") auto
  show ?thesis using run_manifest_sound [OF run] base sel
    by (simp add: stale_anchors_none)
qed


text \<open>A small repository in which the harness succeeds: one mutation of the core, seen by the SoC
  testbench.\<close>

definition demo_tools :: tools where
  "demo_tools = \<lparr>verilator = \<lambda>d. (0, []), simulator = \<lambda>d img args. \<lparr>s_rc = 1, s_out = [], s_trace = None\<rparr>,
     sby = \<lambda>d s. 0, riscv_formal = \<lambda>d c k. (0, []),
     soc_runner = \<lambda>d. if map_of d CORE = Some ''a'' then (0, ''SOC_TB_OK'') else (1, ''SOC_TB_FAIL''),
     bench_runner = \<lambda>d. (0, ''BENCH_TB_OK''), cocotb = \<lambda>d k. 0,
     compile_s = \<lambda>p. Inl (RuntimeError []), compile_test = \<lambda>a b. Inr None,
     assemble_random = \<lambda>c i. Inl (RuntimeError []),
     a4_build = Inr \<lparr>elf_image = Some [], elf_nm = [], elf_spike = \<lambda>l i. (0, [])\<rparr>\<rparr>"

definition demo_repo :: tree where
  "demo_repo = map (\<lambda>p. (p, ''a'')) (RTL @ MIRROR_EXTRA)"

definition demo_mutation :: mutation where
  "demo_mutation = \<lparr>m_step = ''A1'', m_name = ''demo'', m_edits = [(CORE, ''a'', ''b'')], m_caught = [''soc'']\<rparr>"

lemma demo_run: "mutate_main demo_tools demo_repo [demo_mutation] None None False = Inr 0"
  by code_simp

theorem mutation_run_sound_witness: "caught_as_declared demo_tools demo_repo demo_mutation"
  using mutation_run_sound [OF demo_run] by (simp add: select_def)



text \<open>C21: a mutation that is not reported as a no-op changes one place of one file: the anchor occurs
  exactly once in the repository's file, the mirrored file has the replacement in its place and is
  otherwise equal, and every other mirrored file is the repository's.\<close>

theorem mirror_changes_one_place:
  assumes "mirror_rtl repo [(rel, old, new)] = Inr (d, None)" and "old \<noteq> []"
  shows "\<exists>pre post. map_of repo rel = Some (pre @ old @ post) \<and> map_of d rel = Some (pre @ new @ post) \<and>
    py_count old (pre @ old @ post) = 1 \<and>
    (\<forall>p. p \<noteq> rel \<longrightarrow> map_of d p = (if p \<in> set (RTL @ MIRROR_EXTRA) then map_of repo p else None))"
  by (rule mirror_single [OF assms])

lemma demo_mirror: "\<exists>d. mirror_rtl demo_repo [(CORE, ''a'', ''b'')] = Inr (d, None)"
proof -
  have "(case mirror_rtl demo_repo [(CORE, ''a'', ''b'')] of Inl e \<Rightarrow> False | Inr (d, err) \<Rightarrow> err = None)"
    by code_simp
  then show ?thesis by (auto split: sum.splits prod.splits)
qed

theorem mirror_changes_one_place_witness:
  "\<exists>d pre post. map_of demo_repo CORE = Some (pre @ ''a'' @ post) \<and> map_of d CORE = Some (pre @ ''b'' @ post)"
  using demo_mirror mirror_changes_one_place [of demo_repo CORE "''a''" "''b''"] by fastforce

end
