(* ===== verification/Mutate_Check.thy ===== *)
theory Mutate_Check
  imports Mutate
begin

text \<open>
  The mutation manifest as the harness reads it: distinct names, mirrored files, known catchers. The
  facts are evaluated chunk by chunk.
\<close>

section \<open>The manifest itself\<close>

definition known_kind :: "string \<Rightarrow> bool" where
  "known_kind kind = (
    let arg = after_colon kind in
    if startswith kind ''formal:'' then
      ''rtl/core/'' @ arg @ ''.sv'' \<in> set (RTL @ MIRROR_EXTRA) \<or> ''rtl/soc/'' @ arg @ ''.sv'' \<in> set (RTL @ MIRROR_EXTRA)
    else if startswith kind ''rvfi:'' then arg \<noteq> []
    else if startswith kind ''directed:'' then arg \<in> set (map fst DIRECTED_PROGRAMS)
    else if startswith kind ''riscv:'' then
      (case split_pair arg of Inl e \<Rightarrow> False | Inr t \<Rightarrow> t \<in> set (rv_plan ''all'' None))
    else if startswith kind ''csr:'' then arg \<in> set [''a9_csr'', ''a9_minstret'', ''a20_hpm'']
    else if startswith kind ''random:'' then arg \<in> set (map fst RANDOM_SUITES)
    else if startswith kind ''cocotb:'' then arg \<in> set [''sync_reset'', ''alu'', ''immgen'', ''decode'']
    else kind \<in> set [''soc'', ''bench'', ''a4''])"

definition mutation_ok :: "mutation \<Rightarrow> bool" where
  "mutation_ok m \<longleftrightarrow> m_caught m \<noteq> [] \<and> m_edits m \<noteq> [] \<and> distinct (m_caught m) \<and> list_all known_kind (m_caught m) \<and>
    list_all (\<lambda>(f, old, new). f \<in> set (RTL @ MIRROR_EXTRA) \<and> old \<noteq> [] \<and> old \<noteq> new) (m_edits m)"

lemma names_1: "map m_name MUTATIONS_1 = [''mcycle_counts_retires_not_cycles'', ''minstret_counts_twice'',
      ''sb_writes_two_bytes'', ''mmio_store_not_gated_from_ram'', ''mmio_read_mux_never_selects_mmio'',
      ''uart_rx_samples_on_bit_edge'', ''gpio_in_fields_swapped'', ''fwd_priority_swapped'',
      ''fwd_rs2_port_dropped'', ''fwd_x0_suppression_dropped'', ''fwd_store_data_not_forwarded'',
      ''fwd_valid_ignored'', ''regfile_writethrough_dropped'', ''break_sra'',
      ''interlock_wired_to_mem_write'']"
  by (simp only: MUTATIONS_1_def list.map mutation.select_convs)
lemma names_2: "map m_name MUTATIONS_2 = [''interlock_rs2_watches_rs1'', ''interlock_x0_load_stalls'',
      ''interlock_stalls_on_non_source_field'', ''stall_lets_the_pc_advance'',
      ''stall_forgets_the_instruction_hold'', ''stall_injects_no_bubble'', ''flush_spares_if_id'',
      ''flush_spares_id_ex'', ''branch_reads_stale_rs1'', ''branch_reads_stale_rs2'', ''jalr_keeps_bit0'',
      ''jump_does_not_redirect'', ''jal_link_is_the_target'', ''blt_uses_unsigned_compare'',
      ''bge_is_not_the_complement_of_blt'', ''branch_funct3_reserved_takes'']"
  by (simp only: MUTATIONS_2_def list.map mutation.select_convs)
lemma names_3: "map m_name MUTATIONS_3 = [''minstret_counted_at_wb'', ''minstret_write_not_suppressed'',
      ''illegal_instruction_does_not_trap'', ''misaligned_load_does_not_trap'',
      ''faulting_store_still_writes_memory'', ''trap_does_not_squash_the_instruction'',
      ''csrrs_with_x0_writes_anyway'', ''read_only_csr_accepts_a_write'',
      ''seed_is_an_ordinary_readable_csr'', ''a_trapping_seed_access_still_consumes'',
      ''mret_does_not_restore_mie'', ''mtval_not_set_on_a_misaligned_access'',
      ''misaligned_jump_target_does_not_trap'', ''rvfi_order_skips_traps'', ''rvfi_trap_not_reported'']"
  by (simp only: MUTATIONS_3_def list.map mutation.select_convs)
lemma names_4: "map m_name MUTATIONS_4 = [''rvfi_rs1_not_forwarded'', ''rvfi_rd_addr_from_the_decoder'',
      ''rvfi_mem_addr_not_word_aligned'', ''rvfi_shadow_reports_one_cycle_early'',
      ''fwd_precompute_does_not_decay'', ''muldiv_done_one_cycle_late'', ''muldiv_done_one_cycle_early'',
      ''muldiv_reads_the_register_file_not_forwarding'', ''mul_pipeline_deeper_than_its_latency'',
      ''divide_by_zero_quotient_is_zero'']"
  by (simp only: MUTATIONS_4_def list.map mutation.select_convs)
lemma names_5: "map m_name MUTATIONS_5 = [''divide_by_zero_remainder_is_magnitude'',
      ''quotient_loses_bit31'', ''rem_takes_the_divisor_sign'', ''mulhsu_sign_extends_rs2'',
      ''mulh_returns_the_low_half'', ''minstret_counts_stalled_cycles'',
      ''idex_bubbles_instead_of_holding'', ''exmem_latches_every_stalled_cycle'',
      ''rvfi_samples_the_last_ex_cycle'', ''divider_never_restores'', ''divider_quotient_bit_always_set'',
      ''addr_adder_drops_carry_into_bit2'']"
  by (simp only: MUTATIONS_5_def list.map mutation.select_convs)
lemma names_6: "map m_name MUTATIONS_6 = [''addr_adder_reads_the_register_file_not_forwarding'',
      ''store_byte_offset_from_the_alu_low_bits'', ''btb_tag_compared_against_the_wrong_bits'',
      ''bpred_counter_wraps_instead_of_saturating'', ''ras_push_condition_dropped'',
      ''btb_never_replaces_a_live_entry'', ''mispredict_ignores_the_target'',
      ''prediction_outranks_the_redirect'', ''rvfi_pc_wdata_falls_through_a_taken_branch'',
      ''bpred_allocates_only_on_branches'', ''mcountinhibit_does_not_inhibit_mcycle'']"
  by (simp only: MUTATIONS_6_def list.map mutation.select_convs)
lemma names_7: "map m_name MUTATIONS_7 = [''unimplemented_counters_trap_instead_of_reading_zero'',
      ''the_event_selector_is_not_warl'', ''rev8_and_brev8_swapped'', ''ctz_of_zero_returns_31'',
      ''rotate_complement_off_by_one'', ''bitmanip_result_never_reaches_writeback'',
      ''unary_group_ignores_the_rs2_field'', ''czero_tests_only_the_low_five_bits'',
      ''czero_eqz_and_nez_swapped'', ''zicond_reserved_funct3_becomes_legal'']"
  by (simp only: MUTATIONS_7_def list.map mutation.select_convs)

definition apart :: "string list \<Rightarrow> string list \<Rightarrow> bool" where
  "apart xs ys \<longleftrightarrow> list_all (\<lambda>x. x \<notin> set ys) xs"

lemma apart_iff: "apart xs ys \<longleftrightarrow> set xs \<inter> set ys = {}"
  by (auto simp: apart_def list_all_iff)

lemma names_distinct:
  "distinct (map m_name MUTATIONS_1)"
  "distinct (map m_name MUTATIONS_2)"
  "distinct (map m_name MUTATIONS_3)"
  "distinct (map m_name MUTATIONS_4)"
  "distinct (map m_name MUTATIONS_5)"
  "distinct (map m_name MUTATIONS_6)"
  "distinct (map m_name MUTATIONS_7)"
  unfolding names_1 names_2 names_3 names_4 names_5 names_6 names_7 by code_simp+

lemma names_apart_1: "apart (map m_name MUTATIONS_1) (map m_name MUTATIONS_2 @ map m_name MUTATIONS_3 @ map m_name MUTATIONS_4 @ map m_name MUTATIONS_5 @ map m_name MUTATIONS_6 @ map m_name MUTATIONS_7)"
  unfolding names_1 names_2 names_3 names_4 names_5 names_6 names_7 by code_simp

lemma names_apart_2: "apart (map m_name MUTATIONS_2) (map m_name MUTATIONS_3 @ map m_name MUTATIONS_4 @ map m_name MUTATIONS_5 @ map m_name MUTATIONS_6 @ map m_name MUTATIONS_7)"
  unfolding names_2 names_3 names_4 names_5 names_6 names_7 by code_simp

lemma names_apart_3: "apart (map m_name MUTATIONS_3) (map m_name MUTATIONS_4 @ map m_name MUTATIONS_5 @ map m_name MUTATIONS_6 @ map m_name MUTATIONS_7)"
  unfolding names_3 names_4 names_5 names_6 names_7 by code_simp

lemma names_apart_4: "apart (map m_name MUTATIONS_4) (map m_name MUTATIONS_5 @ map m_name MUTATIONS_6 @ map m_name MUTATIONS_7)"
  unfolding names_4 names_5 names_6 names_7 by code_simp

lemma names_apart_5: "apart (map m_name MUTATIONS_5) (map m_name MUTATIONS_6 @ map m_name MUTATIONS_7)"
  unfolding names_5 names_6 names_7 by code_simp

lemma names_apart_6: "apart (map m_name MUTATIONS_6) (map m_name MUTATIONS_7)"
  unfolding names_6 names_7 by code_simp

lemma manifest_names: "distinct (map m_name MUTATIONS)"
  using names_distinct names_apart_1 names_apart_2 names_apart_3 names_apart_4 names_apart_5 names_apart_6
  unfolding MUTATIONS_def map_append distinct_append apart_iff set_append by simp

lemma sources_mirrored:
  "CORE \<in> set RTL \<union> set MIRROR_EXTRA"
  "FWD \<in> set RTL \<union> set MIRROR_EXTRA"
  "HAZ \<in> set RTL \<union> set MIRROR_EXTRA"
  "BR \<in> set RTL \<union> set MIRROR_EXTRA"
  "ALU \<in> set RTL \<union> set MIRROR_EXTRA"
  "CSR \<in> set RTL \<union> set MIRROR_EXTRA"
  "MD \<in> set RTL \<union> set MIRROR_EXTRA"
  "BM \<in> set RTL \<union> set MIRROR_EXTRA"
  "DEC \<in> set RTL \<union> set MIRROR_EXTRA"
  "BP \<in> set RTL \<union> set MIRROR_EXTRA"
  "RF \<in> set RTL \<union> set MIRROR_EXTRA"
  "RVFI \<in> set RTL \<union> set MIRROR_EXTRA"
  "MMIO \<in> set RTL \<union> set MIRROR_EXTRA"
  "SOCTOP \<in> set RTL \<union> set MIRROR_EXTRA"
  "UARTRX \<in> set RTL \<union> set MIRROR_EXTRA"
  by (simp_all add: RTL_def MIRROR_EXTRA_def CORE_def FWD_def HAZ_def BR_def ALU_def CSR_def MD_def BM_def DEC_def BP_def RF_def)

lemma known_formal:
  "known_kind ''formal:rvntt_alu''"
  "known_kind ''formal:rvntt_bitmanip''"
  "known_kind ''formal:rvntt_branch''"
  "known_kind ''formal:rvntt_csr''"
  "known_kind ''formal:rvntt_forward''"
  "known_kind ''formal:rvntt_hazard''"
  "known_kind ''formal:rvntt_muldiv''"
  "known_kind ''formal:rvntt_regfile''"
  by code_simp+

lemma known_riscv:
  "known_kind ''riscv:rv32mi/illegal''"
  "known_kind ''riscv:rv32mi/instret_overflow''"
  "known_kind ''riscv:rv32mi/lw-misaligned''"
  "known_kind ''riscv:rv32mi/ma_addr''"
  "known_kind ''riscv:rv32mi/ma_fetch''"
  "known_kind ''riscv:rv32mi/shamt''"
  "known_kind ''riscv:rv32mi/zicntr''"
  "known_kind ''riscv:rv32um/div''"
  "known_kind ''riscv:rv32um/divu''"
  "known_kind ''riscv:rv32um/mul''"
  "known_kind ''riscv:rv32um/mulh''"
  "known_kind ''riscv:rv32um/mulhsu''"
  "known_kind ''riscv:rv32um/mulhu''"
  "known_kind ''riscv:rv32um/rem''"
  by (simp_all add: known_kind_def after_colon_def startswith_def split_pair_def rv_plan_def RV32UM_def RV32MI_def)

lemma known_other:
  "known_kind ''bench''"
  "known_kind ''cocotb:decode''"
  "known_kind ''csr:a20_hpm''"
  "known_kind ''csr:a9_csr''"
  "known_kind ''csr:a9_minstret''"
  "known_kind ''directed:a14_muldiv''"
  "known_kind ''directed:a19_bpred''"
  "known_kind ''directed:a6_forward''"
  "known_kind ''directed:a7_loaduse''"
  "known_kind ''directed:a8_control''"
  "known_kind ''random:bitmanip''"
  "known_kind ''random:branch''"
  "known_kind ''random:loaduse''"
  "known_kind ''random:muldiv''"
  "known_kind ''random:raw''"
  "known_kind ''rvfi:insn_jalr_ch0''"
  "known_kind ''rvfi:insn_lb_ch0''"
  "known_kind ''rvfi:insn_sw_ch0''"
  "known_kind ''rvfi:pc_fwd_ch0''"
  "known_kind ''rvfi:reg_ch0''"
  "known_kind ''rvfi:unique_ch0''"
  "known_kind ''soc''"
  by (simp_all add: known_kind_def after_colon_def startswith_def DIRECTED_PROGRAMS_def RANDOM_SUITES_def)

lemmas kinds_known = known_formal known_riscv known_other

lemma chunk_ok_1: "list_all mutation_ok MUTATIONS_1"
  using sources_mirrored by (simp add: MUTATIONS_1_def mutation_ok_def kinds_known)

lemma chunk_ok_2: "list_all mutation_ok MUTATIONS_2"
  using sources_mirrored by (simp add: MUTATIONS_2_def mutation_ok_def kinds_known)

lemma chunk_ok_3: "list_all mutation_ok MUTATIONS_3"
  using sources_mirrored by (simp add: MUTATIONS_3_def mutation_ok_def kinds_known)

lemma chunk_ok_4: "list_all mutation_ok MUTATIONS_4"
  using sources_mirrored by (simp add: MUTATIONS_4_def mutation_ok_def kinds_known)

lemma chunk_ok_5: "list_all mutation_ok MUTATIONS_5"
  using sources_mirrored by (simp add: MUTATIONS_5_def mutation_ok_def kinds_known)

lemma chunk_ok_6: "list_all mutation_ok MUTATIONS_6"
  using sources_mirrored by (simp add: MUTATIONS_6_def mutation_ok_def kinds_known)

lemma chunk_ok_7: "list_all mutation_ok MUTATIONS_7"
  using sources_mirrored by (simp add: MUTATIONS_7_def mutation_ok_def kinds_known)

lemmas chunks_ok = chunk_ok_1 chunk_ok_2 chunk_ok_3 chunk_ok_4 chunk_ok_5 chunk_ok_6 chunk_ok_7


end
