(* ===== verification/Bench_Uart.thy ===== *)
theory Bench_Uart
  imports Py_Regex Py_Float
begin

text \<open>
  The checker of a benchmark capture, \<^verbatim>\<open>tb/fpga/parse_bench_uart.py\<close>: splitting the UART
  text into blocks, the validation of a block, the scores with their sanity bounds, the
  reproducibility of the blocks and the exit code. The exception class \<^verbatim>\<open>Fail\<close> of the source
  is the constructor \<open>Fail\<close>; other errors are those the Python operations raise. A captured
  text is a string of 8-bit characters.
\<close>

section \<open>Blocks and key-value lines\<close>

definition BEGIN :: string where "BEGIN = ''=== rvntt bench ===''"
definition END :: string where "END = ''=== end bench ===''"

definition DHRY_BITS :: "string list" where
  "DHRY_BITS = [
    ''snapshot not taken (setStats never called with 0)'',
    ''Int_Glob != 5'', ''Bool_Glob != 1'', ''Ch_1_Glob != '' @ [CHR 0x27] @ ''A'' @ [CHR 0x27], ''Ch_2_Glob != '' @ [CHR 0x27] @ ''B'' @ [CHR 0x27],
    ''Arr_1_Glob[8] != 7'', ''Arr_2_Glob[8][7] != runs + 10'',
    ''Ptr_Glob->Discr != Ident_1'', ''Ptr_Glob->Enum_Comp != Ident_3'',
    ''Ptr_Glob->Int_Comp != 17'', ''Ptr_Glob->Str_Comp wrong'',
    ''Next_Ptr_Glob->Discr != Ident_1'', ''Next_Ptr_Glob->Enum_Comp != Ident_2'',
    ''Next_Ptr_Glob->Int_Comp != 18'', ''Next_Ptr_Glob->Str_Comp wrong'']"

definition PERF_SEEDCRC :: "(nat \<times> string) list" where
  "PERF_SEEDCRC = [(0x8a02, ''6K performance (TOTAL_DATA_SIZE=6000)''),
                   (0xe9f5, ''2K performance (TOTAL_DATA_SIZE=2000)'')]"

text \<open>The loop of \<open>split_blocks\<close>: the finished blocks and the current one.\<close>

fun split_loop :: "string list \<Rightarrow> string list list \<Rightarrow> string list option \<Rightarrow> string list list" where
  "split_loop [] blocks cur = blocks"
| "split_loop (line # ls) blocks cur = (
    if strip line = BEGIN then split_loop ls blocks (Some [])
    else if strip line = END then
      split_loop ls (case cur of None \<Rightarrow> blocks | Some c \<Rightarrow> blocks @ [c]) None
    else split_loop ls blocks (map_option (\<lambda>c. c @ [line]) cur))"

definition split_blocks :: "string \<Rightarrow> string list list" where
  "split_blocks capture = split_loop (split_on CHR 0x0A (filter (\<lambda>c. c \<noteq> CHR 0x0D) capture)) [] None"

definition key_re :: re where
  "key_re = Seq (Cls (\<lambda>c. is_lower c \<or> c = CHR ''_'')) (Many (\<lambda>c. is_lower c \<or> is_digit c \<or> c = CHR ''_''))"

text \<open>\<^verbatim>\<open>line.partition("=")\<close>.\<close>

definition partition_eq :: "string \<Rightarrow> string \<times> string" where
  "partition_eq line = (takeWhile (\<lambda>c. c \<noteq> CHR ''='') line, drop 1 (dropWhile (\<lambda>c. c \<noteq> CHR ''='') line))"

type_synonym dict = "(string \<times> string) list"

text \<open>\<^verbatim>\<open>setdefault\<close> keeps the first value of a key, as \<open>map_of\<close> does on the list in order.\<close>

fun kv :: "string list \<Rightarrow> dict" where
  "kv [] = []"
| "kv (line # ls) = (
    let (k, v) = partition_eq line; k = strip k in
    if CHR ''='' \<in> set line \<and> \<not> startswith line '' '' \<and> re_fullmatch key_re k \<noteq> None
    then (k, strip v) # kv ls else kv ls)"

definition need :: "dict \<Rightarrow> string \<Rightarrow> string res" where
  "need d key = (case map_of d key of None \<Rightarrow> Inl (Fail (''no '' @ key @ '' line'')) | Some v \<Rightarrow> Inr v)"

definition num :: "dict \<Rightarrow> string \<Rightarrow> int res" where
  "num d key = rbind (need d key) (\<lambda>v. case int0 v of
     Inr n \<Rightarrow> Inr n
   | Inl e \<Rightarrow> (case e of ValueError m \<Rightarrow> Inl (Fail (key @ ''='' @ v @ '' is not a number'')) | _ \<Rightarrow> Inl e))"

section \<open>Parsing a block\<close>

text \<open>The options of the command line that the checks read.\<close>

record bench_args =
  a_dhry_runs :: "int option"
  a_iterations :: "int option"
  a_allow_short :: bool
  a_functional_only :: bool
  a_min_blocks :: int
  a_tolerance_ppm :: rat
  a_warmup_blocks :: int

record block =
  b_index :: nat
  b_host :: bool
  b_flags :: string
  b_clk_hz :: int
  b_dhry_runs :: int
  b_dhry_cycles :: int
  b_dhry_stat_cycles :: int
  b_dhry_stat_instret :: int
  b_dhry_check :: int
  b_cm_iterations :: int
  b_cm_cycles :: int
  b_cm_instret :: int
  b_seedcrc :: nat
  b_cm_config :: string
  b_crclist :: nat
  b_crcmatrix :: nat
  b_crcstate :: nat
  b_crcfinal :: nat
  b_hpm :: "(string \<times> int) list"
  b_has_hpm :: bool

definition seedcrc_re :: re where
  "seedcrc_re = seqs [Bol, lit ''seedcrc'', Many is_space, lit '':'', Many is_space, lit ''0x'', Group 1 (Plus is_hex)]"

definition crc_re :: "string \<Rightarrow> re" where
  "crc_re name = seqs [Bol, lit ''['', Plus is_digit, lit '']'', lit name, Many is_space, lit '':'', Many is_space,
     lit ''0x'', Group 1 (Plus is_hex)]"

definition find_crc :: "string \<Rightarrow> string \<Rightarrow> nat res" where
  "find_crc capture name = (case re_search (crc_re name) capture of
     None \<Rightarrow> Inl (Fail (''CoreMark printed no '' @ name))
   | Some m \<Rightarrow> Inr (read_base 16 (group m 1)))"

definition broken_bits :: "int \<Rightarrow> string list" where
  "broken_bits v = map fst (filter (\<lambda>(s, i). bit v i) (zip DHRY_BITS [0..<length DHRY_BITS]))"

definition crc_error :: "string \<Rightarrow> bool" where
  "crc_error l \<longleftrightarrow> is_sub ''ERROR!'' l \<and> is_sub ''crc'' l"

definition hpm_names :: "string list" where
  "hpm_names = [''loaduse'', ''exstall'', ''redirect'', ''mispredict'', ''btbhit'', ''xfertaken'']"

definition hpm_keys :: "string \<Rightarrow> string list" where
  "hpm_keys region = map (\<lambda>n. region @ ''_hpm_'' @ n) hpm_names"

fun nums :: "dict \<Rightarrow> string list \<Rightarrow> (string \<times> int) list res" where
  "nums d [] = Inr []"
| "nums d (k # ks) = rbind (num d k) (\<lambda>n. rbind (nums d ks) (\<lambda>r. Inr ((k, n) # r)))"

definition hpm_region :: "dict \<Rightarrow> string \<Rightarrow> (string \<times> int) list res" where
  "hpm_region d region = (
    let keys = hpm_keys region;
        present = filter (\<lambda>k. map_of d k \<noteq> None) keys
    in if present \<noteq> [] \<and> length present \<noteq> length keys
       then Inl (Fail ''a capture with some of the hpm group is truncated'')
       else nums d present)"

definition parse_block :: "string list \<Rightarrow> nat \<Rightarrow> bench_args \<Rightarrow> block res" where
  "parse_block lines idx args = (
    let d = kv lines; capture = join [CHR 0x0A] lines in
    rbind (need d ''flags'') (\<lambda>flags.
    rbind (raise_if (strip flags = []) (Fail ''empty flags line'')) (\<lambda>u.
    rbind (num d ''clk_hz'') (\<lambda>clk_hz.
    rbind (num d ''dhry_runs'') (\<lambda>dhry_runs.
    rbind (num d ''dhry_cycles'') (\<lambda>dhry_cycles.
    rbind (num d ''dhry_stat_cycles'') (\<lambda>dhry_stat_cycles.
    rbind (num d ''dhry_stat_instret'') (\<lambda>dhry_stat_instret.
    rbind (num d ''dhry_check'') (\<lambda>dhry_check.
    rbind (num d ''cm_iterations'') (\<lambda>cm_iterations.
    rbind (num d ''cm_cycles'') (\<lambda>cm_cycles.
    rbind (num d ''cm_instret'') (\<lambda>cm_instret.
    rbind (raise_if (dhry_check \<noteq> 0)
      (Fail (''Dhrystone final values wrong: '' @
        (if broken_bits dhry_check = [] then ''unknown bit'' else join ''; '' (broken_bits dhry_check))))) (\<lambda>u.
    rbind (raise_if (filter crc_error lines \<noteq> []) (Fail ''CoreMark CRC mismatch'')) (\<lambda>u.
    rbind (case re_search seedcrc_re capture of
             None \<Rightarrow> Inl (Fail ''no CoreMark seedcrc line -- CoreMark did not run'')
           | Some m \<Rightarrow> Inr (read_base 16 (group m 1))) (\<lambda>seedcrc.
    rbind (case map_of PERF_SEEDCRC seedcrc of
             None \<Rightarrow> Inl (Fail ''seedcrc is not a CoreMark performance run'') | Some c \<Rightarrow> Inr c) (\<lambda>cm_config.
    rbind (find_crc capture ''crclist'') (\<lambda>crclist.
    rbind (find_crc capture ''crcmatrix'') (\<lambda>crcmatrix.
    rbind (find_crc capture ''crcstate'') (\<lambda>crcstate.
    rbind (find_crc capture ''crcfinal'') (\<lambda>crcfinal.
    rbind (hpm_region d ''dhry'') (\<lambda>hpm1.
    rbind (hpm_region d ''cm'') (\<lambda>hpm2.
    rbind (raise_if (case a_dhry_runs args of None \<Rightarrow> False | Some r \<Rightarrow> dhry_runs \<noteq> r)
      (Fail ''dhry_runs: the capture is from a different build'')) (\<lambda>u.
    rbind (raise_if (case a_iterations args of None \<Rightarrow> False | Some r \<Rightarrow> cm_iterations \<noteq> r)
      (Fail ''cm_iterations: the capture is from a different build'')) (\<lambda>u.
    Inr \<lparr>b_index = idx, b_host = (map_of d ''host'' \<noteq> None), b_flags = flags, b_clk_hz = clk_hz,
         b_dhry_runs = dhry_runs, b_dhry_cycles = dhry_cycles, b_dhry_stat_cycles = dhry_stat_cycles,
         b_dhry_stat_instret = dhry_stat_instret, b_dhry_check = dhry_check,
         b_cm_iterations = cm_iterations, b_cm_cycles = cm_cycles, b_cm_instret = cm_instret,
         b_seedcrc = seedcrc, b_cm_config = cm_config, b_crclist = crclist, b_crcmatrix = crcmatrix,
         b_crcstate = crcstate, b_crcfinal = crcfinal, b_hpm = hpm1 @ hpm2,
         b_has_hpm = (map_of (hpm1 @ hpm2) ''dhry_hpm_loaduse'' \<noteq> None)\<rparr>))))))))))))))))))))))))"

section \<open>The scores\<close>

definition VAX_DHRY_PER_SEC :: rat where "VAX_DHRY_PER_SEC = 1757"

text \<open>\<^verbatim>\<open>a / b\<close> on integers is the correctly rounded quotient; an integer operand of a float
  operation is rounded first.\<close>

definition idiv :: "int \<Rightarrow> int \<Rightarrow> rat" where "idiv a b = fl (of_int a / of_int b)"

definition fof :: "int \<Rightarrow> rat" where "fof a = fl (of_int a)"

record scores =
  s_skew_cycles :: int
  s_skew_pct :: rat
  s_cycles_per_run :: rat
  s_dhrystones_per_sec :: rat
  s_dmips :: rat
  s_dmips_per_mhz :: rat
  s_dhry_ipc :: rat
  s_dhry_secs :: rat
  s_coremark :: rat
  s_coremark_per_mhz :: rat
  s_cm_ipc :: rat
  s_cm_secs :: rat

definition ipc_ok :: "rat \<Rightarrow> bool" where "ipc_ok x \<longleftrightarrow> 0 < x \<and> x \<le> 1"

definition derive :: "block \<Rightarrow> bench_args \<Rightarrow> scores res" where
  "derive b args = (
    rbind (raise_if (b_clk_hz b \<le> 0) (Fail ''clk_hz'')) (\<lambda>u.
    rbind (raise_if (\<exists>v\<in>set [b_dhry_cycles b, b_dhry_stat_cycles b, b_dhry_stat_instret b, b_cm_cycles b, b_cm_instret b]. v \<le> 0)
      (Fail ''the counter did not advance'')) (\<lambda>u.
    let mhz = fdiv (fof (b_clk_hz b)) 1000000 in
    rbind (raise_if (b_dhry_stat_cycles b < b_dhry_cycles b) (Fail ''setStats window is SHORTER'')) (\<lambda>u.
    let skew_cycles = b_dhry_stat_cycles b - b_dhry_cycles b in
    rbind (raise_if (skew_cycles > 4096) (Fail ''setStats window is wider'')) (\<lambda>u.
    let skew_pct = fdiv (fmul 100 (fof skew_cycles)) (fof (b_dhry_cycles b)) in
    rbind (raise_if (b_dhry_runs b = 0) ZeroDivisionError) (\<lambda>u.
    let dps = idiv (b_dhry_runs b * b_clk_hz b) (b_dhry_cycles b);
        dmips = fdiv dps VAX_DHRY_PER_SEC;
        coremark = idiv (b_cm_iterations b * b_clk_hz b) (b_cm_cycles b);
        sc = \<lparr>s_skew_cycles = skew_cycles, s_skew_pct = skew_pct,
              s_cycles_per_run = idiv (b_dhry_cycles b) (b_dhry_runs b),
              s_dhrystones_per_sec = dps, s_dmips = dmips, s_dmips_per_mhz = fdiv dmips mhz,
              s_dhry_ipc = idiv (b_dhry_stat_instret b) (b_dhry_stat_cycles b),
              s_dhry_secs = idiv (b_dhry_cycles b) (b_clk_hz b),
              s_coremark = coremark, s_coremark_per_mhz = fdiv coremark mhz,
              s_cm_ipc = idiv (b_cm_instret b) (b_cm_cycles b),
              s_cm_secs = idiv (b_cm_cycles b) (b_clk_hz b)\<rparr>
    in
    rbind (raise_if (\<not> ipc_ok (s_dhry_ipc sc)) (Fail ''dhry_ipc'')) (\<lambda>u.
    rbind (raise_if (\<not> ipc_ok (s_cm_ipc sc)) (Fail ''cm_ipc'')) (\<lambda>u.
    rbind (raise_if (\<not> a_allow_short args \<and> s_cm_secs sc < 10) (Fail ''CoreMark ran too short'')) (\<lambda>u.
    Inr sc)))))))))"

section \<open>Reproducibility\<close>

definition arch_values :: "block \<Rightarrow> int list" where
  "arch_values b = [b_dhry_stat_instret b, b_cm_instret b, int (b_crcfinal b), int (b_crclist b),
     int (b_crcmatrix b), int (b_crcstate b), b_dhry_check b, b_dhry_runs b, b_cm_iterations b]"

definition time_values :: "block \<Rightarrow> int list" where
  "time_values b = [b_dhry_cycles b, b_dhry_stat_cycles b, b_cm_cycles b]"

text \<open>\<^verbatim>\<open>xs[k:]\<close>.\<close>

definition py_from :: "int \<Rightarrow> 'a list \<Rightarrow> 'a list" where
  "py_from k xs = (if 0 \<le> k then drop (nat k) xs else drop (nat (int (length xs) + k)) xs)"

definition min_of :: "int list \<Rightarrow> int" where "min_of xs = fold min (tl xs) (hd xs)"
definition max_of :: "int list \<Rightarrow> int" where "max_of xs = fold max (tl xs) (hd xs)"

definition ppm_of :: "int \<Rightarrow> int \<Rightarrow> rat" where
  "ppm_of lo hi = (if lo = 0 then 0 else fdiv (fmul (fof (hi - lo)) 1000000) (fof lo))"

record spread =
  sp_min :: int
  sp_max :: int
  sp_ppm :: rat

text \<open>One timing key over the warm blocks.\<close>

definition spread_of :: "rat \<Rightarrow> int list \<Rightarrow> spread res" where
  "spread_of tol vals = (
    let lo = min_of vals; hi = max_of vals; ppm = ppm_of lo hi in
    if hi \<noteq> lo \<and> ppm > tol then Inl (Fail ''timing varies across warm blocks'')
    else Inr \<lparr>sp_min = lo, sp_max = hi, sp_ppm = ppm\<rparr>)"

fun spreads :: "rat \<Rightarrow> int list list \<Rightarrow> spread list res" where
  "spreads tol [] = Inr []"
| "spreads tol (vals # rest) = rbind (spread_of tol vals) (\<lambda>s. rbind (spreads tol rest) (\<lambda>ss. Inr (s # ss)))"

text \<open>The values of each key over the blocks.\<close>

definition columns :: "('a \<Rightarrow> int list) \<Rightarrow> nat \<Rightarrow> 'a list \<Rightarrow> int list list" where
  "columns f n bs = map (\<lambda>i. map (\<lambda>b. f b ! i) bs) [0..<n]"

definition varies :: "int list \<Rightarrow> bool" where "varies vals \<longleftrightarrow> vals \<noteq> [] \<and> min_of vals \<noteq> max_of vals"

text \<open>The spreads of the three timing keys and the warm-up differences, empty when there is nothing
  to compare.\<close>

definition check_reproducible :: "block list \<Rightarrow> bench_args \<Rightarrow> (spread list \<times> int list option) res" where
  "check_reproducible blocks args = (
    if length blocks < 2 then Inr ([], None)
    else
      rbind (raise_if (\<exists>vals\<in>set (columns arch_values 9 blocks). varies vals)
        (Fail ''ARCHITECTURAL key varies'')) (\<lambda>u.
      let warmup = a_warmup_blocks args;
          cold = (if warmup \<noteq> 0 then Some (hd blocks) else None);
          warm = (if warmup \<noteq> 0 then py_from warmup blocks else blocks) in
      rbind (raise_if (length warm < 2) (Fail ''not enough blocks left after discarding warm-up'')) (\<lambda>u.
      rbind (spreads (a_tolerance_ppm args) (columns time_values 3 warm)) (\<lambda>sp.
      Inr (sp, map_option (\<lambda>c. map2 (-) (time_values c) (time_values (hd warm))) cold)))))"

section \<open>The check of a capture\<close>

fun parse_all :: "string list list \<Rightarrow> nat \<Rightarrow> bench_args \<Rightarrow> (block \<times> scores option) list res" where
  "parse_all [] i args = Inr []"
| "parse_all (lines # rest) i args =
    rbind (parse_block lines i args) (\<lambda>b.
    rbind (raise_if (b_host b \<and> \<not> a_functional_only args) (Fail ''host=1: not a measurement'')) (\<lambda>u.
    rbind (raise_if (\<not> b_host b \<and> a_functional_only args) (Fail ''refusing to discard timing'')) (\<lambda>u.
    rbind (if a_functional_only args then Inr None else rbind (derive b args) (\<lambda>sc. Inr (Some sc))) (\<lambda>sc.
    rbind (parse_all rest (i + 1) args) (\<lambda>bs. Inr ((b, sc) # bs))))))"

definition check :: "string \<Rightarrow> bench_args \<Rightarrow> ((block \<times> scores option) list \<times> spread list \<times> int list option) res" where
  "check capture args = (
    let blocks = split_blocks capture in
    rbind (raise_if (blocks = []) (Fail ''no complete block in the capture'')) (\<lambda>u.
    rbind (raise_if (int (length blocks) < a_min_blocks args) (Fail ''--min-blocks required'')) (\<lambda>u.
    rbind (parse_all blocks 0 args) (\<lambda>parsed.
    rbind (if a_functional_only args then Inr ([], None) else check_reproducible (map fst parsed) args) (\<lambda>sp.
    Inr (parsed, sp))))))"

text \<open>The exit code: only \<^verbatim>\<open>Fail\<close> is reported; any other exception leaves the program.\<close>

definition bench_main :: "string \<Rightarrow> bench_args \<Rightarrow> int res" where
  "bench_main capture args = (case check capture args of
     Inr r \<Rightarrow> Inr 0
   | Inl e \<Rightarrow> (case e of Fail m \<Rightarrow> Inr 1 | _ \<Rightarrow> Inl e))"

section \<open>The self-test\<close>

definition lines_text :: "string list \<Rightarrow> string" where
  "lines_text ls = concat (map (\<lambda>l. l @ [CHR 0x0A]) ls)"

definition GOOD_CM :: "string list" where
  "GOOD_CM = [
    ''2K performance run parameters for coremark.'',
    ''CoreMark Size    : 666'',
    ''Total ticks      : 733000000'',
    ''Total time (secs): 10'',
    ''Iterations/Sec   : 35'',
    ''Iterations       : 350'',
    ''Compiler version : GCC15.2.0'',
    ''Compiler flags   : -march=rv32i_zicsr -mabi=ilp32 -O2'',
    ''Memory location  : BRAM'',
    ''seedcrc          : 0xe9f5'',
    ''[0]crclist       : 0xe714'',
    ''[0]crcmatrix     : 0x1fd7'',
    ''[0]crcstate      : 0x8e3a'',
    ''[0]crcfinal      : 0x33ff'',
    ''Correct operation validated. See README.md for run and reporting rules.'']"

definition good_block :: "nat \<Rightarrow> string" where
  "good_block iter_no = lines_text ([BEGIN,
    ''iter=0x'' @ hex 8 iter_no,
    ''clk_hz=70129870'',
    ''flags=-march=rv32i_zicsr -mabi=ilp32 -O2'',
    ''--- dhrystone ---'',
    ''dhry_runs=50000'',
    ''dhry_cycles=180000000'',
    ''dhry_stat_cycles=180000040'',
    ''dhry_stat_instret=153000000'',
    ''dhry_check=0x00000000'',
    ''--- coremark ---''] @ GOOD_CM @ [
    ''cm_iterations=350'',
    ''cm_cycles=733000000'',
    ''cm_instret=620000000'',
    END])"

definition selftest_args :: bench_args where
  "selftest_args = \<lparr>a_dhry_runs = None, a_iterations = None, a_allow_short = False,
     a_functional_only = False, a_min_blocks = 1, a_tolerance_ppm = 0, a_warmup_blocks = 0\<rparr>"

end
