(* ===== verification/Float_Props.thy ===== *)
theory Float_Props
  imports Py_Float
begin

text \<open>
  Facts on the rounding of \<open>Py_Float\<close>: the binary exponent, the relative error of a rounded value, and
  the values that are exact.
\<close>

lemma bit_length_bounds: "0 < n \<Longrightarrow> 2 ^ (bit_length n - 1) \<le> n \<and> n < 2 ^ bit_length n \<and> 0 < bit_length n"
proof (induction n rule: bit_length.induct)
  case (1 n)
  show ?case
  proof (cases "n div 2 = 0")
    case True
    with "1.prems" have "n = 1" by auto
    then show ?thesis by (simp add: bit_length.simps)
  next
    case False
    with 1 have ih: "2 ^ (bit_length (n div 2) - 1) \<le> n div 2 \<and> n div 2 < 2 ^ bit_length (n div 2) \<and>
        0 < bit_length (n div 2)" by auto
    then obtain j where j: "bit_length (n div 2) = Suc j" by (cases "bit_length (n div 2)") auto
    have "bit_length n = Suc (Suc j)" using "1.prems" j by (subst bit_length.simps) simp
    moreover have "2 * (n div 2) \<le> n" "n < 2 * (n div 2) + 2" by linarith+
    moreover have "2 ^ j \<le> n div 2" "n div 2 < 2 * 2 ^ j" using ih j by auto
    ultimately show ?thesis by (auto simp: intro: less_le_trans)
  qed
qed

lemma pow2_Suc: "pow2 (k + 1) = 2 * pow2 k"
proof (cases "0 \<le> k")
  case True
  then show ?thesis by (simp add: pow2_def nat_add_distrib)
next
  case False
  then have "nat (- k) = Suc (nat (- (k + 1)))" by simp
  with False show ?thesis by (auto simp: pow2_def)
qed

lemma pow2_sub: "pow2 (a - int n) = pow2 a / 2 ^ n"
proof (induction n)
  case (Suc n)
  have "pow2 (a - int n) = 2 * pow2 (a - int (Suc n))" using pow2_Suc [of "a - int (Suc n)"] by (simp add: algebra_simps)
  with Suc show ?case by simp
qed simp

lemma pow2_nat: "pow2 (int n) = 2 ^ n"
  by (simp add: pow2_def)

lemma ilog2_le: "0 < x \<Longrightarrow> pow2 (ilog2 x) \<le> x"
proof -
  assume x: "0 < x"
  obtain n d where q: "quotient_of x = (n, d)" by fastforce
  have d: "0 < d" using quotient_of_denom_pos [OF q] .
  have xq: "x = of_int n / of_int d" using quotient_of_div [OF q] .
  have n: "0 < n" using x d xq by (simp add: zero_less_divide_iff)
  let ?a = "bit_length (nat n)" let ?b = "bit_length (nat d)"
  have "2 ^ (?a - 1) \<le> nat n" "nat d < 2 ^ ?b" "0 < ?a"
    using bit_length_bounds [of "nat n"] bit_length_bounds [of "nat d"] n d by auto
  then have na: "(2::rat) ^ (?a - 1) \<le> of_int n" and db: "of_int d \<le> (2::rat) ^ ?b"
    using n d by (metis (mono_tags) nat_le_iff of_int_le_iff of_int_numeral of_int_power of_nat_numeral of_nat_power le_nat_iff less_imp_le)
      (metis (mono_tags) \<open>nat d < 2 ^ ?b\<close> d less_imp_le nat_le_iff of_int_le_iff of_int_numeral of_int_power of_nat_numeral of_nat_power)
  have "pow2 (int ?a - int ?b - 1) = 2 ^ (?a - 1) / 2 ^ ?b"
  proof -
    have "int ?a - int ?b - 1 = int (?a - 1) - int ?b" using \<open>0 < ?a\<close> by simp
    then show ?thesis by (simp only: pow2_sub pow2_nat)
  qed
  also have "\<dots> \<le> of_int n / of_int d" using na db d n by (intro frac_le) auto
  also have "\<dots> = x" using xq by simp
  finally have "pow2 (int ?a - int ?b - 1) \<le> x" .
  moreover have "ilog2 x = (if pow2 (int ?a - int ?b) \<le> x then int ?a - int ?b else int ?a - int ?b - 1)"
    by (simp add: ilog2_def q)
  ultimately show ?thesis by simp
qed

lemma fl_bounds:
  assumes "pow2 (- 1074) \<le> x"
  shows "x / 2 \<le> fl x" "fl x \<le> 2 * x"
proof -
  have x: "0 < x" using assms pow2_pos [of "-1074"] by linarith
  define u where "u = pow2 (max (ilog2 \<bar>x\<bar> - 52) (- 1074))"
  have "pow2 (ilog2 x - 52) * 2 ^ 52 = pow2 (ilog2 x)" using pow2_sub [of "ilog2 x" 52] by simp
  then have "pow2 (ilog2 x - 52) \<le> pow2 (ilog2 x)"
    by (metis mult.right_neutral mult_left_mono one_le_numeral one_le_power pow2_nonneg)
  then have u: "0 < u" "u \<le> x"
    using ilog2_le [OF x] x assms by (auto simp: u_def max_def)
  have f: "fl x = of_int (round_even (x / u)) * u" using x by (simp add: fl_def u_def Let_def)
  have "x / u - 1 / 2 \<le> of_int (round_even (x / u))" "of_int (round_even (x / u)) \<le> x / u + 1 / 2"
    by (rule round_even_bounds)+
  then have "(x / u - 1 / 2) * u \<le> fl x" "fl x \<le> (x / u + 1 / 2) * u"
    unfolding f using u by (auto intro: mult_right_mono)
  then have "x - u / 2 \<le> fl x" "fl x \<le> x + u / 2" using u by (simp_all add: algebra_simps)
  then show "x / 2 \<le> fl x" "fl x \<le> 2 * x" using u by linarith+
qed

lemma pow2_mono_1: "(n :: nat) \<le> m \<Longrightarrow> pow2 (- int m) \<le> pow2 (- int n)"
proof -
  assume "n \<le> m"
  then have "(2 :: rat) ^ n \<le> 2 ^ m" by (simp add: power_increasing)
  then show ?thesis using pow2_sub [of 0 n] pow2_sub [of 0 m] by (simp add: pow2_def frac_le)
qed

lemma pow2_add: "pow2 (a + int n) = pow2 a * 2 ^ n"
  using pow2_sub [of "a + int n" n] by simp

text \<open>A multiple of a power of two whose numerator fits 53 bits is a double.\<close>

lemma fl_exact:
  assumes x: "x = of_int n * pow2 e" and n: "\<bar>n\<bar> < 2 ^ 53" and e: "- 1074 \<le> e"
  shows "fl x = x"
proof (cases "x = 0")
  case False
  define k where "k = max (ilog2 \<bar>x\<bar> - 52) (- 1074)"
  have ax: "\<bar>x\<bar> = of_int \<bar>n\<bar> * pow2 e" using x by (simp add: abs_mult)
  have "k \<le> e"
  proof (rule ccontr)
    assume "\<not> k \<le> e"
    then have "e + 53 \<le> ilog2 \<bar>x\<bar>" using e by (simp add: k_def)
    then obtain j where j: "ilog2 \<bar>x\<bar> = e + int (53 + j)" by (metis zle_iff_zadd add.assoc of_nat_add of_nat_numeral)
    have "pow2 (ilog2 \<bar>x\<bar>) \<le> \<bar>x\<bar>" using False by (intro ilog2_le) simp
    then have "pow2 (e + int (53 + j)) \<le> \<bar>x\<bar>" by (simp only: j)
    then have "2 ^ (53 + j) * pow2 e \<le> of_int \<bar>n\<bar> * pow2 e" by (simp only: pow2_add ax mult.commute)
    then have "(2 :: rat) ^ (53 + j) \<le> of_int \<bar>n\<bar>" by (rule mult_right_le_imp_le) (rule pow2_pos)
    moreover have "of_int \<bar>n\<bar> < (2 :: rat) ^ 53" using n by (metis of_int_less_iff of_int_numeral of_int_power)
    moreover have "(2 :: rat) ^ 53 \<le> 2 ^ (53 + j)" by (rule power_increasing) simp_all
    ultimately show False by linarith
  qed
  then obtain i where i: "e = k + int i" by (metis zle_iff_zadd)
  have "x / pow2 k = of_int (n * 2 ^ i)"
    unfolding x i pow2_add by (simp add: less_imp_neq [OF pow2_pos, symmetric])
  then have "round_even (x / pow2 k) = n * 2 ^ i" by (simp only: round_even_of_int)
  then have "fl x = of_int (n * 2 ^ i) * pow2 k" using False by (simp add: fl_def k_def Let_def)
  then show ?thesis by (simp add: x i pow2_add)
qed simp

end
