(* ===== verification/Bench_Props.thy ===== *)
theory Bench_Props
  imports Bench_Uart Float_Props
begin

text \<open>
  What an accepted benchmark capture is known to satisfy, the exactness of the reproducibility
  check at tolerance zero, and the framing of the blocks.
\<close>

section \<open>Framing\<close>

definition framed :: "string list \<Rightarrow> string list" where
  "framed b = [BEGIN] @ b @ [END]"

definition plain_line :: "string \<Rightarrow> bool" where
  "plain_line l \<longleftrightarrow> strip l \<noteq> BEGIN \<and> strip l \<noteq> END"

lemma markers [simp]: "strip BEGIN = BEGIN" "strip END = END" "END \<noteq> BEGIN" "BEGIN \<noteq> END"
  by code_simp+

lemma split_plain_none: "list_all plain_line ls \<Longrightarrow> split_loop (ls @ rest) blocks None = split_loop rest blocks None"
  by (induction ls) (auto simp: plain_line_def)

lemma split_plain_some:
  "list_all plain_line ls \<Longrightarrow> split_loop (ls @ rest) blocks (Some c) = split_loop rest blocks (Some (c @ ls))"
  by (induction ls arbitrary: c) (auto simp: plain_line_def)

lemma split_framed:
  "list_all plain_line b \<Longrightarrow> split_loop (framed b @ rest) blocks cur = split_loop rest (blocks @ [b]) None"
  by (simp add: framed_def split_plain_some)

lemma split_frames:
  "list_all (list_all plain_line) bs \<Longrightarrow>
    split_loop (concat (map framed bs) @ rest) blocks None = split_loop rest (blocks @ bs) None"
  by (induction bs arbitrary: blocks) (simp_all add: split_framed)

lemma split_framing:
  assumes "list_all plain_line pre" "list_all (list_all plain_line) bs" "list_all plain_line post"
  shows "split_loop (pre @ concat (map framed bs) @ BEGIN # post) [] None = bs"
  using assms split_plain_some [of post "[]"]
  by (simp add: split_plain_none split_frames)

definition clean_line :: "string \<Rightarrow> bool" where
  "clean_line l \<longleftrightarrow> CHR 0x0A \<notin> set l \<and> CHR 0x0D \<notin> set l"

lemma split_blocks_lines:
  assumes "ls \<noteq> []" and "list_all clean_line ls"
  shows "split_blocks (join [CHR 0x0A] ls) = split_loop ls [] None"
proof -
  have no_cr: "list_all clean_line ls \<Longrightarrow> CHR 0x0D \<notin> set (join [CHR 0x0A] ls)"
    by (induction "[CHR 0x0A]" ls rule: join.induct) (auto simp: clean_line_def)
  have "filter (\<lambda>c. c \<noteq> CHR 0x0D) (join [CHR 0x0A] ls) = join [CHR 0x0A] ls"
    using no_cr [OF assms(2)] by (intro filter_True) auto
  moreover have "split_on CHR 0x0A (join [CHR 0x0A] ls) = ls"
    using assms by (intro split_on_join) (auto simp: list_all_iff clean_line_def)
  ultimately show ?thesis by (simp add: split_blocks_def)
qed

section \<open>Rounding\<close>

text \<open>The relative spread of different counts is positive in floating point, as long as the counters
  fit their 64 bits.\<close>

lemma ppm_pos:
  assumes "0 < lo" "lo < hi" "hi \<le> 2 ^ 64"
  shows "0 < ppm_of lo hi"
proof -
  have tiny: "pow2 (- 1074) \<le> x" if "1 / 2 ^ 100 \<le> x" for x :: rat
    using pow2_mono_1 [of 100 1074] pow2_sub [of 0 100] that by (simp add: pow2_def)
  have d: "1 / 2 \<le> fof (hi - lo)"
    using fl_bounds(1) [OF tiny, of "of_int (hi - lo)"] assms by (simp add: fof_def)
  then have m: "1 / 2 ^ 10 \<le> fmul (fof (hi - lo)) 1000000"
    using fl_bounds(1) [OF tiny, of "fof (hi - lo) * 1000000"] by (simp add: fmul_def)
  have l: "0 < fof lo" "fof lo \<le> 2 ^ 65"
  proof -
    have "of_int lo / 2 \<le> fof lo" "fof lo \<le> 2 * of_int lo"
      using fl_bounds [OF tiny, of "of_int lo"] assms by (simp_all add: fof_def)
    moreover have "of_int lo \<le> (2 ^ 64 :: rat)" using assms by (metis less_imp_le of_int_le_iff of_int_numeral of_int_power order_trans)
    ultimately show "0 < fof lo" "fof lo \<le> 2 ^ 65" using assms by simp_all
  qed
  define q where "q = fmul (fof (hi - lo)) 1000000 / fof lo"
  have "1 / 2 ^ 10 / 2 ^ 65 \<le> q"
    unfolding q_def using m l by (intro frac_le) auto
  then have q: "1 / 2 ^ 100 \<le> q" by (rule order_trans [rotated]) simp
  moreover have "0 < q" by (rule less_le_trans [OF _ q]) simp
  ultimately have "0 < fl q" using fl_bounds(1) [OF tiny [OF q]] by linarith
  then have "0 < fdiv (fmul (fof (hi - lo)) 1000000) (fof lo)" by (simp add: fdiv_def q_def)
  then show ?thesis using assms by (simp add: ppm_of_def)
qed

section \<open>Extremes\<close>

lemma fold_min_le: "fold min xs (a::int) \<le> a \<and> (\<forall>x\<in>set xs. fold min xs a \<le> x)"
  by (induction xs arbitrary: a) (auto intro: order_trans, (meson min.cobounded1 min.cobounded2 order_trans)+)

lemma fold_max_ge: "a \<le> fold max xs (a::int) \<and> (\<forall>x\<in>set xs. x \<le> fold max xs a)"
  by (induction xs arbitrary: a) (auto intro: order_trans, (meson max.cobounded1 max.cobounded2 order_trans)+)

lemma fold_min_mem: "fold min xs (a::int) \<in> insert a (set xs)"
proof (induction xs arbitrary: a)
  case (Cons x xs)
  show ?case using Cons.IH [of "min x a"] by (auto simp: min_def split: if_splits)
qed simp

lemma fold_max_mem: "fold max xs (a::int) \<in> insert a (set xs)"
proof (induction xs arbitrary: a)
  case (Cons x xs)
  show ?case using Cons.IH [of "max x a"] by (auto simp: max_def split: if_splits)
qed simp

lemma min_max_of:
  assumes "xs \<noteq> []"
  shows "min_of xs \<in> set xs" "max_of xs \<in> set xs" "x \<in> set xs \<Longrightarrow> min_of xs \<le> x \<and> x \<le> max_of xs"
  using assms fold_min_le [of "tl xs" "hd xs"] fold_max_ge [of "hd xs" "tl xs"]
    fold_min_mem [of "tl xs" "hd xs"] fold_max_mem [of "tl xs" "hd xs"]
  by (cases xs; auto simp: min_of_def max_of_def)+

lemma all_equal: "xs \<noteq> [] \<Longrightarrow> min_of xs = max_of xs \<Longrightarrow> x \<in> set xs \<Longrightarrow> y \<in> set xs \<Longrightarrow> x = y"
  using min_max_of(3) [of xs x] min_max_of(3) [of xs y] by simp

section \<open>What acceptance implies\<close>

definition block_facts :: "block \<Rightarrow> bool" where
  "block_facts b \<longleftrightarrow> b_dhry_check b = 0 \<and> map_of PERF_SEEDCRC (b_seedcrc b) = Some (b_cm_config b) \<and> strip (b_flags b) \<noteq> []"

lemma parse_block_facts: "parse_block ls i args = Inr b \<Longrightarrow> block_facts b"
  unfolding parse_block_def Let_def rbind_Inr_iff raise_if_Inr
  apply (elim exE conjE)
  apply (drule sym [where t = "Inr b"])
  apply (simp add: block_facts_def split: option.splits)
  done

definition scores_facts :: "bench_args \<Rightarrow> block \<Rightarrow> scores \<Rightarrow> bool" where
  "scores_facts args b sc \<longleftrightarrow>
    0 < b_clk_hz b \<and> 0 < b_dhry_cycles b \<and> 0 < b_cm_cycles b \<and> 0 < b_dhry_stat_instret b \<and> 0 < b_cm_instret b \<and>
    b_dhry_cycles b \<le> b_dhry_stat_cycles b \<and> b_dhry_stat_cycles b \<le> b_dhry_cycles b + 4096 \<and>
    b_dhry_runs b \<noteq> 0 \<and>
    s_dhry_ipc sc = idiv (b_dhry_stat_instret b) (b_dhry_stat_cycles b) \<and> s_dhry_ipc sc \<le> 1 \<and>
    s_cm_ipc sc = idiv (b_cm_instret b) (b_cm_cycles b) \<and> s_cm_ipc sc \<le> 1 \<and>
    s_coremark sc = idiv (b_cm_iterations b * b_clk_hz b) (b_cm_cycles b) \<and>
    s_dmips sc = fdiv (idiv (b_dhry_runs b * b_clk_hz b) (b_dhry_cycles b)) 1757 \<and>
    (a_allow_short args \<or> 10 \<le> s_cm_secs sc)"

lemma derive_facts: "derive b args = Inr sc \<Longrightarrow> scores_facts args b sc"
  by (auto simp: derive_def Let_def rbind_Inr_iff scores_facts_def ipc_ok_def VAX_DHRY_PER_SEC_def not_le not_less)

lemma parse_all_facts:
  "parse_all bs i args = Inr parsed \<Longrightarrow> \<not> a_functional_only args \<Longrightarrow> (b, sc) \<in> set parsed \<Longrightarrow>
    block_facts b \<and> \<not> b_host b \<and> (\<exists>s. sc = Some s \<and> scores_facts args b s)"
proof (induction bs arbitrary: i parsed)
  case (Cons ls bs)
  from Cons.prems obtain b' s' rest where p: "parse_block ls i args = Inr b'" "\<not> b_host b'" "derive b' args = Inr s'"
      and r: "parse_all bs (i + 1) args = Inr rest" and e: "parsed = (b', Some s') # rest"
    by (auto simp: rbind_Inr_iff)
  show ?case
  proof (cases "(b, sc) = (b', Some s')")
    case True
    with p show ?thesis using parse_block_facts [OF p(1)] derive_facts [OF p(3)] by simp
  next
    case False
    with e Cons.prems(3) have "(b, sc) \<in> set rest" by auto
    then show ?thesis using Cons.IH [OF r Cons.prems(2)] by simp
  qed
qed simp

lemma parse_all_length: "parse_all bs i args = Inr parsed \<Longrightarrow> length parsed = length bs"
  by (induction bs arbitrary: i parsed) (auto simp: rbind_Inr_iff)

lemma columns_mem: "i < n \<Longrightarrow> map (\<lambda>b. f b ! i) bs \<in> set (columns f n bs)"
  by (auto simp: columns_def)

lemma columns_equal:
  assumes "\<forall>vals\<in>set (columns f n bs). \<not> varies vals" and "\<And>b. length (f b) = n"
    and "b \<in> set bs" "b' \<in> set bs"
  shows "f b = f b'"
proof (rule nth_equalityI)
  show "length (f b) = length (f b')" by (simp add: assms(2))
  fix i assume "i < length (f b)"
  then have i: "i < n" by (simp add: assms(2))
  let ?v = "map (\<lambda>b. f b ! i) bs"
  have "?v \<noteq> []" using assms(3) by auto
  moreover have "\<not> varies ?v" using assms(1) columns_mem [OF i] by blast
  ultimately have "min_of ?v = max_of ?v" "?v \<noteq> []" by (auto simp: varies_def)
  then show "f b ! i = f b' ! i" using all_equal [of ?v "f b ! i" "f b' ! i"] assms(3,4) by auto
qed

lemma reproducible_arch:
  assumes "check_reproducible bs args = Inr r" and "b \<in> set bs" "b' \<in> set bs"
  shows "arch_values b = arch_values b'"
proof (cases "length bs < 2")
  case True
  with assms(2,3) have "b = b'" by (cases bs) auto
  then show ?thesis by simp
next
  case False
  with assms(1) have "\<forall>vals\<in>set (columns arch_values 9 bs). \<not> varies vals"
    by (auto simp: check_reproducible_def Let_def rbind_Inr_iff)
  then show ?thesis by (rule columns_equal [OF _ _ assms(2,3)]) (simp add: arch_values_def)
qed

lemma spreads_within:
  "spreads tol cols = Inr sp \<Longrightarrow> vals \<in> set cols \<Longrightarrow> max_of vals = min_of vals \<or> ppm_of (min_of vals) (max_of vals) \<le> tol"
  by (induction cols arbitrary: sp) (auto simp: rbind_Inr_iff spread_of_def Let_def split: if_splits)

definition warm_blocks :: "bench_args \<Rightarrow> 'a list \<Rightarrow> 'a list" where
  "warm_blocks args bs = (if a_warmup_blocks args \<noteq> 0 then py_from (a_warmup_blocks args) bs else bs)"

lemma set_warm_blocks: "set (warm_blocks args bs) \<subseteq> set bs"
  by (auto simp: warm_blocks_def py_from_def dest: in_set_dropD)

lemma reproducible_time:
  assumes "check_reproducible bs args = Inr r" and "a_tolerance_ppm args = 0"
    and "\<forall>b\<in>set bs. \<forall>t\<in>set (time_values b). 0 < t \<and> t \<le> 2 ^ 64"
    and "b \<in> set (warm_blocks args bs)" "b' \<in> set (warm_blocks args bs)"
  shows "time_values b = time_values b'"
proof (cases "length bs < 2")
  case True
  with assms(4,5) set_warm_blocks [of args bs] have "b = b'" by (cases bs) auto
  then show ?thesis by simp
next
  case False
  let ?w = "warm_blocks args bs"
  from False assms(1,2) obtain sp where sp: "spreads 0 (columns time_values 3 ?w) = Inr sp"
    by (auto simp: check_reproducible_def Let_def rbind_Inr_iff warm_blocks_def split: if_splits)
  have "\<not> varies vals" if "vals \<in> set (columns time_values 3 ?w)" for vals
  proof
    assume v: "varies vals"
    then have ne: "vals \<noteq> []" and d: "min_of vals \<noteq> max_of vals" by (auto simp: varies_def)
    have range: "0 < t \<and> t \<le> 2 ^ 64" if "t \<in> set vals" for t
    proof -
      from \<open>vals \<in> _\<close> that obtain i c where "i < 3" "c \<in> set ?w" "t = time_values c ! i"
        by (auto simp: columns_def)
      moreover have "length (time_values c) = 3" by (simp add: time_values_def)
      ultimately have "t \<in> set (time_values c)" "c \<in> set bs"
        using set_warm_blocks [of args bs] by auto
      with assms(3) show ?thesis by blast
    qed
    have "min_of vals < max_of vals" using min_max_of(3) [OF ne min_max_of(1) [OF ne]] d by simp
    then have "0 < ppm_of (min_of vals) (max_of vals)"
      using range [OF min_max_of(1) [OF ne]] range [OF min_max_of(2) [OF ne]] by (intro ppm_pos) auto
    with spreads_within [OF sp that] d show False by simp
  qed
  then show ?thesis
    by (intro columns_equal [OF _ _ assms(4,5), of time_values 3]) (auto simp: time_values_def)
qed

lemma check_Inr:
  assumes "check capture args = Inr (parsed, sp)" "\<not> a_functional_only args"
  shows "parsed \<noteq> []" "a_min_blocks args \<le> int (length parsed)" "length parsed = length (split_blocks capture)"
    "check_reproducible (map fst parsed) args = Inr sp"
    "(b, sc) \<in> set parsed \<Longrightarrow> block_facts b \<and> \<not> b_host b \<and> (\<exists>s. sc = Some s \<and> scores_facts args b s)"
proof -
  from assms have p: "parse_all (split_blocks capture) 0 args = Inr parsed"
    and r: "check_reproducible (map fst parsed) args = Inr sp"
    and ne: "split_blocks capture \<noteq> []" and n: "a_min_blocks args \<le> int (length (split_blocks capture))"
    by (auto simp: check_def Let_def rbind_Inr_iff not_less)
  note len = parse_all_length [OF p]
  show "parsed \<noteq> []" using ne len by auto
  show "a_min_blocks args \<le> int (length parsed)" "length parsed = length (split_blocks capture)"
    using n len by simp_all
  show "check_reproducible (map fst parsed) args = Inr sp" by (rule r)
  show "(b, sc) \<in> set parsed \<Longrightarrow> block_facts b \<and> \<not> b_host b \<and> (\<exists>s. sc = Some s \<and> scores_facts args b s)"
    by (rule parse_all_facts [OF p assms(2)])
qed

section \<open>A small capture\<close>

definition demo_lines :: "string list" where
  "demo_lines = [''flags=-O2'', ''clk_hz=1'', ''dhry_runs=5'', ''dhry_cycles=18'', ''dhry_stat_cycles=20'',
     ''dhry_stat_instret=15'', ''dhry_check=0'', ''[0]crclist:0x1'', ''[0]crcmatrix:0x1'',
     ''[0]crcstate:0x1'', ''[0]crcfinal:0x1'', ''cm_iterations=0'', ''cm_cycles=733'', ''cm_instret=620'',
     ''seedcrc:0xe9f5'']"

definition demo_capture :: string where
  "demo_capture = join [CHR 0x0A] (framed demo_lines @ framed demo_lines)"

definition demo_dict :: dict where
  "demo_dict = [(''flags'', ''-O2''), (''clk_hz'', ''1''), (''dhry_runs'', ''5''), (''dhry_cycles'', ''18''),
     (''dhry_stat_cycles'', ''20''), (''dhry_stat_instret'', ''15''), (''dhry_check'', ''0''),
     (''cm_iterations'', ''0''), (''cm_cycles'', ''733''), (''cm_instret'', ''620'')]"

lemma demo_kv: "kv demo_lines = demo_dict"
  by code_simp

lemma demo_nums:
  "need demo_dict ''flags'' = Inr ''-O2''" "num demo_dict ''clk_hz'' = Inr 1" "num demo_dict ''dhry_runs'' = Inr 5"
  "num demo_dict ''dhry_cycles'' = Inr 18" "num demo_dict ''dhry_stat_cycles'' = Inr 20"
  "num demo_dict ''dhry_stat_instret'' = Inr 15" "num demo_dict ''dhry_check'' = Inr 0"
  "num demo_dict ''cm_iterations'' = Inr 0" "num demo_dict ''cm_cycles'' = Inr 733"
  "num demo_dict ''cm_instret'' = Inr 620"
  "hpm_region demo_dict ''dhry'' = Inr []" "hpm_region demo_dict ''cm'' = Inr []"
  "map_of demo_dict ''host'' = None" "strip ''-O2'' \<noteq> []" "filter crc_error demo_lines = []"
  by code_simp+

lemma demo_crclist: "find_crc (join [CHR 0x0A] demo_lines) ''crclist'' = Inr 1"
  by code_simp

lemma demo_crcmatrix: "find_crc (join [CHR 0x0A] demo_lines) ''crcmatrix'' = Inr 1"
  by code_simp

lemma demo_crcstate: "find_crc (join [CHR 0x0A] demo_lines) ''crcstate'' = Inr 1"
  by code_simp

lemma demo_crcfinal: "find_crc (join [CHR 0x0A] demo_lines) ''crcfinal'' = Inr 1"
  by code_simp

lemma bol_inside: "p \<noteq> None \<Longrightarrow> p \<noteq> Some CHR 0x0A \<Longrightarrow> match_at (Seq Bol R) p s = None"
  by (auto simp: match_at_def)

lemma search_inside:
  "p \<noteq> None \<Longrightarrow> p \<noteq> Some CHR 0x0A \<Longrightarrow> CHR 0x0A \<notin> set l \<Longrightarrow>
    search_from (Seq Bol R) p (l @ CHR 0x0A # s) = search_from (Seq Bol R) (Some CHR 0x0A) s"
proof (induction l arbitrary: p)
  case Nil
  then show ?case by (simp add: bol_inside)
next
  case (Cons a l)
  then have "search_from (Seq Bol R) (Some a) (l @ CHR 0x0A # s) = search_from (Seq Bol R) (Some CHR 0x0A) s"
    by (intro Cons.IH) auto
  with Cons.prems(1,2) show ?case by (simp add: bol_inside)
qed

lemma search_skip_line:
  assumes "CHR 0x0A \<notin> set l" "l \<noteq> []" "match_at (Seq Bol R) p (l @ CHR 0x0A # s) = None"
  shows "search_from (Seq Bol R) p (l @ CHR 0x0A # s) = search_from (Seq Bol R) (Some CHR 0x0A) s"
proof (cases l)
  case (Cons a k)
  with assms(1) have "search_from (Seq Bol R) (Some a) (k @ CHR 0x0A # s) = search_from (Seq Bol R) (Some CHR 0x0A) s"
    by (intro search_inside) auto
  with Cons assms(3) show ?thesis by simp
qed (use assms(2) in simp)

lemma search_lines:
  assumes "list_all (\<lambda>l. CHR 0x0A \<notin> set l \<and> l \<noteq> [] \<and> hd l \<noteq> c) ls"
  shows "search_from (Seq Bol (Seq (Seq (ch c) A) B)) (if ls = [] then Some CHR 0x0A else p)
      (concat (map (\<lambda>l. l @ [CHR 0x0A]) ls) @ s) =
    search_from (Seq Bol (Seq (Seq (ch c) A) B)) (Some CHR 0x0A) s"
  using assms
proof (induction ls arbitrary: p)
  case (Cons l ls)
  have "match_at (Seq Bol (Seq (Seq (ch c) A) B)) p (l @ t) = None" for t
    using Cons.prems by (cases l) (auto simp: match_at_def ch_def)
  then have "search_from (Seq Bol (Seq (Seq (ch c) A) B)) p
      (l @ CHR 0x0A # (concat (map (\<lambda>l. l @ [CHR 0x0A]) ls) @ s)) =
    search_from (Seq Bol (Seq (Seq (ch c) A) B)) (Some CHR 0x0A) (concat (map (\<lambda>l. l @ [CHR 0x0A]) ls) @ s)"
    using Cons.prems by (intro search_skip_line) auto
  with Cons.IH [of "Some CHR 0x0A"] Cons.prems show ?case by (simp split: if_splits)
qed simp

lemma demo_seed_match:
  "search_from seedcrc_re (Some CHR 0x0A) ''seedcrc:0xe9f5'' = Some ([(0, ''seedcrc:0xe9f5''), (1, ''e9f5'')], [])"
  by code_simp

lemma demo_body: "list_all (\<lambda>l. CHR 0x0A \<notin> set l \<and> l \<noteq> [] \<and> hd l \<noteq> CHR ''s'') (butlast demo_lines)"
  by code_simp

lemma demo_join: "join [CHR 0x0A] demo_lines = concat (map (\<lambda>l. l @ [CHR 0x0A]) (butlast demo_lines)) @ ''seedcrc:0xe9f5''"
  by (simp add: demo_lines_def)

lemma demo_seedcrc: "re_search seedcrc_re (join [CHR 0x0A] demo_lines) = Some [(0, ''seedcrc:0xe9f5''), (1, ''e9f5'')]"
proof -
  have "butlast demo_lines \<noteq> []" by (simp add: demo_lines_def)
  then have "search_from seedcrc_re None (join [CHR 0x0A] demo_lines) = search_from seedcrc_re (Some CHR 0x0A) ''seedcrc:0xe9f5''"
    unfolding demo_join seedcrc_re_def seqs.simps lit.simps
    using search_lines [OF demo_body, where p = None] by simp
  then show ?thesis by (simp only: re_search_def demo_seed_match option.map fst_conv)
qed

lemma demo_seed: "read_base 16 ''e9f5'' = 0xe9f5"
  by (simp add: read_base_def)

lemmas demo_crcs = demo_crclist demo_crcmatrix demo_crcstate demo_crcfinal demo_seed

definition demo_block :: "nat \<Rightarrow> block" where
  "demo_block i = \<lparr>b_index = i, b_host = False, b_flags = ''-O2'', b_clk_hz = 1, b_dhry_runs = 5, b_dhry_cycles = 18,
     b_dhry_stat_cycles = 20, b_dhry_stat_instret = 15, b_dhry_check = 0, b_cm_iterations = 0, b_cm_cycles = 733,
     b_cm_instret = 620, b_seedcrc = 0xe9f5, b_cm_config = ''2K performance (TOTAL_DATA_SIZE=2000)'',
     b_crclist = 1, b_crcmatrix = 1, b_crcstate = 1, b_crcfinal = 1, b_hpm = [], b_has_hpm = False\<rparr>"

lemma demo_parse: "parse_block demo_lines i selftest_args = Inr (demo_block i)"
proof -
  obtain m where m: "re_search seedcrc_re (join [CHR 0x0A] demo_lines) = Some m" "group m 1 = ''e9f5''"
    using demo_seedcrc by (simp add: group_def)
  show ?thesis
    unfolding parse_block_def Let_def demo_kv demo_nums demo_crcs m option.case rbind_simps
    by (simp add: demo_nums m demo_crcs raise_if_def PERF_SEEDCRC_def selftest_args_def demo_block_def)
qed

lemma demo_bounds: "ipc_ok (idiv 15 20)" "ipc_ok (idiv 620 733)" "\<not> idiv 733 1 < 10"
  by code_simp+

lemma demo_derive: "\<exists>sc. derive (demo_block i) selftest_args = Inr sc"
  using demo_bounds by (simp add: derive_def demo_block_def raise_if_def Let_def selftest_args_def)

lemma demo_repro: "\<exists>sp. check_reproducible [demo_block 0, demo_block 1] selftest_args = Inr sp"
  by (simp add: check_reproducible_def raise_if_def columns_def varies_def min_of_def max_of_def arch_values_def
      time_values_def demo_block_def selftest_args_def spread_of_def upt_conv_Cons Let_def)

lemma demo_plain: "list_all plain_line demo_lines" "list_all clean_line (framed demo_lines @ framed demo_lines)"
  by code_simp+

lemma demo_split: "split_blocks demo_capture = [demo_lines, demo_lines]"
proof -
  have "split_blocks demo_capture = split_loop (framed demo_lines @ framed demo_lines) [] None"
    unfolding demo_capture_def by (rule split_blocks_lines) (simp add: framed_def, rule demo_plain)
  then show ?thesis using split_framed [OF demo_plain(1)] split_framed [OF demo_plain(1), of "[]"] by simp
qed

lemma demo_check: "\<exists>sc0 sc1 sp. check demo_capture selftest_args = Inr ([(demo_block 0, Some sc0), (demo_block 1, Some sc1)], sp)"
proof -
  obtain sc0 sc1 where "derive (demo_block 0) selftest_args = Inr sc0" "derive (demo_block 1) selftest_args = Inr sc1"
    using demo_derive by blast
  moreover obtain sp where "check_reproducible [demo_block 0, demo_block 1] selftest_args = Inr sp" using demo_repro by blast
  moreover have "\<not> a_functional_only selftest_args" "a_min_blocks selftest_args = 1" "\<not> b_host (demo_block i)" for i
    by (simp_all add: selftest_args_def demo_block_def)
  ultimately show ?thesis
    by (simp add: check_def demo_split demo_parse raise_if_def)
qed

lemma bench_main_0: "bench_main capture args = Inr 0 \<longleftrightarrow> (\<exists>r. check capture args = Inr r)"
  by (auto simp: bench_main_def split: sum.splits py_error.splits)

text \<open>Nothing bounds the number of CoreMark iterations from below: a capture that reports none is
  accepted, with a score of zero.\<close>

theorem zero_iterations_accepted:
  "bench_main demo_capture selftest_args = Inr 0 \<and>
    (\<exists>r. parse_block demo_lines 0 selftest_args = Inr r \<and> b_cm_iterations r = 0)"
  using demo_check demo_parse [of 0] by (auto simp: bench_main_0 demo_block_def)

section \<open>The properties\<close>



text \<open>C24: at tolerance zero, the default, the reproducibility check is exact despite the
  floating-point spread: with positive counters of at most 64 bits, the blocks left after the warm-up
  ones have equal cycle counts.\<close>

theorem bench_exact_timing:
  assumes "check_reproducible bs args = Inr r" and "a_tolerance_ppm args = 0"
    and "\<forall>b\<in>set bs. \<forall>t\<in>set (time_values b). 0 < t \<and> t \<le> 2 ^ 64"
    and "b \<in> set (warm_blocks args bs)" "b' \<in> set (warm_blocks args bs)"
  shows "time_values b = time_values b'"
  by (rule reproducible_time [OF assms])

theorem bench_exact_timing_witness: "time_values (demo_block 0) = time_values (demo_block 1)"
proof -
  obtain sp where "check_reproducible [demo_block 0, demo_block 1] selftest_args = Inr sp" using demo_repro by blast
  then show ?thesis
    by (rule bench_exact_timing) (simp_all add: selftest_args_def time_values_def demo_block_def warm_blocks_def)
qed

text \<open>Framing: of a text made of clean lines, the parser keeps exactly the complete blocks, in order,
  whatever surrounds them; what precedes the first begin marker and what follows a begin marker without an
  end marker is dropped.\<close>

theorem bench_framing:
  assumes "list_all plain_line pre" "list_all (list_all plain_line) bs" "list_all plain_line post"
    and "list_all clean_line (pre @ concat (map framed bs) @ BEGIN # post)"
  shows "split_blocks (join [CHR 0x0A] (pre @ concat (map framed bs) @ BEGIN # post)) = bs"
  using split_blocks_lines [of "pre @ concat (map framed bs) @ BEGIN # post"] assms split_framing [OF assms(1-3)]
  by simp

theorem bench_framing_witness:
  "split_blocks (join [CHR 0x0A] ([''boot''] @ concat (map framed [[''a=1''], [''b=2'']]) @ BEGIN # [''cut''])) =
    [[''a=1''], [''b=2'']]"
  by (rule bench_framing; code_simp)

end
