(* ===== verification/Stall_Profile.thy ===== *)
theory Stall_Profile
  imports Bpred Py_Str
begin

text \<open>
  The stall-attribution instrument, \<^verbatim>\<open>tb/perf/run_stall_profile.py\<close>: the snapshots taken at
  each read of \<open>mcycle\<close>, the search for a timed region, the accounting identity with its
  injected faults, the comparison with the hardware counters and with the predictor model, the
  counters as software reads them, and the exit code. A snapshot and an accounting are
  dictionaries from names to integers; a missing key is the \<open>KeyError\<close> the source raises.
  The outcome of \<open>build_and_run\<close> is an argument here; \<open>Stall_Build\<close> models it.
\<close>

section \<open>Tables\<close>

definition REGIONS :: "(string \<times> string \<times> string) list" where
  "REGIONS = [(''dhrystone'', ''dhry_stat_cycles'', ''dhry_stat_instret''),
              (''coremark'', ''cm_cycles'', ''cm_instret'')]"

definition HPM_FIELDS :: "string list" where
  "HPM_FIELDS = [''hpm_loaduse'', ''hpm_exstall'', ''hpm_redirect'', ''hpm_mispredict'', ''hpm_btbhit'',
                 ''hpm_xfertaken'']"

definition FIELDS :: "string list" where
  "FIELDS = [''cycle'', ''retired'', ''id_stall'', ''ex_stall'', ''redirect'', ''redirect_raw'',
             ''br_taken'', ''br_ntaken'', ''jal'', ''jalr'']"

definition HPM_PAIRS :: "(string \<times> string \<times> string) list" where
  "HPM_PAIRS = [(''hpm_loaduse'', ''id_stall'', ''load-use interlock cycles''),
                (''hpm_exstall'', ''ex_stall'', ''multi-cycle EX stall cycles''),
                (''hpm_redirect'', ''redirect_raw'', ''fetch redirects''),
                (''hpm_xfertaken'', ''xfer'', ''taken control transfers'')]"

section \<open>Snapshots\<close>

type_synonym row = "(string \<times> int) list"

definition fld :: "row \<Rightarrow> string \<Rightarrow> int res" where
  "fld r k = (case map_of r k of None \<Rightarrow> Inl (KeyError k) | Some v \<Rightarrow> Inr v)"

text \<open>The rows of the CSV file as \<^verbatim>\<open>csv.DictReader\<close> yields them.\<close>

definition load_snaps :: "(string \<times> string) list list \<Rightarrow> row list res" where
  "load_snaps = mapr (mapr (\<lambda>(k, v). rbind (int_base 10 v) (\<lambda>n. Inr (k, n))))"

definition check_mcycle_alignment :: "row list \<Rightarrow> (bool \<times> int list) res" where
  "check_mcycle_alignment snaps =
    rbind (mapr (\<lambda>s. rbind (fld s ''mcycle'') (\<lambda>m. rbind (fld s ''cycle'') (\<lambda>c. Inr ((m - c) AND 0xFFFFFFFF)))) snaps)
      (\<lambda>offs. Inr (card (set offs) = 1, take 5 (sorted_list_of_set (set offs))))"

text \<open>The two nested loops of \<open>find_region\<close> in their order.\<close>

definition read_pairs :: "nat \<Rightarrow> (nat \<times> nat) list" where
  "read_pairs n = concat (map (\<lambda>i. map (Pair i) [Suc i..<n]) [0..<n])"

definition find_region :: "row list \<Rightarrow> int \<Rightarrow> (nat \<times> nat) list res" where
  "find_region snaps want =
    rbind (mapr (\<lambda>(i, j). rbind (fld (snaps ! j) ''mcycle'') (\<lambda>b. rbind (fld (snaps ! i) ''mcycle'') (\<lambda>a.
        Inr ((i, j), (b - a) AND 0xFFFFFFFF)))) (read_pairs (length snaps)))
      (\<lambda>ds. Inr (map fst (filter (\<lambda>d. snd d = want) ds)))"

section \<open>The accounting of a region\<close>

definition fld_diff :: "row \<Rightarrow> row \<Rightarrow> string \<Rightarrow> int res" where
  "fld_diff lo hi k = rbind (fld hi k) (\<lambda>b. rbind (fld lo k) (\<lambda>a. Inr (b - a)))"

text \<open>An assignment \<^verbatim>\<open>d[k] = v\<close>.\<close>

definition dset :: "string \<Rightarrow> int \<Rightarrow> row \<Rightarrow> row" where "dset k v d = (k, v) # d"

definition attribute :: "row \<Rightarrow> row \<Rightarrow> int \<Rightarrow> row res" where
  "attribute lo hi fault =
    rbind (mapr (\<lambda>k. rbind (fld_diff lo hi k) (\<lambda>v. Inr (k, v))) FIELDS) (\<lambda>d.
    rbind (fld d ''redirect'') (\<lambda>redirect.
    let flush = (if fault = 1 then redirect else 2 * redirect);
        d = (if fault = 2 then dset ''id_stall'' 0 d else d);
        d = (if fault = 3 then dset ''ex_stall'' 0 d else d) in
    rbind (fld d ''retired'') (\<lambda>r.
    let d = dset ''flush'' flush (if fault = 4 then dset ''retired'' (r + 1) d else d) in
    rbind (fld d ''cycle'') (\<lambda>cycle.
    rbind (fld d ''retired'') (\<lambda>retired.
    rbind (fld d ''id_stall'') (\<lambda>id_stall.
    rbind (fld d ''ex_stall'') (\<lambda>ex_stall.
    let d = dset ''residual'' (cycle - (retired + id_stall + ex_stall + flush)) d in
    rbind (fld d ''br_taken'') (\<lambda>br_taken.
    rbind (fld d ''jal'') (\<lambda>jal.
    rbind (fld d ''jalr'') (\<lambda>jalr.
    let d = dset ''xfer_residual'' 0 (dset ''xfer'' (br_taken + jal + jalr) d) in
    rbind (fld lo ''cycle'') (\<lambda>lo_cycle.
    rbind (fld hi ''cycle'') (\<lambda>hi_cycle.
    Inr (dset ''hi_cycle'' hi_cycle (dset ''lo_cycle'' lo_cycle d))))))))))))))"

text \<open>The disagreeing pairs: label, hardware count, instrument count.\<close>

definition check_hpm :: "row \<Rightarrow> row \<Rightarrow> row \<Rightarrow> int \<Rightarrow> (string \<times> int \<times> int) list res" where
  "check_hpm lo hi d fault =
    rbind (mapr (\<lambda>(hk, sk, label).
        rbind (fld_diff lo hi hk) (\<lambda>hw.
        let hw = (if fault = 6 \<and> hk = ''hpm_loaduse'' then hw + 1 else hw) in
        rbind (fld d sk) (\<lambda>sw. Inr (label, hw, sw)))) HPM_PAIRS)
      (\<lambda>rs. Inr (filter (\<lambda>(label, hw, sw). hw \<noteq> sw) rs))"

section \<open>The predictor model over the region's trace\<close>

record xfer =
  x_cycle :: int
  x_fetch :: int
  x_pc :: int
  x_insn :: int
  x_next_pc :: int

definition trace_str :: "(string \<times> string) list \<Rightarrow> string \<Rightarrow> string res" where
  "trace_str r k = (case map_of r k of None \<Rightarrow> Inl (KeyError k) | Some v \<Rightarrow> Inr v)"

definition trace_row :: "(string \<times> string) list \<Rightarrow> xfer res" where
  "trace_row r =
    rbind (rbind (trace_str r ''cycle'') (int_base 10)) (\<lambda>c.
    rbind (rbind (trace_str r ''fetch'') (int_base 10)) (\<lambda>f.
    rbind (rbind (trace_str r ''pc'') (int_base 16)) (\<lambda>pc.
    rbind (rbind (trace_str r ''insn'') (int_base 16)) (\<lambda>insn.
    rbind (rbind (trace_str r ''next_pc'') (int_base 16)) (\<lambda>nxt.
    Inr \<lparr>x_cycle = c, x_fetch = f, x_pc = pc, x_insn = insn, x_next_pc = nxt\<rparr>)))))"

definition rec_of :: "xfer \<Rightarrow> int \<times> int \<times> int \<times> int" where
  "rec_of x = (x_fetch x, x_pc x, x_insn x, x_next_pc x)"

fun warm_up :: "(int \<times> int \<times> int \<times> int) list \<Rightarrow> DelayedBPred \<Rightarrow> DelayedBPred" where
  "warm_up [] bp = bp"
| "warm_up ((c, pc, insn, nxt) # rest) bp = (
    let taken = (nxt \<noteq> seq_pc pc);
        (p, bp) = d_predict bp pc c
    in warm_up rest (d_update bp c pc insn taken (if taken then nxt else 0)))"

definition model_mispredicts :: "xfer list \<Rightarrow> int \<Rightarrow> int \<Rightarrow> int" where
  "model_mispredicts xs lo hi = (
    let warm = map rec_of (filter (\<lambda>x. x_cycle x \<le> lo) xs);
        seg = map rec_of (filter (\<lambda>x. \<not> x_cycle x \<le> lo \<and> x_cycle x \<le> hi) xs)
    in n_mispredicts (snd (score_trace (warm_up warm (DelayedBPred_init VISIBILITY_GAP)) seg None)))"

definition check_predictor :: "(string \<times> string) list list \<Rightarrow> int \<Rightarrow> int \<Rightarrow> int \<Rightarrow> (int \<times> int) res" where
  "check_predictor trace lo hi measured_redirects =
    rbind (mapr trace_row trace) (\<lambda>xs.
    let mis = model_mispredicts xs lo hi in Inr (mis, mis - measured_redirects))"

section \<open>The verdict\<close>

text \<open>What \<open>build_and_run\<close> returns: the benchmark's block as JSON (a number, or null), the rows of the
  profile and of the trace. \<^verbatim>\<open>true\<close> is the number 1, as it is for Python.\<close>

type_synonym blk = "(string \<times> int option) list"

record instrumented =
  r_blk :: blk
  r_prof :: "(string \<times> string) list list"
  r_trace :: "(string \<times> string) list list"

definition num_text :: "string \<Rightarrow> int \<Rightarrow> string" where "num_text s n = s @ '' '' @ show_int n"

text \<open>One located region: its accounting and the problems it raises.\<close>

definition region_check :: "string \<Rightarrow> row \<Rightarrow> row \<Rightarrow> (string \<times> string) list list \<Rightarrow> (row \<times> string list) res" where
  "region_check name lo hi trace =
    rbind (attribute lo hi 0) (\<lambda>d.
    rbind (fld lo ''cycle'') (\<lambda>c0. rbind (fld hi ''cycle'') (\<lambda>c1. rbind (fld d ''redirect'') (\<lambda>redirect.
    rbind (check_predictor trace c0 c1 redirect) (\<lambda>(mis, mis_resid).
    let d = dset ''mispredict_residual'' mis_resid (dset ''model_mispredicts'' mis d) in
    rbind (fld d ''residual'') (\<lambda>residual.
    rbind (mapr (\<lambda>hk. rbind (fld_diff lo hi hk) (\<lambda>v. Inr (hk, v))) HPM_FIELDS) (\<lambda>hs.
    let d = rev hs @ d in
    rbind (check_hpm lo hi d 0) (\<lambda>bad.
    Inr (d,
      (if residual \<noteq> 0 then [num_text (name @ '': must be exactly 0, residual'') residual] else [])
      @ (if mis_resid \<noteq> 0 then [num_text (name @ '': the implementation and the predictor model disagree'') mis_resid] else [])
      @ map (\<lambda>(label, hw, sw). name @ '': one of the two predicates is wrong: '' @ label) bad)))))))))"

definition region_step :: "instrumented \<Rightarrow> row list \<Rightarrow> string \<times> string \<times> string
    \<Rightarrow> ((string \<times> row) list \<times> string list) \<Rightarrow> ((string \<times> row) list \<times> string list) res" where
  "region_step g snaps = (\<lambda>(name, ck, ik) (out, problems).
    case map_of (r_blk g) ck of
      None \<Rightarrow> Inr (out, problems)
    | Some None \<Rightarrow> Inr (out, problems)
    | Some (Some want) \<Rightarrow>
        rbind (find_region snaps want) (\<lambda>hits. case hits of
          [(i, j)] \<Rightarrow> rbind (region_check name (snaps ! i) (snaps ! j) (r_trace g)) (\<lambda>(d, ps).
            Inr (out @ [(name, d)], problems @ ps))
        | _ \<Rightarrow> Inr (out, problems @ [num_text (name @ '': want exactly 1 pair of reads, got'') (int (length hits))])))"

definition OVERHEAD_LIMIT :: int where "OVERHEAD_LIMIT = 256"

definition SW :: "(string \<times> string) list" where "SW = [(''dhrystone'', ''dhry''), (''coremark'', ''cm'')]"

definition sw_key :: "string \<Rightarrow> string \<Rightarrow> string" where
  "sw_key region hk = region @ ''_hpm_'' @ drop (length ''hpm_'') hk"

text \<open>One counter of one region as software reads it.\<close>

definition sw_pair :: "blk \<Rightarrow> string \<Rightarrow> string \<Rightarrow> row \<Rightarrow> string \<times> string \<times> string \<Rightarrow> string list res" where
  "sw_pair blk name region d = (\<lambda>(hk, sk, label).
    case map_of blk (sw_key region hk) of
      None \<Rightarrow> Inr []
    | Some v \<Rightarrow> rbind (fld d sk) (\<lambda>inst. case v of
        None \<Rightarrow> Inl (TypeError ''unsupported operand type(s) for -'')
      | Some sw \<Rightarrow>
          let over = sw - inst in
          Inr (if over < 0 then [name @ '': it can only read high: '' @ label]
               else if over > OVERHEAD_LIMIT then [name @ '': a footprint does not grow with the region: '' @ label]
               else [])))"

definition sw_region :: "blk \<Rightarrow> string \<times> row \<Rightarrow> string list res" where
  "sw_region blk = (\<lambda>(name, d). case map_of SW name of
     None \<Rightarrow> Inr []
   | Some region \<Rightarrow> rbind (mapr (sw_pair blk name region d) HPM_PAIRS) (\<lambda>pss. Inr (concat pss)))"

definition sw_check :: "blk \<Rightarrow> (string \<times> row) list \<Rightarrow> string list res" where
  "sw_check blk out = (
    if out \<noteq> [] \<and> (case map_of blk ''has_hpm'' of Some (Some v) \<Rightarrow> v \<noteq> 0 | _ \<Rightarrow> False)
    then rbind (mapr (sw_region blk) out) (\<lambda>pss. Inr (concat pss)) else Inr [])"

text \<open>The table of the report divides by the region's cycles.\<close>

definition print_table :: "(string \<times> row) list \<Rightarrow> unit res" where
  "print_table out = rbind (mapr (\<lambda>(name, d). rbind (fld d ''cycle'') (\<lambda>c. raise_if (c = 0) ZeroDivisionError)) out)
     (\<lambda>us. Inr ())"

section \<open>Fault injection\<close>

definition fault_hit :: "row \<Rightarrow> row \<Rightarrow> int \<Rightarrow> int \<Rightarrow> bool res" where
  "fault_hit lo hi base_mis f =
    rbind (attribute lo hi f) (\<lambda>d.
    rbind (fld d ''redirect'') (\<lambda>redirect.
    let mis_resid = base_mis - (redirect + (if f = 5 then 1 else 0)) in
    rbind (check_hpm lo hi d f) (\<lambda>hpm_bad.
    rbind (fld d ''residual'') (\<lambda>residual.
    Inr (residual \<noteq> 0 \<or> mis_resid \<noteq> 0 \<or> hpm_bad \<noteq> [])))))"

definition faults :: "int list" where "faults = [1, 2, 3, 4, 5, 6]"

text \<open>The faults that escape all three checks.\<close>

definition escaped :: "row \<Rightarrow> row \<Rightarrow> int \<Rightarrow> int list res" where
  "escaped lo hi base_mis =
    rbind (mapr (\<lambda>f. rbind (fault_hit lo hi base_mis f) (\<lambda>hit. Inr (f, hit))) faults)
      (\<lambda>rs. Inr (map fst (filter (\<lambda>r. \<not> snd r) rs)))"

definition selftest :: "instrumented \<Rightarrow> row list \<Rightarrow> (string \<times> row) list \<Rightarrow> string list res" where
  "selftest g snaps out = (case out of
     [] \<Rightarrow> Inl StopIteration
   | (name, d) # rest \<Rightarrow>
       (case map_of (map (\<lambda>(n, c, k). (n, c)) REGIONS) name of
         None \<Rightarrow> Inl (KeyError name)
       | Some ck \<Rightarrow> (case map_of (r_blk g) ck of
           None \<Rightarrow> Inl (KeyError ck)
         | Some None \<Rightarrow> Inl IndexError
         | Some (Some want) \<Rightarrow>
             rbind (find_region snaps want) (\<lambda>hits. case hits of
               [] \<Rightarrow> Inl IndexError
             | (i, j) # hs \<Rightarrow>
                 rbind (fld d ''model_mispredicts'') (\<lambda>base_mis.
                 rbind (escaped (snaps ! i) (snaps ! j) base_mis) (\<lambda>fs.
                 Inr (map (num_text ''selftest: escaped all three checks: fault'') fs)))))))"

text \<open>The exit code; \<open>None\<close> is a run that did not complete.\<close>

definition profile_main :: "bool \<Rightarrow> instrumented option \<Rightarrow> int res" where
  "profile_main do_selftest got = (case got of
     None \<Rightarrow> Inr 1
   | Some g \<Rightarrow>
       rbind (load_snaps (r_prof g)) (\<lambda>snaps.
       rbind (check_mcycle_alignment snaps) (\<lambda>(ok, offs).
       if \<not> ok then Inr 1
       else
         rbind (res_fold (region_step g snaps) REGIONS ([], [])) (\<lambda>(out, problems).
         let problems = problems @ (if out = [] then [''no region was located at all''] else []) in
         rbind (sw_check (r_blk g) out) (\<lambda>sw.
         rbind (print_table out) (\<lambda>u.
         rbind (if do_selftest then selftest g snaps out else Inr []) (\<lambda>st.
         Inr (if problems @ sw @ st \<noteq> [] then 1 else 0))))))))"

end
