(* ===== verification/Stall_Props.thy ===== *)
theory Stall_Props
  imports Stall_Profile Bpred_Props
begin

text \<open>
  The theorems on the stall-attribution instrument: what an accepted profile establishes about
  every timed region the benchmark reported, and which injected faults its self-test catches.
\<close>

section \<open>Dictionaries and loops that may raise\<close>

text \<open>The change of a counter between two snapshots.\<close>

definition shift :: "row \<Rightarrow> row \<Rightarrow> string \<Rightarrow> int" where
  "shift lo hi k = the (map_of hi k) - the (map_of lo k)"

lemma fld_Inr: "fld r k = Inr v \<longleftrightarrow> map_of r k = Some v"
  by (auto simp: fld_def split: option.splits)

lemma fld_dset: "fld (dset k v d) k' = (if k = k' then Inr v else fld d k')"
  by (simp add: fld_def dset_def)

lemma fld_diff_Inr: "fld_diff lo hi k = Inr v \<longleftrightarrow>
  map_of lo k \<noteq> None \<and> map_of hi k \<noteq> None \<and> v = shift lo hi k"
  by (auto simp: fld_diff_def rbind_Inr_iff fld_Inr shift_def)

lemma fld_named: "k \<in> set ks \<Longrightarrow> fld (map (\<lambda>k. (k, h k)) ks) k = Inr (h k)"
  by (induction ks) (auto simp: fld_def)

section \<open>The accounting\<close>

lemma FIELDS_mem:
  "''cycle'' \<in> set FIELDS" "''retired'' \<in> set FIELDS" "''id_stall'' \<in> set FIELDS" "''ex_stall'' \<in> set FIELDS"
  "''redirect'' \<in> set FIELDS" "''redirect_raw'' \<in> set FIELDS" "''br_taken'' \<in> set FIELDS"
  "''jal'' \<in> set FIELDS" "''jalr'' \<in> set FIELDS"
  by (simp_all add: FIELDS_def)

text \<open>The counter is present in both snapshots.\<close>

definition both :: "row \<Rightarrow> row \<Rightarrow> string \<Rightarrow> bool" where
  "both lo hi k \<longleftrightarrow> map_of lo k \<noteq> None \<and> map_of hi k \<noteq> None"

definition stalls :: "row \<Rightarrow> row \<Rightarrow> string \<Rightarrow> int \<Rightarrow> int" where
  "stalls lo hi k fault = (if k = ''id_stall'' \<and> fault = 2 \<or> k = ''ex_stall'' \<and> fault = 3 then 0
     else shift lo hi k)"

text \<open>The cycles that the accounting, with a fault injected, does not explain.\<close>

definition residue :: "row \<Rightarrow> row \<Rightarrow> int \<Rightarrow> int" where
  "residue lo hi fault = shift lo hi ''cycle'' - (shift lo hi ''retired'' + (if fault = 4 then 1 else 0)
     + stalls lo hi ''id_stall'' fault + stalls lo hi ''ex_stall'' fault
     + (if fault = 1 then shift lo hi ''redirect'' else 2 * shift lo hi ''redirect''))"

definition taken_xfers :: "row \<Rightarrow> row \<Rightarrow> int" where
  "taken_xfers lo hi = shift lo hi ''br_taken'' + shift lo hi ''jal'' + shift lo hi ''jalr''"

definition accounting :: "row \<Rightarrow> row \<Rightarrow> int \<Rightarrow> row \<Rightarrow> bool" where
  "accounting lo hi fault d \<longleftrightarrow>
     fld d ''cycle'' = Inr (shift lo hi ''cycle'') \<and> fld d ''redirect'' = Inr (shift lo hi ''redirect'')
   \<and> fld d ''redirect_raw'' = Inr (shift lo hi ''redirect_raw'')
   \<and> fld d ''id_stall'' = Inr (stalls lo hi ''id_stall'' fault)
   \<and> fld d ''ex_stall'' = Inr (stalls lo hi ''ex_stall'' fault)
   \<and> fld d ''xfer'' = Inr (taken_xfers lo hi) \<and> fld d ''residual'' = Inr (residue lo hi fault)"

lemma attribute_total:
  assumes "\<And>k. k \<in> set FIELDS \<Longrightarrow> both lo hi k"
  shows "\<exists>d. attribute lo hi f = Inr d \<and> accounting lo hi f d"
proof -
  have g: "fld_diff lo hi k = Inr (shift lo hi k)" if "k \<in> set FIELDS" for k
    using assms [OF that] by (simp add: fld_diff_Inr both_def)
  note m = mapr_named_eq [of FIELDS "fld_diff lo hi", OF g]
  obtain c0 c1 where c: "fld lo ''cycle'' = Inr c0" "fld hi ''cycle'' = Inr c1"
    using assms [OF FIELDS_mem(1)] by (auto simp: both_def fld_Inr)
  note n = FIELDS_mem [THEN fld_named, of "shift lo hi"]
  show ?thesis
    unfolding attribute_def accounting_def
    by (simp add: m n c fld_dset Let_def stalls_def residue_def taken_xfers_def)
qed

lemma attribute_present:
  assumes "attribute lo hi f = Inr d" "k \<in> set FIELDS"
  shows "both lo hi k"
proof -
  obtain d0 where "mapr (\<lambda>k. rbind (fld_diff lo hi k) (\<lambda>v. Inr (k, v))) FIELDS = Inr d0"
    using assms(1) unfolding attribute_def rbind_Inr_iff by (elim exE conjE)
  from mapr_named [OF this] assms(2) show ?thesis by (auto simp: fld_diff_Inr both_def)
qed

lemma attribute_accounting:
  assumes "attribute lo hi f = Inr d"
  shows "accounting lo hi f d"
  using attribute_total [of lo hi f] attribute_present [OF assms] assms by auto

text \<open>The hardware counters against the accounting.\<close>

definition hw_count :: "row \<Rightarrow> row \<Rightarrow> int \<Rightarrow> string \<Rightarrow> int" where
  "hw_count lo hi fault hk = shift lo hi hk + (if fault = 6 \<and> hk = ''hpm_loaduse'' then 1 else 0)"

definition hw_agrees :: "row \<Rightarrow> row \<Rightarrow> int \<Rightarrow> bool" where
  "hw_agrees lo hi fault \<longleftrightarrow>
     hw_count lo hi fault ''hpm_loaduse'' = stalls lo hi ''id_stall'' fault
   \<and> hw_count lo hi fault ''hpm_exstall'' = stalls lo hi ''ex_stall'' fault
   \<and> hw_count lo hi fault ''hpm_redirect'' = shift lo hi ''redirect_raw''
   \<and> hw_count lo hi fault ''hpm_xfertaken'' = taken_xfers lo hi"

lemma check_hpm_total:
  assumes "accounting lo hi f d" "\<And>k. k \<in> set (map fst HPM_PAIRS) \<Longrightarrow> both lo hi k"
  shows "\<exists>bad. check_hpm lo hi d f = Inr bad \<and> (bad = [] \<longleftrightarrow> hw_agrees lo hi f)"
proof -
  have g: "fld_diff lo hi k = Inr (shift lo hi k)" if "k \<in> set (map fst HPM_PAIRS)" for k
    using assms(2) [OF that] by (simp add: fld_diff_Inr both_def)
  have "fld_diff lo hi ''hpm_loaduse'' = Inr (shift lo hi ''hpm_loaduse'')"
    "fld_diff lo hi ''hpm_exstall'' = Inr (shift lo hi ''hpm_exstall'')"
    "fld_diff lo hi ''hpm_redirect'' = Inr (shift lo hi ''hpm_redirect'')"
    "fld_diff lo hi ''hpm_xfertaken'' = Inr (shift lo hi ''hpm_xfertaken'')"
    by (rule g, simp add: HPM_PAIRS_def)+
  with assms(1) show ?thesis
    unfolding check_hpm_def HPM_PAIRS_def accounting_def hw_agrees_def hw_count_def
    by (auto simp: Let_def)
qed

lemma check_hpm_present:
  assumes "check_hpm lo hi d f = Inr bad" "k \<in> set (map fst HPM_PAIRS)"
  shows "both lo hi k"
proof -
  from assms(2) obtain p where p: "p \<in> set HPM_PAIRS" "k = fst p" by auto
  from assms(1) obtain rs where "mapr (\<lambda>(hk, sk, label).
        rbind (fld_diff lo hi hk) (\<lambda>hw.
        let hw = (if f = 6 \<and> hk = ''hpm_loaduse'' then hw + 1 else hw) in
        rbind (fld d sk) (\<lambda>sw. Inr (label, hw, sw)))) HPM_PAIRS = Inr rs"
    unfolding check_hpm_def rbind_Inr_iff by (elim exE conjE)
  from mapr_each [OF this p(1)] p(2) show ?thesis
    by (auto simp: rbind_Inr_iff fld_diff_Inr both_def split: prod.splits)
qed

lemma check_hpm_agrees:
  assumes "check_hpm lo hi d f = Inr bad" "accounting lo hi f d"
  shows "bad = [] \<longleftrightarrow> hw_agrees lo hi f"
  using check_hpm_total [OF assms(2) check_hpm_present [OF assms(1)]] assms(1) by auto

section \<open>Fault injection\<close>

lemma fault_hit_eq:
  assumes "\<And>k. k \<in> set FIELDS \<union> set (map fst HPM_PAIRS) \<Longrightarrow> both lo hi k"
  shows "fault_hit lo hi m f = Inr (residue lo hi f \<noteq> 0
     \<or> m \<noteq> shift lo hi ''redirect'' + (if f = 5 then 1 else 0) \<or> \<not> hw_agrees lo hi f)"
proof -
  obtain d where d: "attribute lo hi f = Inr d" "accounting lo hi f d"
    using attribute_total [of lo hi f] assms by auto
  obtain bad where b: "check_hpm lo hi d f = Inr bad" "bad = [] \<longleftrightarrow> hw_agrees lo hi f"
    using check_hpm_total [OF d(2)] assms by auto
  from d(2) show ?thesis
    by (auto simp: fault_hit_def d(1) b accounting_def Let_def)
qed

text \<open>A region on which the instrument is right: the identity closes without a residue and the
  hardware counters agree.\<close>

definition clean :: "row \<Rightarrow> row \<Rightarrow> bool" where
  "clean lo hi \<longleftrightarrow>
     shift lo hi ''cycle'' = shift lo hi ''retired'' + shift lo hi ''id_stall'' + shift lo hi ''ex_stall''
       + 2 * shift lo hi ''redirect''
   \<and> shift lo hi ''hpm_loaduse'' = shift lo hi ''id_stall''
   \<and> shift lo hi ''hpm_exstall'' = shift lo hi ''ex_stall''
   \<and> shift lo hi ''hpm_redirect'' = shift lo hi ''redirect_raw''
   \<and> shift lo hi ''hpm_xfertaken'' = shift lo hi ''br_taken'' + shift lo hi ''jal'' + shift lo hi ''jalr''"

lemma clean_iff: "clean lo hi \<longleftrightarrow> residue lo hi 0 = 0 \<and> hw_agrees lo hi 0"
  by (auto simp: clean_def residue_def hw_agrees_def hw_count_def stalls_def taken_xfers_def)

definition invisible :: "row \<Rightarrow> row \<Rightarrow> int \<Rightarrow> bool" where
  "invisible lo hi f \<longleftrightarrow> f = 1 \<and> shift lo hi ''redirect'' = 0 \<or> f = 2 \<and> shift lo hi ''id_stall'' = 0
     \<or> f = 3 \<and> shift lo hi ''ex_stall'' = 0"

lemma fault_hit_clean:
  assumes "clean lo hi" "f \<in> set faults"
  shows "(residue lo hi f \<noteq> 0 \<or> shift lo hi ''redirect'' \<noteq> shift lo hi ''redirect'' + (if f = 5 then 1 else 0)
      \<or> \<not> hw_agrees lo hi f) \<longleftrightarrow> \<not> invisible lo hi f"
  using assms
  by (auto simp: clean_def residue_def hw_agrees_def hw_count_def stalls_def taken_xfers_def invisible_def faults_def)

lemma escaped_clean:
  assumes "clean lo hi" "\<And>k. k \<in> set FIELDS \<union> set (map fst HPM_PAIRS) \<Longrightarrow> both lo hi k"
  shows "escaped lo hi (shift lo hi ''redirect'') = Inr (filter (invisible lo hi) faults)"
proof -
  have "mapr (\<lambda>f. rbind (fault_hit lo hi (shift lo hi ''redirect'') f) (\<lambda>hit. Inr (f, hit))) faults
      = Inr (map (\<lambda>f. (f, \<not> invisible lo hi f)) faults)"
    by (rule mapr_named_eq) (simp only: fault_hit_eq [OF assms(2)] fault_hit_clean [OF assms(1)])
  then show ?thesis by (simp add: escaped_def comp_def filter_map)
qed

section \<open>Locating a region\<close>

text \<open>The pairs of reads whose 32-bit difference is the reported number of cycles.\<close>

definition matches :: "row list \<Rightarrow> int \<Rightarrow> (nat \<times> nat) set" where
  "matches snaps want = {(i, j). i < j \<and> j < length snaps
     \<and> shift (snaps ! i) (snaps ! j) ''mcycle'' mod 2 ^ 32 = want}"

lemma mod_32: "(x::int) AND 0xFFFFFFFF = x mod 2 ^ 32"
  by (simp only: mask32_eq flip: take_bit_eq_mask) (simp only: take_bit_eq_mod)

lemma set_read_pairs: "set (read_pairs n) = {(i, j). i < j \<and> j < n}"
  by (force simp: read_pairs_def image_iff)

lemma mapr_keyed:
  assumes "mapr (\<lambda>p. rbind (g p) (\<lambda>v. Inr (p, v))) ps = Inr ds"
  shows "set (map fst (filter (\<lambda>d. snd d = w) ds)) = {p \<in> set ps. g p = Inr w}"
proof -
  from mapr_named [OF assms] have g: "\<forall>p\<in>set ps. \<exists>v. g p = Inr v"
    and ds: "ds = map (\<lambda>p. (p, projr (g p))) ps" by auto
  show ?thesis unfolding ds using g by (force simp: filter_map)
qed

lemma find_region_set:
  assumes "find_region snaps want = Inr hits"
  shows "set hits = matches snaps want"
proof -
  let ?g = "\<lambda>(i, j). rbind (fld (snaps ! j) ''mcycle'') (\<lambda>b. rbind (fld (snaps ! i) ''mcycle'') (\<lambda>a.
    Inr ((b - a) AND 0xFFFFFFFF)))"
  have e: "rbind (fld (snaps ! j) ''mcycle'') (\<lambda>b. rbind (fld (snaps ! i) ''mcycle'') (\<lambda>a.
        Inr ((i, j), (b - a) AND 0xFFFFFFFF))) = rbind (?g (i, j)) (\<lambda>v. Inr ((i, j), v))" for i j
    by (simp add: rbind_def split: sum.splits)
  from assms obtain ds where ds: "mapr (\<lambda>p. rbind (?g p) (\<lambda>v. Inr (p, v))) (read_pairs (length snaps)) = Inr ds"
    "hits = map fst (filter (\<lambda>d. snd d = want) ds)"
    unfolding find_region_def e rbind_Inr_iff by (auto simp: split_def)
  have "?g p = Inr want \<longleftrightarrow> shift (snaps ! fst p) (snaps ! snd p) ''mcycle'' mod 2 ^ 32 = want"
    if p: "p \<in> set (read_pairs (length snaps))" for p
  proof -
    obtain y where "rbind (?g p) (\<lambda>v. Inr (p, v)) = Inr y" using mapr_each [OF ds(1) p] by blast
    then show ?thesis by (auto simp: rbind_Inr_iff fld_Inr shift_def mod_32 split: prod.splits)
  qed
  then show ?thesis
    unfolding ds(2) mapr_keyed [OF ds(1)] by (auto simp: matches_def set_read_pairs)
qed

section \<open>An accepted profile\<close>

definition inst_count :: "row \<Rightarrow> row \<Rightarrow> string \<Rightarrow> int" where
  "inst_count lo hi sk = (if sk = ''xfer'' then taken_xfers lo hi else shift lo hi sk)"

lemma accounting_inst:
  "accounting lo hi 0 d \<Longrightarrow> (hk, sk, label) \<in> set HPM_PAIRS \<Longrightarrow> fld d sk = Inr (inst_count lo hi sk)"
  by (auto simp: accounting_def HPM_PAIRS_def inst_count_def stalls_def)

lemma fld_skip: "k \<notin> fst ` set xs \<Longrightarrow> fld (xs @ d) k = fld d k"
  by (induction xs) (auto simp: fld_def)

lemma accounting_extend:
  assumes "accounting lo hi f d" "fst ` set hs \<subseteq> set HPM_FIELDS"
  shows "accounting lo hi f (rev hs @ dset ''mispredict_residual'' a (dset ''model_mispredicts'' b d))"
proof -
  have "fld (rev hs @ e) k = fld e k" if "k \<notin> set HPM_FIELDS" for e k
    by (rule fld_skip) (use assms(2) that in auto)
  then show ?thesis using assms(1) by (simp add: accounting_def HPM_FIELDS_def fld_dset)
qed

text \<open>The region between two snapshots is accounted for: the cycle identity and the counters, and the
  predictor model reproduces the redirects over the retired trace.\<close>

definition explained :: "instrumented \<Rightarrow> row \<Rightarrow> row \<Rightarrow> bool" where
  "explained g lo hi \<longleftrightarrow> clean lo hi \<and> (\<exists>xs. mapr trace_row (r_trace g) = Inr xs
     \<and> model_mispredicts xs (the (map_of lo ''cycle'')) (the (map_of hi ''cycle'')) = shift lo hi ''redirect'')"

lemma region_check_clean:
  assumes "region_check name lo hi (r_trace g) = Inr (d, [])"
  shows "explained g lo hi \<and> accounting lo hi 0 d"
proof -
  from assms obtain d0 c0 c1 r mis mis_resid residual hs bad where
    "attribute lo hi 0 = Inr d0" "fld lo ''cycle'' = Inr c0" "fld hi ''cycle'' = Inr c1"
    "fld d0 ''redirect'' = Inr r" "check_predictor (r_trace g) c0 c1 r = Inr (mis, mis_resid)"
    "fld (dset ''mispredict_residual'' mis_resid (dset ''model_mispredicts'' mis d0)) ''residual'' = Inr residual"
    "mapr (\<lambda>hk. rbind (fld_diff lo hi hk) (\<lambda>v. Inr (hk, v))) HPM_FIELDS = Inr hs"
    and d: "d = rev hs @ dset ''mispredict_residual'' mis_resid (dset ''model_mispredicts'' mis d0)"
    and bad: "check_hpm lo hi d 0 = Inr bad"
    and none: "residual = 0" "mis_resid = 0" "bad = []"
    unfolding region_check_def rbind_Inr_iff Let_def
    by (auto simp: rbind_Inr_iff Let_def split: if_splits)
  note f = this
  have a0: "accounting lo hi 0 d0" by (rule attribute_accounting [OF f(1)])
  have "fst ` set hs \<subseteq> set HPM_FIELDS" using mapr_named [OF f(7)] by auto
  then have a: "accounting lo hi 0 d" unfolding d by (rule accounting_extend [OF a0])
  have "residue lo hi 0 = 0" using f(6) a0 none(1) by (simp add: fld_dset accounting_def)
  moreover have "hw_agrees lo hi 0" using check_hpm_agrees [OF bad a] none(3) by simp
  ultimately have "clean lo hi" by (simp add: clean_iff)
  moreover from f(5) obtain xs where "mapr trace_row (r_trace g) = Inr xs"
    "mis = model_mispredicts xs c0 c1" "mis_resid = mis - r"
    by (auto simp: check_predictor_def rbind_Inr_iff Let_def)
  moreover have "r = shift lo hi ''redirect''" using f(4) a0 by (simp add: accounting_def)
  ultimately show ?thesis using f(2,3) none(2) a by (auto simp: explained_def fld_Inr)
qed

definition reported :: "instrumented \<Rightarrow> string \<Rightarrow> int option" where
  "reported g ck = (case map_of (r_blk g) ck of None \<Rightarrow> None | Some v \<Rightarrow> v)"

text \<open>The counters as software reads them contain the region's counts and at most the bounded
  footprint more.\<close>

definition software_ok :: "instrumented \<Rightarrow> string \<Rightarrow> row \<Rightarrow> row \<Rightarrow> bool" where
  "software_ok g region lo hi \<longleftrightarrow> (\<forall>(hk, sk, label)\<in>set HPM_PAIRS. \<forall>sw.
     map_of (r_blk g) (sw_key region hk) = Some (Some sw)
       \<longrightarrow> inst_count lo hi sk \<le> sw \<and> sw \<le> inst_count lo hi sk + 256)"

definition has_hpm :: "instrumented \<Rightarrow> bool" where
  "has_hpm g \<longleftrightarrow> (case map_of (r_blk g) ''has_hpm'' of Some (Some v) \<Rightarrow> v \<noteq> 0 | _ \<Rightarrow> False)"

definition verified :: "instrumented \<Rightarrow> row list \<Rightarrow> string \<Rightarrow> int \<Rightarrow> bool" where
  "verified g snaps region want \<longleftrightarrow> (\<exists>i j. matches snaps want = {(i, j)}
     \<and> explained g (snaps ! i) (snaps ! j) \<and> shift (snaps ! i) (snaps ! j) ''cycle'' \<noteq> 0
     \<and> (has_hpm g \<longrightarrow> software_ok g region (snaps ! i) (snaps ! j)))"

lemma region_step_clean:
  assumes "region_step g snaps (name, ck, ik) (out, ps) = Inr (out', [])"
  shows "ps = [] \<and> (case reported g ck of
      None \<Rightarrow> out' = out
    | Some want \<Rightarrow> \<exists>d i j. out' = out @ [(name, d)] \<and> matches snaps want = {(i, j)}
        \<and> explained g (snaps ! i) (snaps ! j) \<and> accounting (snaps ! i) (snaps ! j) 0 d)"
proof (cases "reported g ck")
  case None
  then show ?thesis using assms by (auto simp: region_step_def reported_def split: option.splits)
next
  case (Some want)
  then have m: "map_of (r_blk g) ck = Some (Some want)" by (auto simp: reported_def split: option.splits)
  from assms m obtain hits where h: "find_region snaps want = Inr hits"
    and c: "(case hits of
          [(i, j)] \<Rightarrow> rbind (region_check name (snaps ! i) (snaps ! j) (r_trace g)) (\<lambda>(d, qs).
            Inr (out @ [(name, d)], ps @ qs))
        | _ \<Rightarrow> Inr (out, ps @ [num_text (name @ '': want exactly 1 pair of reads, got'') (int (length hits))]))
      = Inr (out', [])"
    by (auto simp: region_step_def rbind_Inr_iff)
  from c obtain i j where ij: "hits = [(i, j)]"
    by (auto split: list.splits prod.splits)
  with c obtain d where d: "region_check name (snaps ! i) (snaps ! j) (r_trace g) = Inr (d, [])"
    "out' = out @ [(name, d)]" "ps = []"
    by (auto simp: rbind_Inr_iff)
  have "matches snaps want = {(i, j)}" using find_region_set [OF h] ij by simp
  with region_check_clean [OF d(1)] d Some show ?thesis by auto
qed

lemma sw_pair_clean:
  assumes "sw_pair blk name region d (hk, sk, label) = Inr []" "fld d sk = Inr n"
    "map_of blk (sw_key region hk) = Some (Some sw)"
  shows "n \<le> sw \<and> sw \<le> n + 256"
  using assms by (auto simp: sw_pair_def Let_def OVERHEAD_LIMIT_def split: if_splits)

lemma sw_region_clean:
  assumes "sw_region (r_blk g) (name, d) = Inr []" "map_of SW name = Some region" "accounting lo hi 0 d"
  shows "software_ok g region lo hi"
proof -
  from assms(1,2) obtain pss where p: "mapr (sw_pair (r_blk g) name region d) HPM_PAIRS = Inr pss" "concat pss = []"
    by (auto simp: sw_region_def rbind_Inr_iff)
  show ?thesis
    unfolding software_ok_def
    using sw_pair_clean [OF mapr_nil [OF p] accounting_inst [OF assms(3)]] by blast
qed

lemma sw_check_clean:
  assumes "sw_check (r_blk g) out = Inr []" "has_hpm g" "(name, d) \<in> set out"
  shows "sw_region (r_blk g) (name, d) = Inr []"
proof -
  have "out \<noteq> []" using assms(3) by auto
  with assms(1,2) obtain pss where p: "mapr (sw_region (r_blk g)) out = Inr pss" "concat pss = []"
    by (auto simp: sw_check_def has_hpm_def rbind_Inr_iff)
  then show ?thesis using assms(3) by (rule mapr_nil)
qed

lemma print_table_cycles:
  assumes "print_table out = Inr u" "(name, d) \<in> set out" "fld d ''cycle'' = Inr c"
  shows "c \<noteq> 0"
proof -
  from assms(1) obtain us where
    "mapr (\<lambda>(name, d). rbind (fld d ''cycle'') (\<lambda>c. raise_if (c = 0) ZeroDivisionError)) out = Inr us"
    by (auto simp: print_table_def rbind_Inr_iff)
  from mapr_each [OF this assms(2)] assms(3) show ?thesis by auto
qed

lemma alignment_offset:
  assumes "check_mcycle_alignment snaps = Inr (True, offs)"
  shows "\<exists>k. \<forall>s\<in>set snaps. (the (map_of s ''mcycle'') - the (map_of s ''cycle'')) mod 2 ^ 32 = k"
proof -
  from assms obtain vs where v: "mapr (\<lambda>s. rbind (fld s ''mcycle'') (\<lambda>m. rbind (fld s ''cycle'') (\<lambda>c.
      Inr ((m - c) AND 0xFFFFFFFF)))) snaps = Inr vs" "card (set vs) = 1"
    by (auto simp: check_mcycle_alignment_def rbind_Inr_iff)
  then obtain k where k: "set vs = {k}" using card_1_singletonE by metis
  have "(the (map_of s ''mcycle'') - the (map_of s ''cycle'')) mod 2 ^ 32 = k" if s: "s \<in> set snaps" for s
  proof -
    from s obtain n where n: "n < length snaps" "s = snaps ! n" by (auto simp: in_set_conv_nth)
    with v(1) have "vs ! n = (the (map_of s ''mcycle'') - the (map_of s ''cycle'')) mod 2 ^ 32" "n < length vs"
      by (auto simp: mapr_Inr list_all2_conv_all_nth rbind_Inr_iff fld_Inr mod_32 dest!: spec [of _ n])
    then show ?thesis using k nth_mem by fastforce
  qed
  then show ?thesis by blast
qed

lemma located_verified:
  assumes "sw_check (r_blk g) out = Inr []" "print_table out = Inr u" "(name, d) \<in> set out"
    "map_of SW name = Some region" "matches snaps want = {(i, j)}" "explained g (snaps ! i) (snaps ! j)"
    "accounting (snaps ! i) (snaps ! j) 0 d"
  shows "verified g snaps region want"
proof -
  have "fld d ''cycle'' = Inr (shift (snaps ! i) (snaps ! j) ''cycle'')" using assms(7) by (simp add: accounting_def)
  from print_table_cycles [OF assms(2,3) this]
  have "shift (snaps ! i) (snaps ! j) ''cycle'' \<noteq> 0" .
  with sw_region_clean [OF sw_check_clean [OF assms(1) _ assms(3)] assms(4,7)] assms(5,6)
  show ?thesis unfolding verified_def by blast
qed

lemma profile_main_steps:
  assumes "profile_main st (Some g) = Inr 0"
  obtains snaps offs out u fs where "load_snaps (r_prof g) = Inr snaps"
    "check_mcycle_alignment snaps = Inr (True, offs)"
    "res_fold (region_step g snaps) REGIONS ([], []) = Inr (out, [])" "out \<noteq> []"
    "sw_check (r_blk g) out = Inr []" "print_table out = Inr u"
    "st \<Longrightarrow> selftest g snaps out = Inr []"
  using assms unfolding profile_main_def
  by (auto simp: rbind_Inr_iff Let_def split: if_splits prod.splits)

lemma regions_verified:
  assumes "res_fold (region_step g snaps) REGIONS ([], []) = Inr (out, [])"
    "sw_check (r_blk g) out = Inr []" "print_table out = Inr u" "(region, ck) \<in> {(''dhry'', ''dhry_stat_cycles''), (''cm'', ''cm_cycles'')}"
    "reported g ck = Some want"
  shows "verified g snaps region want"
proof -
  from assms(1) obtain out1 ps1 where
    s1: "region_step g snaps (''dhrystone'', ''dhry_stat_cycles'', ''dhry_stat_instret'') ([], []) = Inr (out1, ps1)"
    and s2: "region_step g snaps (''coremark'', ''cm_cycles'', ''cm_instret'') (out1, ps1) = Inr (out, [])"
    unfolding REGIONS_def by (auto simp: rbind_Inr_iff)
  note c2 = region_step_clean [OF s2]
  then have "ps1 = []" by simp
  note c1 = region_step_clean [OF s1 [unfolded this]]
  from c2 have sub: "set out1 \<subseteq> set out" by (auto split: option.splits)
  have sw: "map_of SW ''dhrystone'' = Some ''dhry''" "map_of SW ''coremark'' = Some ''cm''"
    by (simp_all add: SW_def)
  note v = located_verified [OF assms(2,3)]
  from assms(4) show ?thesis
  proof (elim insertE)
    assume "(region, ck) = (''dhry'', ''dhry_stat_cycles'')"
    with c1 assms(5) sub show ?thesis by (auto intro: v [OF _ sw(1)])
  next
    assume "(region, ck) = (''cm'', ''cm_cycles'')"
    with c2 assms(5) show ?thesis by (auto intro: v [OF _ sw(2)])
  qed simp
qed

lemma out_reported:
  assumes "res_fold (region_step g snaps) REGIONS ([], []) = Inr (out, [])" "out \<noteq> []"
  shows "reported g ''dhry_stat_cycles'' \<noteq> None \<or> reported g ''cm_cycles'' \<noteq> None"
proof -
  from assms(1) obtain out1 ps1 where
    s1: "region_step g snaps (''dhrystone'', ''dhry_stat_cycles'', ''dhry_stat_instret'') ([], []) = Inr (out1, ps1)"
    and s2: "region_step g snaps (''coremark'', ''cm_cycles'', ''cm_instret'') (out1, ps1) = Inr (out, [])"
    unfolding REGIONS_def by (auto simp: rbind_Inr_iff)
  note c2 = region_step_clean [OF s2]
  then have "ps1 = []" by simp
  with c2 region_step_clean [OF s1 [unfolded this]] assms(2) show ?thesis by (auto split: option.splits)
qed

section \<open>A profile\<close>

definition demo_lo :: row where
  "demo_lo = [(''mcycle'', 100), (''cycle'', 0), (''retired'', 0), (''id_stall'', 0), (''ex_stall'', 0),
     (''redirect'', 0), (''redirect_raw'', 0), (''br_taken'', 0), (''br_ntaken'', 0), (''jal'', 0), (''jalr'', 0),
     (''hpm_loaduse'', 0), (''hpm_exstall'', 0), (''hpm_redirect'', 0), (''hpm_mispredict'', 0),
     (''hpm_btbhit'', 0), (''hpm_xfertaken'', 0)]"

definition demo_hi :: row where
  "demo_hi = [(''mcycle'', 120), (''cycle'', 20), (''retired'', 15), (''id_stall'', 2), (''ex_stall'', 1),
     (''redirect'', 1), (''redirect_raw'', 1), (''br_taken'', 0), (''br_ntaken'', 0), (''jal'', 1), (''jalr'', 0),
     (''hpm_loaduse'', 2), (''hpm_exstall'', 1), (''hpm_redirect'', 1), (''hpm_mispredict'', 1),
     (''hpm_btbhit'', 0), (''hpm_xfertaken'', 1)]"

definition demo_run :: instrumented where
  "demo_run = \<lparr>r_blk = [(''cm_cycles'', Some 20), (''has_hpm'', Some 1), (''cm_hpm_loaduse'', Some 8)],
     r_prof = [map (\<lambda>(k, v). (k, show_int v)) demo_lo, map (\<lambda>(k, v). (k, show_int v)) demo_hi],
     r_trace = [[(''cycle'', ''10''), (''fetch'', ''7''), (''pc'', ''0x10''), (''insn'', ''0x6f''),
                 (''next_pc'', ''0x20'')]]\<rparr>"

lemma demo_snaps: "load_snaps (r_prof demo_run) = Inr [demo_lo, demo_hi]"
  by code_simp

definition demo_xfer :: xfer where
  "demo_xfer = \<lparr>x_cycle = 10, x_fetch = 7, x_pc = 0x10, x_insn = 0x6f, x_next_pc = 0x20\<rparr>"

lemma demo_ints:
  "int_base 10 ''10'' = Inr 10" "int_base 10 ''7'' = Inr 7" "int_base 16 ''0x10'' = Inr 0x10"
  "int_base 16 ''0x6f'' = Inr 0x6f" "int_base 16 ''0x20'' = Inr 0x20"
  by (code_simp)+

lemma demo_trace: "mapr trace_row (r_trace demo_run) = Inr [demo_xfer]"
  by (simp add: demo_run_def trace_row_def trace_str_def demo_ints demo_xfer_def)

lemma demo_predict: "predict BPred_init a = (False, 0)"
  using btb_index_range [of a] by (simp add: predict_def BPred_init_def)

lemma demo_mispredicts: "model_mispredicts [demo_xfer] 0 20 = 1"
  by (simp add: model_mispredicts_def demo_xfer_def rec_of_def score_trace_def seq_pc_def d_predict_def
      drain_def demo_predict DelayedBPred_init_def score_counts_def Let_def classify_def is_link_def counts_zero_def
      count_kind_def BRANCH_def JUMP_def CALL_def RET_def)


lemma demo_aligned: "check_mcycle_alignment [demo_lo, demo_hi] = Inr (True, [100])"
  by (simp add: check_mcycle_alignment_def fld_def demo_lo_def demo_hi_def cong: rbind_weak)

lemma demo_find: "find_region [demo_lo, demo_hi] 20 = Inr [(0, 1)]"
  by (simp add: find_region_def read_pairs_def fld_def demo_lo_def demo_hi_def upt_rec cong: rbind_weak)

lemma demo_region: "\<exists>d. region_check ''coremark'' demo_lo demo_hi (r_trace demo_run) = Inr (d, [])
   \<and> fld d ''model_mispredicts'' = Inr 1 \<and> fld d ''cycle'' = Inr 20 \<and> fld d ''id_stall'' = Inr 2"
  by (simp add: region_check_def attribute_def fld_diff_def fld_def demo_lo_def demo_hi_def FIELDS_def
      dset_def check_predictor_def demo_trace demo_mispredicts HPM_FIELDS_def check_hpm_def HPM_PAIRS_def cong: rbind_weak)


lemma demo_clean: "clean demo_lo demo_hi" "\<forall>k\<in>set FIELDS \<union> set (map fst HPM_PAIRS). both demo_lo demo_hi k"
  by (simp_all add: clean_def shift_def both_def demo_lo_def demo_hi_def FIELDS_def HPM_PAIRS_def)

lemma demo_visible: "shift demo_lo demo_hi ''redirect'' = 1" "filter (invisible demo_lo demo_hi) faults = []"
  by (simp_all add: invisible_def shift_def demo_lo_def demo_hi_def faults_def)

lemma demo_escaped: "escaped demo_lo demo_hi 1 = Inr []"
  using escaped_clean [OF demo_clean(1)] demo_clean(2) by (simp only: demo_visible)

lemma demo_blk: "map_of (r_blk demo_run) ''dhry_stat_cycles'' = None"
  "map_of (r_blk demo_run) ''cm_cycles'' = Some (Some 20)" "map_of (r_blk demo_run) ''has_hpm'' = Some (Some 1)"
  by (simp_all add: demo_run_def)

lemma demo_profile: "profile_main True (Some demo_run) = Inr 0"
proof -
  obtain d where d: "region_check ''coremark'' demo_lo demo_hi (r_trace demo_run) = Inr (d, [])"
    "fld d ''model_mispredicts'' = Inr 1" "fld d ''cycle'' = Inr 20" "fld d ''id_stall'' = Inr 2"
    using demo_region by blast
  have fold: "res_fold (region_step demo_run [demo_lo, demo_hi]) REGIONS ([], []) = Inr ([(''coremark'', d)], [])"
    by (simp add: REGIONS_def region_step_def demo_blk demo_find d)
  have sw: "sw_check (r_blk demo_run) [(''coremark'', d)] = Inr []"
    by (simp add: sw_check_def demo_run_def sw_region_def SW_def HPM_PAIRS_def sw_pair_def sw_key_def d
        OVERHEAD_LIMIT_def)
  have "selftest demo_run [demo_lo, demo_hi] [(''coremark'', d)] = Inr []"
    by (simp add: selftest_def REGIONS_def demo_blk demo_find d demo_escaped)
  then show ?thesis
    by (simp add: profile_main_def demo_snaps demo_aligned fold sw print_table_def d raise_if_def)
qed

text \<open>C25: a profile that exits with 0 has located every region the benchmark reported as the one pair
  of \<open>mcycle\<close> reads with that difference, and there the cycles are exactly the retired instructions,
  the load-use stalls, the multi-cycle stalls and two per redirect, the hardware counters agree to
  the event, the predictor model mispredicts exactly as often as the core redirected, and the
  counters read by software exceed the instrument's by at most 256; at least one region was
  reported, and the instrument's cycle count differs from \<open>mcycle\<close> by a constant.\<close>

theorem profile_sound:
  assumes "profile_main st (Some g) = Inr 0"
  shows "\<exists>snaps k. load_snaps (r_prof g) = Inr snaps
    \<and> (\<forall>s\<in>set snaps. (the (map_of s ''mcycle'') - the (map_of s ''cycle'')) mod 2 ^ 32 = k)
    \<and> (reported g ''dhry_stat_cycles'' \<noteq> None \<or> reported g ''cm_cycles'' \<noteq> None)
    \<and> (\<forall>want. reported g ''dhry_stat_cycles'' = Some want \<longrightarrow> verified g snaps ''dhry'' want)
    \<and> (\<forall>want. reported g ''cm_cycles'' = Some want \<longrightarrow> verified g snaps ''cm'' want)"
proof (rule profile_main_steps [OF assms])
  fix snaps offs out u
  assume l: "load_snaps (r_prof g) = Inr snaps" "check_mcycle_alignment snaps = Inr (True, offs)"
    and r: "res_fold (region_step g snaps) REGIONS ([], []) = Inr (out, [])" "out \<noteq> []"
    "sw_check (r_blk g) out = Inr []" "print_table out = Inr u"
  note v = regions_verified [OF r(1,3,4)]
  show ?thesis
    using l(1) alignment_offset [OF l(2)] out_reported [OF r(1,2)] v [of "''dhry''"] v [of "''cm''"] by blast
qed

theorem profile_sound_witness:
  "\<exists>snaps k. load_snaps (r_prof demo_run) = Inr snaps \<and> verified demo_run snaps ''cm'' 20"
proof -
  have "reported demo_run ''cm_cycles'' = Some 20" by (simp add: reported_def demo_blk)
  with profile_sound [OF demo_profile] show ?thesis by blast
qed

text \<open>On a region where the accounting is right, the self-test's six injected faults are all
  caught except those that change nothing there: charging a flush one cycle when nothing
  redirected, and dropping a stall count that is zero.\<close>

theorem selftest_escapes:
  assumes "clean lo hi" "\<forall>k\<in>set FIELDS \<union> set (map fst HPM_PAIRS). both lo hi k"
  shows "escaped lo hi (shift lo hi ''redirect'') = Inr (filter (invisible lo hi) faults)"
  using assms by (intro escaped_clean) blast+

theorem selftest_escapes_witness: "escaped demo_lo demo_hi 1 = Inr []"
  using selftest_escapes [OF demo_clean] by (simp only: demo_visible)

text \<open>With the self-test, a run in which no region is located leaves the program with an uncaught
  exception instead of the report of its problems.\<close>

lemma selftest_without_region:
  "profile_main True (Some (demo_run\<lparr>r_blk := []\<rparr>)) = Inl StopIteration"
  "profile_main False (Some (demo_run\<lparr>r_blk := []\<rparr>)) = Inr 1"
  by (simp_all add: profile_main_def demo_snaps demo_aligned REGIONS_def region_step_def sw_check_def
      print_table_def selftest_def)

end
