(* ===== verification/Soc_Uart.thy ===== *)
theory Soc_Uart
  imports Py_Regex
begin

text \<open>
  The checker of the SoC demo's UART capture, \<^verbatim>\<open>tb/fpga/parse_soc_uart.py\<close>: splitting the text
  into blocks, parsing a block, the check that consecutive blocks show the program moving, the
  self-test and the exit code. A finding is a constructor holding what the message prints. The
  printed summary of \<open>main\<close> is left out. A captured text is a string of ASCII characters.
\<close>

section \<open>Lines of a block\<close>

definition START :: string where "START = ''=== rvntt soc ===''"
definition SOC_END :: string where "SOC_END = ''=== end ===''"

definition RE_HELLO :: re where
  "RE_HELLO = seqs [Bos, lit ''hello=Hello, world!'', Eos]"

definition RE_GPIO :: re where
  "RE_GPIO = seqs [Bos, lit ''sw=0x'', Group 1 (Cls is_hex_upper), Plus is_space, lit ''btn=0x'',
     Group 2 (Cls is_hex_upper), Eos]"

definition RE_CNT :: re where
  "RE_CNT = seqs [Bos, lit ''mcycle=0x'', Group 1 (Rep 8 (Cls is_hex_upper)), Plus is_space, lit ''minstret=0x'',
     Group 2 (Rep 8 (Cls is_hex_upper)), Eos]"

definition RE_ECHO :: re where
  "RE_ECHO = seqs [Bos, lit ''echo='',
     Group 1 (Alt (lit ''none'') (Seq (lit ''0x'') (Group 2 (Rep 2 (Cls is_hex_upper))))),
     Opt (Group 3 (lit '' overrun'')), Eos]"

definition RE_IMG :: re where
  "RE_IMG = seqs [Bos, lit ''img='',
     Group 1 (Alt (lit ''OK'') (Seq (lit ''BAD 0x'') (Rep 8 (Cls is_hex_upper)))), Eos]"

definition RE_ITER :: re where
  "RE_ITER = seqs [Bos, lit ''iter=0x'', Group 1 (Rep 8 (Cls is_hex_upper)), Eos]"

text \<open>The slots of \<open>Block\<close>. They are read only when all six lines have matched.\<close>

record Block =
  sw :: nat
  btn :: nat
  mcycle :: nat
  minstret :: nat
  echo :: "nat option"
  overrun :: bool
  img :: string
  iter :: nat

datatype finding =
    Wrong_length nat nat
  | Bad_hello string
  | Bad_gpio string
  | Bad_counter string
  | Bad_echo string
  | Bad_img string
  | Bad_iter string
  | Too_few nat int
  | Iter_step nat nat
  | Mcycle_step nat nat
  | Minstret_step nat nat
  | Image_changed string
  | No_echo int
  | Wrong_sw nat int
  | Wrong_btn nat int

definition hex_group :: "groups \<Rightarrow> nat \<Rightarrow> nat" where
  "hex_group m n = read_base 16 (group m n)"

text \<open>The body of a block at a line number: the block when every line matches, and the errors.\<close>

definition parse_body :: "nat \<Rightarrow> string list \<Rightarrow> Block option \<times> finding list" where
  "parse_body line body = (
    if length body \<noteq> 6 then (None, [Wrong_length line (length body)])
    else
      let hello = re_match RE_HELLO (body ! 0); gpio = re_match RE_GPIO (body ! 1);
          cnt = re_match RE_CNT (body ! 2); ec = re_match RE_ECHO (body ! 3);
          im = re_match RE_IMG (body ! 4); it = re_match RE_ITER (body ! 5);
          errors = (if hello = None then [Bad_hello (body ! 0)] else [])
            @ (if gpio = None then [Bad_gpio (body ! 1)] else [])
            @ (if cnt = None then [Bad_counter (body ! 2)] else [])
            @ (if ec = None then [Bad_echo (body ! 3)] else [])
            @ (if im = None then [Bad_img (body ! 4)] else [])
            @ (if it = None then [Bad_iter (body ! 5)] else [])
      in case (gpio, cnt, ec, im, it) of
        (Some g, Some c, Some e, Some i, Some t) \<Rightarrow>
          (if hello = None then None else
             Some \<lparr>sw = hex_group g 1, btn = hex_group g 2, mcycle = hex_group c 1, minstret = hex_group c 2,
               echo = (if group e 1 = ''none'' then None else Some (hex_group e 2)),
               overrun = (map_of e 3 \<noteq> None), img = group i 1, iter = hex_group t 1\<rparr>, errors)
      | _ \<Rightarrow> (None, errors))"

section \<open>Blocks of a capture\<close>

text \<open>The inner loop: the stripped lines up to the next marker, and the lines from it on.\<close>

fun take_body :: "string list \<Rightarrow> string list \<times> string list" where
  "take_body [] = ([], [])"
| "take_body (l # ls) = (
    if strip l = SOC_END \<or> strip l = START then ([], l # ls)
    else let (body, rest) = take_body ls in (strip l # body, rest))"

lemma take_body_length: "length (snd (take_body ls)) \<le> length ls"
  by (induction ls) (auto simp: split_def Let_def)

text \<open>The outer loop over the remaining lines, the first of which has the given number.\<close>

function parse_loop :: "nat \<Rightarrow> string list \<Rightarrow> Block list \<times> finding list" where
  "parse_loop n [] = ([], [])"
| "parse_loop n (l # ls) = (
    if strip l \<noteq> START then parse_loop (n + 1) ls
    else let (body, rest) = take_body ls; j = n + 1 + length body in
      case rest of [] \<Rightarrow> ([], [])
      | e # es \<Rightarrow>
        if strip e \<noteq> SOC_END then parse_loop j (e # es)
        else let (b, errs) = parse_body n body; (bs, more) = parse_loop (j + 1) es in
          ((case b of None \<Rightarrow> bs | Some b \<Rightarrow> b # bs), errs @ more))"
  by pat_completeness auto
termination
proof (relation "measure (\<lambda>(n, ls). length ls)")
  show "wf (measure (\<lambda>(n :: nat, ls :: string list). length ls))" by simp
  fix n l ls x body rest j e es
  assume x: "x = take_body ls" "(body, rest) = x" "rest = e # es"
  then have r: "length (e # es) \<le> length ls" using take_body_length [of ls] by (metis snd_conv)
  then show "((j, e # es), n, l # ls) \<in> measure (\<lambda>(n :: nat, ls :: string list). length ls)"
    "((j + 1, es), n, l # ls) \<in> measure (\<lambda>(n :: nat, ls :: string list). length ls)"
    by simp_all
qed simp

text \<open>\<^verbatim>\<open>text.replace("\r\n", "\n").replace("\r", "\n")\<close>.\<close>

fun norm_newlines :: "string \<Rightarrow> string" where
  "norm_newlines [] = []"
| "norm_newlines (c # cs) = (
    if c = CHR 0x0D then
      (case cs of [] \<Rightarrow> [CHR 0x0A]
       | d # ds \<Rightarrow> if d = CHR 0x0A then CHR 0x0A # norm_newlines ds else CHR 0x0A # norm_newlines cs)
    else c # norm_newlines cs)"

definition parse_blocks :: "string \<Rightarrow> Block list \<times> finding list" where
  "parse_blocks txt = parse_loop 1 (split_on CHR 0x0A (norm_newlines txt))"

section \<open>The check\<close>

definition step_findings :: "Block \<Rightarrow> Block \<Rightarrow> finding list" where
  "step_findings a b =
     (if iter b \<noteq> iter a + 1 then [Iter_step (iter a) (iter b)] else [])
   @ (if mcycle b \<le> mcycle a then [Mcycle_step (mcycle a) (mcycle b)] else [])
   @ (if minstret b \<le> minstret a then [Minstret_step (minstret a) (minstret b)] else [])"

definition img_findings :: "Block list \<Rightarrow> finding list" where
  "img_findings blocks = (case filter (\<lambda>b. img b \<noteq> ''OK'') blocks of [] \<Rightarrow> [] | b # bs \<Rightarrow> [Image_changed (img b)])"

record soc_args =
  expect_echo :: "int option"
  min_blocks :: int
  expect_sw :: "int option"
  expect_btn :: "int option"

definition soc_check :: "string \<Rightarrow> soc_args \<Rightarrow> (bool \<times> finding list) res" where
  "soc_check txt a = (
    let (blocks, findings) = parse_blocks txt in
    if int (length blocks) < min_blocks a
    then Inr (False, findings @ [Too_few (length blocks) (min_blocks a)])
    else
      let findings = findings @ concat (map (\<lambda>(x, y). step_findings x y) (zip blocks (tl blocks)))
            @ img_findings blocks
            @ (case expect_echo a of None \<Rightarrow> []
               | Some e \<Rightarrow> if \<exists>b\<in>set blocks. map_option int (echo b) = Some e then [] else [No_echo e])
      in
      rbind (case expect_sw a of None \<Rightarrow> Inr []
        | Some s \<Rightarrow> if blocks = [] then Inl IndexError
          else Inr (if int (sw (hd blocks)) \<noteq> s then [Wrong_sw (sw (hd blocks)) s] else [])) (\<lambda>f1.
      rbind (case expect_btn a of None \<Rightarrow> Inr []
        | Some s \<Rightarrow> if blocks = [] then Inl IndexError
          else Inr (if int (btn (hd blocks)) \<noteq> s then [Wrong_btn (btn (hd blocks)) s] else [])) (\<lambda>f2.
      let findings = findings @ f1 @ f2 in Inr (findings = [], findings))))"

text \<open>The exit code of \<open>main\<close> on a capture.\<close>

definition soc_main :: "string \<Rightarrow> soc_args \<Rightarrow> int res" where
  "soc_main txt a = rbind (soc_check txt a) (\<lambda>(ok, findings). Inr (if ok then 0 else 1))"

section \<open>The self-test\<close>

definition line :: "string \<Rightarrow> string" where "line s = s @ [CHR 0x0D, CHR 0x0A]"

text \<open>\<^verbatim>\<open>%0wX\<close>.\<close>

definition upper_hex :: "nat \<Rightarrow> nat \<Rightarrow> string" where
  "upper_hex w n = map (\<lambda>c. if is_lower c then char_of (of_char c - 32 :: nat) else c) (hex w n)"

definition good_text :: "nat \<Rightarrow> string" where
  "good_text n = concat (map line [START, ''hello=Hello, world!'', ''sw=0x0 btn=0x0'',
     ''mcycle=0x'' @ upper_hex 8 (0x1000 * (n + 1)) @ '' minstret=0x'' @ upper_hex 8 (0x800 * (n + 1)),
     ''echo='' @ (if n = 1 then ''0x5A'' else ''none''), ''img=OK'', ''iter=0x'' @ upper_hex 8 n, SOC_END])"

definition GOOD :: string where "GOOD = concat (map good_text [0..<3])"

definition field_re :: "string \<Rightarrow> re" where
  "field_re name = seqs [lit name, lit ''=0x'', Rep 8 (Cls is_hex_upper)]"

definition SELFTESTS :: "(string \<times> string) list" where
  "SELFTESTS = [
    (''truncated'', take (length GOOD div 3) GOOD),
    (''no_blocks'', concat (replicate 20 (line ''garbage on the line''))),
    (''wrong_banner'', replace_all ''Hello, world!'' ''Hello, world?'' GOOD),
    (''iter_stuck'', replace_all ''iter=0x00000002'' ''iter=0x00000000''
       (replace_all ''iter=0x00000001'' ''iter=0x00000000'' GOOD)),
    (''mcycle_stuck'', re_sub (field_re ''mcycle'') ''mcycle=0x00001000'' GOOD),
    (''minstret_stuck'', re_sub (field_re ''minstret'') ''minstret=0x00000800'' GOOD),
    (''missing_line'', replace1 (line ''sw=0x0 btn=0x0'') [] GOOD),
    (''half_hex'', replace_all ''mcycle=0x00001000'' ''mcycle=0x1000'' GOOD),
    (''no_echo'', replace_all ''echo=0x5A'' ''echo=none'' GOOD),
    (''img_bad'', replace1 ''img=OK'' ''img=BAD 0xDEADBEEF'' GOOD)]"

definition good_args :: soc_args where
  "good_args = \<lparr>expect_echo = Some 0x5A, min_blocks = 2, expect_sw = Some 0, expect_btn = Some 0\<rparr>"

definition bad_args :: soc_args where
  "bad_args = \<lparr>expect_echo = Some 0x5A, min_blocks = 2, expect_sw = None, expect_btn = None\<rparr>"

text \<open>The number of failures decides the exit code.\<close>

definition soc_selftest :: "int res" where
  "soc_selftest =
    rbind (soc_check GOOD good_args) (\<lambda>(ok, findings).
    rbind (mapr (\<lambda>(name, txt). rbind (soc_check txt bad_args) (\<lambda>(bad_ok, bad_find). Inr bad_ok)) SELFTESTS) (\<lambda>oks.
    let fails = (if ok then 0 else 1) + length (filter (\<lambda>x. x) oks) in
    Inr (if fails > 0 then 1 else 0)))"

end
