(* ===== verification/Soc_Props.thy ===== *)
theory Soc_Props
  imports Soc_Uart
begin

text \<open>
  The theorems on the checker of the SoC demo's capture: the format of a block as a grammar, the
  framing of a capture as a one-pass automaton, and the exact condition under which a capture is
  accepted.
\<close>

section \<open>The format of a block\<close>

definition hexs :: "nat \<Rightarrow> string \<Rightarrow> bool" where
  "hexs n s \<longleftrightarrow> length s = n \<and> list_all is_hex_upper s"

definition spaces :: "string \<Rightarrow> bool" where
  "spaces s \<longleftrightarrow> s \<noteq> [] \<and> list_all is_space s"

definition echo_spec :: "string \<Rightarrow> nat option \<Rightarrow> bool \<Rightarrow> bool" where
  "echo_spec e v ov \<longleftrightarrow> (let suffix = (if ov then '' overrun'' else []) in
     e = ''none'' @ suffix \<and> v = None \<or> (\<exists>h. hexs 2 h \<and> e = ''0x'' @ h @ suffix \<and> v = Some (read_base 16 h)))"

text \<open>The six lines that carry the values of a block.\<close>

definition body_spec :: "string list \<Rightarrow> Block \<Rightarrow> bool" where
  "body_spec body b \<longleftrightarrow> (\<exists>s1 s2 w1 c1 c2 w2 e t.
     body = [''hello=Hello, world!'', ''sw=0x'' @ s1 @ w1 @ ''btn=0x'' @ s2,
       ''mcycle=0x'' @ c1 @ w2 @ ''minstret=0x'' @ c2, ''echo='' @ e, ''img='' @ img b, ''iter=0x'' @ t]
   \<and> spaces w1 \<and> spaces w2 \<and> hexs 1 s1 \<and> hexs 1 s2 \<and> hexs 8 c1 \<and> hexs 8 c2 \<and> hexs 8 t
   \<and> echo_spec e (echo b) (overrun b) \<and> (img b = ''OK'' \<or> (\<exists>h. hexs 8 h \<and> img b = ''BAD 0x'' @ h))
   \<and> sw b = read_base 16 s1 \<and> btn b = read_base 16 s2 \<and> mcycle b = read_base 16 c1
   \<and> minstret b = read_base 16 c2 \<and> iter b = read_base 16 t)"

section \<open>The regular expressions of the lines\<close>

lemma eats_hexs: "eats (Rep n (Cls is_hex_upper)) p s g p' s' g' \<Longrightarrow> \<exists>xs. s = xs @ s' \<and> hexs n xs \<and> g' = g"
  by (drule eats_Rep) (auto simp: hexs_def)

lemma eats_hex1: "eats (Cls is_hex_upper) p s g p' s' g' \<Longrightarrow> \<exists>xs. s = xs @ s' \<and> hexs 1 xs \<and> g' = g"
  unfolding eats.simps by (elim exE conjE) (rule exI [of _ "[_]"], simp add: hexs_def)

lemma eats_spaces: "eats (Plus is_space) p s g p' s' g' \<Longrightarrow> \<exists>xs. s = xs @ s' \<and> spaces xs \<and> g' = g"
  by (drule eats_Plus) (auto simp: spaces_def)

lemma eats_group_hexs: "eats (Group m (Rep n (Cls is_hex_upper))) p s g p' s' g' \<Longrightarrow>
    \<exists>xs. s = xs @ s' \<and> hexs n xs \<and> g' = (m, xs) # g"
  by (erule eats_Group_drop) (rule eats_hexs)

lemma eats_group_hex1: "eats (Group m (Cls is_hex_upper)) p s g p' s' g' \<Longrightarrow>
    \<exists>xs. s = xs @ s' \<and> hexs 1 xs \<and> g' = (m, xs) # g"
  by (erule eats_Group_drop) (rule eats_hex1)

lemmas line_dests = eats_lit seqs_NilD eats_spaces eats_group_hex1 eats_group_hexs

lemma hello_iff:
  assumes "CHR 0x0A \<notin> set s"
  shows "re_match RE_HELLO s \<noteq> None \<longleftrightarrow> s = ''hello=Hello, world!''"
proof
  assume "re_match RE_HELLO s \<noteq> None"
  then obtain g where "re_match (seqs (Bos # [lit ''hello=Hello, world!''] @ [Eos])) s = Some g"
    by (auto simp: RE_HELLO_def)
  then show "s = ''hello=Hello, world!''"
    by (rule line_match [OF _ assms]) (erule seqsE, (drule line_dests)+, simp)
next
  assume "s = ''hello=Hello, world!''"
  then show "re_match RE_HELLO s \<noteq> None" by (simp only:) code_simp
qed

lemma two_fields:
  assumes x: "\<And>m p s g p' s' g'. eats (Group m X) p s g p' s' g' \<Longrightarrow> \<exists>xs. s = xs @ s' \<and> hexs n xs \<and> g' = (m, xs) # g"
    and m: "re_match (seqs [Bos, lit a, Group 1 X, Plus is_space, lit b, Group 2 X, Eos]) s = Some g"
    and nl: "CHR 0x0A \<notin> set s"
  shows "\<exists>w. s = a @ group g 1 @ w @ b @ group g 2 \<and> spaces w \<and> hexs n (group g 1) \<and> hexs n (group g 2)"
  apply (rule line_match [of "[lit a, Group 1 X, Plus is_space, lit b, Group 2 X]" s g])
    apply (use m in simp)
   apply (rule nl)
  apply (elim seqsE)
  apply (drule x line_dests)+
  apply (elim exE conjE, hypsubst)
  apply (simp add: group_Cons)
  done

lemma one_field:
  assumes x: "\<And>m p s g p' s' g'. eats (Group m X) p s g p' s' g' \<Longrightarrow> \<exists>xs. s = xs @ s' \<and> P xs \<and> g' = (m, xs) # g"
    and m: "re_match (seqs [Bos, lit a, Group 1 X, Eos]) s = Some g"
    and nl: "CHR 0x0A \<notin> set s"
  shows "s = a @ group g 1 \<and> P (group g 1)"
  apply (rule line_match [of "[lit a, Group 1 X]" s g])
    apply (use m in simp)
   apply (rule nl)
  apply (elim seqsE)
  apply (drule x line_dests)+
  apply (elim exE conjE, hypsubst)
  apply (simp add: group_Cons)
  done

lemma gpio_some:
  assumes "re_match RE_GPIO s = Some g" "CHR 0x0A \<notin> set s"
  shows "\<exists>w. s = ''sw=0x'' @ group g 1 @ w @ ''btn=0x'' @ group g 2 \<and> spaces w \<and> hexs 1 (group g 1) \<and> hexs 1 (group g 2)"
  by (rule two_fields [OF eats_group_hex1 assms(1) [unfolded RE_GPIO_def] assms(2)])

lemma cnt_some:
  assumes "re_match RE_CNT s = Some g" "CHR 0x0A \<notin> set s"
  shows "\<exists>w. s = ''mcycle=0x'' @ group g 1 @ w @ ''minstret=0x'' @ group g 2 \<and> spaces w \<and> hexs 8 (group g 1) \<and> hexs 8 (group g 2)"
  by (rule two_fields [OF eats_group_hexs assms(1) [unfolded RE_CNT_def] assms(2)])

lemma iter_some:
  assumes "re_match RE_ITER s = Some g" "CHR 0x0A \<notin> set s"
  shows "s = ''iter=0x'' @ group g 1 \<and> hexs 8 (group g 1)"
  by (rule one_field [OF eats_group_hexs assms(1) [unfolded RE_ITER_def] assms(2)])

lemma eats_group_img:
  assumes "eats (Group m (Alt (lit a) (Seq (lit b) (Rep n (Cls is_hex_upper))))) p s g p' s' g'"
  shows "\<exists>xs. s = xs @ s' \<and> (xs = a \<or> (\<exists>h. hexs n h \<and> xs = b @ h)) \<and> g' = (m, xs) # g"
proof (rule eats_Group_drop [OF assms])
  fix g1 assume "eats (Alt (lit a) (Seq (lit b) (Rep n (Cls is_hex_upper)))) p s g p' s' g1"
  then consider "eats (lit a) p s g p' s' g1"
    | q t k where "eats (lit b) p s g q t k" "eats (Rep n (Cls is_hex_upper)) q t k p' s' g1" by auto
  then show "\<exists>xs. s = xs @ s' \<and> (xs = a \<or> (\<exists>h. hexs n h \<and> xs = b @ h)) \<and> g1 = g"
  proof cases
    case 1
    then show ?thesis by (auto dest: eats_lit)
  next
    case 2
    from eats_lit [OF 2(1)] eats_hexs [OF 2(2)] show ?thesis by auto
  qed
qed

lemma img_some:
  assumes "re_match RE_IMG s = Some g" "CHR 0x0A \<notin> set s"
  shows "s = ''img='' @ group g 1 \<and> (group g 1 = ''OK'' \<or> (\<exists>h. hexs 8 h \<and> group g 1 = ''BAD 0x'' @ h))"
  by (rule one_field [OF eats_group_img assms(1) [unfolded RE_IMG_def] assms(2)])

lemma eats_group_echo:
  assumes "eats (Group 1 (Alt (lit a) (Seq (lit b) (Group 2 (Rep n (Cls is_hex_upper)))))) p s g p' s' g'"
  shows "\<exists>xs. s = xs @ s' \<and> (xs = a \<and> g' = (1, xs) # g \<or> (\<exists>h. hexs n h \<and> xs = b @ h \<and> g' = (1, xs) # (2, h) # g))"
proof -
  from assms obtain g1 where e: "eats (Alt (lit a) (Seq (lit b) (Group 2 (Rep n (Cls is_hex_upper))))) p s g p' s' g1"
    "g' = (1, take (length s - length s') s) # g1" unfolding eats.simps(7) [of 1] by blast
  from e(1) consider "eats (lit a) p s g p' s' g1"
    | q t k where "eats (lit b) p s g q t k" "eats (Group 2 (Rep n (Cls is_hex_upper))) q t k p' s' g1"
    unfolding eats.simps(2,3) by blast
  then show ?thesis
  proof cases
    case 1
    then show ?thesis using e(2) by (auto dest: eats_lit)
  next
    case 2
    from eats_lit [OF 2(1)] eats_group_hexs [OF 2(2)] e(2) show ?thesis by auto
  qed
qed

lemma eats_overrun:
  assumes "eats (Opt (Group m (lit a))) p s g p' s' g'"
  shows "s = a @ s' \<and> g' = (m, a) # g \<or> s' = s \<and> g' = g"
  using assms by (auto dest: eats_lit)

lemma echo_some:
  assumes "re_match RE_ECHO s = Some g" "CHR 0x0A \<notin> set s"
  shows "\<exists>e. s = ''echo='' @ e \<and> echo_spec e (if group g 1 = ''none'' then None else Some (hex_group g 2)) (map_of g 3 \<noteq> None)"
proof (rule line_match [of "[lit ''echo='', Group 1 (Alt (lit ''none'') (Seq (lit ''0x'') (Group 2 (Rep 2 (Cls is_hex_upper))))),
     Opt (Group 3 (lit '' overrun''))]" s g])
  show "re_match (seqs (Bos # [lit ''echo='', Group 1 (Alt (lit ''none'') (Seq (lit ''0x'') (Group 2 (Rep 2 (Cls is_hex_upper))))),
     Opt (Group 3 (lit '' overrun''))] @ [Eos])) s = Some g"
    using assms(1) by (simp only: RE_ECHO_def append_Cons append_Nil)
next
  fix p' g'
  assume e: "eats (seqs [lit ''echo='', Group 1 (Alt (lit ''none'') (Seq (lit ''0x'') (Group 2 (Rep 2 (Cls is_hex_upper))))),
     Opt (Group 3 (lit '' overrun''))]) None s [] p' [] g'"
    and n: "\<And>n. n \<noteq> 0 \<Longrightarrow> group g n = group g' n" and m: "map_of g 3 = map_of g' 3"
  from e obtain p1 s1 g1 p2 s2 g2 p3 s3 g3 where
    "eats (lit ''echo='') None s [] p1 s1 g1"
    and g2: "eats (Group 1 (Alt (lit ''none'') (Seq (lit ''0x'') (Group 2 (Rep 2 (Cls is_hex_upper)))))) p1 s1 g1 p2 s2 g2"
    and "eats (Opt (Group 3 (lit '' overrun''))) p2 s2 g2 p3 s3 g3" "eats (seqs []) p3 s3 g3 p' [] g'"
    by (elim seqsE)
  note f = eats_lit [OF this(1)] eats_overrun [OF this(3)] seqs_NilD [OF this(4)]
  from eats_group_echo [OF g2] obtain xs where x: "s1 = xs @ s2"
    "xs = ''none'' \<and> g2 = [(1, xs)] \<or> (\<exists>h. hexs 2 h \<and> xs = ''0x'' @ h \<and> g2 = [(1, xs), (2, h)])"
    using f(1) by blast
  show ?thesis
    by (rule exI [of _ s1], insert f x(1), use x(2) in \<open>elim disjE exE conjE\<close>)
      (simp_all add: echo_spec_def group_Cons m n [of 1, simplified] n [of 2, simplified] hex_group_def)
qed (rule assms)

section \<open>Well-formed lines match\<close>

lemma hexs_last: "hexs n xs \<Longrightarrow> n \<noteq> 0 \<Longrightarrow> xs \<noteq> []" by (auto simp: hexs_def)

lemma ok_hexs [re_intros]:
  "hexs n xs \<Longrightarrow> k (if xs = [] then p else Some (last xs)) s ((m, xs) # g) = Some r \<Longrightarrow>
    mt (Group m (Rep n (Cls is_hex_upper))) k p (xs @ s) g = Some r"
  by (simp add: Rep_run hexs_def)

lemma ok_hex1 [re_intros]:
  "hexs 1 xs \<Longrightarrow> k (if xs = [] then p else Some (last xs)) s ((m, xs) # g) = Some r \<Longrightarrow>
    mt (Group m (Cls is_hex_upper)) k p (xs @ s) g = Some r"
  by (auto simp: hexs_def length_Suc_conv)

lemma ok_gap [re_intros]:
  "spaces w \<Longrightarrow> s = [] \<or> \<not> is_space (hd s) \<Longrightarrow> k (Some (last w)) s g = Some r \<Longrightarrow>
    mt (Plus is_space) k p (w @ s) g = Some r"
  unfolding spaces_def by (rule plus_run) auto

lemma ok_done [re_intros]: "done_k t p [] g = Some (((0, t) # g), [])"
  by (simp add: done_k_def)

lemma ok_alt: "mt a k p s g = None \<Longrightarrow> mt b k p s g = Some r \<Longrightarrow> mt (Alt a b) k p s g = Some r"
  by simp

lemma ok_group: "mt a (\<lambda>p' s' g'. k p' s' ((n, take (length s - length s') s) # g')) p s g = Some r
    \<Longrightarrow> mt (Group n a) k p s g = Some r"
  by simp

lemma ok_rep:
  "hexs n xs \<Longrightarrow> k (if xs = [] then p else Some (last xs)) s g = Some r \<Longrightarrow>
    mt (Rep n (Cls is_hex_upper)) k p (xs @ s) g = Some r"
  by (simp add: Rep_run hexs_def)

lemma ok_opt_none: "mt a k p s g = None \<Longrightarrow> k p s g = Some r \<Longrightarrow> mt (Opt a) k p s g = Some r"
  by simp

lemma ok_opt_some: "mt a k p s g = Some r \<Longrightarrow> mt (Opt a) k p s g = Some r"
  by simp

lemma gpio_ok:
  assumes "spaces w" "hexs 1 s1" "hexs 1 s2"
  shows "\<exists>g. re_match RE_GPIO (''sw=0x'' @ s1 @ w @ ''btn=0x'' @ s2) = Some g"
proof -
  have "\<exists>x. mt RE_GPIO (done_k (''sw=0x'' @ s1 @ w @ ''btn=0x'' @ s2 @ [])) None (''sw=0x'' @ s1 @ w @ ''btn=0x'' @ s2 @ []) [] = Some x"
    unfolding RE_GPIO_def
    by (rule exI) (rule re_intros assms | simp add: is_space_def)+
  then show ?thesis by (auto intro: re_match_ok)
qed

lemma cnt_ok:
  assumes "spaces w" "hexs 8 s1" "hexs 8 s2"
  shows "\<exists>g. re_match RE_CNT (''mcycle=0x'' @ s1 @ w @ ''minstret=0x'' @ s2) = Some g"
proof -
  have "\<exists>x. mt RE_CNT (done_k (''mcycle=0x'' @ s1 @ w @ ''minstret=0x'' @ s2 @ [])) None (''mcycle=0x'' @ s1 @ w @ ''minstret=0x'' @ s2 @ []) [] = Some x"
    unfolding RE_CNT_def
    by (rule exI) (rule re_intros assms | simp add: is_space_def)+
  then show ?thesis by (auto intro: re_match_ok)
qed

lemma iter_ok:
  assumes "hexs 8 t"
  shows "\<exists>g. re_match RE_ITER (''iter=0x'' @ t) = Some g"
proof -
  have "\<exists>x. mt RE_ITER (done_k (''iter=0x'' @ t @ [])) None (''iter=0x'' @ t @ []) [] = Some x"
    unfolding RE_ITER_def by (rule exI) (rule re_intros assms | simp)+
  then show ?thesis by (auto intro: re_match_ok)
qed

lemma img_ok:
  assumes "i = ''OK'' \<or> (\<exists>h. hexs 8 h \<and> i = ''BAD 0x'' @ h)"
  shows "\<exists>g. re_match RE_IMG (''img='' @ i) = Some g"
  using assms
proof (elim disjE exE conjE)
  assume "i = ''OK''"
  moreover have "re_match RE_IMG ''img=OK'' = Some [(0, ''img=OK''), (1, ''OK'')]" by code_simp
  ultimately show ?thesis by simp
next
  fix h assume h: "hexs 8 h" "i = ''BAD 0x'' @ h"
  have "\<exists>x. mt RE_IMG (done_k (''img='' @ ''BAD 0x'' @ h @ [])) None (''img='' @ ''BAD 0x'' @ h @ []) [] = Some x"
    unfolding RE_IMG_def
    by (rule exI) (rule re_intros ok_group ok_alt ok_rep [OF h(1)] mt_lit_miss | simp)+
  then show ?thesis using h(2) by (auto intro: re_match_ok)
qed

lemma echo_ok:
  assumes "echo_spec e v ov"
  shows "\<exists>g. re_match RE_ECHO (''echo='' @ e) = Some g"
proof -
  from assms consider "e = ''none'' @ (if ov then '' overrun'' else [])"
    | h where "hexs 2 h" "e = ''0x'' @ h @ (if ov then '' overrun'' else [])"
    by (auto simp: echo_spec_def Let_def)
  then show ?thesis
  proof cases
    case 1
    moreover have "re_match RE_ECHO ''echo=none'' = Some [(0, ''echo=none''), (1, ''none'')]"
      "re_match RE_ECHO ''echo=none overrun'' = Some [(0, ''echo=none overrun''), (3, '' overrun''), (1, ''none'')]"
      by code_simp+
    ultimately show ?thesis by (cases ov) simp_all
  next
    case 2
    have "\<exists>x. mt RE_ECHO (done_k (''echo='' @ ''0x'' @ h @ [])) None (''echo='' @ ''0x'' @ h @ []) [] = Some x"
      unfolding RE_ECHO_def
      by (rule exI) (rule re_intros ok_group [where n = 1] ok_alt 2(1) mt_lit_miss ok_opt_none | simp add: ch_def)+
    moreover have "\<exists>x. mt RE_ECHO (done_k (''echo='' @ ''0x'' @ h @ '' overrun'' @ [])) None (''echo='' @ ''0x'' @ h @ '' overrun'' @ []) [] = Some x"
      unfolding RE_ECHO_def
      by (rule exI) (rule re_intros ok_group [where n = 1] ok_alt 2(1) mt_lit_miss ok_opt_some ok_group [where n = 3] | simp)+
    ultimately show ?thesis using 2(2) by (cases ov) (auto intro: re_match_ok)
  qed
qed

section \<open>Parsing a block\<close>

lemma parse_body_spec:
  assumes "\<And>l. l \<in> set body \<Longrightarrow> CHR 0x0A \<notin> set l"
  shows "parse_body n body = (Some b, es) \<Longrightarrow> es = [] \<and> body_spec body b"
proof -
  assume p: "parse_body n body = (Some b, es)"
  then have l: "length body = 6" by (auto simp: parse_body_def split: if_splits)
  then obtain l0 l1 l2 l3 l4 l5 where body: "body = [l0, l1, l2, l3, l4, l5]"
    by (auto simp: length_Suc_conv eval_nat_numeral)
  from p have h: "re_match RE_HELLO l0 \<noteq> None" unfolding body parse_body_def
    by (auto simp: Let_def split: option.splits if_splits)
  from p obtain g c e i t where m: "re_match RE_GPIO l1 = Some g" "re_match RE_CNT l2 = Some c"
    "re_match RE_ECHO l3 = Some e" "re_match RE_IMG l4 = Some i" "re_match RE_ITER l5 = Some t"
    unfolding body parse_body_def by (auto simp: Let_def split: option.splits if_splits)
  from p have b: "es = []" "b = \<lparr>sw = hex_group g 1, btn = hex_group g 2, mcycle = hex_group c 1, minstret = hex_group c 2,
               echo = (if group e 1 = ''none'' then None else Some (hex_group e 2)),
               overrun = (map_of e 3 \<noteq> None), img = group i 1, iter = hex_group t 1\<rparr>"
    using h unfolding body parse_body_def by (auto simp: Let_def m)
  have nl: "CHR 0x0A \<notin> set l0" "CHR 0x0A \<notin> set l1" "CHR 0x0A \<notin> set l2" "CHR 0x0A \<notin> set l3" "CHR 0x0A \<notin> set l4" "CHR 0x0A \<notin> set l5"
    using assms unfolding body by simp_all
  from gpio_some [OF m(1) nl(2)] obtain w1 where w1: "l1 = ''sw=0x'' @ group g 1 @ w1 @ ''btn=0x'' @ group g 2"
    "spaces w1" "hexs 1 (group g 1)" "hexs 1 (group g 2)" by blast
  from cnt_some [OF m(2) nl(3)] obtain w2 where w2: "l2 = ''mcycle=0x'' @ group c 1 @ w2 @ ''minstret=0x'' @ group c 2"
    "spaces w2" "hexs 8 (group c 1)" "hexs 8 (group c 2)" by blast
  from echo_some [OF m(3) nl(4)] obtain e' where e': "l3 = ''echo='' @ e'" "echo_spec e' (echo b) (overrun b)"
    unfolding b(2) by auto
  note i = img_some [OF m(4) nl(5)] and t = iter_some [OF m(5) nl(6)]
  have "body_spec body b"
    unfolding body_spec_def body
    apply (rule exI [of _ "group g 1"], rule exI [of _ "group g 2"], rule exI [of _ w1], rule exI [of _ "group c 1"],
       rule exI [of _ "group c 2"], rule exI [of _ w2], rule exI [of _ e'], rule exI [of _ "group t 1"])
    using w1 w2 i t e' hello_iff [OF nl(1)] h by (simp add: b(2) hex_group_def)
  with b(1) show ?thesis by simp
qed

lemma echo_spec_unique:
  assumes "echo_spec e v ov" "echo_spec e v' ov'"
  shows "v = v' \<and> ov = ov'"
  using assms by (auto simp: echo_spec_def Let_def hexs_def length_Suc_conv eval_nat_numeral split: if_splits)

lemma gap_unique:
  "a @ w @ m @ c = a' @ w' @ m @ c' \<Longrightarrow> length a = length a' \<Longrightarrow> length c = length c' \<Longrightarrow> a = a' \<and> w = w' \<and> c = c'"
proof -
  assume h: "a @ w @ m @ c = a' @ w' @ m @ c'" "length a = length a'" "length c = length c'"
  then have "a = a' \<and> w @ m @ c = w' @ m @ c'" by simp
  moreover from this have "length w = length w'"
    using h(3) by (auto dest: arg_cong [of _ _ length])
  ultimately show ?thesis by simp
qed

lemma body_spec_unique:
  assumes "body_spec body b" "body_spec body b'"
  shows "b = b'"
proof -
  from assms(1) obtain s1 s2 w1 c1 c2 w2 e t where
    1: "body = [''hello=Hello, world!'', ''sw=0x'' @ s1 @ w1 @ ''btn=0x'' @ s2,
       ''mcycle=0x'' @ c1 @ w2 @ ''minstret=0x'' @ c2, ''echo='' @ e, ''img='' @ img b, ''iter=0x'' @ t]"
     "hexs 1 s1" "hexs 1 s2" "hexs 8 c1" "hexs 8 c2" "echo_spec e (echo b) (overrun b)"
     "sw b = read_base 16 s1" "btn b = read_base 16 s2" "mcycle b = read_base 16 c1"
     "minstret b = read_base 16 c2" "iter b = read_base 16 t"
    unfolding body_spec_def by (elim exE conjE)
  from assms(2) obtain s1' s2' w1' c1' c2' w2' e' t' where
    2: "body = [''hello=Hello, world!'', ''sw=0x'' @ s1' @ w1' @ ''btn=0x'' @ s2',
       ''mcycle=0x'' @ c1' @ w2' @ ''minstret=0x'' @ c2', ''echo='' @ e', ''img='' @ img b', ''iter=0x'' @ t']"
     "hexs 1 s1'" "hexs 1 s2'" "hexs 8 c1'" "hexs 8 c2'" "echo_spec e' (echo b') (overrun b')"
     "sw b' = read_base 16 s1'" "btn b' = read_base 16 s2'" "mcycle b' = read_base 16 c1'"
     "minstret b' = read_base 16 c2'" "iter b' = read_base 16 t'"
    unfolding body_spec_def by (elim exE conjE)
  from 1(1) 2(1) have e: "s1 @ w1 @ ''btn=0x'' @ s2 = s1' @ w1' @ ''btn=0x'' @ s2'"
    "c1 @ w2 @ ''minstret=0x'' @ c2 = c1' @ w2' @ ''minstret=0x'' @ c2'" "e = e'" "img b = img b'" "t = t'"
    by simp_all
  have "s1 = s1' \<and> w1 = w1' \<and> s2 = s2'" by (rule gap_unique [OF e(1)]) (use 1 2 in \<open>simp_all add: hexs_def\<close>)
  moreover have "c1 = c1' \<and> w2 = w2' \<and> c2 = c2'" by (rule gap_unique [OF e(2)]) (use 1 2 in \<open>simp_all add: hexs_def\<close>)
  moreover have "echo b = echo b' \<and> overrun b = overrun b'" using echo_spec_unique 1(6) 2(6) e(3) by blast
  ultimately show ?thesis using 1(7-) 2(7-) e(4,5) by (intro Block.equality) simp_all
qed

lemma parse_body_iff:
  assumes "\<And>l. l \<in> set body \<Longrightarrow> CHR 0x0A \<notin> set l"
  shows "parse_body n body = (Some b, []) \<longleftrightarrow> body_spec body b"
proof
  assume b: "body_spec body b"
  then obtain s1 s2 w1 c1 c2 w2 e t where
    body: "body = [''hello=Hello, world!'', ''sw=0x'' @ s1 @ w1 @ ''btn=0x'' @ s2,
       ''mcycle=0x'' @ c1 @ w2 @ ''minstret=0x'' @ c2, ''echo='' @ e, ''img='' @ img b, ''iter=0x'' @ t]"
    and h: "spaces w1" "spaces w2" "hexs 1 s1" "hexs 1 s2" "hexs 8 c1" "hexs 8 c2" "hexs 8 t"
      "echo_spec e (echo b) (overrun b)" "img b = ''OK'' \<or> (\<exists>h. hexs 8 h \<and> img b = ''BAD 0x'' @ h)"
    unfolding body_spec_def by (elim exE conjE)
  obtain g0 where g0: "re_match RE_HELLO ''hello=Hello, world!'' = Some g0"
    using hello_iff [of "''hello=Hello, world!''"] by auto
  from gpio_ok [OF h(1,3,4)] cnt_ok [OF h(2,5,6)] echo_ok [OF h(8)] img_ok [OF h(9)] iter_ok [OF h(7)]
  have "\<exists>b'. parse_body n body = (Some b', [])"
    unfolding body parse_body_def by (elim exE) (simp add: g0 Let_def)
  then obtain b' where b': "parse_body n body = (Some b', [])" by blast
  with parse_body_spec [OF assms b'] body_spec_unique [OF b] show "parse_body n body = (Some b, [])" by simp
qed (use parse_body_spec [OF assms] in blast)

lemma parse_body_None: "parse_body n body = (None, es) \<Longrightarrow> es \<noteq> []"
  by (auto simp: parse_body_def Let_def split: if_splits option.splits)

section \<open>Framing\<close>

text \<open>The bodies of the complete blocks, found in one pass: a start marker drops a pending block, an
  end marker closes it.\<close>

fun frames :: "string list option \<Rightarrow> string list \<Rightarrow> string list list" where
  "frames cur [] = []"
| "frames cur (l # ls) = (
    if strip l = START then frames (Some []) ls
    else case cur of
      None \<Rightarrow> frames None ls
    | Some c \<Rightarrow> if strip l = SOC_END then c # frames None ls else frames (Some (c @ [strip l])) ls)"

lemma START_END: "START \<noteq> SOC_END" "SOC_END \<noteq> START"
  by (simp_all add: START_def SOC_END_def)

lemma frames_take: "take_body ls = (body, rest) \<Longrightarrow> frames (Some c) ls = frames (Some (c @ body)) rest"
proof (induction ls arbitrary: c body)
  case (Cons l ls)
  show ?case
  proof (cases "strip l = SOC_END \<or> strip l = START")
    case False
    with Cons.prems obtain b where "take_body ls = (b, rest)" "body = strip l # b"
      by (cases "take_body ls") auto
    with Cons.IH [OF this(1), of "c @ [strip l]"] False show ?thesis by simp
  qed (use Cons.prems in auto)
qed simp

lemma take_body_head: "take_body ls = (body, e # es) \<Longrightarrow> strip e = SOC_END \<or> strip e = START"
proof (induction ls arbitrary: body)
  case (Cons l ls)
  then show ?case by (cases "take_body ls") (auto split: if_splits)
qed simp

lemma take_body_lines: "take_body ls = (body, rest) \<Longrightarrow> set body \<subseteq> strip ` set ls \<and> set rest \<subseteq> set ls"
proof (induction ls arbitrary: body)
  case (Cons l ls)
  then show ?case by (cases "take_body ls") (force split: if_splits)
qed simp

definition no_newline :: "string list \<Rightarrow> bool" where
  "no_newline ls \<longleftrightarrow> (\<forall>l\<in>set ls. CHR 0x0A \<notin> set l)"

lemma strip_subset: "set (strip l) \<subseteq> set l"
  unfolding strip_def rstrip_def lstrip_def by (auto dest!: set_dropWhileD)

lemma parse_loop_frames:
  "no_newline ls \<Longrightarrow> parse_loop n ls = (bs, []) \<longleftrightarrow> list_all2 body_spec (frames None ls) bs"
proof (induction n ls arbitrary: bs rule: parse_loop.induct)
  case (1 n)
  then show ?case by auto
next
  case (2 n l ls)
  have nl: "no_newline ls" using "2.prems" by (simp add: no_newline_def)
  show ?case
  proof (cases "strip l = START")
    case False
    with "2.IH"(1) [OF False nl] show ?thesis by simp
  next
    case True
    obtain body rest where t: "take_body ls = (body, rest)" by fastforce
    have f: "frames None (l # ls) = frames (Some body) rest" using frames_take [OF t, of "[]"] True by simp
    show ?thesis
    proof (cases rest)
      case Nil
      with t True f show ?thesis by (auto simp: Let_def)
    next
      case (Cons e es)
      note lines = take_body_lines [OF t [unfolded Cons]]
      have nr: "no_newline (e # es)" "no_newline es" using lines nl unfolding no_newline_def by auto
      show ?thesis
      proof (cases "strip e = SOC_END")
        case False
        with take_body_head [OF t [unfolded Cons]] have s: "strip e = START" by simp
        from "2.IH"(2) [OF _ refl t [symmetric] refl Cons False nr(1)] True t Cons False
        have "parse_loop n (l # ls) = (bs, []) \<longleftrightarrow> list_all2 body_spec (frames None (e # es)) bs" by (simp add: Let_def)
        then show ?thesis unfolding f Cons using s by simp
      next
        case E: True
        have bl: "\<And>x. x \<in> set body \<Longrightarrow> CHR 0x0A \<notin> set x"
          using lines nl strip_subset unfolding no_newline_def by blast
        obtain b errs where pb: "parse_body n body = (b, errs)" by fastforce
        obtain bs' more where pl: "parse_loop (n + 1 + length body + 1) es = (bs', more)" by fastforce
        have ih: "\<And>xs. parse_loop (n + 1 + length body + 1) es = (xs, []) \<longleftrightarrow> list_all2 body_spec (frames None es) xs"
          using "2.IH"(3) [OF _ refl t [symmetric] refl Cons _ refl pb [symmetric] nr(2)] True E by simp
        have p: "parse_loop n (l # ls) = ((case b of None \<Rightarrow> bs' | Some b \<Rightarrow> b # bs'), errs @ more)"
          using True E pb pl by (simp add: t Cons Let_def)
        have g: "frames None (l # ls) = body # frames None es" unfolding f Cons using E START_END by simp
        show ?thesis
        proof (cases b)
          case None
          with parse_body_None pb have "errs \<noteq> []" by blast
          moreover have "\<not> body_spec body x" for x
            using parse_body_iff [where body = body and n = n and b = x] bl pb None by simp
          ultimately show ?thesis unfolding p g by (auto simp: list_all2_Cons1)
        next
          case (Some x)
          with parse_body_spec [OF bl] pb have x: "errs = []" "body_spec body x" by auto
          have u: "body_spec body y \<longleftrightarrow> x = y" for y using body_spec_unique [OF x(2)] x(2) by blast
          show ?thesis
          proof (cases bs)
            case (Cons y ys)
            from ih [of ys, unfolded pl prod.inject] show ?thesis
              unfolding p g Some Cons by (auto simp: u x(1))
          next
            case Nil
            then show ?thesis unfolding p g Some by simp
          qed
        qed
      qed
    qed
  qed
qed

section \<open>The accepted captures\<close>

lemma split_on_clean: "l \<in> set (split_on c s) \<Longrightarrow> c \<notin> set l"
proof (induction s arbitrary: l)
  case (Cons x xs)
  then show ?case by (cases "split_on c xs") (auto split: if_splits)
qed simp

definition moves :: "Block \<Rightarrow> Block \<Rightarrow> bool" where
  "moves a b \<longleftrightarrow> iter b = iter a + 1 \<and> mcycle a < mcycle b \<and> minstret a < minstret b"

definition wanted :: "int option \<Rightarrow> (Block \<Rightarrow> nat) \<Rightarrow> Block list \<Rightarrow> bool" where
  "wanted e f bs \<longleftrightarrow> (\<forall>v. e = Some v \<longrightarrow> bs \<noteq> [] \<and> int (f (hd bs)) = v)"

text \<open>The condition on the blocks of a capture.\<close>

definition healthy :: "soc_args \<Rightarrow> Block list \<Rightarrow> bool" where
  "healthy a bs \<longleftrightarrow> min_blocks a \<le> int (length bs) \<and> successively moves bs \<and> (\<forall>b\<in>set bs. img b = ''OK'')
   \<and> (\<forall>v. expect_echo a = Some v \<longrightarrow> (\<exists>b\<in>set bs. map_option int (echo b) = Some v))
   \<and> wanted (expect_sw a) sw bs \<and> wanted (expect_btn a) btn bs"

lemma steps_nil: "concat (map (\<lambda>(x, y). step_findings x y) (zip bs (tl bs))) = [] \<longleftrightarrow> successively moves bs"
proof (induction bs rule: induct_list012)
  case (3 x y zs)
  have "step_findings x y = [] \<longleftrightarrow> moves x y" by (auto simp: step_findings_def moves_def)
  with "3.IH"(2) show ?case by simp
qed auto

lemma img_nil: "img_findings bs = [] \<longleftrightarrow> (\<forall>b\<in>set bs. img b = ''OK'')"
proof -
  have "img_findings bs = [] \<longleftrightarrow> filter (\<lambda>b. img b \<noteq> ''OK'') bs = []"
    by (cases "filter (\<lambda>b. img b \<noteq> ''OK'') bs") (simp_all add: img_findings_def)
  then show ?thesis by (simp only: filter_empty_conv) blast
qed

lemma soc_check_healthy:
  assumes "parse_blocks txt = (bs, es)"
  shows "soc_check txt a = Inr (True, fs) \<longleftrightarrow> es = [] \<and> fs = [] \<and> healthy a bs"
  unfolding soc_check_def assms healthy_def wanted_def Let_def prod.case steps_nil [symmetric] img_nil [symmetric]
  by (cases "expect_sw a"; cases "expect_btn a"; cases "expect_echo a") (auto simp: rbind_Inr_iff split: if_splits)

lemma soc_main_iff:
  "soc_main txt a = Inr 0 \<longleftrightarrow>
    (\<exists>bs. list_all2 body_spec (frames None (split_on CHR 0x0A (norm_newlines txt))) bs \<and> healthy a bs)"
proof -
  obtain bs es where p: "parse_blocks txt = (bs, es)" by fastforce
  have m: "soc_main txt a = Inr 0 \<longleftrightarrow> es = [] \<and> healthy a bs"
  proof -
    have "soc_main txt a = Inr 0 \<longleftrightarrow> (\<exists>fs. soc_check txt a = Inr (True, fs))"
      by (auto simp: soc_main_def rbind_Inr_iff split: if_splits)
    then show ?thesis unfolding soc_check_healthy [OF p] by simp
  qed
  have nl: "no_newline (split_on CHR 0x0A (norm_newlines txt))"
    unfolding no_newline_def using split_on_clean by blast
  note f = parse_loop_frames [OF nl, of 1, folded parse_blocks_def]
  show ?thesis
  proof
    assume "soc_main txt a = Inr 0"
    with m have "es = []" "healthy a bs" by simp_all
    with f p show "\<exists>bs. list_all2 body_spec (frames None (split_on CHR 0x0A (norm_newlines txt))) bs \<and> healthy a bs" by auto
  next
    assume "\<exists>bs. list_all2 body_spec (frames None (split_on CHR 0x0A (norm_newlines txt))) bs \<and> healthy a bs"
    then obtain bs' where b: "list_all2 body_spec (frames None (split_on CHR 0x0A (norm_newlines txt))) bs'" "healthy a bs'"
      by blast
    with f have "parse_blocks txt = (bs', [])" by simp
    with p m b(2) show "soc_main txt a = Inr 0" by simp
  qed
qed

text \<open>C26: the SoC capture checker exits with 0 exactly when every complete block of the capture has the
  six lines of the format, there are enough blocks, each block continues its predecessor (the
  iteration by one, both counters strictly), every image check is \<open>OK\<close>, and the expected echo,
  switches and buttons were seen.\<close>

theorem soc_accept_iff:
  "soc_main txt a = Inr 0 \<longleftrightarrow>
    (\<exists>bs. list_all2 body_spec (frames None (split_on CHR 0x0A (norm_newlines txt))) bs \<and> healthy a bs)"
  by (rule soc_main_iff)

end
