(* ===== verification/Regress.thy ===== *)
theory Regress
  imports Rtl_Deps
begin

text \<open>
  The regression runner, \<^verbatim>\<open>tb/run_regress.py\<close>: the registry of tests, the run of one test and the
  exit code. What a test reads of the machine (which executables and files exist, what its command
  does) is the record \<open>world\<close>; a command ends with a return code and an output, with a timeout, or
  cannot be started. Times and the printed table are left out.
\<close>

section \<open>Tests and results\<close>

datatype status = PASS | FAIL | SKIP | XFAIL

record test =
  name :: string
  group :: string
  argv :: "string list"
  cwd :: string
  timeout :: nat
  requires :: "string list"
  expect_fail :: bool
  env :: "(string \<times> string) list"

text \<open>The constructor with the defaults of the fields.\<close>

definition Test :: "string \<Rightarrow> string \<Rightarrow> string \<Rightarrow> string list \<Rightarrow> test" where
  "Test root n g cmd = \<lparr>name = n, group = g, argv = cmd, cwd = root, timeout = 600, requires = [],
     expect_fail = False, env = []\<rparr>"

record result =
  r_test :: test
  r_status :: status
  r_detail :: string
  r_output :: string

definition FAST_SKIPS :: "string list" where
  "FAST_SKIPS = [''mutation_pipeline'', ''riscv_formal'', ''formal_muldiv'']"

section \<open>The registry\<close>

text \<open>\<open>discover\<close> appends the tests in order: the units and the whole core's simulation, the cosimulation
  suites, the SoC and the benchmarks, the pre-flights and the proofs of the extensions.\<close>

definition discover_1 :: "string \<Rightarrow> string \<Rightarrow> test list" where
  "discover_1 py root = [
    (Test root ''verilator_lint'' ''rtl''
      [py, path_join root ''tb/lint_all.py''])
      \<lparr>timeout := 300, requires := [''verilator'']\<rparr>,
    (Test root ''verilator_sim_sync_reset'' ''rtl''
      [py, path_join root ''tb/unit/test_sync_reset_verilator.py''])
      \<lparr>timeout := 300, requires := [''verilator'']\<rparr>,
    (Test root ''verilator_sim_blinky'' ''rtl''
      [py, path_join root ''tb/unit/test_blinky_verilator.py''])
      \<lparr>timeout := 600, requires := [''verilator'']\<rparr>,
    (Test root ''formal_sync_reset'' ''formal''
      [py, path_join root ''tb/formal/run_formal.py'', ''--design'',
        ''rvntt_sync_reset''])
      \<lparr>timeout := 600, requires := [''sby'', ''yosys'']\<rparr>,
    (Test root ''cocotb_sync_reset'' ''cocotb''
      [py, path_join root ''tb/cocotb/run_cocotb.py'', ''--design'', ''sync_reset''])
      \<lparr>cwd := path_join root ''tb/cocotb'', timeout := 600, requires := [''verilator'']\<rparr>,
    (Test root ''spike_smoke'' ''cosim''
      [py, path_join root ''tb/cosim/run_spike_smoke.py''])
      \<lparr>timeout := 300, requires := [''spike'', ''riscv-none-elf-gcc'']\<rparr>,
    (Test root ''verilator_sim_regfile'' ''rtl''
      [py, path_join root ''tb/unit/test_regfile_verilator.py''])
      \<lparr>timeout := 300, requires := [''verilator'']\<rparr>,
    (Test root ''formal_regfile'' ''formal''
      [py, path_join root ''tb/formal/run_formal.py'', ''--design'',
        ''rvntt_regfile'', ''--depth'', ''8''])
      \<lparr>timeout := 600, requires := [''sby'', ''yosys'']\<rparr>,
    (Test root ''cocotb_alu'' ''cocotb''
      [py, path_join root ''tb/cocotb/run_cocotb.py'', ''--design'', ''alu''])
      \<lparr>cwd := path_join root ''tb/cocotb'', timeout := 900, requires := [''verilator'']\<rparr>,
    (Test root ''cocotb_immgen'' ''cocotb''
      [py, path_join root ''tb/cocotb/run_cocotb.py'', ''--design'', ''immgen''])
      \<lparr>cwd := path_join root ''tb/cocotb'', timeout := 900, requires := [''verilator'']\<rparr>,
    (Test root ''formal_alu'' ''formal''
      [py, path_join root ''tb/formal/run_formal.py'', ''--design'', ''rvntt_alu'',
        ''--depth'', ''2''])
      \<lparr>timeout := 600, requires := [''sby'', ''yosys'']\<rparr>,
    (Test root ''formal_immgen'' ''formal''
      [py, path_join root ''tb/formal/run_formal.py'', ''--design'', ''rvntt_immgen'',
        ''--depth'', ''2''])
      \<lparr>timeout := 600, requires := [''sby'', ''yosys'']\<rparr>,
    (Test root ''cocotb_decode'' ''cocotb''
      [py, path_join root ''tb/cocotb/run_cocotb.py'', ''--design'', ''decode''])
      \<lparr>cwd := path_join root ''tb/cocotb'', timeout := 1200, requires := [''verilator'']\<rparr>,
    (Test root ''formal_bitmanip'' ''formal''
      [py, path_join root ''tb/formal/run_formal.py'', ''--design'',
        ''rvntt_bitmanip'', ''--depth'', ''2''])
      \<lparr>timeout := 600, requires := [''sby'', ''yosys'']\<rparr>,
    (Test root ''formal_decode'' ''formal''
      [py, path_join root ''tb/formal/run_formal.py'', ''--design'', ''rvntt_decode'',
        ''--depth'', ''2''])
      \<lparr>timeout := 600, requires := [''sby'', ''yosys'']\<rparr>,
    (Test root ''formal_forward'' ''formal''
      [py, path_join root ''tb/formal/run_formal.py'', ''--design'',
        ''rvntt_forward'', ''--depth'', ''2''])
      \<lparr>timeout := 600, requires := [''sby'', ''yosys'']\<rparr>,
    (Test root ''formal_hazard'' ''formal''
      [py, path_join root ''tb/formal/run_formal.py'', ''--design'', ''rvntt_hazard'',
        ''--depth'', ''2''])
      \<lparr>timeout := 600, requires := [''sby'', ''yosys'']\<rparr>,
    (Test root ''formal_branch'' ''formal''
      [py, path_join root ''tb/formal/run_formal.py'', ''--design'', ''rvntt_branch'',
        ''--depth'', ''2''])
      \<lparr>timeout := 600, requires := [''sby'', ''yosys'']\<rparr>,
    (Test root ''formal_csr'' ''formal''
      [py, path_join root ''tb/formal/run_formal.py'', ''--design'', ''rvntt_csr'',
        ''--depth'', ''6''])
      \<lparr>timeout := 600, requires := [''sby'', ''yosys'']\<rparr>]"

definition discover_2 :: "string \<Rightarrow> string \<Rightarrow> test list" where
  "discover_2 py root = [
    (Test root ''formal_muldiv'' ''formal''
      [py, path_join root ''tb/formal/run_formal.py'', ''--design'', ''rvntt_muldiv'',
        ''--depth'', ''37''])
      \<lparr>timeout := 1800, requires := [''sby'', ''yosys'']\<rparr>,
    (Test root ''formal_bpred'' ''formal''
      [py, path_join root ''tb/formal/run_formal.py'', ''--design'', ''rvntt_bpred'',
        ''--depth'', ''12'', ''--param'', ''BTB_ENTRIES=8'', ''--param'',
        ''RAS_ENTRIES=4''])
      \<lparr>timeout := 1800, requires := [''sby'', ''yosys'']\<rparr>,
    (Test root ''core_a4_checksum'' ''rtl''
      [py, path_join root ''tb/unit/test_core_verilator.py''])
      \<lparr>timeout := 900, requires := [''verilator'', ''riscv-none-elf-gcc'', ''spike'']\<rparr>,
    (Test root ''cosim_commit_log'' ''cosim''
      [py, path_join root ''tb/cosim/test_cosim_a5.py'', ''-n'', ''100'', ''--len'',
        ''300'', ''--raw-density'', ''1.0'', ''--load-use-density'', ''1.0'',
        ''--branch-density'', ''0.12'', ''--mul-density'', ''0.10'', ''--bm-density'',
        ''0.15''])
      \<lparr>timeout := 1800, requires := [''verilator'', ''riscv-none-elf-gcc'', ''spike'']\<rparr>,
    (Test root ''cosim_directed'' ''cosim''
      [py, path_join root ''tb/cosim/test_cosim_directed.py''])
      \<lparr>timeout := 900, requires := [''verilator'', ''riscv-none-elf-gcc'', ''spike'']\<rparr>,
    (Test root ''csr_traps_minstret'' ''cosim''
      [py, path_join root ''tb/cosim/test_csr_traps.py''])
      \<lparr>timeout := 900, requires := [''verilator'', ''riscv-none-elf-gcc'', ''spike'']\<rparr>,
    (Test root ''hpm_counters'' ''cosim''
      [py, path_join root ''tb/cosim/test_hpm_a20.py''])
      \<lparr>timeout := 900, requires := [''verilator'', ''riscv-none-elf-gcc'', ''spike'']\<rparr>,
    (Test root ''riscv_tests'' ''cosim''
      [py, path_join root ''tb/cosim/test_riscv_tests.py''])
      \<lparr>timeout := 1800, requires := [''verilator'', ''riscv-none-elf-gcc'', ''spike'']\<rparr>,
    (Test root ''riscof_arch_test'' ''cosim''
      [py, path_join root ''tb/riscof/run_riscof.py'', ''--no-save-report''])
      \<lparr>timeout := 3600, requires := [''verilator'', ''riscv-none-elf-gcc'', ''spike'']\<rparr>,
    (Test root ''riscv_formal'' ''formal''
      [py, path_join root ''tb/formal/run_riscv_formal.py''])
      \<lparr>timeout := 1800, requires := [''sby'', ''yosys'']\<rparr>,
    (Test root ''soc_sim'' ''rtl''
      [py, path_join root ''tb/unit/test_soc_verilator.py''])
      \<lparr>timeout := 900, requires := [''verilator'', ''riscv-none-elf-gcc'']\<rparr>,
    (Test root ''soc_uart_parser'' ''meta''
      [py, path_join root ''tb/fpga/parse_soc_uart.py'', ''--selftest''])
      \<lparr>timeout := 120\<rparr>,
    (Test root ''xdc_pin_map'' ''fpga''
      [py, path_join root ''tb/fpga/check_xdc_pins.py''])
      \<lparr>timeout := 120\<rparr>,
    (Test root ''soc_hardware'' ''fpga''
      [py, path_join root ''fpga/scripts/hw_bringup.py'', ''--regress''])
      \<lparr>timeout := 900\<rparr>,
    (Test root ''bench_printf'' ''meta''
      [py, path_join root ''tb/unit/test_bench_printf.py'', ''--inject''])
      \<lparr>timeout := 300\<rparr>]"

definition discover_3 :: "string \<Rightarrow> string \<Rightarrow> test list" where
  "discover_3 py root = [
    (Test root ''bench_host'' ''sw''
      [py, path_join root ''tb/unit/test_bench_host.py''])
      \<lparr>timeout := 600\<rparr>,
    (Test root ''bench_sim'' ''rtl''
      [py, path_join root ''tb/unit/test_bench_verilator.py'', ''--blocks'', ''3''])
      \<lparr>timeout := 1800, requires := [''verilator'', ''riscv-none-elf-gcc'']\<rparr>,
    (Test root ''bench_uart_parser'' ''meta''
      [py, path_join root ''tb/fpga/parse_bench_uart.py'', ''--selftest''])
      \<lparr>timeout := 120\<rparr>,
    (Test root ''bench_compare'' ''meta''
      [py, path_join root ''tb/fpga/compare_bench_runs.py'', ''--selftest''])
      \<lparr>timeout := 120\<rparr>,
    (Test root ''stall_profile'' ''perf''
      [py, path_join root ''tb/perf/run_stall_profile.py'', ''--dhry-runs'', ''40'',
        ''--iterations'', ''1'', ''--arch'', ''rv32im'', ''--selftest''])
      \<lparr>timeout := 1800, requires := [''verilator'', ''riscv-none-elf-gcc'']\<rparr>,
    (Test root ''bench_hardware'' ''fpga''
      [py, path_join root ''fpga/scripts/hw_bringup.py'', ''--regress'', ''--bit'',
        path_join root ''fpga/build/bench/rvntt_soc_top.bit'', ''--seconds'', ''120'',
        ''--send-byte'', ''-1'', ''--out-name'', ''bench_uart.log'', ''--parser'',
        path_join root ''tb/fpga/parse_bench_uart.py'', ''--parser-arg=--min-blocks'',
        ''--parser-arg=3'', ''--parser-arg=--warmup-blocks'', ''--parser-arg=1'',
        ''--parser-arg=--json'',
        ''--parser-arg='' @ path_join root ''fpga/build/bench/bench_regress.json''])
      \<lparr>timeout := 1800\<rparr>,
    (Test root ''isa_consistency'' ''meta''
      [py, path_join root ''tb/unit/test_isa_consistency.py''])
      \<lparr>timeout := 120\<rparr>,
    (Test root ''entropy_health'' ''rtl''
      [py, path_join root ''tb/unit/test_entropy_health.py''])
      \<lparr>timeout := 600, requires := [''verilator'']\<rparr>,
    (Test root ''formal_entropy_health'' ''formal''
      [py, path_join root ''tb/formal/run_formal.py'', ''--design'',
        ''rvntt_entropy_health'', ''--depth'', ''30'', ''--param'', ''REP_CUTOFF=5'',
        ''--param'', ''AP_WINDOW=8'', ''--param'', ''AP_CUTOFF=6''])
      \<lparr>timeout := 600, requires := [''sby'', ''yosys'']\<rparr>,
    (Test root ''formal_seed'' ''formal''
      [py, path_join root ''tb/formal/run_formal.py'', ''--design'', ''rvntt_seed'',
        ''--depth'', ''24'', ''--extra'', ''rtl/core/rvntt_entropy.sv'', ''--extra'',
        ''rtl/core/rvntt_entropy_health.sv'', ''--param'', ''BIST_SAMPLES=4'',
        ''--param'', ''REP_CUTOFF=5'', ''--param'', ''AP_WINDOW=8'', ''--param'',
        ''AP_CUTOFF=6''])
      \<lparr>timeout := 600, requires := [''sby'', ''yosys'']\<rparr>,
    (Test root ''zkt_latency'' ''formal''
      [py, path_join root ''tb/formal/run_zkt.py''])
      \<lparr>timeout := 300, requires := [''yosys'']\<rparr>,
    (Test root ''mutation_anchors'' ''meta''
      [py, path_join root ''tb/mutate/run_mutation.py'', ''--check-anchors''])
      \<lparr>timeout := 120\<rparr>]"

definition mutation_pipeline :: "string \<Rightarrow> string \<Rightarrow> test" where
  "mutation_pipeline py root = (Test root ''mutation_pipeline'' ''meta''
      [py, path_join root ''tb/mutate/run_mutation.py''])
      \<lparr>timeout := 3600, requires := [''verilator'', ''riscv-none-elf-gcc'', ''spike'', ''sby'', ''yosys'']\<rparr>"

definition harness_detects_failure :: "string \<Rightarrow> string \<Rightarrow> test" where
  "harness_detects_failure py root = (Test root ''harness_detects_failure'' ''meta''
      [py, ''-c'', ''import sys; sys.exit(3)''])
      \<lparr>timeout := 30, expect_fail := True\<rparr>"

definition discover :: "string \<Rightarrow> string \<Rightarrow> bool \<Rightarrow> bool \<Rightarrow> test list" where
  "discover py root fast no_mutate =
     discover_1 py root @ discover_2 py root @ discover_3 py root
     @ (if \<not> fast \<and> \<not> no_mutate then [mutation_pipeline py root] else [])
     @ [harness_detects_failure py root]"

section \<open>Running a test\<close>

datatype outcome =
    Done int string
  | Timeout_expired
  | Not_found string

record world =
  which :: "string \<Rightarrow> bool"
  exists :: "string \<Rightarrow> bool"
  command :: "test \<Rightarrow> outcome"

text \<open>\<^verbatim>\<open>line.split(":", 1)\<close>: what precedes the first colon, and the last part.\<close>

definition before_colon :: "string \<Rightarrow> string" where
  "before_colon l = takeWhile (\<lambda>c. c \<noteq> CHR '':'') l"

definition last_part :: "string \<Rightarrow> string" where
  "last_part l = (if CHR '':'' \<in> set l then drop 1 (dropWhile (\<lambda>c. c \<noteq> CHR '':'') l) else l)"

definition skip_line :: "string \<Rightarrow> bool" where
  "skip_line l \<longleftrightarrow> endswith (before_colon (strip l)) ''SKIP'' \<and> isupper (before_colon (strip l))"

text \<open>\<^verbatim>\<open>os.path.relpath(p, ROOT)\<close> of a path below the root.\<close>

definition relpath :: "string \<Rightarrow> string \<Rightarrow> string" where
  "relpath root p = (if startswith p (root @ ''/'') then drop (length root + 1) p else p)"

definition regress_run_one :: "string \<Rightarrow> world \<Rightarrow> test \<Rightarrow> result" where
  "regress_run_one root w tst = (
    let missing = filter (\<lambda>r. \<not> which w r) (requires tst);
        script = last (argv tst);
        res = (\<lambda>st detail out. \<lparr>r_test = tst, r_status = st, r_detail = detail, r_output = out\<rparr>)
    in
    if missing \<noteq> [] then res SKIP (''missing tool: '' @ join '','' missing) []
    else if \<not> exists w script \<and> (endswith script ''.sv'' \<or> endswith script ''.py'')
    then res SKIP (''missing file: '' @ relpath root script) []
    else case command w tst of
      Timeout_expired \<Rightarrow> res FAIL (''TIMEOUT after '' @ show_nat (timeout tst) @ ''s'') []
    | Not_found e \<Rightarrow> res SKIP e []
    | Done rc out \<Rightarrow>
        if expect_fail tst then
          (if rc \<noteq> 0 then res XFAIL [] out else res FAIL ''expected nonzero exit, got 0'' out)
        else case filter skip_line (py_lines [] out) of
          l # ls \<Rightarrow> res SKIP (take 60 (strip (last_part (strip l)))) out
        | [] \<Rightarrow> if rc = 0 then res PASS [] out else res FAIL (''exit '' @ show_int rc) out)"

section \<open>The run\<close>

definition select_tests :: "bool \<Rightarrow> string option \<Rightarrow> test list \<Rightarrow> test list" where
  "select_tests fast flt tests = (
    let tests = (if fast then filter (\<lambda>t. name t \<notin> set FAST_SKIPS) tests else tests)
    in case flt of None \<Rightarrow> tests
       | Some f \<Rightarrow> if f = [] then tests else filter (\<lambda>t. is_sub f (name t) \<or> f = group t) tests)"

text \<open>The count of each status.\<close>

definition n_status :: "result list \<Rightarrow> status \<Rightarrow> nat" where
  "n_status results s = length (filter (\<lambda>r. r_status r = s) results)"

text \<open>The exit code. The environment variables \<^verbatim>\<open>RVNTT_FAST\<close> and \<^verbatim>\<open>RVNTT_NO_MUTATE\<close> and the two
  options that decide what is run are arguments.\<close>

definition regress_main :: "world \<Rightarrow> string \<Rightarrow> string \<Rightarrow> bool \<Rightarrow> bool \<Rightarrow> string option \<Rightarrow> bool \<Rightarrow> int" where
  "regress_main w py root fast no_mutate flt list_only = (
    let tests = select_tests fast flt (discover py root fast no_mutate) in
    if list_only then 0
    else if tests = [] then 2
    else let results = map (regress_run_one root w) tests in
      if n_status results FAIL \<noteq> 0 then 1 else 0)"

end
