(* ===== verification/Regress_Props.thy ===== *)
theory Regress_Props
  imports Regress
begin

text \<open>
  The theorems on the regression runner: the exact meaning of its exit code, the self-check that
  notices a harness which cannot fail, and the registry.
\<close>

section \<open>The exit code\<close>

text \<open>What does not fail a regression: a missing tool or file, a command that cannot be started, the
  expected return code, and, for an ordinary test, an output with a skip line.\<close>

definition tolerated :: "world \<Rightarrow> test \<Rightarrow> bool" where
  "tolerated w t \<longleftrightarrow>
     \<not> list_all (which w) (requires t)
   \<or> \<not> exists w (last (argv t)) \<and> (endswith (last (argv t)) ''.sv'' \<or> endswith (last (argv t)) ''.py'')
   \<or> (case command w t of
        Timeout_expired \<Rightarrow> False
      | Not_found e \<Rightarrow> True
      | Done rc out \<Rightarrow> if expect_fail t then rc \<noteq> 0 else rc = 0 \<or> list_ex skip_line (py_lines [] out))"

lemma regress_run_one_tolerated: "r_status (regress_run_one root w t) = FAIL \<longleftrightarrow> \<not> tolerated w t"
proof -
  have "filter skip_line ls = [] \<longleftrightarrow> \<not> list_ex skip_line ls" for ls
    by (induction ls) auto
  moreover have "filter skip_line ls = x # xs \<Longrightarrow> list_ex skip_line ls" for ls x xs
    by (induction ls) (auto split: if_splits)
  moreover have "filter (\<lambda>r. \<not> which w r) (requires t) = [] \<longleftrightarrow> list_all (which w) (requires t)"
    by (simp add: filter_empty_conv list_all_iff)
  ultimately show ?thesis
    by (auto simp: regress_run_one_def tolerated_def Let_def split: outcome.splits list.splits)
qed

lemma n_status_zero: "n_status rs s = 0 \<longleftrightarrow> list_all (\<lambda>r. r_status r \<noteq> s) rs"
  by (induction rs) (auto simp: n_status_def)

lemma regress_main_iff:
  "regress_main w py root fast no_mutate flt False = 0 \<longleftrightarrow>
     select_tests fast flt (discover py root fast no_mutate) \<noteq> []
     \<and> list_all (tolerated w) (select_tests fast flt (discover py root fast no_mutate))"
  by (simp add: regress_main_def Let_def n_status_zero list_all_iff regress_run_one_tolerated)

text \<open>C27: the regression exits with 0 exactly when it selected a test and every selected test was
  tolerated: its tools or its script are missing, its command cannot be started, it returned zero
  (nonzero for the harness's self-check), or its output contains a skip line, whatever it returned.
  In particular a timeout fails the regression.\<close>

theorem regress_exit:
  "regress_main w py root fast no_mutate flt False = 0 \<longleftrightarrow>
     select_tests fast flt (discover py root fast no_mutate) \<noteq> []
     \<and> list_all (tolerated w) (select_tests fast flt (discover py root fast no_mutate))"
  by (rule regress_main_iff)

section \<open>A harness that cannot fail\<close>

lemma select_all: "select_tests False None ts = ts"
  by (simp add: select_tests_def)

lemma harness_registered: "harness_detects_failure py root \<in> set (discover py root fast no_mutate)"
  by (simp add: discover_def)

lemma harness_kept: "t \<in> set ts \<Longrightarrow> name t \<notin> set FAST_SKIPS \<Longrightarrow> t \<in> set (select_tests fast None ts)"
  by (simp add: select_tests_def)

lemma harness_tolerated:
  "tolerated w (harness_detects_failure py root) \<longleftrightarrow> (case command w (harness_detects_failure py root) of
     Timeout_expired \<Rightarrow> False | Not_found e \<Rightarrow> True | Done rc out \<Rightarrow> rc \<noteq> 0)"
  by (cases "command w (harness_detects_failure py root)")
    (simp_all add: tolerated_def harness_detects_failure_def Test_def endswith_def)

text \<open>A harness in which every command appears to succeed is noticed: the self-check test is
  selected in every unfiltered run and then fails it, so the regression exits with 1.\<close>

theorem harness_self_check:
  assumes "command w (harness_detects_failure py root) = Done 0 out"
  shows "regress_main w py root fast no_mutate None False = 1"
proof -
  let ?ts = "select_tests fast None (discover py root fast no_mutate)"
  have m: "harness_detects_failure py root \<in> set ?ts"
    by (rule harness_kept [OF harness_registered])
      (simp add: harness_detects_failure_def Test_def FAST_SKIPS_def)
  have "\<not> tolerated w (harness_detects_failure py root)"
    using assms by (simp add: harness_tolerated)
  with m have "\<not> list_all (tolerated w) ?ts" "?ts \<noteq> []" by (auto simp: list_all_iff)
  then have "regress_main w py root fast no_mutate None False \<noteq> 0" "?ts \<noteq> []"
    by (simp_all add: regress_main_iff)
  then show ?thesis by (auto simp: regress_main_def Let_def split: if_splits)
qed

theorem harness_self_check_witness:
  "regress_main \<lparr>which = \<lambda>x. True, exists = \<lambda>x. True, command = \<lambda>t. Done 0 []\<rparr> ''python3'' ''/r'' True False None False = 1"
  by (rule harness_self_check) simp

text \<open>A command that fails and prints a skip line is counted as skipped: with every command failing that
  way the regression still exits with 0.\<close>

lemma failing_tests_skipped:
  "regress_main \<lparr>which = \<lambda>x. True, exists = \<lambda>x. True, command = \<lambda>t. Done 1 ''X_SKIP: y''\<rparr> py root fast no_mutate None False = 0"
proof -
  have "skip_line ''X_SKIP: y''" by code_simp
  moreover have "py_lines [] ''X_SKIP: y'' = [''X_SKIP: y'']" by code_simp
  ultimately have "tolerated \<lparr>which = \<lambda>x. True, exists = \<lambda>x. True, command = \<lambda>t. Done 1 ''X_SKIP: y''\<rparr> t" for t
    by (simp add: tolerated_def)
  moreover have "select_tests fast None (discover py root fast no_mutate) \<noteq> []"
    using harness_kept [OF harness_registered [of py root fast no_mutate], of fast]
    by (auto simp: harness_detects_failure_def Test_def FAST_SKIPS_def)
  ultimately show ?thesis by (simp add: regress_main_iff list_all_iff)
qed

end
