(* ===== verification/Riscof.thy ===== *)
theory Riscof
  imports Py_Regex
begin

text \<open>
  The RISCOF driver, \<^verbatim>\<open>tb/riscof/run_riscof.py\<close>: the filter of the generated test list, the reading
  of the HTML report, the comparison of the ISA claims and the verdict. What the driver reads of the
  machine and what the external tools produce is the record \<open>riscof_world\<close>. The simulator build and
  the configuration file are in \<open>Sim_Builds\<close>; the printed report is left out.
\<close>

section \<open>What is excluded\<close>

definition EXCLUDED_SUITES :: "string list" where
  "EXCLUDED_SUITES = [''pmp'']"

definition EXCLUDED_TESTS :: "(string \<times> string) list" where
  "EXCLUDED_TESTS = [(''B'', ''clmul-01''), (''B'', ''clmulh-01''), (''B'', ''clmulr-01'')]"

definition SUITE_KEEP_ONLY :: "(string \<times> string list) list" where
  "SUITE_KEEP_ONLY = [(''K'', [''pack-01'', ''packh-01'', ''brev8_32-01'', ''zip-01'', ''unzip-01''])]"

section \<open>The test list\<close>

definition word_class :: "char \<Rightarrow> bool" where
  "word_class c \<longleftrightarrow> is_upper c \<or> is_lower c \<or> is_digit c \<or> c = CHR ''_''"

definition test_class :: "char \<Rightarrow> bool" where
  "test_class c \<longleftrightarrow> word_class c \<or> c = CHR ''.'' \<or> c = CHR ''-''"

definition TEST_RE :: re where
  "TEST_RE = seqs [lit ''rv32i_m/'', Group 1 (Plus word_class), lit ''/src/'', Group 2 (Plus test_class), lit ''.S'']"

definition SUITE_RE :: re where
  "SUITE_RE = seqs [lit ''rv32i_m/'', Group 1 (Plus word_class), lit ''/src/'']"

text \<open>A block is a top-level key with the lines below it.\<close>

fun split_keys :: "string list \<Rightarrow> string list \<Rightarrow> string list list" where
  "split_keys cur [] = (if cur = [] then [] else [cur])"
| "split_keys cur (l # ls) = (
    if l \<noteq> [] \<and> \<not> is_space (hd l) \<and> cur \<noteq> [] then cur # split_keys [l] ls
    else split_keys (cur @ [l]) ls)"

definition keep_test :: "string \<Rightarrow> string \<Rightarrow> bool" where
  "keep_test suite test \<longleftrightarrow>
     suite \<notin> set EXCLUDED_SUITES \<and> (suite, test) \<notin> set EXCLUDED_TESTS
   \<and> (case map_of SUITE_KEEP_ONLY suite of None \<Rightarrow> True | Some keep \<Rightarrow> test \<in> set keep)"

definition keep_block :: "string \<Rightarrow> bool" where
  "keep_block body = (case re_search TEST_RE body of
     Some m \<Rightarrow> keep_test (group m 1) (group m 2)
   | None \<Rightarrow> (case re_search SUITE_RE body of
       Some m2 \<Rightarrow> group m2 1 \<notin> set EXCLUDED_SUITES
     | None \<Rightarrow> True))"

text \<open>The filtered text, the number of tests kept and the number dropped.\<close>

definition filter_testlist :: "string \<Rightarrow> string \<times> nat \<times> int" where
  "filter_testlist txt = (
    let blocks = split_keys [] (keep_lines [] txt);
        text_out = concat (filter keep_block (map concat blocks));
        kept = py_count ''test_path'' text_out
    in (text_out, kept, int (py_count ''test_path'' txt) - int kept))"

section \<open>The report\<close>

definition RESULT_RE :: re where
  "RESULT_RE = seqs [lit ''>'', Many is_space, Group 1 (Alt (lit ''Passed'') (lit ''Failed'')), Many is_space, lit ''<'']"

type_synonym per_suite = "(string \<times> nat \<times> nat) list"

definition bump :: "bool \<Rightarrow> string \<Rightarrow> per_suite \<Rightarrow> per_suite" where
  "bump ok suite per = (
    let (p, f) = (case map_of per suite of None \<Rightarrow> (0, 0) | Some v \<Rightarrow> v);
        v = (if ok then (p + 1, f) else (p, f + 1))
    in if map_of per suite = None then per @ [(suite, v)]
       else map (\<lambda>(k, w). if k = suite then (k, v) else (k, w)) per)"

definition suite_before :: "string \<Rightarrow> nat \<Rightarrow> string" where
  "suite_before h start = (
    let seg = take (start - (start - 3000)) (drop (start - 3000) h);
        names = map (\<lambda>m. group m 1) (re_finditer SUITE_RE seg)
    in if names = [] then ''?'' else last names)"

fun report_loop :: "string \<Rightarrow> (nat \<times> groups) list \<Rightarrow> nat \<Rightarrow> nat \<Rightarrow> per_suite \<Rightarrow> nat \<times> nat \<times> per_suite" where
  "report_loop h [] passed failed per = (passed, failed, per)"
| "report_loop h ((start, m) # ms) passed failed per = (
    let suite = suite_before h start in
    if group m 1 = ''Passed'' then report_loop h ms (passed + 1) failed (bump True suite per)
    else report_loop h ms passed (failed + 1) (bump False suite per))"

definition parse_report :: "string \<Rightarrow> nat \<times> nat \<times> per_suite" where
  "parse_report h = report_loop h (re_finditer_pos RESULT_RE h) 0 0 []"

section \<open>The ISA claims\<close>

definition ISA_RE :: re where
  "ISA_RE = seqs [Bol, Many is_space, lit ''ISA:'', Many is_space, Group 1 (Plus (\<lambda>c. \<not> is_space c))]"

definition RESET_RE :: re where
  "RESET_RE = seqs [Bol, Many is_space, lit ''reset-val:'', Many is_space, Group 1 (Seq (lit ''0x'') (Plus is_hex))]"

definition LETTERS_RE :: re where
  "LETTERS_RE = seqs [lit ''RV32'', Group 1 (Many (\<lambda>c. is_upper c \<and> c \<noteq> CHR ''X'' \<and> c \<noteq> CHR ''Z''))]"

definition MISA_RE :: re where
  "MISA_RE = seqs [lit ''MISA_VALUE'', Many is_space, lit ''='', Many is_space, lit ''32'', ch (CHR 0x27), lit ''h'',
     Group 1 (Plus (\<lambda>c. is_hex c \<or> c = CHR ''_''))]"

definition upper_case :: "string \<Rightarrow> string" where
  "upper_case s = map (\<lambda>c. if is_lower c then char_of (of_char c - 32 :: nat) else c) s"

definition isa_letters :: "string \<Rightarrow> string" where
  "isa_letters isa = (case re_match LETTERS_RE (upper_case isa) of Some m \<Rightarrow> group m 1 | None \<Rightarrow> ''I'')"

fun misa_bits :: "string \<Rightarrow> int \<Rightarrow> int" where
  "misa_bits [] w = w"
| "misa_bits (c # cs) w = misa_bits cs (w OR push_bit (of_char c - of_char CHR ''A'') 1)"

definition check_isa_consistency :: "string \<Rightarrow> string \<Rightarrow> (string \<times> int) res" where
  "check_isa_consistency yaml_text csr_text = (
    rbind (case re_search ISA_RE yaml_text of
             None \<Rightarrow> Inl (SystemExit ''RISCOF_FAIL: no `ISA:`'') | Some m \<Rightarrow> Inr (group m 1)) (\<lambda>isa.
    rbind (case re_search RESET_RE yaml_text of
             None \<Rightarrow> Inl (SystemExit ''RISCOF_FAIL: no misa `reset-val:`'') | Some m \<Rightarrow> int_base 16 (group m 1)) (\<lambda>yaml_misa.
    let want = misa_bits (isa_letters isa) 0x40000000 in
    rbind (raise_if (yaml_misa \<noteq> want) (SystemExit ''RISCOF_FAIL: the extension letters imply another misa'')) (\<lambda>u.
    rbind (case re_search MISA_RE csr_text of
             None \<Rightarrow> Inl (SystemExit ''RISCOF_FAIL: no MISA_VALUE'')
           | Some m \<Rightarrow> int_base 16 (replace_all ''_'' [] (group m 1))) (\<lambda>rtl_misa.
    rbind (raise_if (rtl_misa \<noteq> yaml_misa) (SystemExit ''RISCOF_FAIL: misa disagrees'')) (\<lambda>u.
    Inr (isa, yaml_misa)))))))"

section \<open>The run\<close>

text \<open>What is on disk, and the tools: the simulator build, the list riscof generates (\<open>None\<close> when it
  fails), and a run over a test list, with the report it leaves and its return code.\<close>

record riscof_world =
  has_archtest :: bool
  has_riscof :: bool
  yaml_file :: string
  csr_file :: string
  sim_built :: bool
  gen_testlist :: "string option"
  riscof_run :: "string \<Rightarrow> string option \<times> int"

definition riscof_main :: "riscof_world \<Rightarrow> int res" where
  "riscof_main w = (
    if \<not> has_archtest w then Inr 0
    else if \<not> has_riscof w then Inr 0
    else
      rbind (check_isa_consistency (yaml_file w) (csr_file w)) (\<lambda>(isa, misa).
      rbind (raise_if (\<not> sim_built w) (RuntimeError ''building the simulator failed'')) (\<lambda>u.
      case gen_testlist w of None \<Rightarrow> Inr 1
      | Some txt \<Rightarrow>
          let (text_out, kept, dropped) = filter_testlist txt; (report, rc) = riscof_run w text_out in
          case report of None \<Rightarrow> Inr 1
          | Some h \<Rightarrow>
              let (passed, failed, per) = parse_report h in
              Inr (if failed \<noteq> 0 \<or> passed = 0 \<or> rc \<noteq> 0 then 1 else 0))))"

end
