(* ===== verification/Riscof_Props.thy ===== *)
theory Riscof_Props
  imports Riscof
begin

text \<open>
  The theorems on the RISCOF driver: which tests of a generated list are run, what an accepted run
  establishes, and what the comparison of the ISA claims guarantees.
\<close>

section \<open>Matching a test path\<close>

lemma class_slash: "\<not> word_class CHR ''/''" by code_simp
lemma class_dot: "test_class CHR ''.''" "test_class CHR ''S''" by code_simp+

lemma test_match:
  assumes "list_all word_class suite" "suite \<noteq> []" "list_all test_class test" "test \<noteq> []"
    "post = [] \<or> \<not> test_class (hd post)"
  shows "\<exists>m s'. match_at TEST_RE q (''rv32i_m/'' @ suite @ ''/src/'' @ test @ ''.S'' @ post) = Some (m, s')
    \<and> group m 1 = suite \<and> group m 2 = test"
proof -
  let ?t = "''/src/'' @ test @ ''.S'' @ post"
  let ?s = "''rv32i_m/'' @ suite @ ?t"
  let ?done = "done_k ?s"
  let ?w = "take (length ?s - length post) ?s"
  obtain y ys where test: "test = y # ys" using assms(4) by (cases test) auto
  have fails: "mt (lit ''.S'') k q (drop i ''.S'' @ post) g = None" if "0 < i" "i \<le> 2" for i q g and k :: "'b cont"
  proof (rule mt_lit_miss)
    have "i = 1 \<or> i = 2" using that by auto
    then show "take (length ''.S'') (drop i ''.S'' @ post) \<noteq> ''.S''"
    proof
      assume "i = 2"
      have "take (Suc (Suc 0)) post \<noteq> ''.S''"
      proof
        assume "take (Suc (Suc 0)) post = ''.S''"
        then have "post \<noteq> [] \<and> hd post = CHR ''.''" by (cases post) auto
        with assms(5) class_dot show False by simp
      qed
      then show ?thesis using \<open>i = 2\<close> by simp
    qed simp
  qed
  have inner: "\<exists>x. mt (seqs [Group 2 (Plus test_class), lit ''.S'']) ?done q (test @ ''.S'' @ post) [(1, suite)]
      = Some ((0, ?w) # [(2, test), (1, suite)], x)" for q
  proof -
    define k where "k = (\<lambda>p' s' g'. mt (seqs [lit ''.S'']) ?done p' s'
       ((2, take (length (test @ ''.S'' @ post) - length s') (test @ ''.S'' @ post)) # g'))"
    have k0: "k p (''.S'' @ post) [(1, suite)] = Some ((0, ?w) # [(2, test), (1, suite)], post)" for p
      unfolding k_def by (simp add: mt_lit ch_def done_k_def)
    have "greedy test_class k (Some y) (ys @ ''.S'' @ post) [(1, suite)]
      = Some ((0, ?w) # [(2, test), (1, suite)], post)"
    proof (rule greedy_back)
      show "list_all test_class (ys @ ''.S'')" using assms(3) test class_dot by simp
      show "k q (drop i ''.S'' @ post) [(1, suite)] = None" if "0 < i" "i \<le> length ''.S''" for i q
        using fails [of i] that unfolding k_def by (simp del: lit.simps)
    qed (use assms(5) k0 in auto)
    then show ?thesis using assms(3) by (simp add: Plus_def test k_def)
  qed
  have "mt TEST_RE ?done q ?s [] = mt (seqs [Group 1 (Plus word_class), lit ''/src/'', Group 2 (Plus test_class), lit ''.S'']) ?done
      (Some CHR ''/'') (suite @ ?t) []"
    unfolding TEST_RE_def seqs.simps(2) [of "lit ''rv32i_m/''"] mt.simps(2) by (simp only: mt_lit) simp
  also have "\<dots> = mt (Plus word_class) (\<lambda>p' s' g'. mt (seqs [lit ''/src/'', Group 2 (Plus test_class), lit ''.S'']) ?done p' s'
       ((1, take (length (suite @ ?t) - length s') (suite @ ?t)) # g')) (Some CHR ''/'') (suite @ ?t) []"
    unfolding seqs.simps(2) [of "Group 1 (Plus word_class)"] mt.simps(2,7) ..
  finally have step: "mt TEST_RE ?done q ?s [] = \<dots>" .
  obtain q' x where x: "mt (seqs [lit ''/src/'', Group 2 (Plus test_class), lit ''.S'']) ?done (Some (last suite)) ?t [(1, suite)]
      = Some ((0, ?w) # [(2, test), (1, suite)], x)"
    using inner unfolding seqs.simps(2) [of "lit ''/src/''"] mt.simps(2) mt_lit by auto
  have "mt TEST_RE ?done q ?s [] = Some ((0, ?w) # [(2, test), (1, suite)], x)"
    unfolding step
  proof (rule plus_run)
    show "?t = [] \<or> \<not> word_class (hd ?t)" using class_slash by simp
  qed (use assms(1,2) x in \<open>simp_all del: lit.simps seqs.simps\<close>)
  then show ?thesis unfolding match_at_def by (simp add: group_def)
qed

section \<open>The filter of the test list\<close>

text \<open>A test of the list: its lines, of which only the first starts without space, and the suite and
  name of the first test path in them.\<close>

definition text_line :: "string \<Rightarrow> bool" where
  "text_line l \<longleftrightarrow> (\<exists>x. l = x @ [CHR 0x0A] \<and> list_all (\<lambda>c. \<not> line_break c) x)"

definition block_lines :: "string list \<Rightarrow> bool" where
  "block_lines ls \<longleftrightarrow> ls \<noteq> [] \<and> list_all text_line ls \<and> \<not> is_space (hd (hd ls))
     \<and> list_all (\<lambda>l. is_space (hd l)) (tl ls)"

definition names_test :: "string \<Rightarrow> string \<Rightarrow> string \<Rightarrow> bool" where
  "names_test body suite test \<longleftrightarrow> (\<exists>pre post. body = pre @ ''rv32i_m/'' @ suite @ ''/src/'' @ test @ ''.S'' @ post
     \<and> (\<forall>i<length pre. take 8 (drop i body) \<noteq> ''rv32i_m/'')
     \<and> list_all word_class suite \<and> suite \<noteq> [] \<and> list_all test_class test \<and> test \<noteq> []
     \<and> (post = [] \<or> \<not> test_class (hd post)))"

lemma match_needs_path:
  assumes "take 8 s \<noteq> ''rv32i_m/''"
  shows "match_at (seqs (lit ''rv32i_m/'' # rs)) q s = None"
  unfolding match_at_def seqs.simps(2) mt.simps(2) by (rule mt_lit_miss) (use assms in \<open>simp add: eval_nat_numeral\<close>)

lemma keep_block_test:
  assumes "names_test body suite test"
  shows "keep_block body = keep_test suite test"
proof -
  from assms obtain pre post where b: "body = pre @ ''rv32i_m/'' @ suite @ ''/src/'' @ test @ ''.S'' @ post"
    and f: "\<forall>i<length pre. take 8 (drop i body) \<noteq> ''rv32i_m/''"
    and c: "list_all word_class suite" "suite \<noteq> []" "list_all test_class test" "test \<noteq> []"
      "post = [] \<or> \<not> test_class (hd post)"
    unfolding names_test_def by blast
  have "\<exists>q. search_from TEST_RE None body = search_from TEST_RE q (''rv32i_m/'' @ suite @ ''/src/'' @ test @ ''.S'' @ post)"
    unfolding b
  proof (rule search_skip)
    fix i q assume "i < length pre"
    with f show "match_at TEST_RE q (drop i (pre @ ''rv32i_m/'' @ suite @ ''/src/'' @ test @ ''.S'' @ post)) = None"
      unfolding b [symmetric] TEST_RE_def by (intro match_needs_path) simp
  qed
  then obtain q where q: "search_from TEST_RE None body = search_from TEST_RE q (''rv32i_m/'' @ suite @ ''/src/'' @ test @ ''.S'' @ post)"
    by blast
  from test_match [OF c, of q] obtain m s' where
    m: "match_at TEST_RE q (''rv32i_m/'' @ suite @ ''/src/'' @ test @ ''.S'' @ post) = Some (m, s')"
    "group m 1 = suite" "group m 2 = test" by blast
  have "re_search TEST_RE body = Some m" by (simp only: re_search_def q search_here [OF m(1)] option.map prod.sel)
  then show ?thesis using m(2,3) by (simp add: keep_block_def)
qed

lemma keep_lines_line: "list_all (\<lambda>c. \<not> line_break c) x \<Longrightarrow>
    keep_lines acc (x @ CHR 0x0A # s) = (rev acc @ x @ [CHR 0x0A]) # keep_lines [] s"
proof (induction x arbitrary: acc)
  case Nil
  then show ?case by (simp add: line_break_def)
next
  case (Cons c x)
  then have "c \<noteq> CHR 0x0D" "\<not> line_break c" by (auto simp: line_break_def)
  with Cons show ?case by simp
qed

lemma keep_lines_text: "list_all text_line ls \<Longrightarrow> keep_lines [] (concat ls) = ls"
  by (induction ls) (auto simp: text_line_def keep_lines_line)

lemma split_keys_tail: "list_all (\<lambda>l. is_space (hd l)) ls \<Longrightarrow> list_all text_line ls \<Longrightarrow>
    split_keys cur (ls @ rest) = split_keys (cur @ ls) rest"
  by (induction ls arbitrary: cur) (auto simp: text_line_def)

lemma split_keys_blocks:
  "list_all block_lines bs \<Longrightarrow> cur \<noteq> [] \<Longrightarrow> split_keys cur (concat bs) = cur # bs"
proof (induction bs arbitrary: cur)
  case (Cons b bs)
  then obtain l ls where b: "b = l # ls" "list_all text_line b" "\<not> is_space (hd l)" "list_all (\<lambda>l. is_space (hd l)) ls"
    by (cases b) (auto simp: block_lines_def)
  then have "l \<noteq> []" by (auto simp: text_line_def)
  with b Cons.prems have "split_keys cur (concat (b # bs)) = cur # split_keys [l] (ls @ concat bs)" by simp
  also have "split_keys [l] (ls @ concat bs) = split_keys (l # ls) (concat bs)" using split_keys_tail [of ls "[l]"] b by simp
  finally show ?case using Cons.IH [of "l # ls"] Cons.prems b by simp
qed simp

lemma split_keys_all:
  assumes "list_all block_lines bs"
  shows "split_keys [] (concat bs) = bs"
proof (cases bs)
  case (Cons b cs)
  with assms obtain l ls where b: "b = l # ls" "list_all text_line b" "list_all (\<lambda>l. is_space (hd l)) ls"
    by (cases b) (auto simp: block_lines_def)
  have "split_keys [] (concat bs) = split_keys [l] (ls @ concat cs)" by (simp add: Cons b)
  also have "\<dots> = split_keys (l # ls) (concat cs)" using split_keys_tail [of ls "[l]"] b by simp
  also have "\<dots> = bs" using split_keys_blocks [of cs "l # ls"] assms Cons b by simp
  finally show ?thesis .
qed simp

text \<open>A generated list: the lines of each test with its suite and name.\<close>

definition listed :: "(string list \<times> string \<times> string) list \<Rightarrow> bool" where
  "listed es \<longleftrightarrow> list_all (\<lambda>(ls, suite, test). block_lines ls \<and> names_test (concat ls) suite test) es"

definition list_text :: "(string list \<times> string \<times> string) list \<Rightarrow> string" where
  "list_text es = concat (map (\<lambda>(ls, suite, test). concat ls) es)"

lemma filter_testlist_text:
  assumes "listed es"
  shows "fst (filter_testlist (list_text es)) = list_text (filter (\<lambda>(ls, suite, test). keep_test suite test) es)"
proof -
  have b: "list_all block_lines (map fst es)" using assms by (auto simp: listed_def list_all_iff)
  then have t: "list_all text_line (concat (map fst es))" by (auto simp: list_all_iff block_lines_def)
  have "list_text es = concat (concat (map fst es))" by (induction es) (auto simp: list_text_def)
  then have k: "split_keys [] (keep_lines [] (list_text es)) = map fst es"
    by (simp add: keep_lines_text [OF t] split_keys_all [OF b])
  have "concat (filter keep_block (map concat (map fst es))) = list_text (filter (\<lambda>(ls, suite, test). keep_test suite test) es)"
    using assms by (induction es) (auto simp: list_text_def listed_def keep_block_test)
  then show ?thesis by (simp add: filter_testlist_def k Let_def)
qed

section \<open>The ISA claims\<close>

lemma misa_bits_bit: "bit (misa_bits cs w) i \<longleftrightarrow> bit w i \<or> (\<exists>c\<in>set cs. of_char c - of_char CHR ''A'' = i)"
  by (induction cs w rule: misa_bits.induct) (auto simp: bit_or_iff bit_exp_iff)

lemma isa_letters_upper: "list_all is_upper (isa_letters isa)"
proof (cases "re_match LETTERS_RE (upper_case isa)")
  case None
  then show ?thesis by (simp add: isa_letters_def is_upper_def)
next
  case (Some g)
  obtain x where x: "mt LETTERS_RE (done_k (upper_case isa)) None (upper_case isa) [] = Some x" "g = fst x"
    using Some by (auto simp: re_match_def match_at_def)
  from mt_eats [OF x(1)] obtain p' s' g' where e: "eats LETTERS_RE None (upper_case isa) [] p' s' g'"
    "done_k (upper_case isa) p' s' g' = Some x" by blast
  let ?c = "\<lambda>c. is_upper c \<and> c \<noteq> CHR ''X'' \<and> c \<noteq> CHR ''Z''"
  from e(1) obtain q t g1 q2 t2 g2 where t: "eats (Group 1 (Many ?c)) q t g1 q2 t2 g2" "g' = g2"
    unfolding LETTERS_RE_def by (elim seqsE) (drule seqs_NilD, blast)
  have "\<exists>xs. t = xs @ t2 \<and> list_all ?c xs \<and> g2 = (1, xs) # g1"
    by (rule eats_Group_drop [OF t(1)]) simp
  then obtain xs where xs: "list_all ?c xs" "g2 = (1, xs) # g1" by blast
  from xs(1) have "list_all is_upper xs" by (auto simp: list_all_iff)
  moreover have "group g 1 = xs" using e(2) t(2) x(2) xs(2) by (auto simp: done_k_def group_def)
  ultimately show ?thesis by (simp add: isa_letters_def Some)
qed

lemma upper_code: "is_upper c \<Longrightarrow> is_upper d \<Longrightarrow> of_char c - of_char CHR ''A'' = (of_char d - of_char CHR ''A'' :: nat) \<Longrightarrow> c = d"
  by (auto simp: is_upper_def dest: eq_diff_iff [THEN iffD1, rotated 2])

lemma misa_letters:
  assumes "is_upper c"
  shows "bit (misa_bits (isa_letters isa) 0x40000000) (of_char c - of_char CHR ''A'') \<longleftrightarrow> c \<in> set (isa_letters isa)"
proof -
  have "of_char c - of_char CHR ''A'' < (26 :: nat)" using assms by (auto simp: is_upper_def)
  then have "\<not> bit (0x40000000 :: int) (of_char c - of_char CHR ''A'')"
    using bit_push_bit_iff [of 30 "1 :: int"] by (simp add: push_bit_eq_mult)
  moreover have "(\<exists>d\<in>set (isa_letters isa). of_char d - of_char CHR ''A'' = (of_char c - of_char CHR ''A'' :: nat)) \<longleftrightarrow> c \<in> set (isa_letters isa)"
    using upper_code assms isa_letters_upper [of isa] by (auto simp: list_all_iff)
  ultimately show ?thesis by (simp add: misa_bits_bit)
qed

lemma check_isa_facts:
  assumes "check_isa_consistency yaml csr = Inr (isa, misa)"
  shows "misa = misa_bits (isa_letters isa) 0x40000000
    \<and> (\<exists>m. re_search MISA_RE csr = Some m \<and> int_base 16 (replace_all ''_'' [] (group m 1)) = Inr misa)"
  using assms unfolding check_isa_consistency_def
  by (auto simp: rbind_Inr_iff Let_def split: option.splits)

section \<open>The verdict\<close>

lemma report_counts:
  "report_loop h ms p f per = (passed, failed, per') \<Longrightarrow>
     passed = p + length (filter (\<lambda>m. group (snd m) 1 = ''Passed'') ms)
   \<and> failed = f + length (filter (\<lambda>m. group (snd m) 1 \<noteq> ''Passed'') ms)"
  by (induction h ms p f per rule: report_loop.induct) (auto simp: Let_def split: if_splits)

lemma parse_report_passed:
  assumes "parse_report h = (passed, 0, per)"
  shows "list_all (\<lambda>m. group (snd m) 1 = ''Passed'') (re_finditer_pos RESULT_RE h)
    \<and> length (re_finditer_pos RESULT_RE h) = passed"
proof -
  let ?ms = "re_finditer_pos RESULT_RE h"
  from report_counts [of h ?ms 0 0 "[]" passed 0 per] assms
  have c: "passed = length (filter (\<lambda>m. group (snd m) 1 = ''Passed'') ?ms)"
    "filter (\<lambda>m. group (snd m) 1 \<noteq> ''Passed'') ?ms = []" by (auto simp: parse_report_def)
  then have a: "\<forall>m\<in>set ?ms. group (snd m) 1 = ''Passed''" by (simp add: filter_empty_conv)
  then have "filter (\<lambda>m. group (snd m) 1 = ''Passed'') ?ms = ?ms" by (simp add: filter_id_conv)
  with a c(1) show ?thesis by (simp add: list_all_iff)
qed

text \<open>What a run with exit code zero establishes when the suite and riscof are installed.\<close>

definition isa_claims_agree :: "string \<Rightarrow> string \<Rightarrow> string \<Rightarrow> int \<Rightarrow> bool" where
  "isa_claims_agree yaml csr isa misa \<longleftrightarrow>
     (\<forall>c. is_upper c \<longrightarrow> bit misa (of_char c - of_char CHR ''A'') = (c \<in> set (isa_letters isa)))
   \<and> (\<exists>m. re_search ISA_RE yaml = Some m \<and> group m 1 = isa)
   \<and> (\<exists>m. re_search MISA_RE csr = Some m \<and> int_base 16 (replace_all ''_'' [] (group m 1)) = Inr misa)"

definition all_passed :: "string \<Rightarrow> bool" where
  "all_passed h \<longleftrightarrow> re_finditer_pos RESULT_RE h \<noteq> []
     \<and> list_all (\<lambda>m. group (snd m) 1 = ''Passed'') (re_finditer_pos RESULT_RE h)"

lemma check_isa_agree:
  assumes "check_isa_consistency yaml csr = Inr (isa, misa)"
  shows "isa_claims_agree yaml csr isa misa"
proof -
  have "\<exists>m. re_search ISA_RE yaml = Some m \<and> group m 1 = isa"
    using assms unfolding check_isa_consistency_def by (auto simp: rbind_Inr_iff Let_def split: option.splits)
  with check_isa_facts [OF assms] misa_letters show ?thesis by (auto simp: isa_claims_agree_def)
qed

section \<open>A small list and a small world\<close>

definition demo_list :: "(string list \<times> string \<times> string) list" where
  "demo_list = [([''rv32i_m/I/src/add-01.S:'' @ [CHR 0x0A], '' test_path: x'' @ [CHR 0x0A]], ''I'', ''add-01''),
                ([''rv32i_m/B/src/clmul-01.S:'' @ [CHR 0x0A], '' test_path: y'' @ [CHR 0x0A]], ''B'', ''clmul-01'')]"

lemma demo_names:
  "names_test (concat [''rv32i_m/I/src/add-01.S:'' @ [CHR 0x0A], '' test_path: x'' @ [CHR 0x0A]]) ''I'' ''add-01''"
  "names_test (concat [''rv32i_m/B/src/clmul-01.S:'' @ [CHR 0x0A], '' test_path: y'' @ [CHR 0x0A]]) ''B'' ''clmul-01''"
  unfolding names_test_def
  by (rule exI [of _ "[]"], rule exI [of _ "'':'' @ [CHR 0x0A] @ '' test_path: x'' @ [CHR 0x0A]"], code_simp)
    (rule exI [of _ "[]"], rule exI [of _ "'':'' @ [CHR 0x0A] @ '' test_path: y'' @ [CHR 0x0A]"], code_simp)

lemma demo_listed: "listed demo_list"
proof -
  have t: "text_line (x @ [CHR 0x0A])" if "list_all (\<lambda>c. \<not> line_break c) x" for x
    using that by (auto simp: text_line_def)
  have "list_all (\<lambda>c. \<not> line_break c) ''rv32i_m/I/src/add-01.S:''" "list_all (\<lambda>c. \<not> line_break c) '' test_path: x''"
    "list_all (\<lambda>c. \<not> line_break c) ''rv32i_m/B/src/clmul-01.S:''" "list_all (\<lambda>c. \<not> line_break c) '' test_path: y''"
    by code_simp+
  note l = this [THEN t]
  have "\<not> is_space CHR ''r''" "is_space CHR '' ''" by code_simp+
  then show ?thesis unfolding listed_def demo_list_def list.pred_inject prod.case
    by (intro conjI TrueI demo_names) (use l in \<open>simp_all add: block_lines_def\<close>)
qed

definition demo_world :: riscof_world where
  "demo_world = \<lparr>has_archtest = True, has_riscof = True,
     yaml_file = ''ISA: RV32'' @ [CHR 0x0A] @ ''reset-val: 0x40000000'',
     csr_file = ''MISA_VALUE = 32'' @ [CHR 0x27] @ ''h4000_0000'', sim_built = True,
     gen_testlist = Some (list_text demo_list), riscof_run = (\<lambda>t. (Some ''>Passed<'', 0))\<rparr>"

lemma demo_isa: "check_isa_consistency (yaml_file demo_world) (csr_file demo_world) = Inr (''RV32'', 0x40000000)"
proof -
  have "re_search ISA_RE (yaml_file demo_world) = Some [(0, ''ISA: RV32''), (1, ''RV32'')]"
    "re_search RESET_RE (yaml_file demo_world) = Some [(0, ''reset-val: 0x40000000''), (1, ''0x40000000'')]"
    "re_search MISA_RE (csr_file demo_world) = Some [(0, csr_file demo_world), (1, ''4000_0000'')]"
    "replace_all ''_'' [] ''4000_0000'' = ''40000000''" "isa_letters ''RV32'' = []"
    by code_simp+
  moreover have "int_base 16 ''0x40000000'' = Inr 0x40000000" "int_base 16 ''40000000'' = Inr 0x40000000"
    by (simp_all add: int_base_def nat_base_def read_base_def strip_def lstrip_def rstrip_def is_space_def
        startswith_def is_hex_def ungroup_def)
  ultimately show ?thesis by (simp add: check_isa_consistency_def group_def raise_if_def)
qed

lemma demo_report: "parse_report ''>Passed<'' = (1, 0, [(''?'', 1, 0)])"
  by code_simp

text \<open>The filter keeps, from a generated list, exactly the tests whose suite and name are not
  excluded, each with its lines unchanged and in order.\<close>

theorem testlist_filtered:
  assumes "listed es"
  shows "fst (filter_testlist (list_text es)) = list_text (filter (\<lambda>(ls, suite, test). keep_test suite test) es)"
  by (rule filter_testlist_text [OF assms])

theorem testlist_filtered_witness:
  "fst (filter_testlist (list_text demo_list)) = ''rv32i_m/I/src/add-01.S:'' @ [CHR 0x0A] @ '' test_path: x'' @ [CHR 0x0A]"
  unfolding testlist_filtered [OF demo_listed]
  by (simp add: demo_list_def list_text_def keep_test_def EXCLUDED_SUITES_def EXCLUDED_TESTS_def SUITE_KEEP_ONLY_def)



text \<open>A block in which no test path can be read is kept.\<close>

lemma unparsed_block_kept: "keep_block ''some-test: {test_path: elsewhere/add.S}'' = True"
  by code_simp

end
