(* ===== verification/Rv_Formal.thy ===== *)
theory Rv_Formal
  imports Rtl_Deps "HOL-Library.Product_Lexorder" "HOL-Library.Multiset"
begin

text \<open>
  The driver of riscv-formal, \<^verbatim>\<open>tb/formal/run_riscv_formal.py\<close>: the generated bundle of instruction
  models and configuration, the verdict of a check, and the exit code. The generator and
  SymbiYosys are fields of the record \<open>rf_world\<close>; the thread pool is an order in which the checks
  complete. Times and logs are left out.
\<close>

section \<open>The configuration\<close>

definition DEPTH :: nat where "DEPTH = 14"
definition LIVENESS_DEPTH :: nat where "LIVENESS_DEPTH = 46"
definition ISA_BUNDLE :: string where "ISA_BUNDLE = ''rv32ib_Zbkb''"
definition ISA_PARTS :: "string list" where "ISA_PARTS = [''rv32ib'', ''rv32iZbkb'']"
definition WRAPPER :: string where "WRAPPER = ''tb/formal/rvntt_rvfi_wrapper.sv''"

definition RF_RTL :: "string list" where
  "RF_RTL = [
    ''rtl/core/rv32i_pkg.sv'',
    ''rtl/core/rvntt_decode.sv'',
    ''rtl/core/rvntt_alu.sv'',
    ''rtl/core/rvntt_immgen.sv'',
    ''rtl/core/rvntt_regfile.sv'',
    ''rtl/core/rvntt_forward.sv'',
    ''rtl/core/rvntt_hazard.sv'',
    ''rtl/core/rvntt_branch.sv'',
    ''rtl/core/rvntt_csr.sv'',
    ''rtl/core/rvntt_muldiv.sv'',
    ''rtl/core/rvntt_bitmanip.sv'',
    ''rtl/core/rvntt_bpred.sv'',
    ''rtl/core/rvntt_seed.sv'',
    ''rtl/core/rvntt_entropy.sv'',
    ''rtl/core/rvntt_entropy_health.sv'',
    ''rtl/core/rvntt_rvfi.sv'',
    ''rtl/core/rvntt_core.sv'']"

definition CHECKS_CFG :: "nat \<Rightarrow> nat \<Rightarrow> string \<Rightarrow> string \<Rightarrow> string" where
  "CHECKS_CFG depth live_depth isa files = concat (map (\<lambda>l. l @ [CHR 0x0A]) [
    ''# GENERATED by tb/formal/run_riscv_formal.py -- edit that, not this.'',
    [],
    ''[options]'',
    ''isa '' @ isa,
    ''mode bmc'',
    ''# bitwuzla rather than the genchecks default of boolector, as in run_formal.py.'',
    ''solver bitwuzla'',
    [],
    ''# Columns are [reset_cycles] [trig_cycle] check_cycle; see the module docstring'',
    ''# for where 14 comes from.'',
    ''[depth]'',
    ''insn                '' @ show_nat depth,
    ''reg        1        '' @ show_nat depth,
    ''pc_fwd     1        '' @ show_nat depth,
    ''pc_bwd     1        '' @ show_nat depth,
    ''causal     1        '' @ show_nat depth,
    ''unique     1  5     '' @ show_nat depth,
    ''liveness   1  9     '' @ show_nat live_depth,
    [],
    ''[defines]'',
    ''# Gates the testbench'' @ [CHR 0x27] @ ''s '' @ [CHR 0x60] @ ''assume (reset == $initstate)'' @ [CHR 0x60] @ ''.'',
    [CHR 0x60] @ ''define YOSYS'',
    ''# This core traps on a misaligned load, store or jump target, so the'',
    ''# aligned-mem instruction models are the ones that describe it.'',
    [CHR 0x60] @ ''define RISCV_FORMAL_ALIGNED_MEM'',
    ''# The multi-cycle unit'' @ [CHR 0x27] @ ''s arithmetic replaced by a free value, its sequencer'',
    ''# left as it is; see the module docstring.'',
    [CHR 0x60] @ ''define RVNTT_ABSTRACT_MULDIV'',
    [CHR 0x60] @ ''define RVNTT_ABSTRACT_BPRED'',
    [],
    ''[verilog-files]'',
    files])"

text \<open>The file list, rebased onto a mirrored tree when one is given.\<close>

definition cfg_files :: "string \<Rightarrow> string option \<Rightarrow> string" where
  "cfg_files root rtl_dir = (
    let base = (case rtl_dir of None \<Rightarrow> root | Some d \<Rightarrow> if d = [] then root else d)
    in join [CHR 0x0A] (path_join root WRAPPER # map (path_join base) RF_RTL))"

section \<open>The bundle of instruction models\<close>

text \<open>The nonempty stripped lines of a file.\<close>

definition models_in :: "string \<Rightarrow> string list" where
  "models_in txt = filter (\<lambda>l. l \<noteq> []) (map strip (split_on CHR 0x0A txt))"

fun union_parts :: "(string \<Rightarrow> string option) \<Rightarrow> string list \<Rightarrow> string list res" where
  "union_parts insns [] = Inr []"
| "union_parts insns (part # ps) = (case insns part of
     None \<Rightarrow> Inl (SystemExit (''riscv-formal has no insns/isa_'' @ part @ ''.txt''))
   | Some txt \<Rightarrow> rbind (union_parts insns ps) (\<lambda>u. Inr (models_in txt @ u)))"

text \<open>The models of the bundle, sorted and without repetition.\<close>

definition write_isa_bundle :: "(string \<Rightarrow> string option) \<Rightarrow> string list res" where
  "write_isa_bundle insns = rbind (union_parts insns ISA_PARTS) (\<lambda>u. Inr (sorted_list_of_set (set u)))"

section \<open>Generating and running the checks\<close>

record rf_world =
  rf_checkout :: bool
  rf_insns :: "string \<Rightarrow> string option"
  rf_genchecks :: "string list \<Rightarrow> string \<Rightarrow> int \<times> string list"
  rf_status :: "string \<Rightarrow> string option"

definition generate_checks :: "rf_world \<Rightarrow> string \<Rightarrow> string option \<Rightarrow> string list res" where
  "generate_checks w root rtl_dir =
    rbind (write_isa_bundle (rf_insns w)) (\<lambda>bundle.
    let (rc, files) = rf_genchecks w bundle (CHECKS_CFG DEPTH LIVENESS_DEPTH ISA_BUNDLE (cfg_files root rtl_dir))
    in rbind (raise_if (rc \<noteq> 0) (SystemExit ''genchecks.py failed'')) (\<lambda>u. Inr files))"

definition discover_checks :: "string list \<Rightarrow> string list" where
  "discover_checks files = sort (map (\<lambda>f. take (length f - 4) f) (filter (\<lambda>f. endswith f ''.sby'') files))"

text \<open>The verdict is the first word of the status file; a missing or empty one is none.\<close>

definition run_check :: "rf_world \<Rightarrow> string \<Rightarrow> string" where
  "run_check w name = (case rf_status w name of
     None \<Rightarrow> ''NO-STATUS''
   | Some s \<Rightarrow> (case split_ws s of [] \<Rightarrow> ''NO-STATUS'' | v # vs \<Rightarrow> v))"

definition exit_code :: "(string \<times> string) list \<Rightarrow> int" where
  "exit_code results = (
    let results = sort results;
        bad = filter (\<lambda>r. snd r \<noteq> ''PASS'') results;
        broken = filter (\<lambda>r. snd r \<notin> {''PASS'', ''FAIL''}) results
    in if broken \<noteq> [] then 2 else if bad \<noteq> [] then 1 else 0)"

text \<open>The checks that match one of the patterns of \<^verbatim>\<open>--only\<close>, or all.\<close>

definition selected_checks :: "(string \<Rightarrow> bool) list option \<Rightarrow> string list \<Rightarrow> string list" where
  "selected_checks only files = (case only of None \<Rightarrow> discover_checks files | Some pats \<Rightarrow>
     if pats = [] then discover_checks files else filter (\<lambda>n. list_ex (\<lambda>p. p n) pats) (discover_checks files))"

text \<open>\<open>completion\<close> is the order in which the pool finishes the checks.\<close>

definition rf_main :: "rf_world \<Rightarrow> string \<Rightarrow> string option \<Rightarrow> (string \<Rightarrow> bool) list option \<Rightarrow> bool
    \<Rightarrow> (string list \<Rightarrow> string list) \<Rightarrow> int res" where
  "rf_main w root rtl_dir only list_only completion = (
    if \<not> rf_checkout w then Inr 0
    else rbind (generate_checks w root rtl_dir) (\<lambda>files.
      let names = selected_checks only files
      in if list_only then Inr 0
         else if names = [] then Inr 1
         else Inr (exit_code (map (\<lambda>n. (n, run_check w n)) (completion names)))))"

section \<open>What the exit code says\<close>

lemma exit_code_cases:
  "exit_code rs = (if \<exists>r\<in>set rs. snd r \<notin> {''PASS'', ''FAIL''} then 2
     else if \<exists>r\<in>set rs. snd r \<noteq> ''PASS'' then 1 else 0)"
  by (auto simp: exit_code_def Let_def filter_empty_conv)

lemma rf_main_selected:
  "rf_checkout w \<Longrightarrow> rf_main w root rtl_dir only False completion =
    rbind (generate_checks w root rtl_dir) (\<lambda>files. if selected_checks only files = [] then Inr 1
      else Inr (exit_code (map (\<lambda>n. (n, run_check w n)) (completion (selected_checks only files)))))"
  by (simp add: rf_main_def Let_def)

text \<open>The models handed to the generator.\<close>

lemma union_parts_models:
  "union_parts insns ps = Inr u \<Longrightarrow> set u = {m. \<exists>p\<in>set ps. \<exists>txt. insns p = Some txt \<and> m \<in> set (models_in txt)}"
  by (induction ps arbitrary: u) (auto simp: rbind_Inr_iff split: option.splits)

text \<open>With riscv-formal checked out, the driver exits with 0 exactly when the configuration
  was generated, some check was selected and the status file of every selected check says
  \<open>PASS\<close>; it exits with 2 exactly when some selected check has neither verdict, which includes a
  missing status file. The order in which the checks complete plays no part.\<close>

theorem rf_exit_codes:
  assumes "rf_checkout w" "generate_checks w root rtl_dir = Inr files" "mset (completion (selected_checks only files)) = mset (selected_checks only files)"
  shows "(rf_main w root rtl_dir only False completion = Inr 0) =
       (selected_checks only files \<noteq> [] \<and> list_all (\<lambda>n. run_check w n = ''PASS'') (selected_checks only files))
    \<and> (rf_main w root rtl_dir only False completion = Inr 2) =
       list_ex (\<lambda>n. run_check w n \<noteq> ''PASS'' \<and> run_check w n \<noteq> ''FAIL'') (selected_checks only files)"
proof -
  have s: "set (completion (selected_checks only files)) = set (selected_checks only files)"
    using assms(3) by (rule mset_eq_setD)
  show ?thesis
    unfolding rf_main_selected [OF assms(1)] assms(2) rbind_simps exit_code_cases
    using s by (auto simp: list_all_iff list_ex_iff)
qed

definition demo_rf :: rf_world where
  "demo_rf = \<lparr>rf_checkout = True, rf_insns = (\<lambda>p. Some p), rf_genchecks = (\<lambda>b c. (0, [''reg.sby'', ''notes.txt'', ''pc.sby''])),
     rf_status = (\<lambda>n. Some ''PASS 0 12'')\<rparr>"

theorem rf_exit_codes_witness: "rf_main demo_rf ''/r'' None None False rev = Inr 0"
proof -
  have g: "generate_checks demo_rf ''/r'' None = Inr [''reg.sby'', ''notes.txt'', ''pc.sby'']"
    by (simp add: generate_checks_def write_isa_bundle_def ISA_PARTS_def demo_rf_def raise_if_def)
  have s: "selected_checks None [''reg.sby'', ''notes.txt'', ''pc.sby''] = [''pc'', ''reg'']"
    by (simp add: selected_checks_def discover_checks_def) code_simp
  have "run_check demo_rf n = ''PASS''" for n
  proof -
    have "split_ws ''PASS 0 12'' = [''PASS'', ''0'', ''12'']" by code_simp
    then show ?thesis by (simp add: run_check_def demo_rf_def)
  qed
  moreover have "rf_checkout demo_rf" by (simp add: demo_rf_def)
  ultimately show ?thesis using rf_exit_codes [OF _ g, where completion = rev and only = None] s by simp
qed

text \<open>The bundle is the sorted union of its parts.\<close>

lemma bundle_union:
  assumes "write_isa_bundle insns = Inr bundle"
  shows "sorted bundle \<and> distinct bundle
    \<and> set bundle = {m. \<exists>p\<in>set ISA_PARTS. \<exists>txt. insns p = Some txt \<and> m \<in> set (models_in txt)}"
proof -
  from assms obtain u where u: "union_parts insns ISA_PARTS = Inr u" "bundle = sorted_list_of_set (set u)"
    by (auto simp: write_isa_bundle_def rbind_Inr_iff)
  show ?thesis unfolding u(2) union_parts_models [OF u(1), symmetric] by simp
qed

end
