(* ===== verification/Mem_Image.thy ===== *)
theory Mem_Image
  imports Sim_Tests
begin

text \<open>
  The memory images of the board: \<^verbatim>\<open>fpga/scripts/build_soc_image.py\<close> (the ELF reader, the placement of
  its segments and the image file), which \<^verbatim>\<open>build_bench_image.py\<close> shares, and the initial block-RAM
  contents with their checksum of \<^verbatim>\<open>gen_bram_init.py\<close>. A file is the list of its bytes; the compiler is
  a function from its command line to the ELF it writes, \<open>None\<close> when it fails.
\<close>

section \<open>The ELF reader\<close>

text \<open>Little-endian fields of \<open>n\<close> bytes each, as \<^verbatim>\<open>struct.unpack_from\<close> reads them.\<close>

definition unpack_from :: "nat \<Rightarrow> nat \<Rightarrow> nat list \<Rightarrow> nat \<Rightarrow> nat list res" where
  "unpack_from n cnt data off = (
    if off + n * cnt \<le> length data
    then Inr (map (\<lambda>k. from_bytes_little (take n (drop (off + n * k) data))) [0..<cnt])
    else Inl StructError)"

record phdr =
  p_type :: nat
  p_offset :: nat
  p_vaddr :: nat
  p_paddr :: nat
  p_filesz :: nat
  p_memsz :: nat

definition read_phdr :: "nat list \<Rightarrow> nat \<Rightarrow> phdr res" where
  "read_phdr data off = rbind (unpack_from 4 6 data off) (\<lambda>fs.
    Inr \<lparr>p_type = fs ! 0, p_offset = fs ! 1, p_vaddr = fs ! 2, p_paddr = fs ! 3, p_filesz = fs ! 4, p_memsz = fs ! 5\<rparr>)"

definition ELF_MAGIC :: "nat list" where
  "ELF_MAGIC = [0x7f, 69, 76, 70]"

type_synonym segment = "nat \<times> nat list"

definition load_segments :: "nat list \<Rightarrow> segment list res" where
  "load_segments data = (
    rbind (raise_if (take 4 data \<noteq> ELF_MAGIC) (SystemExit ''not a 32-bit ELF'')) (\<lambda>u.
    rbind (raise_if (length data \<le> 4) IndexError) (\<lambda>u.
    rbind (raise_if (data ! 4 \<noteq> 1) (SystemExit ''not a 32-bit ELF'')) (\<lambda>u.
    rbind (unpack_from 4 1 data 0x1C) (\<lambda>phoff.
    rbind (unpack_from 2 2 data 0x2A) (\<lambda>ent.
    rbind (mapr (\<lambda>i. read_phdr data (phoff ! 0 + i * ent ! 0)) [0..<ent ! 1]) (\<lambda>hs.
    let segs = map (\<lambda>h. (p_paddr h, take (p_filesz h) (drop (p_offset h) data)))
                 (filter (\<lambda>h. \<not> (p_type h \<noteq> 1 \<or> p_filesz h = 0)) hs)
    in if segs = [] then Inl (SystemExit ''no PT_LOAD segments'') else Inr segs)))))))"

section \<open>Placement and the image file\<close>

definition place :: "int \<Rightarrow> segment \<Rightarrow> nat list \<times> nat \<Rightarrow> (nat list \<times> nat) res" where
  "place base = (\<lambda>(paddr, blob) (mem, used).
    let off = int paddr - base
    in if off < 0 \<or> off + int (length blob) > int (length mem)
       then Inl (SystemExit ''segment does not fit'')
       else let o1 = nat off; o2 = o1 + length blob
            in Inr (take o1 mem @ blob @ drop o2 mem, max used o2))"

definition place_segments :: "int \<Rightarrow> nat \<Rightarrow> segment list \<Rightarrow> (nat list \<times> nat) res" where
  "place_segments base nw segs = res_fold (place base) segs (replicate (nw * 4) 0, 0)"

text \<open>The text of the image, with its number of words.\<close>

definition emit_image :: "nat list \<times> nat \<Rightarrow> string \<times> nat" where
  "emit_image = (\<lambda>(mem, used). let n = (used + 3) div 4 in (concat (map (word_line mem) [0..<n]), n))"

definition image_of :: "int \<Rightarrow> nat \<Rightarrow> nat list \<Rightarrow> (string \<times> nat) res" where
  "image_of base nw elf =
    rbind (load_segments elf) (\<lambda>segs. rbind (place_segments base nw segs) (\<lambda>m. Inr (emit_image m)))"

definition build_elf_cmd :: "string \<Rightarrow> string \<Rightarrow> nat \<Rightarrow> string \<Rightarrow> string list \<Rightarrow> string list" where
  "build_elf_cmd sw out_elf delay opt defs =
    [''riscv-none-elf-gcc'', ''-march=rv32i_zicsr'', ''-mabi=ilp32'', opt, ''-Wall'', ''-Wextra'',
     ''-ffreestanding'', ''-nostdlib'', ''-nostartfiles'', ''-DDELAY_CYCLES='' @ show_nat delay @ ''u'']
    @ map (\<lambda>d. ''-D'' @ d) defs
    @ [''-T'', sw @ ''/link.ld'', ''-o'', out_elf, sw @ ''/crt0.S'', sw @ ''/hello.c'']"

type_synonym compiler = "string list \<Rightarrow> nat list option"

definition soc_image_main :: "compiler \<Rightarrow> string \<Rightarrow> string \<Rightarrow> nat \<Rightarrow> string \<Rightarrow> string list \<Rightarrow> int \<Rightarrow> nat \<Rightarrow>
    (string \<times> nat) res" where
  "soc_image_main cc sw out_elf delay opt defs base nw =
    (case cc (build_elf_cmd sw out_elf delay opt defs) of
       None \<Rightarrow> Inl (SystemExit ''compile failed'')
     | Some elf \<Rightarrow> image_of base nw elf)"

section \<open>The block-RAM contents\<close>

definition bram_word :: "nat \<Rightarrow> int" where
  "bram_word i = (
    let x = (int i * 0x9E3779B9) AND 0xFFFFFFFF;
        x = x XOR drop_bit 16 x;
        x = (x * 0x85EBCA6B) AND 0xFFFFFFFF;
        x = x XOR drop_bit 13 x
    in x AND 0xFFFFFFFF)"

definition bram_step :: "int \<Rightarrow> int \<Rightarrow> int" where
  "bram_step acc w = (
    let acc = (push_bit 1 acc OR drop_bit 31 acc) AND 0xFFFFFFFF
    in (acc + w) AND 0xFFFFFFFF)"

definition bram_checksum :: "int list \<Rightarrow> int" where
  "bram_checksum ws = foldl bram_step 0 ws"

text \<open>The lines of the image and the expected checksum.\<close>

definition bram_main :: "nat \<Rightarrow> string list \<times> int" where
  "bram_main depth = (let ws = map bram_word [0..<depth]
     in (map (\<lambda>w. hex 8 (nat w)) ws, bram_checksum ws))"

end
