(* ===== verification/Num_Text.thy ===== *)
theory Num_Text
  imports Py_Float Py_Str
begin

text \<open>
  Numbers as text: the fixed-point formats of floats, and the decimal form of an integer read back.
\<close>

text \<open>\<^verbatim>\<open>"%.kf" % x\<close>.\<close>

definition fixed :: "nat \<Rightarrow> rat \<Rightarrow> string" where
  "fixed k x = (let n = nat (round_even (\<bar>x\<bar> * 10 ^ k))
     in (if x < 0 then ''-'' else []) @ show_nat (n div 10 ^ k) @ ''.'' @ zfill k (show_nat (n mod 10 ^ k)))"

lemma digit_not_space: "is_digit c \<Longrightarrow> \<not> is_space c"
  by (auto simp: is_digit_def is_space_def)

lemma show_nat_not_space: "c \<in> set (show_nat n) \<Longrightarrow> \<not> is_space c"
  using show_nat_digits [of n] digit_not_space by (auto simp: list_all_iff)

lemma show_int_not_space: "c \<in> set (show_int i) \<Longrightarrow> \<not> is_space c"
  using show_nat_not_space by (auto simp: show_int_def is_space_def split: if_splits)

lemma show_int_nonempty [simp]: "show_int i \<noteq> []"
  by (simp add: show_int_def)

lemma strip_no_space:
  assumes "\<And>c. c \<in> set s \<Longrightarrow> \<not> is_space c"
  shows "strip s = s"
proof -
  have "lstrip s = s" unfolding lstrip_def using assms by (cases s) auto
  moreover have "dropWhile is_space (rev s) = rev s" using assms by (cases "rev s") (auto simp: rev_eq_Cons_iff)
  ultimately show ?thesis by (simp add: strip_def rstrip_def)
qed

lemma words_acc_token:
  assumes "\<And>c. c \<in> set s \<Longrightarrow> \<not> is_space c"
  shows "words_acc acc s = (if acc = [] \<and> s = [] then [] else [rev acc @ s])"
  using assms by (induction s arbitrary: acc) auto

lemma grouped_digits: "s \<noteq> [] \<Longrightarrow> list_all is_digit s \<Longrightarrow> grouped is_digit s"
  by (induction is_digit s rule: grouped.induct) (auto simp: is_digit_def)

lemma ungroup_digits: "list_all is_digit s \<Longrightarrow> ungroup s = s"
  by (induction s) (auto simp: ungroup_def is_digit_def)

lemma nat_base_show [simp]: "nat_base 10 (show_nat n) = Inr n"
  using grouped_digits [OF show_nat_nonempty show_nat_digits] by (simp add: nat_base_def ungroup_digits show_nat_digits)

lemma show_nat_sign: "startswith (show_nat n) ''-'' = False" "startswith (show_nat n) ''+'' = False"
  using show_nat_digits [of n] show_nat_nonempty [of n]
  by (cases "show_nat n"; auto simp: startswith_def is_digit_def)+

text \<open>The decimal form of an integer reads back as the integer.\<close>

lemma int_base_show [simp]: "int_base 10 (show_int i) = Inr i"
proof -
  have "strip (show_int i) = show_int i" using show_int_not_space by (rule strip_no_space)
  moreover have "startswith (CHR ''-'' # s) ''-''" for s by (simp add: startswith_def)
  ultimately show ?thesis by (cases "i < 0") (simp_all add: int_base_def show_int_def show_nat_sign Let_def)
qed

text \<open>Hexadecimal fields read back.\<close>

lemma is_hex_lower_hex: "is_hex_lower c \<Longrightarrow> is_hex c \<and> \<not> is_space c \<and> c \<noteq> CHR ''x'' \<and> c \<noteq> CHR ''X'' \<and> c \<noteq> CHR ''_''
    \<and> c \<noteq> CHR ''-'' \<and> c \<noteq> CHR ''+''"
  by (auto simp: is_hex_lower_def is_hex_def is_space_def)

lemma hex_chars: "c \<in> set (hex w n) \<Longrightarrow> is_hex_lower c"
  using hex_digits [of w n] by (auto simp: list_all_iff)

lemma hex_not_space: "c \<in> set (hex w n) \<Longrightarrow> \<not> is_space c"
  using hex_chars is_hex_lower_hex by blast

lemma hex_nonempty [simp]: "hex w n \<noteq> []"
  by (simp add: hex_def zfill_def)

lemma grouped_all: "s \<noteq> [] \<Longrightarrow> list_all c s \<Longrightarrow> CHR ''_'' \<notin> set s \<Longrightarrow> grouped c s"
  by (induction c s rule: grouped.induct) auto

lemma ungroup_none: "CHR ''_'' \<notin> set s \<Longrightarrow> ungroup s = s"
  by (induction s) (auto simp: ungroup_def)

lemma int_base_hex [simp]: "int_base 16 (hex w n) = Inr (int n)"
proof -
  let ?s = "hex w n"
  have c: "is_hex c \<and> \<not> is_space c \<and> c \<noteq> CHR ''x'' \<and> c \<noteq> CHR ''X'' \<and> c \<noteq> CHR ''_'' \<and> c \<noteq> CHR ''-'' \<and> c \<noteq> CHR ''+''"
    if "c \<in> set ?s" for c using hex_chars [OF that] is_hex_lower_hex by blast
  obtain a t where s: "?s = a # t" using hex_nonempty by (meson neq_Nil_conv)
  have st: "strip ?s = ?s" using hex_not_space by (rule strip_no_space)
  have "CHR ''x'' \<notin> set (take 2 ?s)" "CHR ''X'' \<notin> set (take 2 ?s)" using c by (blast dest: in_set_takeD)+
  moreover have "CHR ''x'' \<in> set ''0x''" "CHR ''X'' \<in> set ''0X''" by simp_all
  ultimately have "take 2 ?s \<noteq> ''0x''" "take 2 ?s \<noteq> ''0X''" by metis+
  moreover have "grouped is_hex ?s" by (rule grouped_all) (use c in \<open>auto simp: list_all_iff\<close>)
  moreover have "ungroup ?s = ?s" using c by (auto intro: ungroup_none)
  ultimately have "nat_base 16 ?s = Inr n" by (simp add: nat_base_def)
  moreover have "\<not> startswith ?s ''-''" "\<not> startswith ?s ''+''" using c by (auto simp: s startswith_def)
  ultimately show ?thesis by (simp add: int_base_def st Let_def)
qed

end
