(* ===== verification/Mem_Props.thy ===== *)
theory Mem_Props
  imports Mem_Image Num_Text
begin

text \<open>
  What the images promise: the bytes of every loadable segment of an ELF file are at their addresses in
  the words of the image, and the checksum of the block RAM notices every corrupted word.
\<close>

section \<open>Placement\<close>

definition seg_fits :: "int \<Rightarrow> nat \<Rightarrow> segment \<Rightarrow> bool" where
  "seg_fits base n s \<longleftrightarrow> base \<le> int (fst s) \<and> int (fst s) - base + int (length (snd s)) \<le> int n"

definition covers :: "int \<Rightarrow> nat \<Rightarrow> segment \<Rightarrow> bool" where
  "covers base j s \<longleftrightarrow> int (fst s) - base \<le> int j \<and> int j < int (fst s) - base + int (length (snd s))"

text \<open>The byte an address has after loading: the last segment that covers it decides.\<close>

definition loaded_byte :: "int \<Rightarrow> segment list \<Rightarrow> nat \<Rightarrow> nat" where
  "loaded_byte base segs j = (case find (covers base j) (rev segs) of
     None \<Rightarrow> 0 | Some s \<Rightarrow> snd s ! nat (int j - (int (fst s) - base)))"

lemma loaded_byte_snoc:
  "loaded_byte base (segs @ [s]) j =
     (if covers base j s then snd s ! nat (int j - (int (fst s) - base)) else loaded_byte base segs j)"
  by (simp add: loaded_byte_def)

lemma place_fits:
  assumes "seg_fits base (length mem) s"
  shows "\<exists>mem' used'. place base s (mem, used) = Inr (mem', used') \<and> length mem' = length mem
     \<and> used' = max used (nat (int (fst s) - base) + length (snd s))
     \<and> (\<forall>j<length mem. mem' ! j = (if covers base j s then snd s ! nat (int j - (int (fst s) - base)) else mem ! j))"
proof -
  obtain p b where s: "s = (p, b)" by (cases s)
  define o1 where "o1 = nat (int p - base)"
  have o: "int o1 = int p - base" "o1 + length b \<le> length mem"
    using assms by (auto simp: seg_fits_def s o1_def)
  let ?m = "take o1 mem @ b @ drop (o1 + length b) mem"
  have "?m ! j = (if covers base j s then b ! nat (int j - (int p - base)) else mem ! j)" if "j < length mem" for j
  proof -
    have "nat (int j - (int p - base)) = j - o1" using o(1) by linarith
    moreover have "covers base j s \<longleftrightarrow> o1 \<le> j \<and> j < o1 + length b" using o(1) by (auto simp: covers_def s)
    ultimately show ?thesis using that o(2) by (auto simp: nth_append min_def)
  qed
  then show ?thesis
    using o by (auto simp: s place_def Let_def simp flip: o1_def)
qed

definition end_of :: "int \<Rightarrow> segment list \<Rightarrow> nat" where
  "end_of base segs = fold max (map (\<lambda>s. nat (int (fst s) - base) + length (snd s)) segs) 0"

lemma place_segments_fit:
  assumes "list_all (seg_fits base (nw * 4)) segs"
  shows "\<exists>mem. place_segments base nw segs = Inr (mem, end_of base segs) \<and> length mem = nw * 4
     \<and> (\<forall>j<nw * 4. mem ! j = loaded_byte base segs j)"
  using assms
proof (induction segs rule: rev_induct)
  case Nil
  then show ?case by (simp add: place_segments_def end_of_def loaded_byte_def)
next
  case (snoc s segs)
  then obtain mem where m: "place_segments base nw segs = Inr (mem, end_of base segs)" "length mem = nw * 4"
    "\<forall>j<nw * 4. mem ! j = loaded_byte base segs j" by auto
  have "seg_fits base (length mem) s" using snoc.prems m(2) by simp
  from place_fits [OF this, of "end_of base segs"] m show ?case
    by (auto simp: place_segments_def res_fold_append end_of_def loaded_byte_snoc max.commute)
qed

lemma place_segments_no_fit:
  assumes "\<not> list_all (seg_fits base (nw * 4)) segs"
  shows "place_segments base nw segs = Inl (SystemExit ''segment does not fit'')"
proof -
  have "segs \<noteq> []" using assms by auto
  then show ?thesis using assms
  proof (induction segs rule: rev_nonempty_induct)
    case (single s)
    then show ?case by (cases s) (auto simp: place_segments_def place_def seg_fits_def Let_def)
  next
    case (snoc s segs)
    show ?case
    proof (cases "list_all (seg_fits base (nw * 4)) segs")
      case False
      with snoc.IH show ?thesis by (simp add: place_segments_def res_fold_append)
    next
      case True
      from place_segments_fit [OF True] obtain mem where
        "place_segments base nw segs = Inr (mem, end_of base segs)" "length mem = nw * 4" by blast
      moreover have "\<not> seg_fits base (nw * 4) s" using True snoc.prems by simp
      ultimately show ?thesis
        by (cases s) (auto simp: place_segments_def res_fold_append place_def seg_fits_def Let_def)
    qed
  qed
qed

lemma loaded_beyond_end: "end_of base segs \<le> j \<Longrightarrow> list_all (\<lambda>s. base \<le> int (fst s)) segs \<Longrightarrow> loaded_byte base segs j = 0"
proof (induction segs rule: rev_induct)
  case Nil
  then show ?case by (simp add: loaded_byte_def)
next
  case (snoc s segs)
  then show ?case by (auto simp: end_of_def loaded_byte_snoc covers_def)
qed

lemma end_of_bound: "list_all (seg_fits base n) segs \<Longrightarrow> end_of base segs \<le> n"
  by (induction segs rule: rev_induct) (auto simp: end_of_def seg_fits_def)

section \<open>The image file\<close>

text \<open>Byte \<open>j\<close> of the image: byte \<open>j mod 4\<close> of word \<open>j div 4\<close>.\<close>

definition image_byte :: "string \<Rightarrow> nat \<Rightarrow> nat" where
  "image_byte img j = read_base 16 (splitlines img ! (j div 4)) div 256 ^ (j mod 4) mod 256"

text \<open>Bytes \<open>4 i\<close> to \<open>4 i + 3\<close> as a little-endian word.\<close>

definition le_word :: "(nat \<Rightarrow> nat) \<Rightarrow> nat \<Rightarrow> nat" where
  "le_word c i = from_bytes_little (map c [4 * i..<4 * i + 4])"

lemma le_word_byte: "(\<And>j. c j < 256) \<Longrightarrow> le_word c (j div 4) div 256 ^ (j mod 4) mod 256 = c j"
proof -
  assume c: "\<And>j. c j < 256"
  let ?bs = "map c [4 * (j div 4)..<4 * (j div 4) + 4]"
  have l: "j mod 4 < length ?bs" by simp
  have "le_word c (j div 4) div 256 ^ (j mod 4) mod 256 = ?bs ! (j mod 4)"
    unfolding le_word_def by (rule from_bytes_little_nth [OF _ l]) (use c in auto)
  then show ?thesis using l by simp
qed

lemma le_word_bound: "(\<And>j. c j < 256) \<Longrightarrow> le_word c i < 2 ^ 32"
  using from_bytes_little_bound [of "map c [4 * i..<4 * i + 4]"] by (simp add: le_word_def)

text \<open>The interface of an image builder, as the simulators and the synthesis tool rely on it: a source has
  a content by byte offset; the image is a text of 32-bit words, one to a line, little-endian, and what
  the image leaves out is zero. The laws of a reader follow once for every builder.\<close>

locale word_image =
  fixes image :: "'s \<Rightarrow> (string \<times> nat) res"
    and content :: "'s \<Rightarrow> nat \<Rightarrow> nat"
    and ok :: "'s \<Rightarrow> bool"
  assumes image_lines: "ok s \<Longrightarrow> image s = Inr (img, n) \<Longrightarrow> splitlines img = map (\<lambda>i. hex 8 (le_word (content s) i)) [0..<n]"
    and content_byte: "ok s \<Longrightarrow> content s j < 256"
    and image_rest: "ok s \<Longrightarrow> image s = Inr (img, n) \<Longrightarrow> 4 * n \<le> j \<Longrightarrow> content s j = 0"
begin

lemma image_words: "ok s \<Longrightarrow> image s = Inr (img, n) \<Longrightarrow> length (splitlines img) = n"
  by (simp add: image_lines)

lemma image_byte: "ok s \<Longrightarrow> image s = Inr (img, n) \<Longrightarrow> j < 4 * n \<Longrightarrow> image_byte img j = content s j"
proof -
  assume a: "ok s" "image s = Inr (img, n)" "j < 4 * n"
  then have "j div 4 < n" by (simp add: div_less_iff_less_mult mult.commute)
  then show ?thesis using le_word_byte [OF content_byte [OF a(1)]] by (simp add: image_byte_def image_lines [OF a(1,2)])
qed

lemma image_read: "ok s \<Longrightarrow> image s = Inr (img, n) \<Longrightarrow>
    mapr (int_base 16) (splitlines img) = Inr (map (\<lambda>i. int (le_word (content s) i)) [0..<n])"
proof -
  have "mapr (int_base 16) (map (\<lambda>i. hex 8 (f i)) ks) = Inr (map (\<lambda>i. int (f i)) ks)" for f and ks :: "nat list"
    by (induction ks) simp_all
  then show "ok s \<Longrightarrow> image s = Inr (img, n) \<Longrightarrow>
      mapr (int_base 16) (splitlines img) = Inr (map (\<lambda>i. int (le_word (content s) i)) [0..<n])"
    by (simp add: image_lines)
qed

end

lemma word_lines:
  assumes "4 * n \<le> length mem" "\<And>j. j < 4 * n \<Longrightarrow> mem ! j = c j"
  shows "splitlines (concat (map (word_line mem) [0..<n])) = map (\<lambda>i. hex 8 (le_word c i)) [0..<n]"
proof -
  have "take 4 (drop (4 * i) mem) = map c [4 * i..<4 * i + 4]" if "i < n" for i
    using assms that by (intro nth_equalityI) auto
  then show ?thesis by (simp add: splitlines_words le_word_def)
qed

text \<open>The image of \<^verbatim>\<open>objcopy -O binary\<close> that the simulators of the unit tests load.\<close>

definition raw_byte :: "nat list \<Rightarrow> nat \<Rightarrow> nat" where
  "raw_byte raw j = (if j < length raw then raw ! j else 0)"

definition elf_byte :: "elf \<Rightarrow> nat \<Rightarrow> nat" where
  "elf_byte e = raw_byte (case elf_image e of None \<Rightarrow> [] | Some raw \<Rightarrow> raw)"

definition elf_bytes :: "elf \<Rightarrow> bool" where
  "elf_bytes e \<longleftrightarrow> (case elf_image e of None \<Rightarrow> True | Some raw \<Rightarrow> \<forall>b\<in>set raw. b < 256)"

lemma elf_to_hex_lines:
  assumes "elf_to_hex e = Inr (img, n)"
  shows "splitlines img = map (\<lambda>i. hex 8 (le_word (elf_byte e) i)) [0..<n]" "length (case elf_image e of None \<Rightarrow> [] | Some raw \<Rightarrow> raw) \<le> 4 * n"
proof -
  obtain raw where r1: "elf_image e = Some raw" using assms by (cases "elf_image e") (simp_all add: elf_to_hex_def)
  have r3: "n = length (pad4 raw) div 4" using assms by (simp add: elf_to_hex_def Let_def r1)
  have r2: "img = concat (map (word_line (pad4 raw)) [0..<n])" using assms unfolding r3 by (simp add: elf_to_hex_def Let_def r1)
  have "length (pad4 raw) = 4 * (length (pad4 raw) div 4)" using mult_div_mod_eq [of 4 "length (pad4 raw)"] length_pad4 [of raw] by linarith
  then have l: "length (pad4 raw) = 4 * n" unfolding r3 .
  have nth: "pad4 raw ! j = raw_byte raw j" if "j < 4 * n" for j
    using that l by (auto simp: pad4_def raw_byte_def nth_append)
  show "splitlines img = map (\<lambda>i. hex 8 (le_word (elf_byte e) i)) [0..<n]"
    unfolding r2 elf_byte_def r1 option.case by (rule word_lines) (use l nth in simp_all)
  show "length (case elf_image e of None \<Rightarrow> [] | Some raw \<Rightarrow> raw) \<le> 4 * n" using l by (simp add: pad4_def r1)
qed

interpretation objcopy: word_image elf_to_hex elf_byte elf_bytes
  by unfold_locales (auto simp: elf_byte_def elf_bytes_def raw_byte_def dest: elf_to_hex_lines split: option.splits)

text \<open>The image that the board's builders make of the segments.\<close>

definition seg_bytes :: "segment list \<Rightarrow> bool" where
  "seg_bytes segs \<longleftrightarrow> (\<forall>s\<in>set segs. \<forall>b\<in>set (snd s). b < 256)"

definition place_image :: "int \<Rightarrow> nat \<Rightarrow> segment list \<Rightarrow> (string \<times> nat) res" where
  "place_image base nw segs = rbind (place_segments base nw segs) (\<lambda>m. Inr (emit_image m))"

lemma find_SomeD: "find P xs = Some x \<Longrightarrow> x \<in> set xs \<and> P x"
  by (induction xs) (auto split: if_splits)

lemma loaded_byte_bound: "seg_bytes segs \<Longrightarrow> loaded_byte base segs j < 256"
proof (cases "find (covers base j) (rev segs)")
  case (Some s)
  assume "seg_bytes segs"
  moreover have "s \<in> set segs" "covers base j s" using find_SomeD [OF Some] by auto
  moreover from this(2) have "nat (int j - (int (fst s) - base)) < length (snd s)" by (auto simp: covers_def)
  ultimately show ?thesis using Some by (simp add: loaded_byte_def seg_bytes_def)
qed (simp add: loaded_byte_def)

lemma place_image_lines:
  assumes "place_image base nw segs = Inr (img, n)"
  shows "splitlines img = map (\<lambda>i. hex 8 (le_word (loaded_byte base segs) i)) [0..<n]"
    "n \<le> nw" "4 * n \<le> j \<Longrightarrow> loaded_byte base segs j = 0"
proof -
  have fit: "list_all (seg_fits base (nw * 4)) segs"
  proof (rule ccontr)
    assume "\<not> list_all (seg_fits base (nw * 4)) segs"
    from place_segments_no_fit [OF this] show False using assms by (simp add: place_image_def)
  qed
  from place_segments_fit [OF fit] obtain mem where m: "place_segments base nw segs = Inr (mem, end_of base segs)"
    "length mem = nw * 4" "\<forall>j<nw * 4. mem ! j = loaded_byte base segs j" by blast
  have e: "n = (end_of base segs + 3) div 4" "img = concat (map (word_line mem) [0..<n])"
    using assms m(1) by (auto simp: place_image_def emit_image_def Let_def)
  show n: "n \<le> nw" using end_of_bound [OF fit] unfolding e(1) by presburger
  show "splitlines img = map (\<lambda>i. hex 8 (le_word (loaded_byte base segs) i)) [0..<n]"
    unfolding e(2) using n m(2,3) by (intro word_lines) auto
  show "loaded_byte base segs j = 0" if "4 * n \<le> j"
  proof (rule loaded_beyond_end)
    show "end_of base segs \<le> j" using that unfolding e(1) by presburger
    show "list_all (\<lambda>s. base \<le> int (fst s)) segs" using fit by (auto simp: list_all_iff seg_fits_def)
  qed
qed

interpretation board: word_image "place_image base nw" "loaded_byte base" seg_bytes for base nw
  by unfold_locales (auto simp: loaded_byte_bound dest: place_image_lines)

section \<open>ELF files\<close>

fun le_bytes :: "nat \<Rightarrow> nat \<Rightarrow> nat list" where
  "le_bytes 0 n = []"
| "le_bytes (Suc k) n = n mod 256 # le_bytes k (n div 256)"

lemma le_bytes_length [simp]: "length (le_bytes k n) = k"
  by (induction k arbitrary: n) auto

lemma le_bytes_bound: "\<forall>b\<in>set (le_bytes k n). b < 256"
  by (induction k arbitrary: n) auto

lemma from_le_bytes: "n < 256 ^ k \<Longrightarrow> from_bytes_little (le_bytes k n) = n"
proof (induction k arbitrary: n)
  case (Suc k)
  then have "n div 256 < 256 ^ k" by (simp add: less_mult_imp_div_less mult.commute)
  with Suc.IH show ?case by simp
qed simp

text \<open>A program header of the file, with the bytes of its segment.\<close>

type_synonym program = "nat \<times> nat \<times> nat list"

definition ELF_HDR :: "nat \<Rightarrow> nat list" where
  "ELF_HDR n = ELF_MAGIC @ [1] @ replicate 23 0 @ le_bytes 4 52 @ replicate 10 0 @ le_bytes 2 32 @ le_bytes 2 n @ replicate 6 0"

definition phdr_bytes :: "nat \<Rightarrow> program \<Rightarrow> nat list" where
  "phdr_bytes off = (\<lambda>(ty, paddr, blob). concat (map (le_bytes 4) [ty, off, paddr, paddr, length blob, length blob, 5, 4]))"

definition seg_offset :: "program list \<Rightarrow> nat \<Rightarrow> nat" where
  "seg_offset ps i = 52 + 32 * length ps + length (concat (map (snd \<circ> snd) (take i ps)))"

text \<open>The 32-bit little-endian ELF file with the given segments: header, program headers, contents.\<close>

definition elf_file :: "program list \<Rightarrow> nat list" where
  "elf_file ps = ELF_HDR (length ps) @ concat (map (\<lambda>i. phdr_bytes (seg_offset ps i) (ps ! i)) [0..<length ps])
     @ concat (map (snd \<circ> snd) ps)"

definition elf_wf :: "program list \<Rightarrow> bool" where
  "elf_wf ps \<longleftrightarrow> length ps < 2 ^ 16 \<and> length (elf_file ps) < 2 ^ 32
     \<and> list_all (\<lambda>(ty, paddr, blob). ty < 2 ^ 32 \<and> paddr < 2 ^ 32 \<and> list_all (\<lambda>b. b < 256) blob) ps"

definition loadable :: "program list \<Rightarrow> segment list" where
  "loadable ps = map snd (filter (\<lambda>(ty, paddr, blob). ty = 1 \<and> blob \<noteq> []) ps)"

lemma ELF_HDR_length [simp]: "length (ELF_HDR n) = 52"
  by (simp add: ELF_HDR_def ELF_MAGIC_def)

lemma phdr_bytes_length [simp]: "length (phdr_bytes off p) = 32"
  by (cases p) (simp add: phdr_bytes_def)

lemma concat_const_length: "(\<And>x. x \<in> set xs \<Longrightarrow> length (f x) = k) \<Longrightarrow> length (concat (map f xs)) = k * length xs"
  by (induction xs) auto

lemma concat_const_drop:
  "(\<And>x. length (f x) = k) \<Longrightarrow> i \<le> length xs \<Longrightarrow> drop (k * i) (concat (map f xs)) = concat (map f (drop i xs))"
proof (induction i arbitrary: xs)
  case (Suc i)
  then show ?case by (cases xs) simp_all
qed simp

lemma elf_length: "length (elf_file ps) = 52 + 32 * length ps + length (concat (map (snd \<circ> snd) ps))"
proof -
  have "length (concat (map (\<lambda>i. phdr_bytes (seg_offset ps i) (ps ! i)) [0..<length ps])) = 32 * length [0..<length ps]"
    by (rule concat_const_length) simp
  then show ?thesis by (simp add: elf_file_def)
qed

text \<open>The file from its \<open>i\<close>-th program header on.\<close>

lemma drop_phdr:
  assumes "i < length ps"
  shows "\<exists>rest. drop (52 + 32 * i) (elf_file ps) = phdr_bytes (seg_offset ps i) (ps ! i) @ rest"
proof -
  let ?f = "\<lambda>i. phdr_bytes (seg_offset ps i) (ps ! i)"
  have "length (concat (map ?f [0..<length ps])) = 32 * length [0..<length ps]" by (rule concat_const_length) simp
  moreover have "drop (32 * i) (concat (map ?f [0..<length ps])) = concat (map ?f (drop i [0..<length ps]))"
    using assms by (intro concat_const_drop) simp_all
  moreover have "drop i [0..<length ps] = i # [Suc i..<length ps]" using assms by (simp add: upt_conv_Cons)
  ultimately show ?thesis using assms by (simp add: elf_file_def)
qed

lemma drop_blob:
  assumes "i < length ps"
  shows "\<exists>rest. drop (seg_offset ps i) (elf_file ps) = snd (snd (ps ! i)) @ rest"
proof -
  have l: "length (concat (map (\<lambda>i. phdr_bytes (seg_offset ps i) (ps ! i)) [0..<length ps])) = 32 * length [0..<length ps]"
    by (rule concat_const_length) simp
  have "ps = take i ps @ ps ! i # drop (Suc i) ps" using assms by (simp add: id_take_nth_drop)
  then have "concat (map (snd \<circ> snd) ps) = concat (map (snd \<circ> snd) (take i ps)) @ snd (snd (ps ! i)) @
      concat (map (snd \<circ> snd) (drop (Suc i) ps))"
    by (metis (no_types, lifting) comp_apply concat.simps(2) concat_append list.simps(9) map_append)
  then show ?thesis using l by (simp add: elf_file_def seg_offset_def)
qed

lemma unpack_le_bytes:
  assumes "drop off data = concat (map (le_bytes n) xs) @ rest" "off \<le> length data"
    "list_all (\<lambda>x. x < 256 ^ n) xs" "cnt \<le> length xs"
  shows "unpack_from n cnt data off = Inr (take cnt xs)"
proof -
  have l: "length (concat (map (le_bytes n) xs)) = n * length xs" by (rule concat_const_length) simp
  have "length data = off + (n * length xs + length rest)"
    using assms(2) arg_cong [OF assms(1), of length] l by simp
  moreover have "n * cnt \<le> n * length xs" using assms(4) by simp
  ultimately have fits: "off + n * cnt \<le> length data" by linarith
  have "from_bytes_little (take n (drop (off + n * k) data)) = xs ! k" if k: "k < cnt" for k
  proof -
    have "drop (off + n * k) data = drop (n * k) (drop off data)" by (simp add: add.commute)
    also have "\<dots> = concat (map (le_bytes n) (drop k xs)) @ rest"
    proof -
      have "n * k \<le> length (concat (map (le_bytes n) xs))" using k assms(4) l by simp
      then show ?thesis using k assms(1,4) by (simp add: concat_const_drop)
    qed
    also have "drop k xs = xs ! k # drop (Suc k) xs" using k assms(4) by (simp add: Cons_nth_drop_Suc)
    finally have "take n (drop (off + n * k) data) = le_bytes n (xs ! k)" by simp
    moreover have "xs ! k < 256 ^ n" using assms(3,4) k by (simp add: list_all_length)
    ultimately show ?thesis by (simp add: from_le_bytes)
  qed
  then have "map (\<lambda>k. from_bytes_little (take n (drop (off + n * k) data))) [0..<cnt] = take cnt xs"
    using assms(4) by (intro nth_equalityI) auto
  with fits show ?thesis by (simp add: unpack_from_def)
qed

lemma read_phdr_file:
  assumes wf: "elf_wf ps" and i: "i < length ps" and p: "ps ! i = (ty, paddr, blob)"
  shows "read_phdr (elf_file ps) (52 + 32 * i) = Inr \<lparr>p_type = ty, p_offset = seg_offset ps i, p_vaddr = paddr,
    p_paddr = paddr, p_filesz = length blob, p_memsz = length blob\<rparr>"
proof -
  obtain rest where r: "drop (52 + 32 * i) (elf_file ps) =
      concat (map (le_bytes 4) [ty, seg_offset ps i, paddr, paddr, length blob, length blob, 5, 4]) @ rest"
    using drop_phdr [OF i] p by (auto simp only: phdr_bytes_def prod.case)
  obtain rest2 where r2: "drop (seg_offset ps i) (elf_file ps) = blob @ rest2" using drop_blob [OF i] p by auto
  have so: "seg_offset ps i \<le> length (elf_file ps)" using drop_phdr [OF i]
    by (metis elf_length seg_offset_def add_left_mono length_append append_take_drop_id map_append concat_append le_add1)
  then have "seg_offset ps i + length blob \<le> length (elf_file ps)" using arg_cong [OF r2, of length] by simp
  then have b: "seg_offset ps i < 2 ^ 32" "length blob < 2 ^ 32" using wf by (auto simp: elf_wf_def)
  have t: "ty < 2 ^ 32" "paddr < 2 ^ 32" using wf i p by (auto simp: elf_wf_def list_all_length dest!: spec [of _ i])
  have "unpack_from 4 6 (elf_file ps) (52 + 32 * i) =
      Inr (take 6 [ty, seg_offset ps i, paddr, paddr, length blob, length blob, 5, 4])"
    by (rule unpack_le_bytes [OF r]) (use b t i elf_length [of ps] in simp_all)
  then show ?thesis by (simp add: read_phdr_def)
qed

text \<open>Reading back a well-formed file gives its loadable segments.\<close>

lemma load_segments_file:
  assumes wf: "elf_wf ps" and ne: "loadable ps \<noteq> []"
  shows "load_segments (elf_file ps) = Inr (loadable ps)"
proof -
  let ?d = "elf_file ps"
  have "\<exists>t. ?d = ELF_HDR (length ps) @ t" by (simp add: elf_file_def)
  then obtain t where d: "?d = ELF_HDR (length ps) @ t" by blast
  have m: "take 4 ?d = ELF_MAGIC" "\<not> length ?d \<le> 4" "?d ! 4 = 1"
    using elf_length [of ps] by (simp_all add: d ELF_HDR_def ELF_MAGIC_def nth_append)
  have n: "length ps < 256 ^ 2" using wf by (simp add: elf_wf_def)
  have ph: "unpack_from 4 1 ?d 0x1C = Inr (take 1 [52])"
    by (rule unpack_le_bytes [where rest = "drop 32 ?d"]) (use elf_length [of ps] in \<open>simp_all add: d ELF_HDR_def ELF_MAGIC_def\<close>)
  have ent: "unpack_from 2 2 ?d 0x2A = Inr (take 2 [32, length ps])"
    by (rule unpack_le_bytes [where rest = "drop 46 ?d"]) (use elf_length [of ps] n in \<open>simp_all add: d ELF_HDR_def ELF_MAGIC_def\<close>)
  define h where "h = (\<lambda>i. \<lparr>p_type = fst (ps ! i), p_offset = seg_offset ps i, p_vaddr = fst (snd (ps ! i)),
    p_paddr = fst (snd (ps ! i)), p_filesz = length (snd (snd (ps ! i))), p_memsz = length (snd (snd (ps ! i)))\<rparr>)"
  have "mapr (\<lambda>i. read_phdr ?d (52 + i * 32)) [0..<length ps] = Inr (map h [0..<length ps])"
    unfolding mapr_Inr list_all2_map2
    by (rule list.rel_refl_strong) (use read_phdr_file [OF wf] in \<open>auto simp: h_def mult.commute\<close>)
  moreover have "map (\<lambda>h. (p_paddr h, take (p_filesz h) (drop (p_offset h) ?d)))
      (filter (\<lambda>h. \<not> (p_type h \<noteq> 1 \<or> p_filesz h = 0)) (map h [0..<length ps])) = loadable ps"
  proof -
    have blob: "take (length (snd (snd (ps ! i)))) (drop (seg_offset ps i) ?d) = snd (snd (ps ! i))" if "i < length ps" for i
      using drop_blob [OF that] by auto
    have "loadable ps = map (\<lambda>i. snd (ps ! i)) (filter (\<lambda>i. fst (ps ! i) = 1 \<and> snd (snd (ps ! i)) \<noteq> []) [0..<length ps])"
      unfolding loadable_def
      by (subst map_nth [of ps, symmetric]) (simp add: filter_map comp_def case_prod_beta)
    then show ?thesis using blob by (auto simp: filter_map comp_def h_def intro!: map_cong)
  qed
  moreover from this ne have "filter (\<lambda>h. p_type h = Suc 0 \<and> 0 < p_filesz h) (map h [0..<length ps]) \<noteq> []" by auto
  ultimately show ?thesis
    using ne m ph [unfolded One_nat_def] by (simp add: load_segments_def ent raise_if_def)
qed

section \<open>From the ELF to the image\<close>

lemma loadable_bytes: "elf_wf ps \<Longrightarrow> seg_bytes (loadable ps)"
  by (auto simp: elf_wf_def loadable_def seg_bytes_def list_all_iff)

text \<open>What the image has to be for the segments.\<close>

definition image_holds :: "int \<Rightarrow> nat \<Rightarrow> segment list \<Rightarrow> string \<times> nat \<Rightarrow> bool" where
  "image_holds base nw segs = (\<lambda>(img, n). n \<le> nw \<and> length (splitlines img) = n
     \<and> (\<forall>j<4 * n. image_byte img j = loaded_byte base segs j) \<and> (\<forall>j\<ge>4 * n. loaded_byte base segs j = 0))"

lemma image_of_fits:
  assumes wf: "elf_wf ps" and ne: "loadable ps \<noteq> []" and fit: "list_all (seg_fits base (nw * 4)) (loadable ps)"
  shows "\<exists>r. image_of base nw (elf_file ps) = Inr r \<and> image_holds base nw (loadable ps) r"
proof -
  let ?s = "loadable ps"
  have i: "image_of base nw (elf_file ps) = place_image base nw ?s"
    using load_segments_file [OF wf ne] by (simp add: image_of_def place_image_def)
  obtain mem where "place_segments base nw ?s = Inr (mem, end_of base ?s)" using place_segments_fit [OF fit] by blast
  moreover obtain img n where "emit_image (mem, end_of base ?s) = (img, n)" by fastforce
  ultimately have r: "place_image base nw ?s = Inr (img, n)" by (simp add: place_image_def)
  note b = loadable_bytes [OF wf]
  have "image_holds base nw ?s (img, n)"
    unfolding image_holds_def using place_image_lines(2) [OF r] board.image_words [OF b r] board.image_byte [OF b r]
      board.image_rest [OF b r] by blast
  then show ?thesis using i r by simp
qed


definition demo_elf :: "program list" where
  "demo_elf = [(1, 0x80000000, [0x13, 5, 0x50, 0, 1]), (0x70000003, 0, [7]), (1, 0x80000006, [9])]"


section \<open>The checksum of the block RAM\<close>

lemma bram_step_word: "bram_step (uint a) w = uint (word_rotl 1 (a :: 32 word) + word_of_int w)"
  using checksum_step_word by (simp add: bram_step_def checksum_step_def u32_def MASK32_def)

lemma bram_fold_word:
  "foldl bram_step (uint a) ws = uint (foldl (\<lambda>a w. word_rotl 1 (a :: 32 word) + word_of_int w) a ws)"
  by (induction ws arbitrary: a) (simp_all add: bram_step_word)

lemma word_rotl_inj [simp]: "word_rotl n a = word_rotl n b \<longleftrightarrow> a = (b :: 32 word)"
  by (metis word_rot_lr)

lemma rot_fold_inj:
  "foldl (\<lambda>a w. word_rotl 1 (a :: 32 word) + word_of_int w) a ws = foldl (\<lambda>a w. word_rotl 1 a + word_of_int w) b ws \<Longrightarrow> a = b"
proof (induction ws arbitrary: a b)
  case (Cons w ws)
  have "word_rotl 1 a + word_of_int w = word_rotl 1 b + word_of_int w" by (rule Cons.IH) (use Cons.prems in simp)
  then show ?case by simp
qed simp

text \<open>The expected checksum of the block RAM notices every corrupted word: a read-back that differs from the
  contents in exactly one word, as a 32-bit value, has another checksum, wherever the word is.\<close>

theorem bram_detects:
  assumes "length ws = length vs" "j < length ws" "ws ! j mod 2 ^ 32 \<noteq> vs ! j mod 2 ^ 32"
    and "\<forall>i<length ws. i \<noteq> j \<longrightarrow> ws ! i = vs ! i"
  shows "bram_checksum ws \<noteq> bram_checksum vs"
proof -
  let ?f = "\<lambda>a w. word_rotl 1 (a :: 32 word) + word_of_int w"
  have split: "ws = take j ws @ ws ! j # drop (Suc j) ws" "vs = take j ws @ vs ! j # drop (Suc j) ws"
  proof -
    show "ws = take j ws @ ws ! j # drop (Suc j) ws" using assms(2) by (simp add: id_take_nth_drop)
    have "take j vs = take j ws" "drop (Suc j) vs = drop (Suc j) ws"
      using assms(1,2,4) by (auto intro!: nth_equalityI)
    then show "vs = take j ws @ vs ! j # drop (Suc j) ws" using assms(1,2) by (metis id_take_nth_drop)
  qed
  have "foldl ?f 0 ws \<noteq> foldl ?f 0 vs"
  proof
    assume "foldl ?f 0 ws = foldl ?f 0 vs"
    then have "foldl ?f (?f (foldl ?f 0 (take j ws)) (ws ! j)) (drop (Suc j) ws)
      = foldl ?f (?f (foldl ?f 0 (take j ws)) (vs ! j)) (drop (Suc j) ws)"
      by (subst (asm) split(1), subst (asm) split(2)) (simp only: foldl_append foldl.simps)
    then have "?f (foldl ?f 0 (take j ws)) (ws ! j) = ?f (foldl ?f 0 (take j ws)) (vs ! j)" by (rule rot_fold_inj)
    then have "(word_of_int (ws ! j) :: 32 word) = word_of_int (vs ! j)" by simp
    then show False using assms(3) by (simp add: word_of_int_eq_iff take_bit_eq_mod)
  qed
  moreover have "bram_checksum ws = uint (foldl ?f 0 ws)" for ws
    using bram_fold_word [of 0 ws] by (simp add: bram_checksum_def)
  ultimately show ?thesis by (simp add: word_uint_eq_iff)
qed

theorem bram_detects_witness: "bram_checksum [bram_word 0, bram_word 1] \<noteq> bram_checksum [bram_word 0, 0]"
proof -
  have "bram_word 1 mod 2 ^ 32 \<noteq> 0 mod 2 ^ 32" by code_simp
  then show ?thesis
    using bram_detects [of "[bram_word 0, bram_word 1]" "[bram_word 0, 0]" 1] by (simp add: less_Suc_eq)
qed

end
