(* ===== verification/Clock_Gen.thy ===== *)
theory Clock_Gen
  imports Float_Props Num_Text "HOL-Library.Product_Lexorder"
begin

text \<open>
  The choice of the clock generator's parameters, \<^verbatim>\<open>fpga/scripts/gen_soc_clk.py\<close>: the search over the
  MMCM grid, the check of the UART divisor and the header written. Floats are the rationals of
  \<open>Py_Float\<close>.
\<close>

section \<open>The search\<close>

definition FIN_MHZ :: rat where "FIN_MHZ = 100"
definition VCO_MIN :: rat where "VCO_MIN = 600"
definition VCO_MAX :: rat where "VCO_MAX = 1200"

text \<open>\<^verbatim>\<open>round(x, 9)\<close>.\<close>

definition round9 :: "rat \<Rightarrow> rat" where
  "round9 x = fl (of_int (round_even (x * 10 ^ 9)) / 10 ^ 9)"

definition eighths :: "nat \<Rightarrow> rat" where "eighths n = fdiv (of_nat n) 8"

definition vco_of :: "nat \<Rightarrow> rat" where "vco_of m8 = fmul FIN_MHZ (eighths m8)"

definition freq_of :: "nat \<times> nat \<Rightarrow> rat" where
  "freq_of = (\<lambda>(m8, o8). fdiv (vco_of m8) (eighths o8))"

text \<open>The key of a candidate: the rounded error, then the frequency of the oscillator.\<close>

definition key_of :: "rat \<Rightarrow> nat \<times> nat \<Rightarrow> rat \<times> rat" where
  "key_of target c = (round9 \<bar>fsub (freq_of c) target\<bar>, vco_of (fst c))"

definition vco_ok :: "nat \<Rightarrow> bool" where
  "vco_ok m8 \<longleftrightarrow> \<not> (vco_of m8 < VCO_MIN \<or> vco_of m8 > VCO_MAX)"

text \<open>The candidates in the order of the two loops.\<close>

definition candidates :: "(nat \<times> nat) list" where
  "candidates = concat (map (\<lambda>m8. map (Pair m8) [8..<1025]) (filter vco_ok [16..<513]))"

definition better :: "rat \<Rightarrow> nat \<times> nat \<Rightarrow> (nat \<times> nat) option \<Rightarrow> (nat \<times> nat) option" where
  "better target c best = (case best of
     None \<Rightarrow> Some c
   | Some b \<Rightarrow> if key_of target c < key_of target b then Some c else best)"

definition solve :: "rat \<Rightarrow> (rat \<times> int \<times> rat \<times> rat) res" where
  "solve target = (case fold (better target) candidates None of
     None \<Rightarrow> Inl (SystemExit ''no MMCM solution'')
   | Some c \<Rightarrow> Inr (eighths (fst c), 1, eighths (snd c), freq_of c))"

section \<open>The header\<close>

record soc_clk =
  core_hz :: int
  mmcm_mult :: rat
  mmcm_div :: int
  mmcm_out :: rat
  soc_baud :: int

text \<open>\<^verbatim>\<open>int(round(f * 1e6))\<close>.\<close>

definition hz_of :: "rat \<Rightarrow> int" where "hz_of f = round_even (fmul f 1000000)"

definition baud_error :: "int \<Rightarrow> int \<Rightarrow> int \<Rightarrow> rat" where
  "baud_error hz divisor baud = (
    let actual = fl (of_int hz / of_int divisor)
    in if divisor \<noteq> 0 then fmul (fdiv \<bar>fsub actual (fl (of_int baud))\<bar> (fl (of_int baud))) 100 else 100)"

text \<open>The file, for the requested and the achieved frequency.\<close>

definition svh_lines :: "rat \<Rightarrow> rat \<Rightarrow> soc_clk \<Rightarrow> string list" where
  "svh_lines mhz f h = [
    ''// GENERATED by fpga/scripts/gen_soc_clk.py -- do not edit.'',
    ''// target '' @ fixed 3 mhz @ '' MHz -> achieved '' @ fixed 6 f @ '' MHz (period '' @ fixed 6 (fdiv 1000 f) @ '' ns)'',
    ''`define SOC_CORE_HZ    '' @ show_int (core_hz h),
    ''`define SOC_MMCM_MULT  '' @ fixed 3 (mmcm_mult h),
    ''`define SOC_MMCM_DIV   '' @ show_int (mmcm_div h),
    ''`define SOC_MMCM_OUT   '' @ fixed 3 (mmcm_out h),
    ''`define SOC_BAUD       '' @ show_int (soc_baud h)]"

definition svh_text :: "rat \<Rightarrow> rat \<Rightarrow> soc_clk \<Rightarrow> string" where
  "svh_text mhz f h = concat (map (\<lambda>l. l @ [CHR 0x0A]) (svh_lines mhz f h))"

text \<open>The exit code, with the header when one is written.\<close>

definition gen_clk_main :: "rat \<Rightarrow> int \<Rightarrow> (int \<times> soc_clk option) res" where
  "gen_clk_main mhz baud =
    rbind (solve mhz) (\<lambda>(mult, divclk, odiv, f).
    let hz = hz_of f in
    rbind (raise_if (f = 0) ZeroDivisionError) (\<lambda>u.
    rbind (raise_if (baud = 0) ZeroDivisionError) (\<lambda>u.
    let divisor = hz div baud in
    if divisor < 4 \<or> baud_error hz divisor baud > 1 then Inr (1, None)
    else Inr (0, Some \<lparr>core_hz = hz, mmcm_mult = mult, mmcm_div = divclk, mmcm_out = odiv, soc_baud = baud\<rparr>))))"

section \<open>The search is optimal\<close>

lemma fold_better_mem: "fold (better t) cs best = Some c \<Longrightarrow> c \<in> set cs \<or> best = Some c"
proof (induction cs arbitrary: best)
  case (Cons d ds)
  from Cons.prems have "fold (better t) ds (better t d best) = Some c" by simp
  from Cons.IH [OF this] show ?case by (auto simp: better_def split: option.splits if_splits)
qed simp

lemma fold_better_some: "fold (better t) cs (Some b) = Some c \<Longrightarrow> key_of t c \<le> key_of t b"
proof (induction cs arbitrary: b)
  case (Cons d ds)
  show ?case
  proof (cases "key_of t d < key_of t b")
    case True
    with Cons.IH [of d] Cons.prems show ?thesis by (simp add: better_def)
  next
    case False
    with Cons.IH [of b] Cons.prems show ?thesis by (simp add: better_def)
  qed
qed simp

lemma better_Some: "\<exists>b. better t d best = Some b"
  by (simp add: better_def split: option.splits)

lemma fold_better_least: "fold (better t) cs best = Some c \<Longrightarrow> d \<in> set cs \<Longrightarrow> key_of t c \<le> key_of t d"
proof (induction cs arbitrary: best)
  case (Cons e es)
  show ?case
  proof (cases "d = e")
    case False
    then show ?thesis using Cons.IH [of "better t e best"] Cons.prems by simp
  next
    case True
    obtain b where b: "better t e best = Some b" using better_Some by blast
    then have "key_of t b \<le> key_of t e" by (auto simp: better_def split: option.splits if_splits)
    moreover have "key_of t c \<le> key_of t b" using fold_better_some [of t es b c] Cons.prems(1) b by simp
    ultimately show ?thesis using True by (meson order_trans)
  qed
qed simp

lemma fold_better_defined: "cs \<noteq> [] \<Longrightarrow> \<exists>c. fold (better t) cs best = Some c"
proof (induction cs arbitrary: best)
  case (Cons d ds)
  obtain b where b: "better t d best = Some b" using better_Some by blast
  then show ?case using Cons.IH [of "Some b"] by (cases ds) simp_all
qed simp

lemma eighths_exact: "n < 2 ^ 53 \<Longrightarrow> eighths n = of_nat n / 8"
  unfolding eighths_def fdiv_def by (rule fl_exact [of _ "int n" "- 3"]) (simp_all add: pow2_def)

lemma vco_exact: "m < 2 ^ 40 \<Longrightarrow> vco_of m = of_nat m * (25 / 2)"
proof -
  assume m: "m < 2 ^ 40"
  then have e: "eighths m = of_nat m / 8" by (intro eighths_exact) simp
  show ?thesis unfolding vco_of_def fmul_def e FIN_MHZ_def
    by (subst fl_exact [of _ "100 * int m" "- 3"]) (use m in \<open>simp_all add: pow2_def\<close>)
qed

lemma vco_ok_iff: "m < 2 ^ 40 \<Longrightarrow> vco_ok m \<longleftrightarrow> 48 \<le> m \<and> m \<le> 96"
proof -
  assume m: "m < 2 ^ 40"
  have "of_nat m * (25 / 2) < (600 :: rat) \<longleftrightarrow> of_nat m < (of_nat 48 :: rat)"
    "(1200 :: rat) < of_nat m * (25 / 2) \<longleftrightarrow> (of_nat 96 :: rat) < of_nat m" by auto
  then show ?thesis unfolding vco_ok_def vco_exact [OF m] VCO_MIN_def VCO_MAX_def of_nat_less_iff by auto
qed

lemma grid_mem: "(m, n) \<in> set (concat (map (\<lambda>m. map (Pair m) [a..<b]) (filter P [c..<d]))) \<longleftrightarrow> c \<le> m \<and> m < d \<and> P m \<and> a \<le> n \<and> n < b"
  by auto

lemma candidates_mem: "(m, o8) \<in> set candidates \<longleftrightarrow> 48 \<le> m \<and> m \<le> 96 \<and> 8 \<le> o8 \<and> o8 \<le> 1024"
  unfolding candidates_def grid_mem using vco_ok_iff [of m] by (cases "m < 513") auto

lemma candidates_nonempty: "candidates \<noteq> []"
proof -
  have "(48, 8) \<in> set candidates" unfolding candidates_mem by simp
  then show ?thesis by auto
qed

lemma freq_pos: "c \<in> set candidates \<Longrightarrow> 0 < freq_of c"
proof -
  assume c: "c \<in> set candidates"
  obtain m n where mn: "c = (m, n)" by (cases c)
  have b: "48 \<le> m" "m \<le> 96" "8 \<le> n" "n \<le> 1024" using c unfolding mn candidates_mem by auto
  have f: "freq_of c = fl (of_nat m * (25 / 2) / (of_nat n / 8))"
    using b by (simp add: mn freq_of_def fdiv_def vco_exact eighths_exact)
  have "of_nat 1 * (25 / 2) / (of_nat 1024 / 8) \<le> (of_nat m * (25 / 2) / (of_nat n / 8) :: rat)"
    using b by (intro frac_le mult_right_mono divide_right_mono) simp_all
  moreover have "pow2 (- 1074) \<le> of_nat 1 * (25 / 2) / (of_nat 1024 / 8)"
    using pow2_mono_1 [of 10 1074] pow2_sub [of 0 10] by (simp add: pow2_def)
  ultimately have p: "pow2 (- 1074) \<le> of_nat m * (25 / 2) / (of_nat n / 8)" by (rule order_trans [rotated])
  have "0 < of_nat m * (25 / 2) / (of_nat n / 8 :: rat)" using b by simp
  then have "0 < of_nat m * (25 / 2) / (of_nat n / 8 :: rat) / 2" by (rule half_gt_zero)
  then show "0 < freq_of c" unfolding f using fl_bounds(1) [OF p] by (rule less_le_trans)
qed

text \<open>The candidate chosen for a target.\<close>

definition best_for :: "rat \<Rightarrow> nat \<times> nat \<Rightarrow> bool" where
  "best_for target c \<longleftrightarrow> c \<in> set candidates \<and> list_all (\<lambda>e. key_of target c \<le> key_of target e) candidates"

lemma solve_best: "\<exists>c. best_for t c \<and> solve t = Inr (eighths (fst c), 1, eighths (snd c), freq_of c)"
proof -
  obtain c where c: "fold (better t) candidates None = Some c"
    using fold_better_defined [OF candidates_nonempty] by blast
  have "best_for t c"
    unfolding best_for_def list_all_iff using fold_better_mem [OF c] fold_better_least [OF c] by blast
  with c show ?thesis by (intro exI [of _ c]) (simp add: solve_def)
qed

text \<open>The header follows from the candidate alone.\<close>

definition header_of :: "nat \<times> nat \<Rightarrow> int \<Rightarrow> soc_clk" where
  "header_of c baud = \<lparr>core_hz = hz_of (freq_of c), mmcm_mult = eighths (fst c), mmcm_div = 1,
     mmcm_out = eighths (snd c), soc_baud = baud\<rparr>"

definition usable :: "nat \<times> nat \<Rightarrow> int \<Rightarrow> bool" where
  "usable c baud \<longleftrightarrow> 4 \<le> hz_of (freq_of c) div baud
     \<and> baud_error (hz_of (freq_of c)) (hz_of (freq_of c) div baud) baud \<le> 1"


end
