(* ===== verification/Bench_Image.thy ===== *)
theory Bench_Image
  imports Mem_Props Clock_Gen
begin

text \<open>
  The benchmark image, \<^verbatim>\<open>fpga/scripts/build_bench_image.py\<close>: the compiler and linker calls with their
  flags, the flags line every capture quotes, the core clock read from the generated header, and the
  image. The compiler is a function from its command line to the file it writes, \<open>None\<close> when it fails;
  paths are the strings the code joins.
\<close>

section \<open>Flags\<close>

definition ARCH_ALIASES :: "(string \<times> string) list" where
  "ARCH_ALIASES = [(''rv32i'', ''rv32i''), (''rv32im'', ''rv32im''),
     (''rv32imb'', ''rv32im_zba_zbb_zbs_zbkb_zicond_zkr_zkt''), (''rv32imzb'', ''rv32im_zba_zbb_zbs_zbkb'')]"

definition resolve_arch :: "string \<Rightarrow> string" where
  "resolve_arch arch = (case map_of ARCH_ALIASES arch of None \<Rightarrow> arch | Some a \<Rightarrow> a)"

definition arch_flags :: "string \<Rightarrow> string list" where
  "arch_flags arch = [''-march='' @ resolve_arch arch @ ''_zicsr'', ''-mabi=ilp32'']"

definition DHRY_W :: "string list" where
  "DHRY_W = [''-Wno-implicit-int'', ''-Wno-implicit-function-declaration'', ''-Wno-return-type'', ''-Wno-old-style-definition'']"

definition BASE_FLAGS :: "string list" where
  "BASE_FLAGS = [''-O2'', ''-ffreestanding'', ''-nostdlib'', ''-nostartfiles'', ''-fno-common'', ''-Wall'']"

text \<open>The directories, relative to the root of the repository.\<close>

definition bench_dir :: "string \<Rightarrow> string" where "bench_dir rdir = rdir @ ''/sw/bench''"
definition soc_dir :: "string \<Rightarrow> string" where "soc_dir rdir = rdir @ ''/sw/soc''"
definition dhry_dir :: "string \<Rightarrow> string" where "dhry_dir rdir = rdir @ ''/toolchain/riscv-tests/benchmarks/dhrystone''"
definition cm_dir :: "string \<Rightarrow> string" where "cm_dir rdir = rdir @ ''/toolchain/coremark''"

definition incs :: "string \<Rightarrow> string list" where
  "incs rdir = [''-I'' @ bench_dir rdir, ''-I'' @ bench_dir rdir @ ''/include'', ''-I'' @ bench_dir rdir @ ''/coremark_port'',
     ''-I'' @ cm_dir rdir, ''-I'' @ dhry_dir rdir]"

text \<open>Whether the first part of the resolved name, after \<^verbatim>\<open>rv32\<close>, has the letter of the M extension.\<close>

definition has_m :: "string \<Rightarrow> bool" where
  "has_m arch \<longleftrightarrow> CHR ''m'' \<in> set (hd (split_on CHR ''_'' (drop 4 (resolve_arch arch))))"

definition flags_str :: "string \<Rightarrow> string" where
  "flags_str arch = join '' '' (arch_flags arch @ BASE_FLAGS)
     @ '' | dhrystone: -std=gnu89 + upstream no-inline pragma'' @ '' | mul/div: ''
     @ (if has_m arch then ''hardware M extension'' else ''libgcc software (no M extension)'')"

record bench_config =
  dhry_runs :: int
  iterations :: int
  gap_cycles :: int
  b_arch :: string
  b_hpm :: bool

definition common_flags :: "string \<Rightarrow> int \<Rightarrow> bench_config \<Rightarrow> string list" where
  "common_flags rdir clk c = arch_flags (b_arch c) @ BASE_FLAGS @ incs rdir
     @ [''-DCORE_HZ='' @ show_int clk @ ''u'', ''-DDHRY_RUNS='' @ show_int (dhry_runs c),
        ''-DITERATIONS='' @ show_int (iterations c), ''-DBENCH_GAP_CYCLES='' @ show_int (gap_cycles c) @ ''u'',
        ''-DBENCH_FLAGS='' @ [CHR 0x22] @ flags_str (b_arch c) @ [CHR 0x22]]
     @ (if b_hpm c then [''-DBENCH_HPM''] else [])"

definition cm_defs :: "string \<Rightarrow> string list" where
  "cm_defs arch = [''-DPERFORMANCE_RUN=1'', ''-DTOTAL_DATA_SIZE=2000'',
     ''-DCOMPILER_FLAGS='' @ [CHR 0x22] @ flags_str arch @ [CHR 0x22]]"

section \<open>Compiling and linking\<close>

text \<open>The sources with the extra flags of each.\<close>

definition units :: "string \<Rightarrow> string \<Rightarrow> (string \<times> string list) list" where
  "units rdir arch = [
     (bench_dir rdir @ ''/bench_main.c'', []),
     (bench_dir rdir @ ''/bench_io.c'', []),
     (bench_dir rdir @ ''/bench_lib.c'', [''-fno-builtin'', ''-fno-tree-loop-distribute-patterns'']),
     (bench_dir rdir @ ''/dhry_glue.c'', [''-std=gnu89'']),
     (dhry_dir rdir @ ''/dhrystone_main.c'', [''-std=gnu89'', ''-Dmain=dhry_main''] @ DHRY_W),
     (dhry_dir rdir @ ''/dhrystone.c'', [''-std=gnu89''] @ DHRY_W),
     (bench_dir rdir @ ''/coremark_port/core_portme.c'', cm_defs arch),
     (cm_dir rdir @ ''/core_main.c'', cm_defs arch @ [''-Dmain=coremark_main'']),
     (cm_dir rdir @ ''/core_list_join.c'', cm_defs arch),
     (cm_dir rdir @ ''/core_matrix.c'', cm_defs arch),
     (cm_dir rdir @ ''/core_state.c'', cm_defs arch),
     (cm_dir rdir @ ''/core_util.c'', cm_defs arch)]"

definition GCC :: string where "GCC = ''riscv-none-elf-gcc''"

definition obj_of :: "string \<Rightarrow> string \<Rightarrow> string" where
  "obj_of objdir src = (let b = basename src in objdir @ ''/'' @ take (length b - 2) b @ ''.o'')"

definition unit_cmd :: "string list \<Rightarrow> string \<Rightarrow> string \<times> string list \<Rightarrow> string list" where
  "unit_cmd common objdir = (\<lambda>(src, extra). GCC # common @ extra @ [''-c'', ''-o'', obj_of objdir src, src])"

definition crt_cmd :: "string \<Rightarrow> string \<Rightarrow> string \<Rightarrow> string list" where
  "crt_cmd rdir objdir arch = GCC # arch_flags arch @ [''-c'', ''-o'', objdir @ ''/crt0.o'', soc_dir rdir @ ''/crt0.S'']"

definition link_cmd :: "string \<Rightarrow> string \<Rightarrow> string \<Rightarrow> string \<Rightarrow> string list \<Rightarrow> string list" where
  "link_cmd rdir objdir out_elf arch objs = GCC # arch_flags arch @ BASE_FLAGS
     @ [''-T'', soc_dir rdir @ ''/link.ld'', ''-o'', out_elf, objdir @ ''/crt0.o''] @ objs @ [''-lgcc'']"

definition compile_unit :: "compiler \<Rightarrow> string list \<Rightarrow> string \<Rightarrow> string \<times> string list \<Rightarrow> string list \<Rightarrow> string list res" where
  "compile_unit cc common objdir u objs = (case cc (unit_cmd common objdir u) of
     None \<Rightarrow> Inl (SystemExit (''compile failed: '' @ fst u))
   | Some f \<Rightarrow> Inr (objs @ [obj_of objdir (fst u)]))"

text \<open>The flags line and the linked file.\<close>

definition bench_build :: "compiler \<Rightarrow> string \<Rightarrow> string \<Rightarrow> string \<Rightarrow> int \<Rightarrow> bench_config \<Rightarrow> (string \<times> nat list) res" where
  "bench_build cc rdir out_elf objdir clk c =
    rbind (res_fold (compile_unit cc (common_flags rdir clk c) objdir) (units rdir (b_arch c)) []) (\<lambda>objs.
    case cc (crt_cmd rdir objdir (b_arch c)) of None \<Rightarrow> Inl (SystemExit ''crt0 failed'') | Some f \<Rightarrow>
    case cc (link_cmd rdir objdir out_elf (b_arch c) objs) of None \<Rightarrow> Inl (SystemExit ''link failed'')
    | Some elf \<Rightarrow> Inr (flags_str (b_arch c), elf))"

section \<open>The core clock and the image\<close>

definition CORE_HZ_MACRO :: string where "CORE_HZ_MACRO = ''`define SOC_CORE_HZ''"

definition hz_line :: "string \<Rightarrow> int option \<Rightarrow> int option res" where
  "hz_line line hz = (if startswith line CORE_HZ_MACRO
     then rbind (int_base 10 (last (split_ws line))) (\<lambda>n. Inr (Some n)) else Inr hz)"

definition read_core_hz :: "string \<Rightarrow> int option res" where
  "read_core_hz svh = res_fold hz_line (splitlines svh) None"

text \<open>The command line: the header is read when no frequency is given.\<close>

definition bench_image_main :: "compiler \<Rightarrow> string \<Rightarrow> string \<Rightarrow> string \<Rightarrow> string \<Rightarrow> int option \<Rightarrow> bench_config \<Rightarrow> int \<Rightarrow> nat \<Rightarrow>
    (string \<times> string \<times> nat) res" where
  "bench_image_main cc rdir svh out_elf objdir clk c base nw =
    rbind (if clk = None then read_core_hz svh else Inr clk) (\<lambda>hz. case hz of
      None \<Rightarrow> Inl (SystemExit ''no SOC_CORE_HZ'')
    | Some hz \<Rightarrow>
        rbind (bench_build cc rdir out_elf objdir hz c) (\<lambda>(flags, elf).
        rbind (image_of base nw elf) (\<lambda>(img, n). Inr (flags, img, n))))"

section \<open>The clock from the generator to the benchmark\<close>

lemma fixed_no_newline: "CHR 0x0A \<notin> set (fixed k x)"
proof -
  have "CHR 0x0A \<notin> set (zfill k (show_nat n))" for n using digits_no_newline by (auto simp: zfill_def)
  then show ?thesis using digits_no_newline by (auto simp: fixed_def Let_def)
qed

lemma show_int_no_newline: "CHR 0x0A \<notin> set (show_int i)"
  using digits_no_newline by (auto simp: show_int_def)

lemma read_header: "read_core_hz (svh_text mhz f h) = Inr (Some (core_hz h))"
proof -
  have l: "splitlines (svh_text mhz f h) = svh_lines mhz f h"
    unfolding svh_text_def
    by (rule splitlines_lines) (auto simp: svh_lines_def fixed_no_newline show_int_no_newline)
  have "split_ws (''`define SOC_CORE_HZ    '' @ show_int i) = [''`define'', ''SOC_CORE_HZ'', show_int i]" for i
    using words_acc_token [of "show_int i" "[]"] show_int_not_space by (simp add: split_ws_def is_space_def)
  then have hz: "hz_line (''`define SOC_CORE_HZ    '' @ show_int i) x = Inr (Some i)" for i x
    by (simp add: hz_line_def startswith_def CORE_HZ_MACRO_def)
  show ?thesis
    unfolding read_core_hz_def l svh_lines_def res_fold.simps hz
    by (simp add: hz_line_def startswith_def CORE_HZ_MACRO_def)
qed

text \<open>The clock generator and the benchmark builder agree on the clock: for every header the generator writes,
  the frequency the builder reads from it is the one of the header, so without \<^verbatim>\<open>--core-hz\<close> the image is
  the one built for that frequency.\<close>

theorem clock_roundtrip:
  "bench_image_main cc rdir (svh_text mhz f h) out objdir None c base nw
     = bench_image_main cc rdir svh out objdir (Some (core_hz h)) c base nw"
  by (simp add: bench_image_main_def read_header)

section \<open>What a build runs\<close>

definition build_cmds :: "string \<Rightarrow> string \<Rightarrow> string \<Rightarrow> int \<Rightarrow> bench_config \<Rightarrow> string list list" where
  "build_cmds rdir out objdir hz c =
     map (unit_cmd (common_flags rdir hz c) objdir) (units rdir (b_arch c))
     @ [crt_cmd rdir objdir (b_arch c), link_cmd rdir objdir out (b_arch c) (map (obj_of objdir \<circ> fst) (units rdir (b_arch c)))]"

lemma compile_units:
  "res_fold (compile_unit cc common objdir) us objs =
     (case find (\<lambda>u. cc (unit_cmd common objdir u) = None) us of
        Some u \<Rightarrow> Inl (SystemExit (''compile failed: '' @ fst u))
      | None \<Rightarrow> Inr (objs @ map (obj_of objdir \<circ> fst) us))"
  by (induction us arbitrary: objs) (auto simp: compile_unit_def split: option.splits)

lemma find_None_all: "find P xs = None \<longleftrightarrow> list_all (\<lambda>x. \<not> P x) xs"
  by (induction xs) auto

text \<open>A command that passes the flags line and the clock on.\<close>

definition quotes :: "int \<Rightarrow> string \<Rightarrow> string list \<Rightarrow> bool" where
  "quotes hz flags cmd \<longleftrightarrow> ''-DBENCH_FLAGS='' @ [CHR 0x22] @ flags @ [CHR 0x22] \<in> set cmd
     \<and> ''-DCORE_HZ='' @ show_int hz @ ''u'' \<in> set cmd"

lemma unit_cmd_quotes: "quotes hz (flags_str (b_arch c)) (unit_cmd (common_flags rdir hz c) objdir u)"
  by (cases u) (simp add: quotes_def unit_cmd_def common_flags_def)

text \<open>A benchmark build returns a linked file exactly when every command succeeded: the twelve sources
  compiled with the common flags, the start-up code and the link. The file is what the link command
  wrote, and the flags line, which every capture quotes, is the one passed to each of the sources
  together with the clock frequency.\<close>

theorem bench_build_iff:
  "bench_build cc rdir out objdir hz c = Inr (flags, elf) \<longleftrightarrow>
     list_all (\<lambda>cmd. cc cmd \<noteq> None) (build_cmds rdir out objdir hz c)
     \<and> cc (last (build_cmds rdir out objdir hz c)) = Some elf \<and> flags = flags_str (b_arch c)
     \<and> list_all (quotes hz flags) (take 12 (build_cmds rdir out objdir hz c))"
proof -
  let ?p = "\<lambda>u. cc (unit_cmd (common_flags rdir hz c) objdir u) = None"
  let ?us = "units rdir (b_arch c)"
  have twelve: "length ?us = 12" by (simp add: units_def)
  show ?thesis
  proof (cases "find ?p ?us")
    case None
    then have "list_all (\<lambda>u. \<not> ?p u) ?us" by (simp add: find_None_all)
    then show ?thesis using None
      by (auto simp: bench_build_def compile_units build_cmds_def twelve list_all_iff unit_cmd_quotes comp_def
          split: option.splits)
  next
    case (Some u)
    from find_SomeD [OF this] show ?thesis using Some
      by (auto simp: bench_build_def compile_units build_cmds_def list_all_iff)
  qed
qed

text \<open>The note on multiplication in the flags line is true of the architecture the image is compiled for: of the
  architectures the command line accepts, only plain RV32I is said to use the library routines, and it
  is the only one whose \<^verbatim>\<open>-march\<close> lacks the M extension.\<close>

definition march_has_m :: "string \<Rightarrow> bool" where
  "march_has_m arch \<longleftrightarrow> is_sub ''rv32im'' (hd (arch_flags arch))"

lemma flags_truthful:
  "list_all (\<lambda>arch. is_sub (if march_has_m arch then ''mul/div: hardware M extension'' else ''mul/div: libgcc software'')
      (flags_str arch) \<and> (march_has_m arch \<longleftrightarrow> arch \<noteq> ''rv32i''))
    [''rv32i'', ''rv32im'', ''rv32imzb'', ''rv32imb'']"
  by code_simp

end
