(* ===== verification/Fmax.thy ===== *)
theory Fmax
  imports Py_Regex Py_Float
begin

text \<open>
  The Fmax measurement, \<^verbatim>\<open>fpga/scripts/fmax_search.py\<close>: reading one implementation run, the probe, and
  the binary search with its summary. What the clock generator and the Vivado build print for a
  requested frequency is an argument, \<open>None\<close> when the generator fails. The files written and the
  wall-clock times are left out.
\<close>

section \<open>One implementation run\<close>

definition RE_RESULT :: re where
  "RE_RESULT = seqs [Bol, lit ''SOC_RESULT '', Group 1 (Many any_char), Eol]"

text \<open>\<^verbatim>\<open>float(s)\<close> for a decimal number without exponent.\<close>

definition float_of :: "string \<Rightarrow> rat res" where
  "float_of s = (
    let neg = startswith s ''-''; u = (if neg \<or> startswith s ''+'' then drop 1 s else s);
        whole = takeWhile is_digit u; tail = dropWhile is_digit u;
        frac = (if startswith tail ''.'' then drop 1 tail else [])
    in if (tail = [] \<or> startswith tail ''.'') \<and> list_all is_digit frac \<and> whole @ frac \<noteq> []
       then let x = fl (of_nat (read_base 10 (whole @ frac)) / 10 ^ length frac) in Inr (if neg then - x else x)
       else Inl (ValueError ''could not convert string to float''))"

definition field :: "(string \<times> string) list \<Rightarrow> string \<Rightarrow> string res" where
  "field d k = (case map_of d k of None \<Rightarrow> Inl (KeyError k) | Some v \<Rightarrow> Inr v)"

definition key_value :: "string \<Rightarrow> (string \<times> string) res" where
  "key_value w = (if CHR ''='' \<in> set w
     then Inr (takeWhile (\<lambda>c. c \<noteq> CHR ''='') w, drop 1 (dropWhile (\<lambda>c. c \<noteq> CHR ''='') w))
     else Inl (ValueError ''dictionary update sequence element has length 1''))"

record measured =
  period :: rat
  mhz :: rat
  wns :: rat
  whs :: rat
  luts :: int
  ffs :: int
  bram :: int
  requested_mhz :: rat

text \<open>The last value of a repeated key is the one a Python dictionary keeps.\<close>

definition parse_result :: "rat \<Rightarrow> string \<Rightarrow> measured option res" where
  "parse_result req out = (case re_search RE_RESULT out of
     None \<Rightarrow> Inr None
   | Some m \<Rightarrow>
       rbind (mapr key_value (split_ws (group m 1))) (\<lambda>kvs.
       let d = rev kvs in
       rbind (rbind (field d ''period'') float_of) (\<lambda>p.
       rbind (rbind (field d ''mhz'') float_of) (\<lambda>f.
       rbind (rbind (field d ''wns'') float_of) (\<lambda>s.
       rbind (rbind (field d ''whs'') float_of) (\<lambda>h.
       rbind (rbind (field d ''luts'') (int_base 10)) (\<lambda>l.
       rbind (rbind (field d ''ffs'') (int_base 10)) (\<lambda>r.
       rbind (rbind (field d ''bram'') (int_base 10)) (\<lambda>b.
       Inr (Some \<lparr>period = p, mhz = f, wns = s, whs = h, luts = l, ffs = r, bram = b, requested_mhz = req\<rparr>))))))))))"

type_synonym impl = "rat \<Rightarrow> string option"

definition run_impl :: "impl \<Rightarrow> rat \<Rightarrow> measured option res" where
  "run_impl im req = (case im req of None \<Rightarrow> Inr None | Some out \<Rightarrow> parse_result req out)"

definition meets_timing :: "measured \<Rightarrow> bool" where
  "meets_timing d \<longleftrightarrow> wns d \<ge> 0 \<and> whs d \<ge> 0"

section \<open>The probe and the search\<close>

definition probe :: "impl \<Rightarrow> rat \<Rightarrow> int res" where
  "probe im req = rbind (run_impl im req) (\<lambda>r. case r of
     None \<Rightarrow> Inr 1 | Some d \<Rightarrow> Inr (if meets_timing d then 0 else 1))"

record search =
  s_lo :: rat
  s_hi :: rat
  s_best :: measured
  s_history :: "measured list"

text \<open>What one measurement does to the interval: the bounds are the frequencies achieved.\<close>

definition bisect :: "measured \<Rightarrow> search \<Rightarrow> search" where
  "bisect d s = (
    let s = s\<lparr>s_history := s_history s @ [d]\<rparr>
    in if meets_timing d
       then s\<lparr>s_lo := mhz d, s_best := (if mhz d > mhz (s_best s) then d else s_best s)\<rparr>
       else s\<lparr>s_hi := mhz d\<rparr>)"

text \<open>The loop, with the number of iterations still allowed; \<open>None\<close> is an implementation that did
  not complete.\<close>

fun search_loop :: "impl \<Rightarrow> rat \<Rightarrow> nat \<Rightarrow> search \<Rightarrow> search option res" where
  "search_loop im tol 0 s = Inr (Some s)"
| "search_loop im tol (Suc n) s = (
    if fsub (s_hi s) (s_lo s) \<ge> tol then
      rbind (run_impl im (fdiv (fadd (s_lo s) (s_hi s)) 2)) (\<lambda>r. case r of
        None \<Rightarrow> Inr None
      | Some d \<Rightarrow> search_loop im tol n (bisect d s))
    else Inr (Some s))"

record summary =
  fmax_mhz :: rat
  fmax_period_ns :: rat
  wns_at_fmax :: rat
  whs_at_fmax :: rat
  first_failing_mhz :: "rat option"
  history :: "measured list"

definition least_of :: "rat list \<Rightarrow> rat option" where
  "least_of xs = (case xs of [] \<Rightarrow> None | y # ys \<Rightarrow> Some (fold min ys y))"

definition summarise :: "search \<Rightarrow> summary" where
  "summarise s = \<lparr>fmax_mhz = mhz (s_best s), fmax_period_ns = period (s_best s), wns_at_fmax = wns (s_best s),
     whs_at_fmax = whs (s_best s), first_failing_mhz = least_of (map mhz (filter (\<lambda>h. wns h < 0) (s_history s))),
     history = s_history s\<rparr>"

text \<open>The exit code, with the summary when the search completes.\<close>

definition fmax_main :: "impl \<Rightarrow> rat \<Rightarrow> rat \<Rightarrow> rat \<Rightarrow> nat \<Rightarrow> (int \<times> summary option) res" where
  "fmax_main im lo hi tol max_iters =
    rbind (run_impl im lo) (\<lambda>r. case r of None \<Rightarrow> Inr (1, None) | Some d \<Rightarrow>
    if \<not> meets_timing d then Inr (1, None) else
    rbind (run_impl im hi) (\<lambda>r. case r of None \<Rightarrow> Inr (1, None) | Some e \<Rightarrow>
    if meets_timing e then Inr (1, None) else
    rbind (search_loop im tol max_iters \<lparr>s_lo = lo, s_hi = hi, s_best = d, s_history = [d, e]\<rparr>) (\<lambda>r. case r of
      None \<Rightarrow> Inr (1, None)
    | Some s \<Rightarrow> Inr (0, Some (summarise s)))))"

section \<open>What the search reports\<close>

text \<open>The bounds are the ones requested or achieved frequencies of runs that passed and failed.\<close>

definition bracket :: "rat \<Rightarrow> rat \<Rightarrow> measured list \<Rightarrow> rat \<Rightarrow> rat \<Rightarrow> bool" where
  "bracket lo hi h l u \<longleftrightarrow> (l = lo \<or> l \<in> mhz ` set (filter meets_timing h))
     \<and> (u = hi \<or> u \<in> mhz ` set (filter (\<lambda>d. \<not> meets_timing d) h))"

definition search_ok :: "impl \<Rightarrow> rat \<Rightarrow> rat \<Rightarrow> search \<Rightarrow> bool" where
  "search_ok im lo hi s \<longleftrightarrow> s_best s \<in> set (s_history s) \<and> meets_timing (s_best s)
     \<and> (\<forall>d\<in>set (s_history s). meets_timing d \<longrightarrow> mhz d \<le> mhz (s_best s))
     \<and> (\<forall>d\<in>set (s_history s). run_impl im (requested_mhz d) = Inr (Some d))
     \<and> bracket lo hi (s_history s) (s_lo s) (s_hi s)"

lemma parse_result_req: "parse_result req out = Inr (Some d) \<Longrightarrow> requested_mhz d = req"
  by (auto simp: parse_result_def rbind_Inr_iff Let_def split: option.splits)

lemma run_impl_req: "run_impl im req = Inr (Some d) \<Longrightarrow> requested_mhz d = req"
  by (auto simp: run_impl_def dest: parse_result_req split: option.splits)

lemma bisect_history [simp]: "s_history (bisect d s) = s_history s @ [d]"
  by (simp add: bisect_def Let_def)

lemma bracket_snoc: "bracket lo hi h l u \<Longrightarrow> bracket lo hi (h @ [d]) l u"
  by (auto simp: bracket_def)

lemma bisect_ok:
  "search_ok im lo hi s \<Longrightarrow> run_impl im (requested_mhz d) = Inr (Some d) \<Longrightarrow> search_ok im lo hi (bisect d s)"
  using bracket_snoc [of lo hi "s_history s" "s_lo s" "s_hi s" d]
  by (cases "meets_timing d") (auto simp: search_ok_def bisect_def bracket_def Let_def)

lemma search_loop_ok:
  "search_loop im tol n s = Inr (Some t) \<Longrightarrow> search_ok im lo hi s \<Longrightarrow>
     search_ok im lo hi t \<and> (\<exists>more. s_history t = s_history s @ more \<and> length more \<le> n)
     \<and> (fsub (s_hi t) (s_lo t) < tol \<or> length (s_history t) = length (s_history s) + n)"
proof (induction im tol n s rule: search_loop.induct)
  case (2 im tol n s)
  show ?case
  proof (cases "fsub (s_hi s) (s_lo s) \<ge> tol")
    case False
    with "2.prems" show ?thesis by auto
  next
    case True
    with "2.prems"(1) obtain d where d: "run_impl im (fdiv (fadd (s_lo s) (s_hi s)) 2) = Inr (Some d)"
      and l: "search_loop im tol n (bisect d s) = Inr (Some t)"
      by (auto simp: rbind_Inr_iff split: option.splits)
    have "search_ok im lo hi (bisect d s)"
      using bisect_ok "2.prems"(2) run_impl_req [OF d] d by simp
    from "2.IH" [OF True d refl l this] show ?thesis by auto
  qed
qed auto

text \<open>What a summary promises of the runs behind it.\<close>

definition summary_ok :: "impl \<Rightarrow> rat \<Rightarrow> rat \<Rightarrow> rat \<Rightarrow> nat \<Rightarrow> summary \<Rightarrow> bool" where
  "summary_ok im lo hi tol n sm \<longleftrightarrow>
     (\<exists>b\<in>set (history sm). meets_timing b \<and> mhz b = fmax_mhz sm \<and> period b = fmax_period_ns sm
        \<and> wns b = wns_at_fmax sm \<and> whs b = whs_at_fmax sm)
   \<and> list_all (\<lambda>d. run_impl im (requested_mhz d) = Inr (Some d) \<and> (meets_timing d \<longrightarrow> mhz d \<le> fmax_mhz sm)) (history sm)
   \<and> (\<exists>d e more. history sm = d # e # more \<and> requested_mhz d = lo \<and> meets_timing d
        \<and> requested_mhz e = hi \<and> \<not> meets_timing e \<and> length more \<le> n
        \<and> (length more = n \<or> (\<exists>l u. bracket lo hi (history sm) l u \<and> fsub u l < tol)))"

lemma completes:
  "rbind m (\<lambda>r. case r of None \<Rightarrow> Inr (1, None) | Some d \<Rightarrow> f d) = Inr (0 :: int, Some x)
     \<longleftrightarrow> (\<exists>d. m = Inr (Some d) \<and> f d = Inr (0, Some x))"
  by (cases m) (auto split: option.splits)

lemma fmax_summary_ok:
  assumes "fmax_main im lo hi tol n = Inr (0, Some sm)"
  shows "summary_ok im lo hi tol n sm"
proof -
  obtain d e t where d: "run_impl im lo = Inr (Some d)" "meets_timing d" and e: "run_impl im hi = Inr (Some e)" "\<not> meets_timing e"
    and l: "search_loop im tol n \<lparr>s_lo = lo, s_hi = hi, s_best = d, s_history = [d, e]\<rparr> = Inr (Some t)"
    and sm: "sm = summarise t"
    using assms unfolding fmax_main_def completes by (auto split: if_split_asm simp: completes)
  note req = run_impl_req [OF d(1)] run_impl_req [OF e(1)]
  have "search_ok im lo hi \<lparr>s_lo = lo, s_hi = hi, s_best = d, s_history = [d, e]\<rparr>"
    using d e req by (simp add: search_ok_def bracket_def)
  from search_loop_ok [OF l this] obtain more where ok: "search_ok im lo hi t" and m: "s_history t = [d, e] @ more"
    "length more \<le> n" "fsub (s_hi t) (s_lo t) < tol \<or> length more = n" by auto
  have "\<exists>d e more. history sm = d # e # more \<and> requested_mhz d = lo \<and> meets_timing d
        \<and> requested_mhz e = hi \<and> \<not> meets_timing e \<and> length more \<le> n
        \<and> (length more = n \<or> (\<exists>l u. bracket lo hi (history sm) l u \<and> fsub u l < tol))"
    using ok m d(2) e(2) req unfolding search_ok_def sm summarise_def
    by (intro exI [of _ d] exI [of _ e] exI [of _ more]) auto
  then show ?thesis
    using ok by (auto simp: summary_ok_def search_ok_def sm summarise_def list_all_iff)
qed

text \<open>C32: The search reports a summary only after measuring both endpoints, the lower one passing and the
  upper one failing. The frequency it reports as Fmax is the achieved frequency of a run of its history
  that meets setup and hold, with that run's period and slacks, and no passing run of the history is
  faster; every run of the history is what the implementation gave for the frequency requested. After
  the endpoints come at most \<open>max_iters\<close> runs, and fewer only when a bound that passed and a bound that
  failed lie closer than the tolerance.\<close>

theorem fmax_sound:
  assumes "fmax_main im lo hi tol n = Inr (0, Some sm)"
  shows "summary_ok im lo hi tol n sm"
  using assms by (rule fmax_summary_ok)

definition demo_impl :: impl where
  "demo_impl req = Some (if req \<le> 60
     then ''SOC_RESULT period=16 mhz=61 wns=0.5 whs=0 luts=5 ffs=6 bram=7''
     else ''SOC_RESULT period=14 mhz=70 wns=-1 whs=0 luts=5 ffs=6 bram=7'')"

lemma fmax_sound_witness:
  "\<exists>sm. fmax_main demo_impl 55 65 2 1 = Inr (0, Some sm) \<and> fmax_mhz sm = 61 \<and> summary_ok demo_impl 55 65 2 1 sm"
proof -
  have "(case fmax_main demo_impl 55 65 2 1 of Inr (c, Some sm) \<Rightarrow> c = 0 \<and> fmax_mhz sm = 61 | _ \<Rightarrow> False)"
    by code_simp
  then obtain sm where "fmax_main demo_impl 55 65 2 1 = Inr (0, Some sm)" "fmax_mhz sm = 61"
    by (auto split: sum.splits option.splits)
  with fmax_sound [of demo_impl 55 65 2 1 sm] show ?thesis by blast
qed

text \<open>The frequency the summary prints as the fastest constraint that failed is the slowest of those that
  missed setup; a run that missed only hold does not count.\<close>

lemma least_of_le: "least_of xs = Some y \<Longrightarrow> x \<in> set xs \<Longrightarrow> y \<le> x"
proof -
  have f: "fold min zs z \<le> z \<and> (\<forall>x\<in>set zs. fold min zs z \<le> x)" for zs and z :: rat
    by (induction zs arbitrary: z) (auto intro: order_trans [OF _ min.cobounded1] order_trans [OF _ min.cobounded2])
  assume "least_of xs = Some y" "x \<in> set xs"
  then show ?thesis using f by (cases xs) (auto simp: least_of_def)
qed

lemma reported_failing_is_slowest:
  assumes "first_failing_mhz (summarise s) = Some y" "d \<in> set (s_history s)" "wns d < 0"
  shows "y \<le> mhz d"
  using assms by (auto simp: summarise_def intro: least_of_le)

end
