(* ===== verification/Arch_Sig.thy ===== *)
theory Arch_Sig
  imports Num_Text Py_Regex Sim_Tests
begin

text \<open>
  The RISCOF side of the core: \<^verbatim>\<open>tb/riscof/rvntt_run.py\<close>, which runs one architecture test and
  reconstructs the signature from the committed stores, and the two plugins
  \<^verbatim>\<open>riscof_rvntt.py\<close> and \<^verbatim>\<open>riscof_spike_ref.py\<close>, which compile and run the tests. The simulator is
  the one of \<open>Sim_Tests\<close>; the file it writes is the store log here. RISCOF itself and the shell that
  runs the commands are not modelled.
\<close>

section \<open>Running a test\<close>

text \<open>One word with the enabled byte lanes replaced.\<close>

definition replace_lane :: "int \<Rightarrow> int \<Rightarrow> int \<Rightarrow> nat \<Rightarrow> int" where
  "replace_lane be data w lane = (if be AND push_bit lane 1 \<noteq> 0
     then let m = push_bit (8 * lane) 0xFF in (w AND NOT m) OR (data AND m) else w)"

definition merge_lanes :: "int \<Rightarrow> int \<Rightarrow> int \<Rightarrow> int" where
  "merge_lanes w be data = foldl (replace_lane be data) w [0..<4] AND 0xFFFFFFFF"

definition apply_store :: "int \<times> int \<times> int \<Rightarrow> int list \<Rightarrow> int list" where
  "apply_store = (\<lambda>(addr, be, data) mem.
    let idx = drop_bit 2 (addr - int BASE)
    in if idx < 0 \<or> idx \<ge> int (length mem) then mem
       else mem[nat idx := merge_lanes (mem ! nat idx) be data])"

definition replay_line :: "string \<Rightarrow> int list \<Rightarrow> int list res" where
  "replay_line line mem = (
    let f = split_ws line in
    if length f \<noteq> 3 then Inr mem
    else rbind (int_base 16 (f ! 0)) (\<lambda>addr. rbind (int_base 16 (f ! 1)) (\<lambda>be. rbind (int_base 16 (f ! 2)) (\<lambda>data.
      Inr (apply_store (addr, be, data) mem)))))"

definition sig_word :: "int list \<Rightarrow> int \<Rightarrow> string" where
  "sig_word mem addr = (
    let idx = drop_bit 2 (addr - int BASE)
    in hex 8 (nat (if 0 \<le> idx \<and> idx < int (length mem) then mem ! nat idx else 0)))"

text \<open>\<^verbatim>\<open>range(lo, hi, 4)\<close>.\<close>

definition range4 :: "int \<Rightarrow> int \<Rightarrow> int list" where
  "range4 lo hi = map (\<lambda>i. lo + 4 * int i) [0..<nat ((hi - lo + 3) div 4)]"

definition write_signature :: "int list \<Rightarrow> int \<Rightarrow> int \<Rightarrow> string" where
  "write_signature mem lo hi = concat (map (\<lambda>a. sig_word mem a @ [CHR 0x0A]) (range4 lo hi))"

text \<open>The exit code, with the signature when the symbols are there.\<close>

definition rvntt_run :: "sim \<Rightarrow> elf \<Rightarrow> string \<Rightarrow> nat \<Rightarrow> (int \<times> string option) res" where
  "rvntt_run exe elf store_log max_cycles =
    (case (symbol (elf_nm elf) ''tohost'', symbol (elf_nm elf) ''begin_signature'', symbol (elf_nm elf) ''end_signature'') of
       (Some tohost, Some lo, Some hi) \<Rightarrow>
         rbind (elf_to_hex elf) (\<lambda>(hexf, nwords).
         let r = exe hexf [''--tohost'', ''0x'' @ hex 8 tohost, ''--expect-tohost'', ''1'', ''--store-log'', store_log,
                           ''--max-cycles'', show_nat max_cycles] in
         rbind (mapr (int_base 16) (splitlines hexf)) (\<lambda>mem.
         let mem = mem @ replicate (nwords - length mem) 0 in
         rbind (case s_trace r of None \<Rightarrow> Inr mem | Some stores \<Rightarrow> res_fold replay_line (splitlines stores) mem) (\<lambda>mem.
         Inr (if s_rc r = 0 then 0 else 1, Some (write_signature mem (int lo) (int hi))))))
     | _ \<Rightarrow> Inr (1, None))"

section \<open>The plugins\<close>

definition to_lower :: "char \<Rightarrow> char" where
  "to_lower c = (if is_upper c then char_of (of_char c + 32 :: nat) else c)"

definition to_upper :: "char \<Rightarrow> char" where
  "to_upper c = (if is_lower c then char_of (of_char c - 32 :: nat) else c)"

definition lower :: "string \<Rightarrow> string" where "lower s = map to_lower s"

text \<open>\<^verbatim>\<open>shlex.quote\<close>.\<close>

definition shell_safe :: "char \<Rightarrow> bool" where
  "shell_safe c \<longleftrightarrow> is_word c \<or> c \<in> set ''@%+=:,./-''"

definition sh_quote :: "string \<Rightarrow> string" where
  "sh_quote s = (let q = [CHR 0x27]; dq = [CHR 0x22] in
     if s = [] then q @ q else if list_all shell_safe s then s
     else q @ replace_all q (q @ dq @ q @ dq @ q) s @ q)"

record test_entry =
  t_work_dir :: string
  t_macros :: "string list"
  t_isa :: string
  t_path :: string

text \<open>The compiler command both plugins format, for the directory of the environment.\<close>

definition compile_line :: "string \<Rightarrow> string \<Rightarrow> test_entry \<Rightarrow> string \<Rightarrow> string" where
  "compile_line env archtest_env t elf =
    ''riscv-none-elf-gcc -march='' @ lower (t_isa t) @ '' -mno-relax''
    @ '' -static -mcmodel=medany -fvisibility=hidden -nostdlib'' @ '' -nostartfiles -g''
    @ '' -T '' @ env @ ''/link.ld'' @ '' -I '' @ env @ ''/'' @ '' -I '' @ archtest_env @ '' '' @ t_path t
    @ '' -o '' @ elf @ '' '' @ '' -D'' @ join '' -D'' (t_macros t) @ '' -mabi=ilp32''"

definition dut_xlen :: "int list \<Rightarrow> unit res" where
  "dut_xlen supported = raise_if (64 \<in> set supported) (SystemExit ''rvntt is RV32 only'')"

record dut_config =
  d_plugin :: string
  d_runner :: string
  d_sim :: string
  d_image :: string
  d_target_run :: bool

definition dut_target :: "dut_config \<Rightarrow> string \<Rightarrow> string \<Rightarrow> test_entry \<Rightarrow> string" where
  "dut_target c archtest_env name t = (
    let sig = t_work_dir t @ ''/'' @ name @ ''.signature''; logf = t_work_dir t @ ''/'' @ name @ ''.log'';
        cmd = compile_line (d_plugin c @ ''/env'') archtest_env t ''my.elf'';
        run = (if d_target_run c
          then ''python3 '' @ sh_quote (d_runner c) @ '' --exe '' @ sh_quote (d_sim c) @ '' --image '' @ sh_quote (d_image c)
               @ '' --elf my.elf --sig '' @ sh_quote sig @ '' --log '' @ sh_quote logf
          else ''echo '' @ [CHR 0x22] @ ''NO RUN'' @ [CHR 0x22])
    in ''@cd '' @ t_work_dir t @ ''; '' @ cmd @ ''; '' @ run @ '';'')"

text \<open>The ISA string Spike is given, from the one of the YAML file.\<close>

definition ISA_LETTERS :: re where
  "ISA_LETTERS = seqs [lit ''RV32'', Group 1 (Many (\<lambda>c. is_upper c \<and> c \<noteq> CHR ''X'' \<and> c \<noteq> CHR ''Z''))]"

definition ZEXT :: re where
  "ZEXT = Seq (Cls (\<lambda>c. c \<in> set ''Zz'')) (Plus (\<lambda>c. is_upper c \<or> is_lower c))"

definition spike_letters :: "string \<Rightarrow> string" where
  "spike_letters raw = (case re_match ISA_LETTERS (map to_upper raw) of
     None \<Rightarrow> ''i'' | Some m \<Rightarrow> if group m 1 \<noteq> [] then lower (group m 1) else ''i'')"

definition spike_zexts :: "string \<Rightarrow> string list" where
  "spike_zexts raw = map (\<lambda>m. lower (group m 0)) (re_finditer ZEXT raw)"

definition spike_isa :: "int list \<Rightarrow> string \<Rightarrow> string res" where
  "spike_isa supported raw =
    rbind (raise_if (64 \<in> set supported) (SystemExit ''spike_ref is configured for RV32 only'')) (\<lambda>u.
    let letters = spike_letters raw; zexts = spike_zexts raw;
        isa = ''rv32'' @ letters @ concat (map (\<lambda>z. CHR ''_'' # z) zexts);
        rebuilt = lower (''rv32'' @ letters @ concat zexts)
    in if rebuilt \<noteq> lower (filter (\<lambda>c. c \<noteq> CHR ''_'') raw)
       then Inl (SystemExit ''spike_ref: cannot express the ISA of the DUT to Spike'') else Inr isa)"

definition ref_target :: "string \<Rightarrow> string \<Rightarrow> string \<Rightarrow> string \<Rightarrow> string \<Rightarrow> test_entry \<Rightarrow> string" where
  "ref_target env spike ref_isa archtest_env name t = (
    let sig = t_work_dir t @ ''/'' @ name @ ''.signature'';
        cmd = compile_line env archtest_env t ''ref.elf'';
        run = ''timeout 600 '' @ sh_quote spike @ '' --isa='' @ ref_isa @ '' +signature='' @ sh_quote sig
              @ '' +signature-granularity=4 ref.elf''
    in ''@cd '' @ t_work_dir t @ ''; '' @ cmd @ ''; '' @ run @ '';'')"

end
