(* ===== verification/Arch_Sig_Props.thy ===== *)
theory Arch_Sig_Props
  imports Arch_Sig Mem_Props
begin

text \<open>
  The signature is the memory the stores leave behind, byte by byte, and the reference simulator is
  given every extension of the DUT.
\<close>

section \<open>Stores as bytes\<close>

definition byte_of :: "int \<Rightarrow> nat \<Rightarrow> int" where
  "byte_of w k = drop_bit (8 * k) w AND 0xFF"

lemma byte_mask: "(0xFF :: int) = mask 8"
  by (simp add: mask_eq_exp_minus_1)

lemma byte_of_bit: "bit (byte_of w k) i \<longleftrightarrow> i < 8 \<and> bit w (8 * k + i)"
  by (auto simp: byte_of_def byte_mask bit_simps)

lemma byte_eqI: "(\<And>i. i < 8 \<Longrightarrow> bit v (8 * k + i) = bit w (8 * k + i)) \<Longrightarrow> byte_of v k = byte_of w k"
  by (rule bit_eqI) (auto simp: byte_of_bit)

lemma lane_bit: "(be :: int) AND push_bit lane 1 \<noteq> 0 \<longleftrightarrow> bit be lane"
  by (rule bit_iff_and_push_bit_not_eq_0 [symmetric])

lemma replace_lane_bit:
  "bit (replace_lane be data w lane) i \<longleftrightarrow> (if bit be lane \<and> i div 8 = lane then bit data i else bit w i)"
proof -
  have "8 * lane \<le> i \<and> i < 8 * lane + 8 \<longleftrightarrow> i div 8 = lane" by auto
  moreover have "bit (push_bit (8 * lane) (0xFF :: int)) i \<longleftrightarrow> 8 * lane \<le> i \<and> i < 8 * lane + 8"
    by (auto simp: byte_mask bit_simps)
  ultimately have m: "bit (push_bit (8 * lane) (0xFF :: int)) i \<longleftrightarrow> i div 8 = lane" by simp
  show ?thesis
    unfolding replace_lane_def Let_def lane_bit by (cases "bit be lane") (simp_all only: if_True if_False bit_or_iff bit_and_iff bit_not_iff_eq m simp_thms, auto simp: m)
qed

lemma replace_lanes_bit:
  "bit (foldl (replace_lane be data) w ls) i \<longleftrightarrow> (if i div 8 \<in> set ls \<and> bit be (i div 8) then bit data i else bit w i)"
  by (induction ls arbitrary: w) (auto simp: replace_lane_bit)

lemma merge_lanes_bit:
  "bit (merge_lanes w be data) i \<longleftrightarrow> i < 32 \<and> (if bit be (i div 8) then bit data i else bit w i)"
proof -
  have m: "(0xFFFFFFFF :: int) = mask 32" by (simp add: mask_eq_exp_minus_1)
  have "i div 8 \<in> set [0..<4] \<longleftrightarrow> i < 32" by auto
  then show ?thesis unfolding merge_lanes_def m bit_and_iff bit_mask_iff replace_lanes_bit by auto
qed

lemma merge_lanes_byte: "k < 4 \<Longrightarrow> byte_of (merge_lanes w be data) k = (if bit be k then byte_of data k else byte_of w k)"
proof -
  assume k: "k < 4"
  have "(8 * k + i) div 8 = k" if "i < 8" for i using that by simp
  with k show ?thesis by (auto intro!: byte_eqI simp: merge_lanes_bit)
qed

lemma merge_lanes_bounds: "0 \<le> merge_lanes w be data" "merge_lanes w be data < 2 ^ 32"
proof -
  have m: "(0xFFFFFFFF :: int) = mask 32" by (simp add: mask_eq_exp_minus_1)
  show "0 \<le> merge_lanes w be data" "merge_lanes w be data < 2 ^ 32"
    unfolding merge_lanes_def m by (rule and_mask_bound)+
qed

text \<open>The byte at an offset of the memory after a run of stores: the last store that writes it decides.\<close>

type_synonym store = "int \<times> int \<times> int"

definition store_writes :: "int \<Rightarrow> store \<Rightarrow> bool" where
  "store_writes off s = (case s of (addr, be, data) \<Rightarrow> drop_bit 2 (addr - int BASE) = off div 4 \<and> bit be (nat (off mod 4)))"

definition stored_byte :: "(int \<Rightarrow> int) \<Rightarrow> store list \<Rightarrow> int \<Rightarrow> int" where
  "stored_byte m stores off = (case find (store_writes off) (rev stores) of
     None \<Rightarrow> m off | Some (addr, be, data) \<Rightarrow> byte_of data (nat (off mod 4)))"

lemma stored_byte_snoc:
  "stored_byte m (ss @ [s]) off = (if store_writes off s then byte_of (snd (snd s)) (nat (off mod 4)) else stored_byte m ss off)"
  by (cases s) (simp add: stored_byte_def)

definition mem_byte :: "int list \<Rightarrow> int \<Rightarrow> int" where
  "mem_byte mem off = byte_of (mem ! nat (off div 4)) (nat (off mod 4))"

lemma apply_store_byte:
  assumes "0 \<le> off" "off div 4 < int (length mem)"
  shows "mem_byte (apply_store s mem) off = (if store_writes off s then byte_of (snd (snd s)) (nat (off mod 4)) else mem_byte mem off)"
proof -
  obtain addr be data where s: "s = (addr, be, data)" by (cases s)
  have k: "nat (off mod 4) < 4" by simp
  have n: "\<not> addr < int BASE" if "drop_bit 2 (addr - int BASE) = off div 4"
    using that assms(1) drop_bit_nonnegative_int_iff [of 2 "addr - int BASE"] by linarith
  show ?thesis using assms k
    by (auto simp: s apply_store_def Let_def mem_byte_def store_writes_def merge_lanes_byte nth_list_update nat_eq_iff dest: n)
qed

lemma apply_store_length [simp]: "length (apply_store s mem) = length mem"
  by (cases s) (simp add: apply_store_def Let_def)

lemma apply_stores_length [simp]: "length (fold apply_store ss mem) = length mem"
  by (induction ss arbitrary: mem) simp_all

lemma apply_stores_byte:
  assumes "0 \<le> off" "off div 4 < int (length mem)"
  shows "mem_byte (fold apply_store ss mem) off = stored_byte (mem_byte mem) ss off"
proof (induction ss rule: rev_induct)
  case Nil
  then show ?case by (simp add: stored_byte_def)
next
  case (snoc s ss)
  then show ?case using assms by (simp add: apply_store_byte stored_byte_snoc)
qed

section \<open>The log and the image as text\<close>

text \<open>A line of the store log as the testbench prints it.\<close>

definition store_line :: "store \<Rightarrow> string" where
  "store_line s = (case s of (addr, be, data) \<Rightarrow> hex 8 (nat addr) @ '' '' @ hex 1 (nat be) @ '' '' @ hex 8 (nat data))"

definition store_ok :: "store \<Rightarrow> bool" where
  "store_ok s \<longleftrightarrow> (case s of (addr, be, data) \<Rightarrow> 0 \<le> addr \<and> 0 \<le> be \<and> 0 \<le> data)"

definition store_log_of :: "store list \<Rightarrow> string" where
  "store_log_of ss = concat (map (\<lambda>s. store_line s @ [CHR 0x0A]) ss)"

lemma words_acc_append:
  "(\<And>c. c \<in> set s \<Longrightarrow> \<not> is_space c) \<Longrightarrow> is_space x \<Longrightarrow> acc @ s \<noteq> [] \<Longrightarrow>
     words_acc acc (s @ x # t) = (rev acc @ s) # words_acc [] t"
  by (induction s arbitrary: acc) auto

lemma split_store_line: "split_ws (hex a x @ '' '' @ hex b y @ '' '' @ hex c z) = [hex a x, hex b y, hex c z]"
proof -
  have sp: "is_space CHR '' ''" by (simp add: is_space_def)
  have "split_ws (hex a x @ '' '' @ hex b y @ '' '' @ hex c z) = hex a x # words_acc [] (hex b y @ '' '' @ hex c z)"
    using words_acc_append [of "hex a x" "CHR '' ''" "[]"] hex_not_space sp by (simp add: split_ws_def)
  also have "words_acc [] (hex b y @ '' '' @ hex c z) = hex b y # words_acc [] (hex c z)"
    using words_acc_append [of "hex b y" "CHR '' ''" "[]"] hex_not_space sp by simp
  also have "words_acc [] (hex c z) = [hex c z]" using words_acc_token [of "hex c z" "[]"] hex_not_space by simp
  finally show ?thesis .
qed

lemma replay_store_line: "store_ok s \<Longrightarrow> replay_line (store_line s) mem = Inr (apply_store s mem)"
  unfolding store_line_def store_ok_def
  by (cases s) (simp add: replay_line_def split_store_line [simplified])

lemma replay_log: "list_all store_ok ss \<Longrightarrow> res_fold replay_line (splitlines (store_log_of ss)) mem = Inr (fold apply_store ss mem)"
proof -
  assume ok: "list_all store_ok ss"
  have "splitlines (store_log_of ss) = map store_line ss"
  proof -
    have "splitlines (concat (map (\<lambda>l. l @ [CHR 0x0A]) (map store_line ss))) = map store_line ss"
      by (rule splitlines_lines) (auto simp: store_line_def digits_no_newline)
    then show ?thesis by (simp add: store_log_of_def comp_def)
  qed
  moreover have "res_fold replay_line (map store_line ss) mem = Inr (fold apply_store ss mem)"
    using ok by (induction ss arbitrary: mem) (simp_all add: replay_store_line)
  ultimately show ?thesis by simp
qed

definition word_mem :: "int list \<Rightarrow> bool" where
  "word_mem mem \<longleftrightarrow> list_all (\<lambda>w. 0 \<le> w \<and> w < 2 ^ 32) mem"

lemma word_mem_store: "word_mem mem \<Longrightarrow> word_mem (apply_store s mem)"
  using merge_lanes_bounds
  by (cases s) (auto simp: word_mem_def apply_store_def Let_def list_all_length nth_list_update)

lemma word_mem_stores: "word_mem mem \<Longrightarrow> word_mem (fold apply_store ss mem)"
  by (induction ss arbitrary: mem) (simp_all add: word_mem_store)

text \<open>The image read back as words: the contract of \<open>objcopy\<close>, at the words the runner parses.\<close>

definition image_words :: "nat list \<Rightarrow> int list" where
  "image_words raw = map (\<lambda>i. int (le_word (raw_byte raw) i)) [0..<length (pad4 raw) div 4]"

lemma image_words_read:
  assumes "elf_image elf = Some raw" "\<forall>b\<in>set raw. b < 256"
  shows "\<exists>img. elf_to_hex elf = Inr (img, length (image_words raw)) \<and> mapr (int_base 16) (splitlines img) = Inr (image_words raw)"
proof -
  obtain img where i: "elf_to_hex elf = Inr (img, length (pad4 raw) div 4)"
    using assms(1) by (simp add: elf_to_hex_def Let_def)
  have "elf_bytes elf" using assms by (simp add: elf_bytes_def)
  from objcopy.image_read [OF this i] show ?thesis using i assms(1) by (simp add: image_words_def elf_byte_def)
qed

lemma byte_of_nat: "0 \<le> w \<Longrightarrow> int (nat w div 256 ^ k mod 256) = byte_of w k"
proof -
  assume "0 \<le> w"
  then have "int (nat w div 256 ^ k mod 256) = w div 2 ^ (8 * k) mod 256"
    by (simp add: zdiv_int zmod_int power_mult)
  also have "\<dots> = byte_of w k"
    by (simp add: byte_of_def byte_mask drop_bit_eq_div take_bit_eq_mod flip: take_bit_eq_mask)
  finally show ?thesis .
qed

lemma raw_byte_bound: "\<forall>b\<in>set raw. b < 256 \<Longrightarrow> raw_byte raw j < 256"
  by (simp add: raw_byte_def)

lemma image_words_byte:
  assumes "\<forall>b\<in>set raw. b < 256" "0 \<le> off" "off div 4 < int (length (image_words raw))"
  shows "mem_byte (image_words raw) off = int (raw_byte raw (nat off))"
proof -
  obtain j where off: "off = int j" using assms(2) nonneg_int_cases by blast
  have "int (j div 4) < int (length (pad4 raw) div 4)" using assms(3) by (simp add: off image_words_def zdiv_int)
  then have i: "j div 4 < length (pad4 raw) div 4" by (simp only: of_nat_less_iff)
  have k: "nat (off mod 4) = j mod 4" "nat (off div 4) = j div 4" by (simp_all add: off nat_mod_distrib nat_div_distrib)
  have "mem_byte (image_words raw) off = byte_of (int (le_word (raw_byte raw) (j div 4))) (j mod 4)"
    unfolding mem_byte_def k image_words_def using i by simp
  also have "\<dots> = int (le_word (raw_byte raw) (j div 4) div 256 ^ (j mod 4) mod 256)" by (subst byte_of_nat [symmetric]) simp_all
  also have "\<dots> = int (raw_byte raw j)" using le_word_byte [of "raw_byte raw"] raw_byte_bound [OF assms(1)] by simp
  finally show ?thesis by (simp add: off)
qed

section \<open>The signature\<close>

lemma sig_word_byte:
  assumes "word_mem mem" "k < 4" "4 dvd off" "0 \<le> off"
  shows "int (read_base 16 (sig_word mem (int BASE + off)) div 256 ^ k mod 256) =
    (if off div 4 < int (length mem) then mem_byte mem (off + int k) else 0)"
proof -
  have pos: "0 \<le> off div 4" using assms(4) by linarith
  have k: "(off + int k) div 4 = off div 4" "(off + int k) mod 4 = int k" using assms(2,3) by presburger+
  have "0 \<le> mem ! nat (off div 4)" if "off div 4 < int (length mem)"
    using that pos assms(1) by (auto simp: word_mem_def list_all_length)
  then show ?thesis using pos assms(4)
    by (simp add: sig_word_def Let_def mem_byte_def k byte_of_nat drop_bit_eq_div) (simp add: byte_of_def)
qed

lemma write_signature_lines: "splitlines (write_signature mem lo hi) = map (sig_word mem) (range4 lo hi)"
proof -
  have "splitlines (concat (map (\<lambda>l. l @ [CHR 0x0A]) (map (sig_word mem) (range4 lo hi)))) = map (sig_word mem) (range4 lo hi)"
    by (rule splitlines_lines) (auto simp: sig_word_def Let_def digits_no_newline)
  then show ?thesis by (simp add: write_signature_def comp_def)
qed

text \<open>The memory the test leaves behind, by the offset from the base of the RAM: the loaded program with the
  stores applied, up to the end of the words that were loaded.\<close>

definition final_byte :: "nat list \<Rightarrow> store list \<Rightarrow> int \<Rightarrow> int" where
  "final_byte raw stores off = (if 0 \<le> off \<and> off div 4 < int (length (pad4 raw) div 4)
     then stored_byte (\<lambda>o'. int (raw_byte raw (nat o'))) stores off else 0)"

lemma final_mem_byte:
  assumes "\<forall>b\<in>set raw. b < 256" "0 \<le> off"
  shows "(if off div 4 < int (length (image_words raw)) then mem_byte (fold apply_store ss (image_words raw)) off else 0)
    = final_byte raw ss off"
proof -
  have l: "length (image_words raw) = length (pad4 raw) div 4" by (simp add: image_words_def)
  show ?thesis
  proof (cases "off div 4 < int (length (image_words raw))")
    case True
    have "mem_byte (image_words raw) off = int (raw_byte raw (nat off))"
      using assms True by (rule image_words_byte)
    then show ?thesis using True assms(2) l
      by (simp add: apply_stores_byte final_byte_def stored_byte_def split: option.splits)
  next
    case False
    then show ?thesis using l by (simp add: final_byte_def)
  qed
qed

lemma image_words_mem: "\<forall>b\<in>set raw. b < 256 \<Longrightarrow> word_mem (image_words raw)"
proof -
  assume b: "\<forall>b\<in>set raw. b < 256"
  have "int (le_word (raw_byte raw) i) < 2 ^ 32" for i
    using le_word_bound [of "raw_byte raw" i] raw_byte_bound [OF b] by (metis of_nat_less_iff of_nat_numeral of_nat_power)
  then show ?thesis by (auto simp: word_mem_def image_words_def list_all_iff)
qed

text \<open>The signature a run writes, when the simulator logs the stores.\<close>

definition signature_ok :: "nat list \<Rightarrow> store list \<Rightarrow> nat \<Rightarrow> nat \<Rightarrow> string \<Rightarrow> bool" where
  "signature_ok raw stores lo n sig \<longleftrightarrow> length (splitlines sig) = n
     \<and> (\<forall>j<4 * n. int (image_byte sig j) = final_byte raw stores (int lo - int BASE + int j))"

lemma write_signature_ok:
  assumes "\<forall>b\<in>set raw. b < 256" "4 dvd lo - BASE" "BASE \<le> lo"
  shows "signature_ok raw ss lo n (write_signature (fold apply_store ss (image_words raw)) (int lo) (int (lo + 4 * n)))"
proof -
  let ?m = "fold apply_store ss (image_words raw)"
  have r: "range4 (int lo) (int (lo + 4 * n)) = map (\<lambda>i. int BASE + (int lo - int BASE + 4 * int i)) [0..<n]"
    by (simp add: range4_def)
  have l: "splitlines (write_signature ?m (int lo) (int (lo + 4 * n))) =
      map (\<lambda>i. sig_word ?m (int BASE + (int lo - int BASE + 4 * int i))) [0..<n]"
    unfolding write_signature_lines r by simp
  have w: "word_mem ?m" by (rule word_mem_stores [OF image_words_mem [OF assms(1)]])
  have "int (image_byte (write_signature ?m (int lo) (int (lo + 4 * n))) j) = final_byte raw ss (int lo - int BASE + int j)"
    if j: "j < 4 * n" for j
  proof -
    have i: "j div 4 < n" using j by (simp add: div_less_iff_less_mult mult.commute)
    define off where "off = int lo - int BASE + 4 * int (j div 4)"
    obtain q where q: "lo - BASE = 4 * q" using assms(2) by blast
    have "int lo - int BASE = 4 * int q" using q assms(3) by linarith
    then have "off = 4 * (int q + int (j div 4))" by (simp add: off_def)
    then have off: "4 dvd off" "0 \<le> off" by simp_all
    have "int (4 * (j div 4) + j mod 4) = int j" by simp
    then have oj: "off + int (j mod 4) = int lo - int BASE + int j" by (simp only: off_def of_nat_add of_nat_mult of_nat_numeral)
    have d: "(off + int (j mod 4)) div 4 = off div 4" using off(1) by presburger
    have "int (image_byte (write_signature ?m (int lo) (int (lo + 4 * n))) j) =
        (if off div 4 < int (length ?m) then mem_byte ?m (off + int (j mod 4)) else 0)"
      unfolding image_byte_def l using sig_word_byte [OF w, of "j mod 4" off] off i by (simp add: off_def)
    also have "\<dots> = final_byte raw ss (off + int (j mod 4))"
      using final_mem_byte [OF assms(1), of "off + int (j mod 4)" ss] off(2) unfolding d by simp
    finally show ?thesis unfolding oj .
  qed
  moreover have "length (splitlines (write_signature ?m (int lo) (int (lo + 4 * n)))) = n" by (simp only: l length_map length_upt diff_zero)
  ultimately show ?thesis unfolding signature_ok_def by blast
qed

definition run_args :: "nat \<Rightarrow> string \<Rightarrow> nat \<Rightarrow> string list" where
  "run_args tohost store_log max_cycles = [''--tohost'', ''0x'' @ hex 8 tohost, ''--expect-tohost'', ''1'',
     ''--store-log'', store_log, ''--max-cycles'', show_nat max_cycles]"

text \<open>C30: The signature handed to RISCOF is the memory between the two symbols as the stores left it: for a test
  with its symbols and a word-aligned signature inside or above the program's base, and a simulator
  that logs the committed stores, the runner writes one word per line, and each byte of the signature
  is the byte the last logged store to it wrote, the byte of the loaded program where none did, and
  zero past the loaded words. It does so whether the test finished or not, and returns 0 only when it
  did.\<close>

theorem signature_replays_stores:
  assumes "elf_image elf = Some raw" "\<forall>b\<in>set raw. b < 256"
    and "symbol (elf_nm elf) ''tohost'' = Some tohost" "symbol (elf_nm elf) ''begin_signature'' = Some lo"
    and "symbol (elf_nm elf) ''end_signature'' = Some (lo + 4 * n)" "4 dvd lo - BASE" "BASE \<le> lo"
    and "\<And>img. exe img (run_args tohost store_log max_cycles) = \<lparr>s_rc = rc, s_out = out, s_trace = Some (store_log_of stores)\<rparr>"
    and "list_all store_ok stores"
  shows "\<exists>sig. rvntt_run exe elf store_log max_cycles = Inr (if rc = 0 then 0 else 1, Some sig)
    \<and> signature_ok raw stores lo n sig"
proof -
  obtain img where img: "elf_to_hex elf = Inr (img, length (image_words raw))"
    "mapr (int_base 16) (splitlines img) = Inr (image_words raw)" using image_words_read [OF assms(1,2)] by blast
  have "rvntt_run exe elf store_log max_cycles = Inr (if rc = 0 then 0 else 1,
      Some (write_signature (fold apply_store stores (image_words raw)) (int lo) (int (lo + 4 * n))))"
    using assms(8) [of img] replay_log [OF assms(9)]
    by (simp add: rvntt_run_def assms(3-5) img run_args_def)
  then show ?thesis using write_signature_ok [OF assms(2,6,7)] by blast
qed

definition demo_nm :: string where
  "demo_nm = ''80000000 T tohost'' @ [CHR 0x0A] @ ''80000004 D begin_signature'' @ [CHR 0x0A]
     @ ''80000008 D end_signature'' @ [CHR 0x0A]"

definition demo_sim :: sim where
  "demo_sim img args = \<lparr>s_rc = 1, s_out = [], s_trace = Some (store_log_of [(0x80000004, 5, 0x11223344)])\<rparr>"

theorem signature_replays_stores_witness:
  "\<exists>sig. rvntt_run demo_sim \<lparr>elf_image = Some [1, 2, 3, 4, 5, 6, 7, 8], elf_nm = demo_nm, elf_spike = \<lambda>l i. (0, [])\<rparr> ''s'' 9
      = Inr (1, Some sig) \<and> signature_ok [1, 2, 3, 4, 5, 6, 7, 8] [(0x80000004, 5, 0x11223344)] 0x80000004 1 sig"
proof -
  let ?e = "\<lparr>elf_image = Some [1, 2, 3, 4, 5, 6, 7, 8 :: nat], elf_nm = demo_nm, elf_spike = \<lambda>l i. (0, [])\<rparr>"
  have l: "splitlines demo_nm = [''80000000 T tohost'', ''80000004 D begin_signature'', ''80000008 D end_signature'']"
    by (simp add: demo_nm_def splitlines_def)
  have w: "split_ws ''80000000 T tohost'' = [''80000000'', ''T'', ''tohost'']"
    "split_ws ''80000004 D begin_signature'' = [''80000004'', ''D'', ''begin_signature'']"
    "split_ws ''80000008 D end_signature'' = [''80000008'', ''D'', ''end_signature'']"
    by (simp_all add: split_ws_def is_space_def)
  have n: "int16 ''80000000'' = 0x80000000" "int16 ''80000004'' = 0x80000004" "int16 ''80000008'' = 0x80000004 + 4 * 1"
    by (simp_all add: int16_def startswith_def read_base_def)
  have s: "symbol demo_nm ''tohost'' = Some 0x80000000" "symbol demo_nm ''begin_signature'' = Some 0x80000004"
    "symbol demo_nm ''end_signature'' = Some (0x80000004 + 4 * 1)"
    unfolding symbol_def l symbol_in.simps Let_def w by (simp_all add: n)
  show ?thesis
    using signature_replays_stores [of ?e "[1, 2, 3, 4, 5, 6, 7, 8]" "0x80000000" "0x80000004" 1 demo_sim "''s''" 9 1 "[]"
        "[(0x80000004, 5, 0x11223344)]"] s
    by (simp add: BASE_def demo_sim_def store_ok_def)
qed

section \<open>The ISA of the reference\<close>

lemma upper_not_twice: "is_upper c \<Longrightarrow> \<not> is_upper (to_lower c) \<and> to_lower c \<noteq> CHR ''_''"
proof -
  assume u: "is_upper c"
  then have "of_char (to_lower c) = (of_char c + 32) mod (256 :: nat)" by (simp add: to_lower_def)
  then have "97 \<le> (of_char (to_lower c) :: nat)" using u by (simp add: is_upper_def)
  moreover have "of_char CHR ''_'' = (95 :: nat)" by simp
  ultimately show ?thesis by (auto simp: is_upper_def)
qed

lemma to_lower_ascii: "to_lower (to_lower c) = to_lower c" "to_lower c = CHR ''_'' \<longleftrightarrow> c = CHR ''_''"
proof -
  have i: "to_lower c = c" if "\<not> is_upper c" for c using that by (simp add: to_lower_def)
  have u: "\<not> is_upper CHR ''_''" by (simp add: is_upper_def)
  show "to_lower (to_lower c) = to_lower c" using i upper_not_twice by (cases "is_upper c") simp_all
  show "to_lower c = CHR ''_'' \<longleftrightarrow> c = CHR ''_''" using i u upper_not_twice by (cases "is_upper c") auto
qed

lemma lower_idem [simp]: "lower (lower s) = lower s"
  by (simp add: lower_def to_lower_ascii)

lemma lower_append: "lower (a @ b) = lower a @ lower b"
  by (simp add: lower_def)

lemma lower_concat: "lower (concat xs) = concat (map lower xs)"
  by (induction xs) (simp_all add: lower_def)

lemma filter_id: "CHR ''_'' \<notin> set s \<Longrightarrow> filter (\<lambda>c. c \<noteq> CHR ''_'') s = s"
  by (induction s) auto

lemma filter_concat_cons:
  "CHR ''_'' \<notin> set (concat zs) \<Longrightarrow> filter (\<lambda>c. c \<noteq> CHR ''_'') (concat (map (\<lambda>z. CHR ''_'' # z) zs)) = concat zs"
  by (induction zs) (simp_all add: filter_id)

lemma spike_letters_lower: "lower (spike_letters raw) = spike_letters raw"
proof -
  have "lower ''i'' = ''i''" by (simp add: lower_def to_lower_def is_upper_def)
  then show ?thesis by (simp add: spike_letters_def split: option.splits)
qed

lemma spike_zexts_lower: "map lower (spike_zexts raw) = spike_zexts raw"
  by (simp add: spike_zexts_def comp_def)



text \<open>A supervisor extension is spelled with a letter the parser takes for single-letter extensions, so it
  passes the check although Spike is given it as such letters.\<close>

lemma s_extension_accepted: "spike_isa [32] ''RV32ISvinval'' = Inr ''rv32isvinval''"
  by code_simp

end
