(* ===== verification/Zkt.thy ===== *)
theory Zkt
  imports Py_Regex Prelude
begin

text \<open>
  The verdict of the data-independent-latency proof, \<^verbatim>\<open>tb/formal/run_zkt.py\<close>: the script handed to
  Yosys, the objects of the cone of influence it lists, and the two checks on them. Yosys is a function
  from the script to its exit code and output.
\<close>

definition OPERANDS :: "string list" where
  "OPERANDS = [''a'', ''b'']"

definition IMPLEMENTED :: "(string \<times> string list) list" where
  "IMPLEMENTED = [
    (''RV32I arithmetic/logical/shift'',
      [''add'', ''addi'', ''sub'', ''and'', ''andi'', ''or'', ''ori'', ''xor'', ''xori'',
       ''sll'', ''slli'', ''srl'', ''srli'', ''sra'', ''srai'',
       ''slt'', ''slti'', ''sltu'', ''sltiu'', ''lui'', ''auipc'']),
    (''M (multiply only -- Zkt excludes div/rem)'', [''mul'', ''mulh'', ''mulhsu'', ''mulhu'']),
    (''Zbkb'',
      [''ror'', ''rol'', ''rori'', ''andn'', ''orn'', ''xnor'',
       ''pack'', ''packh'', ''brev8'', ''rev8'', ''zip'', ''unzip''])]"

definition NOT_IMPLEMENTED :: "(string \<times> string list) list" where
  "NOT_IMPLEMENTED = [
    (''Zbc'', [''clmul'', ''clmulh'']),
    (''Zbkx'', [''xperm4'', ''xperm8'']),
    (''Zkn / Zks (the RVK crypto instructions)'', [''aes32*'', ''sha256*'', ''sha512*'', ''sm3p*'', ''sm4*'']),
    (''C (compressed)'', [''c.* forms of the listed instructions''])]"

type_synonym yosys = "string list \<Rightarrow> int \<times> string"

text \<open>The lines of the script; the package is read first.\<close>

definition zkt_script :: "string \<Rightarrow> string \<Rightarrow> string list" where
  "zkt_script rdir src = [
    ''read_verilog -sv -formal '' @ rdir @ ''/rtl/core/rv32i_pkg.sv'',
    ''read_verilog -sv -formal '' @ src,
    ''hierarchy -check -top rvntt_muldiv'', ''proc'', ''flatten'', ''opt_clean'', ''select -list w:done %ci*'']"

definition cone :: "yosys \<Rightarrow> string \<Rightarrow> string \<Rightarrow> string res" where
  "cone yosys rdir src = (case yosys (zkt_script rdir src) of (rc, out) \<Rightarrow>
     if rc \<noteq> 0 then Inl (SystemExit ''ZKT_FAIL: yosys could not read the design'') else Inr out)"

definition OBJ_PREFIX :: string where "OBJ_PREFIX = ''rvntt_muldiv/''"

definition cone_objs :: "string \<Rightarrow> string list" where
  "cone_objs out = concat (map (\<lambda>l. let l = strip l in
     if startswith l OBJ_PREFIX then [drop (length OBJ_PREFIX) l] else []) (py_lines [] out))"

definition port_re :: "string \<Rightarrow> re" where
  "port_re w = Seq (lit w) (Opt (Group 1 (seqs [ch CHR ''['', Plus is_digit, ch CHR '']''])))"

definition operand_bits :: "string list \<Rightarrow> string list" where
  "operand_bits objs = concat (map (\<lambda>w. filter (\<lambda>x. re_fullmatch (port_re w) x \<noteq> None) objs) OPERANDS)"

definition op_present :: "string list \<Rightarrow> bool" where
  "op_present objs \<longleftrightarrow> list_ex (\<lambda>x. re_fullmatch (port_re ''op'') x \<noteq> None) objs"

definition zkt_main :: "yosys \<Rightarrow> string \<Rightarrow> string \<Rightarrow> bool \<Rightarrow> int res" where
  "zkt_main yosys rdir src only_list =
    (if only_list then Inr 0 else
     rbind (cone yosys rdir src) (\<lambda>out.
     let objs = cone_objs out in
     if operand_bits objs \<noteq> [] then Inr 1 else if \<not> op_present objs then Inr 1 else Inr 0))"

section \<open>Ports\<close>

text \<open>A port or one of its bits.\<close>

definition port_name :: "string \<Rightarrow> string \<Rightarrow> bool" where
  "port_name w x \<longleftrightarrow> x = w \<or> (\<exists>ds. ds \<noteq> [] \<and> list_all is_digit ds \<and> x = w @ ''['' @ ds @ '']'')"

lemma port_re_sound: "re_fullmatch (port_re w) x \<noteq> None \<Longrightarrow> port_name w x"
proof -
  assume "re_fullmatch (port_re w) x \<noteq> None"
  then obtain r where "mt (port_re w) (\<lambda>p s' g. if s' = [] then Some ((0, x) # g) else None) None x [] = Some r"
    by (auto simp: re_fullmatch_def)
  from mt_eats [OF this] obtain p' g' where e: "eats (port_re w) None x [] p' [] g'"
    by (auto split: if_splits)
  then obtain p1 s1 g1 where l: "eats (lit w) None x [] p1 s1 g1"
    and o1: "eats (Opt (Group 1 (seqs [ch CHR ''['', Plus is_digit, ch CHR '']'']))) p1 s1 g1 p' [] g'"
    using e unfolding port_re_def eats.simps(2) by blast
  have x: "x = w @ s1" using eats_lit [OF l] by simp
  from o1 consider "s1 = []" | ds d where "s1 = CHR ''['' # d # ds @ '']''" "is_digit d" "list_all is_digit ds"
    by (auto simp: ch_def Plus_def)
  then show ?thesis
  proof cases
    case 2
    then show ?thesis using x by (intro disjI2 [THEN iffD2 [OF port_name_def]] exI [of _ "d # ds"]) simp
  qed (simp add: port_name_def x)
qed

lemma port_re_complete: "port_name w x \<Longrightarrow> w \<noteq> [] \<Longrightarrow> re_fullmatch (port_re w) x \<noteq> None"
proof -
  assume "port_name w x" and w: "w \<noteq> []"
  then consider "x = w" | ds where "ds \<noteq> []" "list_all is_digit ds" "x = w @ ''['' @ ds @ '']''"
    by (auto simp: port_name_def)
  then show ?thesis
  proof cases
    case 1
    have "mt (lit w) k None (w @ []) [] = k (Some (last w)) [] []" for k :: "groups cont" using w by (simp only: mt_lit if_False)
    then show ?thesis by (simp add: 1 re_fullmatch_def port_re_def ch_def)
  next
    case 2
    let ?S = "''['' @ ds @ '']''"
    let ?K = "\<lambda>p s' g. if s' = [] then Some ((0, x) # g) else None"
    have "mt (seqs [ch CHR ''['', Plus is_digit, ch CHR '']'']) (\<lambda>p s' g. ?K p s' ((1, take (length ?S - length s') ?S) # g))
        (Some (last w)) ?S [] = Some [(0, x), (1, ?S)]"
      by (rule ok_seqs(1), rule ok_ch, rule ok_seqs(1), rule plus_run)
        (use 2 in \<open>simp_all add: is_digit_def ch_def\<close>)
    then have "mt (Opt (Group 1 (seqs [ch CHR ''['', Plus is_digit, ch CHR '']'']))) ?K (Some (last w)) ?S [] \<noteq> None"
      by (simp only: mt.simps) (simp del: seqs.simps)
    moreover have "mt (lit w) k None (w @ ?S) [] = k (Some (last w)) ?S []" for k :: "groups cont"
      using w by (simp only: mt_lit if_False)
    ultimately show ?thesis unfolding re_fullmatch_def port_re_def mt.simps(2) using 2(3) by simp
  qed
qed

lemma port_re_iff: "w \<noteq> [] \<Longrightarrow> re_fullmatch (port_re w) x \<noteq> None \<longleftrightarrow> port_name w x"
  using port_re_sound port_re_complete by blast

section \<open>The verdict\<close>

text \<open>Some object of the cone is the port or a bit of it.\<close>

definition in_cone :: "string \<Rightarrow> string \<Rightarrow> bool" where
  "in_cone out w \<longleftrightarrow> (\<exists>l\<in>set (py_lines [] out). \<exists>x. strip l = OBJ_PREFIX @ x \<and> port_name w x)"

lemma in_cone_objs: "in_cone out w \<longleftrightarrow> (\<exists>x\<in>set (cone_objs out). port_name w x)"
proof
  assume "in_cone out w"
  then obtain l x where "l \<in> set (py_lines [] out)" "strip l = OBJ_PREFIX @ x" "port_name w x" by (auto simp: in_cone_def)
  moreover from this have "x \<in> set (cone_objs out)"
    by (auto simp: cone_objs_def startswith_def Let_def intro!: bexI [of _ l])
  ultimately show "\<exists>x\<in>set (cone_objs out). port_name w x" by blast
next
  assume "\<exists>x\<in>set (cone_objs out). port_name w x"
  then obtain l x where "l \<in> set (py_lines [] out)" "startswith (strip l) OBJ_PREFIX" "x = drop (length OBJ_PREFIX) (strip l)"
    "port_name w x" by (auto simp: cone_objs_def Let_def split: if_splits)
  moreover from this(2,3) have "strip l = OBJ_PREFIX @ x" by (metis append_take_drop_id startswith_def)
  ultimately show "in_cone out w" unfolding in_cone_def by blast
qed

text \<open>The script claims data-independent latency only for a cone that says so: apart from \<^verbatim>\<open>--list\<close> it returns 0
  exactly when Yosys read the design, no line it printed names an operand port of the multiplier or a
  bit of one, and some line names the opcode or a bit of it, so that an empty cone is not taken for a
  proof.\<close>

theorem zkt_verdict:
  "zkt_main yosys rdir src False = Inr 0 \<longleftrightarrow> fst (yosys (zkt_script rdir src)) = 0
     \<and> \<not> in_cone (snd (yosys (zkt_script rdir src))) ''a'' \<and> \<not> in_cone (snd (yosys (zkt_script rdir src))) ''b''
     \<and> in_cone (snd (yosys (zkt_script rdir src))) ''op''"
proof -
  have "operand_bits objs = [] \<longleftrightarrow> (\<forall>x\<in>set objs. \<not> port_name ''a'' x \<and> \<not> port_name ''b'' x)" for objs
    using port_re_iff [of "''a''"] port_re_iff [of "''b''"]
    by (auto simp: operand_bits_def OPERANDS_def filter_empty_conv)
  moreover have "op_present objs \<longleftrightarrow> (\<exists>x\<in>set objs. port_name ''op'' x)" for objs
    using port_re_iff [of "''op''"] by (simp add: op_present_def list_ex_iff)
  ultimately show ?thesis
    by (cases "yosys (zkt_script rdir src)") (auto simp: zkt_main_def cone_def in_cone_objs Let_def)
qed

text \<open>The instructions claimed and the ones reported as missing are different, and each is named once.\<close>

lemma zkt_scope: "distinct (concat (map snd (IMPLEMENTED @ NOT_IMPLEMENTED)))"
  unfolding IMPLEMENTED_def NOT_IMPLEMENTED_def by code_simp

end
