(* ===== verification/Tool_Flow.thy ===== *)
theory Tool_Flow
  imports Rtl_Deps Commit_Log
begin

text \<open>
  The drivers that hand the RTL and the toolchain to a tool and judge what comes back:
  \<^verbatim>\<open>tb/formal/run_formal.py\<close>, \<^verbatim>\<open>tb/lint_all.py\<close>, \<^verbatim>\<open>tb/cocotb/run_cocotb.py\<close> and
  \<^verbatim>\<open>tb/cosim/run_spike_smoke.py\<close>. The repository is the tree of \<open>Rtl_Deps\<close>, paths relative to its
  root; the tools are functions of their command line or input file.
\<close>

section \<open>SymbiYosys on one design\<close>

definition FORMAL_SEARCH :: "string list" where
  "FORMAL_SEARCH = [''rtl/common'', ''rtl/core'', ''rtl/soc'']"

definition find_rtl :: "tree \<Rightarrow> string \<Rightarrow> string option" where
  "find_rtl t design = find_in t FORMAL_SEARCH design"

record formal_args =
  f_design :: string
  f_solver :: string
  f_depth :: nat
  f_mode :: string
  f_extra :: "string list"
  f_param :: "string list"

definition add_extra :: "tree \<Rightarrow> string \<Rightarrow> string list \<Rightarrow> string list res" where
  "add_extra t e srcs = (if \<not> exists_file t e then Inl (SystemExit ''FORMAL_FAIL: --extra does not exist'')
     else if e \<in> set srcs then Inr srcs else Inr (srcs @ [e]))"

definition formal_sources :: "tree \<Rightarrow> string \<Rightarrow> string list \<Rightarrow> string list res" where
  "formal_sources t rtl extra = res_fold (add_extra t) extra (with_deps t (map_of t rtl) rtl)"

text \<open>\<^verbatim>\<open>"-set %s %s" % tuple(p.split("=", 1))\<close>.\<close>

definition param_set :: "string \<Rightarrow> string res" where
  "param_set p = (if CHR ''='' \<in> set p
     then Inr (''-set '' @ takeWhile (\<lambda>c. c \<noteq> CHR ''='') p @ '' '' @ drop 1 (dropWhile (\<lambda>c. c \<noteq> CHR ''='') p))
     else Inl (TypeError ''not enough arguments for format string''))"

definition NL :: string where "NL = [CHR 0x0A]"

definition sby_text :: "formal_args \<Rightarrow> string list \<Rightarrow> string res" where
  "sby_text a srcs =
    rbind (if f_param a = [] then Inr [] else
      rbind (mapr param_set (f_param a)) (\<lambda>sets. Inr (''chparam '' @ join '' '' sets @ '' '' @ f_design a @ NL))) (\<lambda>params.
    Inr (''[options]'' @ NL @ ''mode '' @ f_mode a @ NL @ ''depth '' @ show_nat (f_depth a) @ NL @ NL
      @ ''[engines]'' @ NL @ ''smtbmc '' @ f_solver a @ NL @ NL
      @ ''[script]'' @ NL @ ''read -define FORMAL'' @ NL
      @ join NL (map (\<lambda>s. ''read -formal '' @ basename s) srcs) @ NL
      @ params @ ''prep -top '' @ f_design a @ NL @ NL
      @ ''[files]'' @ NL @ join NL srcs @ NL))"

definition formal_main :: "(string \<Rightarrow> int) \<Rightarrow> tree \<Rightarrow> formal_args \<Rightarrow> int res" where
  "formal_main sby t a = (case find_rtl t (f_design a) of
     None \<Rightarrow> Inr 2
   | Some rtl \<Rightarrow>
       rbind (formal_sources t rtl (f_extra a)) (\<lambda>srcs.
       rbind (sby_text a srcs) (\<lambda>cfg. Inr (sby cfg))))"

section \<open>Lint\<close>

definition LINT_INC :: "string list" where
  "LINT_INC = map (\<lambda>d. ''-I'' @ d) [''rtl/common'', ''rtl/core'', ''rtl/soc'', ''fpga/generated'']"

definition SKIP_STANDALONE :: "string list" where
  "SKIP_STANDALONE = [''rvntt_blinky_top.sv'']"

definition DEFINE_PASSES :: "(string \<times> string list) list" where
  "DEFINE_PASSES = [(''RISCV_FORMAL'', [''rtl/core/rvntt_rvfi.sv'', ''rtl/core/rvntt_core.sv''])]"

definition LINT_DESIGNS :: "(string \<times> string list) list" where
  "LINT_DESIGNS = [
    (''rvntt_soc_sim_top'', [
        ''rtl/soc/rvntt_soc_sim_top.sv'', ''rtl/soc/rvntt_soc_top.sv'',
        ''rtl/soc/rvntt_clkgen.sv'', ''rtl/soc/rvntt_uart_tx.sv'',
        ''rtl/soc/rvntt_uart_rx.sv'', ''rtl/soc/rvntt_mmio.sv'',
        ''rtl/soc/rvntt_ram.sv'', ''rtl/common/rvntt_sync_reset.sv'',
        ''rtl/core/rv32i_pkg.sv'', ''rtl/core/rvntt_core.sv'',
        ''rtl/core/rvntt_alu.sv'', ''rtl/core/rvntt_branch.sv'',
        ''rtl/core/rvntt_csr.sv'', ''rtl/core/rvntt_decode.sv'',
        ''rtl/core/rvntt_forward.sv'', ''rtl/core/rvntt_hazard.sv'',
        ''rtl/core/rvntt_immgen.sv'', ''rtl/core/rvntt_regfile.sv'',
        ''rtl/core/rvntt_muldiv.sv'', ''rtl/core/rvntt_bpred.sv'',
        ''rtl/core/rvntt_bitmanip.sv'',
        ''rtl/core/rvntt_seed.sv'', ''rtl/core/rvntt_entropy.sv'',
        ''rtl/core/rvntt_entropy_health.sv'']),
    (''rvntt_blinky_top'', [
        ''rtl/soc/rvntt_blinky_top.sv'', ''rtl/soc/rvntt_clkgen.sv'',
        ''rtl/soc/rvntt_uart_tx.sv'', ''rtl/soc/rvntt_uart_report.sv'',
        ''rtl/soc/rvntt_bram_selftest.sv'', ''rtl/common/rvntt_sync_reset.sv''])]"

definition LINT :: "string list" where "LINT = [''verilator'', ''--lint-only'', ''-Wall'']"

text \<open>The commands with the label of each failure.\<close>

definition lint_file :: "tree \<Rightarrow> string list \<Rightarrow> string \<Rightarrow> string list" where
  "lint_file t opts f = LINT @ opts @ LINT_INC @ with_deps t (map_of t f) f"

definition rtl_files :: "tree \<Rightarrow> string list" where
  "rtl_files t = sort (remdups (filter (\<lambda>p. startswith p ''rtl/'' \<and> endswith p ''.sv'') (map fst t)))"

definition lint_cmds :: "tree \<Rightarrow> (string \<times> string list) list" where
  "lint_cmds t =
     map (\<lambda>f. (f, lint_file t [] f)) (filter (\<lambda>f. basename f \<notin> set SKIP_STANDALONE) (rtl_files t))
   @ concat (map (\<lambda>(d, fs). map (\<lambda>f. (f @ '' (+define+'' @ d @ '')'', lint_file t [''+define+'' @ d] f)) fs) DEFINE_PASSES)
   @ map (\<lambda>(top_mod, fs). (''design:'' @ top_mod, LINT @ [''--top-module'', top_mod] @ LINT_INC @ fs)) LINT_DESIGNS"

definition lint_main :: "(string list \<Rightarrow> int) \<Rightarrow> tree \<Rightarrow> int \<times> string list" where
  "lint_main verilator t = (
    if rtl_files t = [] then (0, [])
    else let fails = map fst (filter (\<lambda>c. verilator (snd c) \<noteq> 0) (lint_cmds t))
         in (if fails \<noteq> [] then 1 else 0, fails))"

section \<open>Cocotb\<close>

record cocotb_design =
  c_sources :: "string list"
  c_toplevel :: string
  c_module :: string
  c_args :: "string list"

definition COCOTB_PKG :: string where "COCOTB_PKG = ''rtl/core/rv32i_pkg.sv''"

definition COCOTB_DESIGNS :: "(string \<times> cocotb_design) list" where
  "COCOTB_DESIGNS = [
    (''sync_reset'', \<lparr>c_sources = [''rtl/common/rvntt_sync_reset.sv''], c_toplevel = ''rvntt_sync_reset'',
       c_module = ''test_sync_reset_cocotb'', c_args = [''--trace'']\<rparr>),
    (''alu'', \<lparr>c_sources = [COCOTB_PKG, ''rtl/core/rvntt_alu.sv''], c_toplevel = ''rvntt_alu'',
       c_module = ''test_alu_cocotb'', c_args = []\<rparr>),
    (''immgen'', \<lparr>c_sources = [COCOTB_PKG, ''rtl/core/rvntt_immgen.sv''], c_toplevel = ''rvntt_immgen'',
       c_module = ''test_immgen_cocotb'', c_args = []\<rparr>),
    (''decode'', \<lparr>c_sources = [COCOTB_PKG, ''rtl/core/rvntt_decode.sv'', ''tb/cocotb/rvntt_decode_flat.sv''],
       c_toplevel = ''rvntt_decode_flat'', c_module = ''test_decode_cocotb'', c_args = [''-Wall'']\<rparr>)]"

text \<open>A mirrored path carries the mirror's prefix; the files that exist are given by a predicate.\<close>

definition remap :: "string \<Rightarrow> string \<Rightarrow> string" where
  "remap mirror src = (if hd (split_on CHR ''/'' src) = ''rtl'' then mirror @ ''/'' @ src else src)"

definition cocotb_sources :: "(string \<Rightarrow> bool) \<Rightarrow> string option \<Rightarrow> cocotb_design \<Rightarrow> string list res" where
  "cocotb_sources ex mirror d = (case mirror of
     None \<Rightarrow> Inr (c_sources d)
   | Some m \<Rightarrow>
       let srcs = map (remap m) (c_sources d)
       in case find (\<lambda>s. \<not> ex s) srcs of
            None \<Rightarrow> Inr srcs
          | Some s \<Rightarrow> Inl (SystemExit ''COCOTB_FAIL: source does not exist in the mirrored tree''))"

text \<open>What the run leaves: no results file, or the test cases with the tags of their children.\<close>

type_synonym results_xml = "string list list option"

definition cocotb_verdict :: "results_xml \<Rightarrow> int" where
  "cocotb_verdict xml = (case xml of
     None \<Rightarrow> 1
   | Some cases \<Rightarrow>
       let ncase = length cases;
           nbad = length (filter (\<lambda>tags. filter (\<lambda>e. e \<in> set [''failure'', ''error'']) tags \<noteq> []) cases)
       in if ncase = 0 then 1 else if nbad \<noteq> 0 then 1 else 0)"

definition cocotb_main :: "(string list \<Rightarrow> cocotb_design \<Rightarrow> results_xml) \<Rightarrow> (string \<Rightarrow> bool) \<Rightarrow> string option \<Rightarrow> string
    \<Rightarrow> int res" where
  "cocotb_main runner ex mirror design = (case map_of COCOTB_DESIGNS design of
     None \<Rightarrow> Inl (KeyError design)
   | Some d \<Rightarrow> rbind (cocotb_sources ex mirror d) (\<lambda>srcs. Inr (cocotb_verdict (runner srcs d))))"

section \<open>The Spike smoke test\<close>

definition SMOKE_ISA :: string where "SMOKE_ISA = ''rv32i_zicsr''"

definition SMOKE_RE :: re where
  "SMOKE_RE = seqs [Bol, lit ''core'', Plus is_space, Plus is_digit, lit '':'', Plus is_space, Plus is_digit, Plus is_space,
     lit ''0x'', Plus is_hex_lower, Plus is_space, lit ''(0x'', Plus is_hex_lower, lit '')'']"

text \<open>\<open>gcc text\<close> builds a source text, \<open>None\<close> on failure; \<open>spike log elf\<close> is Spike's exit code and output.\<close>

definition smoke_main :: "(string \<Rightarrow> 'elf option) \<Rightarrow> (bool \<Rightarrow> 'elf \<Rightarrow> int \<times> string) \<Rightarrow> string \<Rightarrow> int \<times> string list" where
  "smoke_main gcc spike src = (case gcc src of
     None \<Rightarrow> (1, [''build''])
   | Some good \<Rightarrow>
       let f1 = (if fst (spike False good) \<noteq> 0 then [''positive control''] else []) in
       case gcc (replace_all ''li      a3, 12'' ''li      a3, 99'' src) of
         None \<Rightarrow> (1, [''negative-control build''])
       | Some bad \<Rightarrow>
           let f2 = (if fst (spike False bad) = 0 then [''negative control PASSED''] else []);
               commits = filter (\<lambda>l. re_match SMOKE_RE l \<noteq> None) (py_lines [] (snd (spike True good)));
               f3 = (if length commits < 5 then [''--log-commits''] else []);
               f4 = (if \<not> list_ex (is_sub ''0x80000000'') commits then [''no commit at the program entry''] else []);
               fails = f1 @ f2 @ f3 @ f4
           in (if fails \<noteq> [] then 1 else 0, fails))"

section \<open>What the drivers promise\<close>

lemma add_extra_keeps:
  "distinct srcs \<Longrightarrow> add_extra t e srcs = Inr srcs' \<Longrightarrow> distinct srcs' \<and> exists_file t e \<and> set srcs' = insert e (set srcs)
     \<and> take (length srcs) srcs' = srcs"
  by (auto simp: add_extra_def split: if_splits)

lemma add_extras:
  "res_fold (add_extra t) es srcs = Inr srcs' \<Longrightarrow> distinct srcs \<Longrightarrow>
     distinct srcs' \<and> list_all (exists_file t) es \<and> set srcs' = set srcs \<union> set es \<and> take (length srcs) srcs' = srcs"
proof (induction es arbitrary: srcs)
  case (Cons e es)
  from Cons.prems(1) obtain s1 where s1: "add_extra t e srcs = Inr s1" "res_fold (add_extra t) es s1 = Inr srcs'"
    by (auto simp: rbind_Inr_iff)
  note a = add_extra_keeps [OF Cons.prems(2) s1(1)]
  from Cons.IH [OF s1(2)] a have "distinct srcs' \<and> list_all (exists_file t) es \<and> set srcs' = set s1 \<union> set es
      \<and> take (length s1) srcs' = s1" by blast
  moreover from this a have "take (length srcs) srcs' = srcs"
    by (metis append_take_drop_id length_take take_append take_take min.absorb1 nat_le_linear take_all)
  ultimately show ?case using a by auto
qed simp

lemma find_rtl_exists: "find_rtl t design = Some rtl \<Longrightarrow> exists_file t rtl"
  unfolding find_rtl_def by (rule find_in_exists)

text \<open>The sources a proof reads: the design with its packages before it, then the extra files, each file once
  and each a file of the tree; a missing one stops the run before SymbiYosys is called.\<close>

definition formal_ok :: "tree \<Rightarrow> string \<Rightarrow> string list \<Rightarrow> string list \<Rightarrow> bool" where
  "formal_ok t rtl extra srcs \<longleftrightarrow> distinct srcs \<and> list_all (exists_file t) srcs
     \<and> take (length (with_deps t (map_of t rtl) rtl)) srcs = with_deps t (map_of t rtl) rtl
     \<and> set srcs = set (with_deps t (map_of t rtl) rtl) \<union> set extra"

lemma with_deps_distinct: "distinct (with_deps t src path)"
proof -
  have "path \<notin> set (package_deps t src path)"
    using package_deps_set [of t _ path] by (cases src) (auto simp: package_deps_def)
  then show ?thesis by (simp add: with_deps_def package_deps_distinct)
qed

lemma with_deps_exist: "exists_file t path \<Longrightarrow> p \<in> set (with_deps t src path) \<Longrightarrow> exists_file t p"
proof -
  assume e: "exists_file t path" "p \<in> set (with_deps t src path)"
  then consider "p = path" | s where "src = Some s" "p \<in> set (package_deps t (Some s) path)"
    by (cases src) (auto simp: with_deps_def package_deps_def)
  then show ?thesis
    using e(1) find_in_exists all_packages_exist by cases (auto simp: package_deps_set find_package_def)
qed

text \<open>A formal run that calls SymbiYosys gives it a file list without duplicates in which every file exists:
  the design preceded by its packages, then the extra sources; and its exit code is SymbiYosys' own. A
  design that is not in the tree is exit code 2.\<close>

theorem formal_run:
  "(find_rtl t (f_design a) = None \<and> formal_main sby t a = Inr 2)
   \<or> (\<exists>e. formal_main sby t a = Inl e)
   \<or> (\<exists>rtl srcs cfg. find_rtl t (f_design a) = Some rtl \<and> formal_ok t rtl (f_extra a) srcs
        \<and> sby_text a srcs = Inr cfg \<and> formal_main sby t a = Inr (sby cfg))"
proof (cases "find_rtl t (f_design a)")
  case None
  then show ?thesis by (simp add: formal_main_def)
next
  case (Some rtl)
  show ?thesis
  proof (cases "formal_main sby t a")
    case (Inl e)
    then show ?thesis by blast
  next
    case (Inr rc)
    then obtain srcs cfg where s: "formal_sources t rtl (f_extra a) = Inr srcs" "sby_text a srcs = Inr cfg" "rc = sby cfg"
      using Some by (auto simp: formal_main_def rbind_Inr_iff)
    note x = add_extras [OF s(1) [unfolded formal_sources_def] with_deps_distinct]
    have "formal_ok t rtl (f_extra a) srcs"
      using x with_deps_exist [OF find_rtl_exists [OF Some]] by (auto simp: formal_ok_def list_all_iff)
    then show ?thesis using Some s Inr by blast
  qed
qed

text \<open>The lint passes when every command does; a tree without RTL passes without a command.\<close>

lemma lint_exit: "fst (lint_main verilator t) = 0 \<longleftrightarrow> rtl_files t = [] \<or> list_all (\<lambda>c. verilator (snd c) = 0) (lint_cmds t)"
  by (auto simp: lint_main_def Let_def list_all_iff filter_empty_conv)

text \<open>Every RTL file but the skipped one is linted on its own, with its packages first.\<close>

lemma lint_covers: "f \<in> set (rtl_files t) \<Longrightarrow> basename f \<notin> set SKIP_STANDALONE \<Longrightarrow> (f, lint_file t [] f) \<in> set (lint_cmds t)"
  by (simp add: lint_cmds_def)

text \<open>A cocotb run passes only on a results file with a test case in which no case failed; with a mirror, every
  RTL source it compiled exists there.\<close>

lemma cocotb_exit: "cocotb_verdict xml = 0 \<longleftrightarrow>
    (\<exists>cases. xml = Some cases \<and> cases \<noteq> [] \<and> list_all (\<lambda>tags. ''failure'' \<notin> set tags \<and> ''error'' \<notin> set tags) cases)"
  by (auto simp: cocotb_verdict_def Let_def list_all_iff filter_empty_conv split: option.splits)

lemma cocotb_mirrored:
  "cocotb_sources ex (Some m) d = Inr srcs \<Longrightarrow> srcs = map (remap m) (c_sources d) \<and> list_all ex srcs"
  by (auto simp: cocotb_sources_def Let_def find_None_iff list_all_iff split: option.splits)

text \<open>The smoke test passes only when Spike accepts the good program, rejects the bad one and logs enough.\<close>

lemma smoke_exit: "fst (smoke_main gcc spike src) = 0 \<longleftrightarrow> snd (smoke_main gcc spike src) = []"
  by (auto simp: smoke_main_def Let_def split: option.splits)

end
