(* ===== verification/Hw_Loop.thy ===== *)
theory Hw_Loop
  imports Py_Regex
begin

text \<open>
  The hardware loop, \<^verbatim>\<open>fpga/scripts/hw_bringup.py\<close>: finding the board, programming it, capturing its
  UART and handing the capture to a parser. What the machine answers is a record: the environment, the
  outputs of PowerShell, Vivado, the capture helper and the parser, and the files that exist. The
  staging copies and the printed text are left out, but for the marker the regression looks for.
\<close>

record machine =
  m_rvntt_hw :: "string option"
  m_pnp :: string
  m_bit :: bool
  m_vivado :: string
  m_capture :: "string list \<Rightarrow> int \<times> bool"
  m_parser :: "string list \<Rightarrow> int"

record hw_args =
  h_port :: "string option"
  h_seconds :: int
  h_send :: int
  h_parser_args :: "string list option"
  h_no_program :: bool
  h_regress :: bool

definition COM_RE :: re where
  "COM_RE = seqs [lit ''COM'', Group 1 (Plus is_digit)]"

definition find_arty_port :: "string \<Rightarrow> string option" where
  "find_arty_port out = (case re_search COM_RE out of None \<Rightarrow> None | Some m \<Rightarrow> Some (''COM'' @ group m 1))"

definition program_ok :: "string \<Rightarrow> bool" where
  "program_ok out \<longleftrightarrow> is_sub ''PROGRAM_OK'' out"

definition capture_args :: "string \<Rightarrow> int \<Rightarrow> int option \<Rightarrow> string list" where
  "capture_args port seconds send = [''-Port'', port, ''-Seconds'', show_int seconds]
     @ (case send of None \<Rightarrow> [] | Some b \<Rightarrow> [''-SendByte'', show_int b])"

text \<open>How a run ends: skipped, failed at a stage, or judged by the parser.\<close>

datatype hw_end = Skip string | Failed string | Judged int

definition HEX_UP :: "nat \<Rightarrow> string" where
  "HEX_UP n = map (\<lambda>c. if is_lower c then char_of (of_char c - 32 :: nat) else c) (hex 2 n)"

definition chosen_port :: "machine \<Rightarrow> hw_args \<Rightarrow> string option" where
  "chosen_port m a = (if h_port a \<noteq> None \<and> h_port a \<noteq> Some [] then h_port a else find_arty_port (m_pnp m))"

definition send_byte :: "hw_args \<Rightarrow> int option" where
  "send_byte a = (if h_send a < 0 then None else Some (h_send a))"

definition parser_args :: "hw_args \<Rightarrow> string list" where
  "parser_args a = (case h_parser_args a of
     Some p \<Rightarrow> p
   | None \<Rightarrow> (case send_byte a of None \<Rightarrow> [] | Some b \<Rightarrow> [''--expect-echo'', ''0x'' @ HEX_UP (nat b)]))"

definition hw_bringup :: "machine \<Rightarrow> hw_args \<Rightarrow> hw_end" where
  "hw_bringup m a = (
    if h_regress a \<and> m_rvntt_hw m \<noteq> Some ''1'' then Skip ''opt-in'' else
    case chosen_port m a of
      None \<Rightarrow> Skip ''no Arty enumerated''
    | Some port \<Rightarrow>
        if \<not> h_no_program a \<and> \<not> m_bit m then Skip ''no bitstream''
        else if \<not> h_no_program a \<and> \<not> program_ok (m_vivado m) then Failed ''programming failed''
        else
          let (rc, written) = m_capture m (capture_args port (h_seconds a) (send_byte a))
          in if rc \<noteq> 0 \<or> \<not> written then Failed ''serial capture failed''
             else Judged (m_parser m (parser_args a)))"

definition hw_exit :: "hw_end \<Rightarrow> int" where
  "hw_exit e = (case e of Skip s \<Rightarrow> 0 | Failed s \<Rightarrow> 1 | Judged rc \<Rightarrow> if rc = 0 then 0 else 1)"

definition hw_main :: "machine \<Rightarrow> hw_args \<Rightarrow> int" where
  "hw_main m a = hw_exit (hw_bringup m a)"

text \<open>Whether the run prints the marker of a skip.\<close>

definition hw_skips :: "machine \<Rightarrow> hw_args \<Rightarrow> bool" where
  "hw_skips m a \<longleftrightarrow> (case hw_bringup m a of Skip s \<Rightarrow> True | _ \<Rightarrow> False)"

section \<open>The exit codes\<close>

definition captured :: "machine \<Rightarrow> hw_args \<Rightarrow> bool" where
  "captured m a \<longleftrightarrow> (case chosen_port m a of None \<Rightarrow> False
     | Some port \<Rightarrow> m_capture m (capture_args port (h_seconds a) (send_byte a)) = (0, True))"

text \<open>The hardware loop's exit codes are the documented ones. It skips, with exit code 0, exactly when the
  regression has not opted in, no board is found or there is no bitstream to program. When it does not
  skip, 0 means the board was programmed, unless told not to, the capture was written and the parser
  accepted it, with the byte sent as the echo it expects; everything else is 1.\<close>

theorem hw_exit_codes:
  "(hw_skips m a \<longleftrightarrow> (h_regress a \<and> m_rvntt_hw m \<noteq> Some ''1'') \<or> chosen_port m a = None \<or> (\<not> h_no_program a \<and> \<not> m_bit m))
   \<and> hw_main m a = (if hw_skips m a \<or> ((h_no_program a \<or> program_ok (m_vivado m)) \<and> captured m a
        \<and> m_parser m (parser_args a) = 0) then 0 else 1)"
  by (auto simp: hw_skips_def hw_main_def hw_exit_def hw_bringup_def captured_def Let_def split: option.splits prod.splits)

end
