(* ===== verification/Project_Bpred.thy ===== *)
theory Project_Bpred
  imports Stall_Props Py_Float
begin

text \<open>
  The projection of the branch predictor onto a profile, \<^verbatim>\<open>tb/perf/project_bpred.py\<close>: the retired
  control transfers of a run, with the cycle each was fetched, are scored by the delayed predictor
  model, and the profile's accounting turns the mispredicts into cycles. The profile is the rows that
  \<open>Stall_Profile\<close> computes; the printed tables and the JSON file are left out, except for the
  divisions, which can raise.
\<close>

section \<open>The trace\<close>

type_synonym event = "int \<times> int \<times> int \<times> int"

definition event_of :: "(string \<times> string) list \<Rightarrow> event res" where
  "event_of r =
    rbind (rbind (trace_str r ''fetch'') (int_base 10)) (\<lambda>f.
    rbind (rbind (trace_str r ''pc'') (int_base 16)) (\<lambda>pc.
    rbind (rbind (trace_str r ''insn'') (int_base 16)) (\<lambda>insn.
    rbind (rbind (trace_str r ''next_pc'') (int_base 16)) (\<lambda>nxt.
    Inr (f, pc, insn, nxt)))))"

text \<open>The column names and the rows of the CSV file.\<close>

definition load_events :: "string list \<Rightarrow> (string \<times> string) list list \<Rightarrow> event list res" where
  "load_events cols rows = (if ''fetch'' \<notin> set cols
     then Inl (SystemExit ''trace predates the fetch-cycle column'') else mapr event_of rows)"

section \<open>One region\<close>

definition SLACK :: int where "SLACK = 8"

record projection =
  o_counts :: counts
  o_base_cycles :: int
  o_new_cycles :: int
  o_retired :: int
  o_base_ipc :: rat
  o_new_ipc :: rat
  o_speedup :: rat
  o_saved :: int
  o_regression :: int

definition warm_of :: "event list \<Rightarrow> int \<Rightarrow> event list" where
  "warm_of events lo = filter (\<lambda>e. fst e \<le> lo - SLACK) events"

definition seg_of :: "event list \<Rightarrow> int \<Rightarrow> int \<Rightarrow> event list" where
  "seg_of events lo hi = filter (\<lambda>e. lo - SLACK < fst e \<and> fst e \<le> hi - SLACK) events"

definition score_region :: "event list \<Rightarrow> int \<Rightarrow> int \<Rightarrow> counts" where
  "score_region events lo hi =
    snd (score_trace (warm_up (warm_of events lo) (DelayedBPred_init VISIBILITY_GAP)) (seg_of events lo hi) None)"

text \<open>Python's \<^verbatim>\<open>a / b\<close> on integers.\<close>

definition int_div :: "int \<Rightarrow> int \<Rightarrow> rat res" where
  "int_div a b = (if b = 0 then Inl ZeroDivisionError else Inr (fl (of_int a / of_int b)))"

definition project :: "row \<Rightarrow> counts \<Rightarrow> projection res" where
  "project d n =
    rbind (fld d ''cycle'') (\<lambda>base. rbind (fld d ''retired'') (\<lambda>retired. rbind (fld d ''id_stall'') (\<lambda>ids.
    rbind (fld d ''ex_stall'') (\<lambda>exs.
    let new = (retired + ids + exs) + 2 * n_mispredicts n in
    rbind (int_div retired base) (\<lambda>bipc. rbind (int_div retired new) (\<lambda>nipc. rbind (int_div base new) (\<lambda>speed.
    rbind (fld d ''redirect'') (\<lambda>redirect.
    Inr \<lparr>o_counts = n, o_base_cycles = base, o_new_cycles = new, o_retired = retired, o_base_ipc = bipc,
      o_new_ipc = nipc, o_speedup = speed, o_saved = 2 * (redirect - n_mispredicts n),
      o_regression = 2 * n_ntaken_predicted_taken n\<rparr>))))))))"

type_synonym projections = "(string \<times> projection) list"

definition project_step :: "event list \<Rightarrow> string \<times> row \<Rightarrow> projections \<times> string list \<Rightarrow> (projections \<times> string list) res" where
  "project_step events = (\<lambda>(name, d) (out, problems).
    rbind (fld d ''lo_cycle'') (\<lambda>lo. rbind (fld d ''hi_cycle'') (\<lambda>hi.
    if seg_of events lo hi = [] then Inr (out, problems @ [name @ '': no control transfers in the trace window'']) else
    let n = score_region events lo hi in
    rbind (fld d ''xfer'') (\<lambda>xfer. rbind (fld d ''br_ntaken'') (\<lambda>ntaken.
    let problems = (if n_transfers n \<noteq> xfer + ntaken
          then problems @ [name @ '': the trace and the profile disagree''] else problems) in
    rbind (project d n) (\<lambda>o1. Inr (out @ [(name, o1)], problems)))))))"

section \<open>The fault injection and the verdict\<close>

definition project_faults :: "event list \<Rightarrow> (string \<times> row) list \<Rightarrow> projections \<Rightarrow> string list res" where
  "project_faults events regions out = (case out of
     [] \<Rightarrow> Inl StopIteration
   | (name, o1) # os \<Rightarrow> (case map_of regions name of
       None \<Rightarrow> Inl (KeyError name)
     | Some d \<Rightarrow>
        rbind (fld d ''lo_cycle'') (\<lambda>lo. rbind (fld d ''hi_cycle'') (\<lambda>hi.
        let cold = map snd (filter (\<lambda>e. lo < fst e \<and> fst e \<le> hi) events);
            base = n_mispredicts (run cold 0 None)
        in Inr (map (\<lambda>f. num_text ''fault did not change the mispredict count'' f)
             (filter (\<lambda>f. n_mispredicts (run cold f None) = base) [1, 2, 3, 4]))))))"

definition project_main :: "string list \<Rightarrow> (string \<times> string) list list \<Rightarrow> (string \<times> row) list \<Rightarrow> bool \<Rightarrow>
    (int \<times> projections) res" where
  "project_main cols rows regions inject =
    rbind (load_events cols rows) (\<lambda>events.
    rbind (res_fold (project_step events) regions ([], [])) (\<lambda>(out, problems).
    rbind (if inject then project_faults events regions out else Inr []) (\<lambda>fs.
    Inr (if problems @ fs \<noteq> [] then 1 else 0, out))))"

section \<open>What an accepted projection says\<close>

definition region_projected :: "event list \<Rightarrow> row \<Rightarrow> projection \<Rightarrow> bool" where
  "region_projected events d p \<longleftrightarrow> (\<exists>lo hi. fld d ''lo_cycle'' = Inr lo \<and> fld d ''hi_cycle'' = Inr hi
     \<and> o_counts p = score_region events lo hi \<and> project d (o_counts p) = Inr p
     \<and> (\<exists>xfer ntaken. fld d ''xfer'' = Inr xfer \<and> fld d ''br_ntaken'' = Inr ntaken
          \<and> xfer + ntaken = int (length (seg_of events lo hi)) \<and> seg_of events lo hi \<noteq> []))"

lemma score_region_counts: "counts_ok (score_region events lo hi) \<and> n_transfers (score_region events lo hi) = int (length (seg_of events lo hi))"
  using score_counts_balance by (simp add: score_region_def)

lemma project_counts: "project d n = Inr p \<Longrightarrow> o_counts p = n"
  by (auto simp: project_def rbind_Inr_iff Let_def)

lemma project_step_ok:
  assumes "project_step events (name, d) (out, problems) = Inr (out', [])"
  shows "problems = [] \<and> (\<exists>p. out' = out @ [(name, p)] \<and> region_projected events d p)"
proof -
  obtain lo hi where b: "fld d ''lo_cycle'' = Inr lo" "fld d ''hi_cycle'' = Inr hi"
    using assms by (auto simp: project_step_def rbind_Inr_iff)
  have s: "seg_of events lo hi \<noteq> []" using assms b by (auto simp: project_step_def split: if_splits)
  let ?n = "score_region events lo hi"
  obtain xfer ntaken p where x: "fld d ''xfer'' = Inr xfer" "fld d ''br_ntaken'' = Inr ntaken" "project d ?n = Inr p"
    and r: "(out', []) = (out @ [(name, p)], if n_transfers ?n \<noteq> xfer + ntaken
          then problems @ [name @ '': the trace and the profile disagree''] else problems)"
    using assms b s by (auto simp: project_step_def rbind_Inr_iff Let_def)
  have "n_transfers ?n = xfer + ntaken" "problems = []" using r by (auto split: if_splits)
  then have "region_projected events d p"
    unfolding region_projected_def using b s x project_counts [OF x(3)] score_region_counts [of events lo hi] by auto
  with r \<open>problems = []\<close> show ?thesis by auto
qed

lemma project_step_problems: "project_step events (name, d) (out, problems) = Inr (out', ps) \<Longrightarrow> \<exists>more. ps = problems @ more"
  by (auto simp: project_step_def rbind_Inr_iff Let_def split: if_splits)

lemma project_steps:
  "res_fold (project_step events) regions (out, problems) = Inr (out', []) \<Longrightarrow> problems = []
     \<and> (\<exists>ps. out' = out @ ps \<and> list_all2 (\<lambda>(name, d) (name', p). name' = name \<and> region_projected events d p) regions ps)"
proof (induction regions arbitrary: out problems)
  case Nil
  then show ?case by simp
next
  case (Cons r rs)
  obtain name d where r: "r = (name, d)" by (cases r)
  from Cons.prems obtain s where s: "project_step events (name, d) (out, problems) = Inr s"
    "res_fold (project_step events) rs s = Inr (out', [])" by (auto simp: r rbind_Inr_iff)
  obtain o1 p1 where s1: "s = (o1, p1)" by (cases s)
  from Cons.IH [OF s(2) [unfolded s1]] obtain ps where ih: "p1 = []" "out' = o1 @ ps"
    "list_all2 (\<lambda>(name, d) (name', p). name' = name \<and> region_projected events d p) rs ps" by blast
  from project_step_ok [OF s(1) [unfolded s1 ih(1)]] obtain p where "problems = []" "o1 = out @ [(name, p)]"
    "region_projected events d p" by blast
  then show ?case using ih by (intro conjI exI [of _ "(name, p) # ps"]) (auto simp: r)
qed

text \<open>The accounting of the profile closes for a region.\<close>

definition closes :: "row \<Rightarrow> bool" where
  "closes d \<longleftrightarrow> (\<exists>c r i e f. fld d ''cycle'' = Inr c \<and> fld d ''retired'' = Inr r \<and> fld d ''id_stall'' = Inr i
     \<and> fld d ''ex_stall'' = Inr e \<and> fld d ''redirect'' = Inr f \<and> c = r + i + e + 2 * f)"

text \<open>What the numbers of a projection are.\<close>

definition projection_ok :: "row \<Rightarrow> projection \<Rightarrow> bool" where
  "projection_ok d p \<longleftrightarrow> counts_ok (o_counts p)
     \<and> (\<exists>xfer ntaken. fld d ''xfer'' = Inr xfer \<and> fld d ''br_ntaken'' = Inr ntaken \<and> n_transfers (o_counts p) = xfer + ntaken)
     \<and> (if closes d then o_saved p = o_base_cycles p - o_new_cycles p else True)"

lemma project_saved: "project d n = Inr p \<Longrightarrow> closes d \<Longrightarrow> o_saved p = o_base_cycles p - o_new_cycles p"
  by (auto simp: closes_def project_def rbind_Inr_iff Let_def)

lemma region_projection_ok: "region_projected events d p \<Longrightarrow> projection_ok d p"
proof -
  assume "region_projected events d p"
  then obtain lo hi xfer ntaken where r: "o_counts p = score_region events lo hi" "project d (o_counts p) = Inr p"
    "fld d ''xfer'' = Inr xfer" "fld d ''br_ntaken'' = Inr ntaken" "xfer + ntaken = int (length (seg_of events lo hi))"
    unfolding region_projected_def by blast
  show ?thesis using r project_saved [OF r(2)] score_region_counts [of events lo hi] by (auto simp: projection_ok_def)
qed

lemma closes_if_accounted: "accounting lo hi 0 d \<Longrightarrow> fld d ''retired'' = Inr (shift lo hi ''retired'') \<Longrightarrow>
    fld d ''residual'' = Inr 0 \<Longrightarrow> closes d"
  by (auto simp: accounting_def closes_def residue_def stalls_def)

text \<open>An accepted projection has an entry for every region of the profile, in order. In each the transfers the
  predictor model was scored on are as many as the profile counted, its counts balance, and, when the
  profile accounts for every cycle of the region, the cycles said to be saved are the difference
  between the measured cycles and the projected ones.\<close>

theorem projection_accounts:
  assumes "project_main cols rows regions inject = Inr (0, out)"
  shows "list_all2 (\<lambda>(name, d) (name', p). name' = name \<and> projection_ok d p) regions out"
proof -
  obtain events problems where "res_fold (project_step events) regions ([], []) = Inr (out, problems)" "problems = []"
    using assms by (auto simp: project_main_def rbind_Inr_iff split: if_splits)
  from project_steps [OF this(1) [unfolded this(2)]]
  have "list_all2 (\<lambda>(name, d) (name', p). name' = name \<and> region_projected events d p) regions out" by simp
  then show ?thesis by (rule list_all2_mono) (auto intro: region_projection_ok)
qed

definition demo_prow :: row where
  "demo_prow = [(''lo_cycle'', 10), (''hi_cycle'', 30), (''xfer'', 1), (''br_ntaken'', 0), (''cycle'', 20), (''retired'', 18),
     (''id_stall'', 0), (''ex_stall'', 0), (''redirect'', 1)]"

definition demo_transfer :: "(string \<times> string) list" where
  "demo_transfer = [(''fetch'', ''7''), (''pc'', ''0x10''), (''insn'', ''0x6f''), (''next_pc'', ''0x20'')]"

lemma demo_event: "event_of demo_transfer = Inr (7, 0x10, 0x6f, 0x20)"
  by (simp add: event_of_def demo_transfer_def trace_str_def demo_ints)

lemma demo_score: "n_mispredicts (score_region [(7, 0x10, 0x6f, 0x20)] 10 30) = 1"
  "n_transfers (score_region [(7, 0x10, 0x6f, 0x20)] 10 30) = 1"
  by (simp_all add: score_region_def warm_of_def seg_of_def SLACK_def score_trace_def seq_pc_def d_predict_def
      drain_def demo_predict DelayedBPred_init_def score_counts_def Let_def classify_def is_link_def counts_zero_def
      count_kind_def BRANCH_def JUMP_def CALL_def RET_def)

theorem projection_accounts_witness:
  "\<exists>p. project_main [''fetch''] [demo_transfer] [(''r'', demo_prow)] False = Inr (0, [(''r'', p)])
     \<and> projection_ok demo_prow p \<and> o_saved p = 0"
proof -
  have s: "seg_of [(7, 0x10, 0x6f, 0x20)] 10 30 \<noteq> []" by (simp add: seg_of_def SLACK_def)
  have "\<exists>p. project demo_prow (score_region [(7, 0x10, 0x6f, 0x20)] 10 30) = Inr p \<and> o_saved p = 0"
    by (simp add: project_def demo_prow_def fld_def int_div_def demo_score Let_def)
  then obtain p where p: "project demo_prow (score_region [(7, 0x10, 0x6f, 0x20)] 10 30) = Inr p" "o_saved p = 0" by blast
  have "project_step [(7, 0x10, 0x6f, 0x20)] (''r'', demo_prow) ([], []) = Inr ([(''r'', p)], [])"
    using s p by (simp add: project_step_def, simp add: demo_prow_def fld_def demo_score)
  then have m: "project_main [''fetch''] [demo_transfer] [(''r'', demo_prow)] False = Inr (0, [(''r'', p)])"
    by (simp add: project_main_def load_events_def demo_event)
  from projection_accounts [OF m] m p(2) show ?thesis by auto
qed

text \<open>With no region to report the self-test ends in the exception of an empty iterator, after the problems
  have been collected and before they are printed.\<close>

lemma inject_without_region: "project_main [''fetch''] [] [(''r'', demo_prow)] True = Inl StopIteration"
proof -
  have "project_step [] (''r'', demo_prow) ([], []) = Inr ([], [''r'' @ '': no control transfers in the trace window''])"
    by (simp add: project_step_def seg_of_def, simp add: demo_prow_def fld_def)
  then show ?thesis by (simp add: project_main_def load_events_def project_faults_def)
qed

end
