(* ===== verification/Xdc_Pins.thy ===== *)
theory Xdc_Pins
  imports Py_Regex
begin

text \<open>
  The pin check of the constraint files, \<^verbatim>\<open>tb/fpga/check_xdc_pins.py\<close>: reading the board's pinout and the
  assignments of a constraint file, comparing them, and the self-test that runs before every check. A
  finding is a constructor with the values its message shows.
\<close>

definition not_space :: "char \<Rightarrow> bool" where "not_space c \<longleftrightarrow> \<not> is_space c"
definition not_brace :: "char \<Rightarrow> bool" where "not_brace c \<longleftrightarrow> c \<noteq> CHR ''}''"

definition RE_ASSIGN :: re where
  "RE_ASSIGN = seqs [Bol, Many is_space, lit ''set_property'', Plus is_space, lit ''-dict'', Many is_space, lit ''{'',
     Many is_space, lit ''PACKAGE_PIN'', Plus is_space, Group 1 (Plus not_space), Plus is_space, lit ''IOSTANDARD'',
     Plus is_space, Group 2 (Plus not_space), Many is_space, lit ''}'', Many is_space, lit ''[get_ports'', Many is_space,
     lit ''{'', Many is_space, Group 3 (Seq (Cls not_brace) (Lazy not_brace)), Many is_space, lit ''}]'']"

type_synonym pinout = "(string \<times> string \<times> string) list"

text \<open>One line of the pinout; a later line for a port replaces an earlier one.\<close>

definition pin_line :: "string \<Rightarrow> pinout \<Rightarrow> pinout res" where
  "pin_line line ref = (
    let line = strip (hd (split_on CHR ''#'' line)) in
    if line = [] then Inr ref
    else case split_ws line of
        [port, pin, std] \<Rightarrow> Inr ((port, pin, std) # ref)
      | _ \<Rightarrow> Inl (ValueError ''not enough or too many values to unpack''))"

definition load_pins :: "string \<Rightarrow> pinout res" where
  "load_pins s = res_fold pin_line (splitlines s) []"

datatype pin_finding =
    UnknownPort string
  | WrongPin string string string
  | WrongStd string string string

type_synonym pin_assign = "string \<times> string \<times> string"

definition assignments :: "string \<Rightarrow> pin_assign list" where
  "assignments s = map (\<lambda>m. (group m 1, group m 2, strip (group m 3))) (re_finditer RE_ASSIGN s)"

definition check_assign :: "pinout \<Rightarrow> pin_assign \<Rightarrow> pin_finding list" where
  "check_assign ref = (\<lambda>(pin, std, port). case map_of ref port of
     None \<Rightarrow> [UnknownPort port]
   | Some (want_pin, want_std) \<Rightarrow>
       (if pin \<noteq> want_pin then [WrongPin port want_pin pin] else [])
       @ (if std \<noteq> want_std then [WrongStd port want_std std] else []))"

definition check_file :: "pinout \<Rightarrow> string \<Rightarrow> nat \<times> pin_finding list" where
  "check_file ref s = (length (assignments s), concat (map (check_assign ref) (assignments s)))"

definition XDC_SELFTESTS :: "(string \<times> string) list" where
  "XDC_SELFTESTS = [
    (''rgb_swapped'', ''set_property -dict { PACKAGE_PIN E1 IOSTANDARD LVCMOS33 } [get_ports { led0_r }]''),
    (''led_shifted'', ''set_property -dict { PACKAGE_PIN J5 IOSTANDARD LVCMOS33 } [get_ports { led[0] }]''),
    (''uart_reversed'', ''set_property -dict { PACKAGE_PIN A9 IOSTANDARD LVCMOS33 } [get_ports { uart_rxd_out }]''),
    (''unknown_port'', ''set_property -dict { PACKAGE_PIN E3 IOSTANDARD LVCMOS33 } [get_ports { clk_100 }]''),
    (''wrong_iostandard'', ''set_property -dict { PACKAGE_PIN C2 IOSTANDARD LVCMOS18 } [get_ports { ck_rst }]'')]"

definition XDC_GOOD :: string where
  "XDC_GOOD = ''set_property -dict { PACKAGE_PIN G6 IOSTANDARD LVCMOS33 } [get_ports { led0_r }]''"

definition xdc_selftest :: "pinout \<Rightarrow> int" where
  "xdc_selftest ref = (
    let fails = (if snd (check_file ref XDC_GOOD) \<noteq> [] then 1 else 0)
              + length (filter (\<lambda>(name, s). snd (check_file ref s) = []) XDC_SELFTESTS)
    in if fails \<noteq> (0 :: nat) then 1 else 0)"

text \<open>The directory is the list of its files with their contents.\<close>

definition xdc_main :: "string \<Rightarrow> (string \<times> string) list \<Rightarrow> bool \<Rightarrow> int res" where
  "xdc_main pins dir only_selftest =
    rbind (load_pins pins) (\<lambda>ref.
    if only_selftest then Inr (xdc_selftest ref)
    else if xdc_selftest ref \<noteq> 0 then Inr 1
    else let files = filter (\<lambda>(n, s). endswith n ''.xdc'') dir in
      if files = [] then Inr 1
      else if concat (map (\<lambda>(n, s). snd (check_file ref s)) files) \<noteq> [] then Inr 1 else Inr 0)"

section \<open>What an accepted board file means\<close>

lemma check_assign_ok: "check_assign ref (pin, std, port) = [] \<longleftrightarrow> map_of ref port = Some (pin, std)"
  by (auto simp: check_assign_def split: option.splits)

lemma check_file_ok: "snd (check_file ref s) = [] \<longleftrightarrow> list_all (\<lambda>(pin, std, port). map_of ref port = Some (pin, std)) (assignments s)"
  by (auto simp: check_file_def list_all_iff check_assign_ok)

text \<open>All assignments the checker sees in the constraint files.\<close>

definition all_assigns :: "(string \<times> string) list \<Rightarrow> pin_assign list" where
  "all_assigns dir = concat (map (\<lambda>(n, s). assignments s) (filter (\<lambda>(n, s). endswith n ''.xdc'') dir))"

definition table_injective :: "pinout \<Rightarrow> bool" where
  "table_injective ref \<longleftrightarrow> (\<forall>p q x. map_of ref p = Some x \<and> (\<exists>y. map_of ref q = Some y \<and> fst x = fst y) \<longrightarrow> p = q)"

definition one_pin_each :: "pin_assign list \<Rightarrow> bool" where
  "one_pin_each xs \<longleftrightarrow> (\<forall>a\<in>set xs. \<forall>b\<in>set xs. fst b = fst a \<longleftrightarrow> snd (snd b) = snd (snd a))"

lemma one_pin_each:
  assumes "list_all (\<lambda>(pin, std, port). map_of ref port = Some (pin, std)) xs" "table_injective ref"
  shows "one_pin_each xs"
  unfolding one_pin_each_def
proof (intro ballI)
  fix a b assume "a \<in> set xs" "b \<in> set xs"
  then have "map_of ref (snd (snd a)) = Some (fst a, fst (snd a))" "map_of ref (snd (snd b)) = Some (fst b, fst (snd b))"
    using assms(1) by (auto simp: list_all_iff)
  then show "fst b = fst a \<longleftrightarrow> snd (snd b) = snd (snd a)"
    using assms(2) unfolding table_injective_def by (metis fst_conv option.inject)
qed

text \<open>The pin check returns 0 only when its own self-test rejects every transposition it plants and accepts
  the correct line, there is a constraint file, and every assignment found in one puts its port on the
  pin and the I/O standard of the board's table. On a board whose table gives each port its own pin, no
  two ports then share a pin.\<close>

theorem xdc_accepted:
  assumes "xdc_main pins dir False = Inr 0"
  shows "\<exists>ref. load_pins pins = Inr ref \<and> xdc_selftest ref = 0
    \<and> list_all (\<lambda>(pin, std, port). map_of ref port = Some (pin, std)) (all_assigns dir)
    \<and> (if table_injective ref then one_pin_each (all_assigns dir) else True)"
proof -
  obtain ref where r: "load_pins pins = Inr ref" "xdc_selftest ref = 0"
    and c: "concat (map (\<lambda>(n, s). snd (check_file ref s)) (filter (\<lambda>(n, s). endswith n ''.xdc'') dir)) = []"
    using assms by (auto simp: xdc_main_def rbind_Inr_iff Let_def split: if_splits)
  have a: "list_all (\<lambda>(pin, std, port). map_of ref port = Some (pin, std)) (all_assigns dir)"
    using c by (fastforce simp: all_assigns_def list_all_iff check_file_ok)
  show ?thesis using r a one_pin_each [OF a] by auto
qed

definition demo_pins :: string where "demo_pins = ''led0_r  G6 LVCMOS33 # red''"

lemma demo_load: "load_pins demo_pins = Inr [(''led0_r'', ''G6'', ''LVCMOS33'')]"
  unfolding demo_pins_def by code_simp

lemma demo_good: "snd (check_file [(''led0_r'', ''G6'', ''LVCMOS33'')] XDC_GOOD) = []"
  by code_simp

lemma demo_rejects: "filter (\<lambda>(name, s). snd (check_file [(''led0_r'', ''G6'', ''LVCMOS33'')] s) = []) XDC_SELFTESTS = []"
  by code_simp

theorem xdc_accepted_witness:
  "\<exists>ref. load_pins demo_pins = Inr ref \<and> xdc_selftest ref = 0
    \<and> list_all (\<lambda>(pin, std, port). map_of ref port = Some (pin, std)) (all_assigns [(''a.xdc'', XDC_GOOD)])
    \<and> (if table_injective ref then one_pin_each (all_assigns [(''a.xdc'', XDC_GOOD)]) else True)"
proof (rule xdc_accepted)
  have t: "xdc_selftest [(''led0_r'', ''G6'', ''LVCMOS33'')] = 0"
    by (simp only: xdc_selftest_def demo_good demo_rejects Let_def) simp
  have e: "endswith ''a.xdc'' ''.xdc''" by code_simp
  show "xdc_main demo_pins [(''a.xdc'', XDC_GOOD)] False = Inr 0"
    by (simp add: xdc_main_def demo_load t demo_good e)
qed

text \<open>An assignment that is not in the form with \<^verbatim>\<open>-dict\<close> is not seen, whatever pin it names.\<close>

lemma plain_assignment_unseen:
  "check_file ref ''set_property PACKAGE_PIN A9 [get_ports uart_rxd_out]'' = (0, [])"
proof -
  have "assignments ''set_property PACKAGE_PIN A9 [get_ports uart_rxd_out]'' = []" by code_simp
  then show ?thesis by (simp add: check_file_def)
qed

end
