(* ===== verification/Bench_Compare.thy ===== *)
theory Bench_Compare
  imports Float_Props
begin

text \<open>
  The comparison of two benchmark captures, \<^verbatim>\<open>tb/fpga/compare_bench_runs.py\<close>: invariant fields must be
  equal, rates must scale with the clock, and four planted faults must be reported. A capture is the
  first block of the JSON report: its fields with the integers, floats or other values JSON gives them.
\<close>

section \<open>Values\<close>

datatype jval = JInt int | JFloat rat | JOther string

definition truthy :: "jval option \<Rightarrow> bool" where
  "truthy v = (case v of None \<Rightarrow> False | Some (JInt n) \<Rightarrow> n \<noteq> 0 | Some (JFloat x) \<Rightarrow> x \<noteq> 0 | Some (JOther s) \<Rightarrow> s \<noteq> [])"

text \<open>The float an arithmetic operation with a float makes of a number.\<close>

definition to_float :: "jval \<Rightarrow> rat res" where
  "to_float v = (case v of JInt n \<Rightarrow> Inr (fl (of_int n)) | JFloat x \<Rightarrow> Inr x
     | JOther s \<Rightarrow> Inl (TypeError ''unsupported operand''))"

definition divf :: "rat \<Rightarrow> rat \<Rightarrow> rat res" where
  "divf x y = (if y = 0 then Inl ZeroDivisionError else Inr (fdiv x y))"

definition jdiv :: "jval \<Rightarrow> jval \<Rightarrow> rat res" where
  "jdiv a b = (case (a, b) of
     (JInt m, JInt n) \<Rightarrow> if n = 0 then Inl ZeroDivisionError else Inr (fl (of_int m / of_int n))
   | _ \<Rightarrow> rbind (to_float a) (\<lambda>x. rbind (to_float b) (\<lambda>y. divf x y)))"

text \<open>\<^verbatim>\<open>math.isclose(a, b, rel_tol=tol)\<close>.\<close>

definition close :: "rat \<Rightarrow> rat \<Rightarrow> rat \<Rightarrow> bool" where
  "close a b tol \<longleftrightarrow> a = b \<or> (let d = \<bar>fsub b a\<bar> in d \<le> \<bar>fmul tol b\<bar> \<or> d \<le> \<bar>fmul tol a\<bar> \<or> d \<le> 0)"

definition isclose :: "jval \<Rightarrow> jval \<Rightarrow> rat \<Rightarrow> bool res" where
  "isclose a b tol = rbind (to_float a) (\<lambda>x. rbind (to_float b) (\<lambda>y. Inr (close x y tol)))"

section \<open>The comparison\<close>

definition INVARIANT :: "string list" where
  "INVARIANT = [
    ''dhry_runs'', ''dhry_cycles'', ''dhry_stat_cycles'', ''dhry_stat_instret'',
    ''dhry_check'', ''cm_iterations'', ''cm_cycles'', ''cm_instret'',
    ''seedcrc'', ''crclist'', ''crcmatrix'', ''crcstate'', ''crcfinal'',
    ''dhry_window_skew_cycles'',
    ''dhry_cycles_per_run'', ''dmips_per_mhz'', ''dhry_ipc'',
    ''coremark_per_mhz'', ''cm_ipc'']"

definition SCALES :: "string list" where
  "SCALES = [''dhrystones_per_sec'', ''dmips'', ''coremark'', ''dhry_secs'', ''cm_secs'']"

definition TIMES :: "string list" where "TIMES = [''dhry_secs'', ''cm_secs'']"

definition REL_TOL :: rat where "REL_TOL = fl (1 / 10 ^ 9)"

type_synonym capture = "(string \<times> jval) list"

definition SYNTHETIC :: capture where
  "SYNTHETIC = [
    (''clk_hz'', JInt 96250000), (''dhry_runs'', JInt 2000000), (''dhry_cycles'', JInt 1218000000),
    (''dhry_stat_cycles'', JInt 1218000040), (''dhry_stat_instret'', JInt 1063000000),
    (''dhry_check'', JInt 0), (''cm_iterations'', JInt 3300), (''cm_cycles'', JInt 975000000),
    (''cm_instret'', JInt 847000000), (''seedcrc'', JInt 0xe9f5), (''crclist'', JInt 0xe714),
    (''crcmatrix'', JInt 0x1fd7), (''crcstate'', JInt 0x8e3a), (''crcfinal'', JInt 0x33ff),
    (''dhry_window_skew_cycles'', JInt 40), (''dhry_cycles_per_run'', JFloat 609),
    (''dmips_per_mhz'', JFloat (fl (9346 / 10000))), (''dhry_ipc'', JFloat (fl (8728 / 10000))),
    (''coremark_per_mhz'', JFloat (fl (33846 / 10000))), (''cm_ipc'', JFloat (fl (8687 / 10000))),
    (''dhrystones_per_sec'', JFloat 158046), (''dmips'', JFloat (fl (8995 / 100))),
    (''coremark'', JFloat (fl (32577 / 100))), (''dhry_secs'', JFloat (fl (1265 / 100))),
    (''cm_secs'', JFloat (fl (1013 / 100)))]"

datatype moved = NoClock | InvariantMoved string | ScaledWrong string | Escaped int

definition is_float :: "jval \<Rightarrow> bool" where
  "is_float v = (case v of JFloat x \<Rightarrow> True | _ \<Rightarrow> False)"

definition add_one :: "jval \<Rightarrow> jval res" where
  "add_one v = (case v of JInt n \<Rightarrow> Inr (JInt (n + 1)) | JFloat x \<Rightarrow> Inr (JFloat (fadd x 1))
     | JOther s \<Rightarrow> Inl (TypeError ''unsupported operand''))"

definition flip_bit :: "jval \<Rightarrow> jval" where
  "flip_bit v = (case v of JInt n \<Rightarrow> JInt (n XOR 1) | _ \<Rightarrow> v)"

definition check_invariant :: "capture \<Rightarrow> capture \<Rightarrow> int \<Rightarrow> string \<Rightarrow> moved list res" where
  "check_invariant a b fault k = (case (map_of a k, map_of b k) of
     (Some va, Some vb) \<Rightarrow>
       rbind (if fault = 1 \<and> k = ''dhry_cycles'' then add_one vb else Inr vb) (\<lambda>vb.
       let vb = (if fault = 2 \<and> k = ''crcfinal'' then flip_bit vb else vb) in
       rbind (if is_float va \<or> is_float vb then isclose va vb REL_TOL else Inr (va = vb)) (\<lambda>same.
       Inr (if same then [] else [InvariantMoved k])))
   | _ \<Rightarrow> Inr [])"

definition check_scaled :: "capture \<Rightarrow> capture \<Rightarrow> int \<Rightarrow> rat \<Rightarrow> string \<Rightarrow> moved list res" where
  "check_scaled a b fault ratio k = (case (map_of a k, map_of b k) of
     (Some va, Some vb) \<Rightarrow>
       rbind (to_float va) (\<lambda>x.
       rbind (if k \<notin> set TIMES then Inr (fmul x ratio) else divf x ratio) (\<lambda>want.
       rbind (if fault = 3 \<and> k = ''coremark'' then rbind (to_float vb) (\<lambda>y. Inr (JFloat (fmul y (fl (101 / 100)))))
              else Inr vb) (\<lambda>vb.
       rbind (isclose vb (if fault = 4 then va else JFloat want) (fl (1 / 10 ^ 6))) (\<lambda>same.
       Inr (if same then [] else [ScaledWrong k])))))
   | _ \<Rightarrow> Inr [])"

definition compare_runs :: "capture \<Rightarrow> capture \<Rightarrow> int \<Rightarrow> moved list res" where
  "compare_runs a b fault = (
    if \<not> truthy (map_of a ''clk_hz'') \<or> \<not> truthy (map_of b ''clk_hz'') then Inr [NoClock] else
    rbind (jdiv (the (map_of b ''clk_hz'')) (the (map_of a ''clk_hz''))) (\<lambda>ratio.
    rbind (mapr (check_invariant a b fault) INVARIANT) (\<lambda>invs.
    rbind (mapr (check_scaled a b fault ratio) SCALES) (\<lambda>ss. Inr (concat invs @ concat ss)))))"

section \<open>The self-test and the verdict\<close>

text \<open>\<^verbatim>\<open>d[k] = v\<close> on a field that may be absent.\<close>

definition cset :: "string \<Rightarrow> jval \<Rightarrow> capture \<Rightarrow> capture" where "cset k v c = (k, v) # c"

definition fget :: "capture \<Rightarrow> string \<Rightarrow> jval res" where
  "fget c k = (case map_of c k of None \<Rightarrow> Inl (KeyError k) | Some v \<Rightarrow> Inr v)"

definition scale_field :: "capture \<Rightarrow> string \<Rightarrow> capture \<Rightarrow> capture res" where
  "scale_field ref k fast = (case map_of fast k of
     None \<Rightarrow> Inr fast
   | Some v \<Rightarrow>
       rbind (fget ref k) (\<lambda>r. rbind (to_float r) (\<lambda>x.
       Inr (cset k (JFloat (if k \<notin> set TIMES then fmul x (fl (12 / 10)) else fdiv x (fl (12 / 10)))) fast))))"

definition fast_copy :: "capture \<Rightarrow> capture res" where
  "fast_copy ref =
    rbind (fget ref ''clk_hz'') (\<lambda>c. rbind (to_float c) (\<lambda>x.
    res_fold (scale_field ref) SCALES (cset ''clk_hz'' (JFloat (fmul x (fl (12 / 10)))) ref)))"

definition compare_selftest :: "capture \<Rightarrow> moved list res" where
  "compare_selftest ref =
    rbind (fast_copy ref) (\<lambda>fast.
    rbind (compare_runs ref fast 0) (\<lambda>base.
    rbind (mapr (compare_runs ref fast) [1, 2, 3, 4]) (\<lambda>hits.
    Inr (take 1 base @ map (\<lambda>(f, h). Escaped f) (filter (\<lambda>(f, h). h = []) (zip [1, 2, 3, 4] hits))))))"

text \<open>The line main prints before anything else divides by the reference clock.\<close>

definition compare_main :: "capture option \<Rightarrow> capture option \<Rightarrow> bool \<Rightarrow> int res" where
  "compare_main ref new selfcheck = (
    if \<not> selfcheck \<and> (ref = None \<or> new = None) then Inr 2 else
    let ref = (case ref of None \<Rightarrow> SYNTHETIC | Some r \<Rightarrow> r); new = (case new of None \<Rightarrow> ref | Some n \<Rightarrow> n) in
    rbind (compare_runs ref new 0) (\<lambda>probs.
    rbind (fget ref ''clk_hz'') (\<lambda>rc. rbind (fget new ''clk_hz'') (\<lambda>nc. rbind (jdiv nc rc) (\<lambda>ratio.
    rbind (if selfcheck then compare_selftest ref else Inr []) (\<lambda>more.
    Inr (if probs @ more \<noteq> [] then 1 else 0)))))))"

section \<open>What the comparison shows\<close>

text \<open>A number as JSON gives it: a float is a double, and an integer is exact as a double.\<close>

definition number :: "jval \<Rightarrow> bool" where
  "number v = (case v of JInt n \<Rightarrow> \<bar>n\<bar> < 2 ^ 53 | JFloat x \<Rightarrow> fl x = x | JOther s \<Rightarrow> False)"

lemma fl_int: "\<bar>n\<bar> < 2 ^ 53 \<Longrightarrow> fl (of_int n) = of_int n"
  by (rule fl_exact [of _ n 0]) (simp_all add: pow2_def)

lemma fl_one [simp]: "fl 1 = 1"
  using fl_int [of 1] by simp

lemma number_float: "number v \<Longrightarrow> \<exists>x. to_float v = Inr x \<and> fl x = x"
  by (cases v) (simp_all add: number_def to_float_def fl_int)

lemma close_refl [simp]: "close x x tol"
  by (simp add: close_def)

definition all_numbers :: "capture \<Rightarrow> bool" where
  "all_numbers c \<longleftrightarrow> list_all (\<lambda>(k, v). number v) c"

lemma all_numbersD: "all_numbers c \<Longrightarrow> map_of c k = Some v \<Longrightarrow> number v"
  by (auto simp: all_numbers_def list_all_iff dest!: map_of_SomeD)

lemma self_ratio: "number v \<Longrightarrow> truthy (Some v) \<Longrightarrow> jdiv v v = Inr 1"
  by (cases v) (simp_all add: number_def truthy_def jdiv_def to_float_def divf_def fdiv_def)

lemma check_invariant_self: "check_invariant c c 0 k = Inr []"
proof (cases "map_of c k")
  case (Some v)
  then show ?thesis by (cases v) (simp_all add: check_invariant_def is_float_def isclose_def to_float_def)
qed (simp add: check_invariant_def)

lemma check_scaled_self: "all_numbers c \<Longrightarrow> check_scaled c c 0 1 k = Inr []"
proof (cases "map_of c k")
  case (Some v)
  assume c: "all_numbers c"
  from number_float [OF all_numbersD [OF c Some]] obtain x where x: "to_float v = Inr x" "fl x = x" by blast
  moreover have "to_float (JFloat x) = Inr x" by (simp add: to_float_def)
  ultimately show ?thesis using Some
    by (simp add: check_scaled_def isclose_def fmul_def divf_def fdiv_def)
qed (simp add: check_scaled_def)

lemma mapr_const_nil: "(\<And>x. f x = Inr []) \<Longrightarrow> mapr f xs = Inr (map (\<lambda>x. []) xs)"
  by (induction xs) simp_all

text \<open>A capture compared with itself is accepted, rounding included: with a clock that is not zero and
  numbers that are exact in double precision, every field agrees with itself and every rate scales by a
  ratio that is exactly one.\<close>

theorem compare_self:
  assumes "all_numbers c" "truthy (map_of c ''clk_hz'')"
  shows "compare_main (Some c) (Some c) False = Inr 0"
proof -
  obtain v where v: "map_of c ''clk_hz'' = Some v" using assms(2) by (cases "map_of c ''clk_hz''") (simp_all add: truthy_def)
  have r: "jdiv v v = Inr 1" using self_ratio all_numbersD [OF assms(1) v] assms(2) v by simp
  have "compare_runs c c 0 = Inr []"
    using assms v r check_scaled_self [OF assms(1)]
    by (simp add: compare_runs_def mapr_const_nil check_invariant_self)
  then show ?thesis using v r by (simp add: compare_main_def fget_def)
qed

theorem compare_self_witness:
  "compare_main (Some [(''clk_hz'', JInt 96250000), (''cm_cycles'', JInt 975), (''dmips'', JFloat 90)])
     (Some [(''clk_hz'', JInt 96250000), (''cm_cycles'', JInt 975), (''dmips'', JFloat 90)]) False = Inr 0"
proof (rule compare_self)
  have "fl 90 = 90" using fl_int [of 90] by simp
  then show "all_numbers [(''clk_hz'', JInt 96250000), (''cm_cycles'', JInt 975), (''dmips'', JFloat 90)]"
    by (simp add: all_numbers_def number_def)
qed (simp add: truthy_def)

text \<open>An accepted pair has the same value in every invariant field that both captures give as a whole
  number, so the same cycle and instruction counts and the same checksums.\<close>

lemma compare_same_integers:
  assumes "compare_runs a b 0 = Inr []" "k \<in> set INVARIANT" "map_of a k = Some (JInt m)" "map_of b k = Some (JInt n)"
  shows "m = n"
proof -
  obtain ratio invs ss where i: "mapr (check_invariant a b 0) INVARIANT = Inr invs" "concat invs @ concat ss = []"
    using assms(1) by (auto simp: compare_runs_def rbind_Inr_iff split: if_splits)
  then have "check_invariant a b 0 k = Inr []" using mapr_nil [OF i(1) _ assms(2)] by simp
  then show ?thesis using assms(3,4) by (simp add: check_invariant_def is_float_def split: if_splits)
qed

text \<open>Without a clock the comparison finds the problem, but the report that follows divides by the missing
  field, so the run ends in an exception instead of the finding.\<close>

lemma missing_clock_raises:
  "map_of ref ''clk_hz'' = None \<Longrightarrow> compare_runs ref new 0 = Inr [NoClock]
     \<and> compare_main (Some ref) (Some new) False = Inl (KeyError ''clk_hz'')"
  by (simp add: compare_runs_def compare_main_def truthy_def fget_def)

end
