(* ===== verification/Entropy.thy ===== *)
theory Entropy
  imports Float_Props Py_Regex
begin

text \<open>
  \<^verbatim>\<open>tb/unit/test_entropy_health.py\<close>: the cutoffs of the two health tests of SP 800-90B are
  recomputed exactly and compared with the parameters of the RTL, then the testbench is run. The
  text of \<^verbatim>\<open>rvntt_entropy_health.sv\<close>, Verilator and the simulator it builds are arguments.

  The adaptive proportion cutoff is proved against the definition of the standard, stated on windows
  of samples: the least count that a fair source reaches with probability at most \<open>\<alpha>\<close>.
\<close>

section \<open>Cutoffs\<close>

definition ALPHA_LOG2 :: nat where "ALPHA_LOG2 = 20"
definition H_BITS :: rat where "H_BITS = 1"

definition repetition_cutoff :: "rat \<Rightarrow> nat \<Rightarrow> int res" where
  "repetition_cutoff h alpha_log2 =
    (if h = 0 then Inl ZeroDivisionError else Inr (1 + \<lceil>fdiv (of_nat alpha_log2) h\<rceil>))"

text \<open>The loop \<^verbatim>\<open>for c in range(w, 0, -1)\<close>; \<^verbatim>\<open>Fraction\<close> is exact.\<close>

fun cutoff_loop :: "nat \<Rightarrow> rat \<Rightarrow> rat \<Rightarrow> nat \<Rightarrow> rat \<Rightarrow> nat" where
  "cutoff_loop w p alpha 0 tail = 1"
| "cutoff_loop w p alpha (Suc c) tail = (
    let tail' = tail + of_nat (w choose Suc c) * p ^ Suc c * (1 - p) ^ (w - Suc c)
    in if tail' > alpha then Suc c + 1 else cutoff_loop w p alpha c tail')"

definition adaptive_cutoff :: "nat \<Rightarrow> rat \<Rightarrow> nat \<Rightarrow> nat res" where
  "adaptive_cutoff w h alpha_log2 =
    rbind (py_assert (h = 1) ''only the binary case is derived here'') (\<lambda>_.
    Inr (cutoff_loop w (1 / 2) (1 / 2 ^ alpha_log2) w 0))"

section \<open>The check\<close>

text \<open>\<^verbatim>\<open>parameter\s+int\s+NAME\s*=\s*(\d+)\<close>.\<close>

definition param_re :: "string \<Rightarrow> re" where
  "param_re name = seqs [lit ''parameter'', Plus is_space, lit ''int'', Plus is_space, lit name,
     Many is_space, lit ''='', Many is_space, Group 1 (Plus is_digit)]"

definition rtl_param :: "string \<Rightarrow> string \<Rightarrow> nat res" where
  "rtl_param src name = (case re_search (param_re name) src of
     None \<Rightarrow> Inl (SystemExit (''ENTROPY_FAIL: no '' @ name @ '' parameter in rvntt_entropy_health.sv''))
   | Some g \<Rightarrow> Inr (read_base 10 (group g 1)))"

text \<open>The return code of the first part.\<close>

definition cutoffs_rc :: "string \<Rightarrow> int res" where
  "cutoffs_rc src =
    rbind (rtl_param src ''AP_WINDOW'') (\<lambda>w.
    rbind (repetition_cutoff H_BITS ALPHA_LOG2) (\<lambda>want_rep.
    rbind (adaptive_cutoff w H_BITS ALPHA_LOG2) (\<lambda>want_ap.
    rbind (rtl_param src ''REP_CUTOFF'') (\<lambda>got_rep.
    rbind (rtl_param src ''AP_CUTOFF'') (\<lambda>got_ap.
    Inr (if int got_rep \<noteq> want_rep \<or> got_ap \<noteq> want_ap then 1 else 0))))))"

text \<open>\<open>verilator\<close>: the return code of the build; \<open>sim\<close>: return code and output of what it built.\<close>

definition entropy_main :: "string \<Rightarrow> int \<Rightarrow> int \<times> string \<Rightarrow> int res" where
  "entropy_main src verilator sim =
    rbind (cutoffs_rc src) (\<lambda>rc.
    Inr (if verilator \<noteq> 0 then 1
         else if fst sim \<noteq> 0 \<or> \<not> is_sub ''ENTROPY_TB_OK'' (snd sim) then 1 else rc))"

section \<open>Windows of a fair source\<close>

text \<open>All windows of \<open>w\<close> binary samples are equally likely; \<open>reaching w c\<close> of them hold
  the watched value at least \<open>c\<close> times.\<close>

definition windows :: "nat \<Rightarrow> bool list set" where
  "windows w = {xs. length xs = w}"

definition reaching :: "nat \<Rightarrow> nat \<Rightarrow> nat" where
  "reaching w c = card {xs \<in> windows w. c \<le> count_list xs True}"

definition prob_reaching :: "nat \<Rightarrow> nat \<Rightarrow> rat" where
  "prob_reaching w c = of_nat (reaching w c) / of_nat (card (windows w))"

lemma windows_lists: "windows w = {xs. set xs \<subseteq> UNIV \<and> length xs = w}"
  by (simp add: windows_def)

lemma finite_windows [simp]: "finite (windows w)"
  unfolding windows_lists by (rule finite_lists_length_eq) simp

lemma card_windows [simp]: "card (windows w) = 2 ^ w"
  unfolding windows_lists by (subst card_lists_length_eq) (simp_all add: UNIV_bool numeral_2_eq_2)

lemma windows_Suc: "windows (Suc w) = (Cons True) ` windows w \<union> (Cons False) ` windows w"
  by (auto simp: windows_def length_Suc_conv image_iff)

lemma card_exactly: "card {xs \<in> windows w. count_list xs True = k} = w choose k"
proof (induction w arbitrary: k)
  case 0
  have "{xs \<in> windows 0. count_list xs True = k} = (if k = 0 then {[]} else {})"
    by (auto simp: windows_def)
  then show ?case by (cases k) simp_all
next
  case (Suc w)
  let ?E = "\<lambda>w k. {xs \<in> windows w. count_list xs True = k}"
  have split: "?E (Suc w) k = (Cons True) ` {xs \<in> windows w. Suc (count_list xs True) = k} \<union> (Cons False) ` ?E w k"
    by (auto simp: windows_Suc)
  have dis: "(Cons True) ` A \<inter> (Cons False) ` B = {}" for A B :: "bool list set" by auto
  have fin: "finite (?E w j)" for j by simp
  have "card (?E (Suc w) k) = card {xs \<in> windows w. Suc (count_list xs True) = k} + card (?E w k)"
    unfolding split by (subst card_Un_disjoint) (simp_all add: dis card_image)
  then show ?case using Suc.IH by (cases k) simp_all
qed

lemma reaching_Suc: "reaching w c = (w choose c) + reaching w (Suc c)"
proof -
  have "{xs \<in> windows w. c \<le> count_list xs True}
      = {xs \<in> windows w. count_list xs True = c} \<union> {xs \<in> windows w. Suc c \<le> count_list xs True}"
    by auto
  then show ?thesis
    unfolding reaching_def by (simp add: card_Un_disjoint disjoint_iff card_exactly flip: card_exactly)
qed

lemma reaching_all: "reaching w 0 = 2 ^ w"
  using card_windows [of w] by (simp add: reaching_def)

lemma reaching_none: "w < c \<Longrightarrow> reaching w c = 0"
proof -
  assume "w < c"
  then have "\<not> c \<le> count_list xs True" if "length xs = w" for xs :: "bool list"
    using count_le_length [of xs True] that by simp
  then have "{xs \<in> windows w. c \<le> count_list xs True} = {}" unfolding windows_def by blast
  then show ?thesis by (simp add: reaching_def)
qed

lemma reaching_antimono: "b \<le> c \<Longrightarrow> reaching w c \<le> reaching w b"
  unfolding reaching_def by (intro card_mono) auto

lemma prob_reaching_eq: "prob_reaching w c = of_nat (reaching w c) / 2 ^ w"
  by (simp add: prob_reaching_def)

lemma prob_step:
  assumes "Suc c \<le> w"
  shows "prob_reaching w (Suc c) = prob_reaching w (Suc (Suc c)) + of_nat (w choose Suc c) * (1 / 2) ^ Suc c * (1 - 1 / 2) ^ (w - Suc c)"
proof -
  have "(1 / 2 :: rat) ^ Suc c * (1 - 1 / 2) ^ (w - Suc c) = 1 / 2 ^ w"
    using assms by (simp add: power_one_over flip: power_add power_Suc)
  then show ?thesis
    using reaching_Suc [of w "Suc c"] by (simp add: prob_reaching_eq add_divide_distrib mult.assoc)
qed

lemma prob_antimono: "b \<le> c \<Longrightarrow> prob_reaching w c \<le> prob_reaching w b"
  unfolding prob_reaching_eq by (intro divide_right_mono) (simp_all add: reaching_antimono)

section \<open>The cutoff is the standard's\<close>

lemma cutoff_loop_least:
  assumes "c \<le> w" and "prob_reaching w (Suc c) \<le> alpha" and "alpha < 1"
  shows "cutoff_loop w (1 / 2) alpha c (prob_reaching w (Suc c)) = (LEAST k. prob_reaching w k \<le> alpha)"
  using assms(1,2)
proof (induction c)
  case 0
  have "\<not> prob_reaching w 0 \<le> alpha" using assms(3) by (simp add: prob_reaching_eq reaching_all)
  then have "(LEAST k. prob_reaching w k \<le> alpha) = 1"
    using 0 by (intro Least_equality) (auto intro: Suc_leI gr0I)
  then show ?case by simp
next
  case (Suc c)
  let ?t = "prob_reaching w (Suc c)"
  have step: "prob_reaching w (Suc (Suc c)) + of_nat (w choose Suc c) * (1 / 2) ^ Suc c * (1 - 1 / 2) ^ (w - Suc c) = ?t"
    using prob_step Suc.prems(1) by simp
  show ?case
  proof (cases "alpha < ?t")
    case True
    then have "\<not> prob_reaching w k \<le> alpha" if "k \<le> Suc c" for k
      using prob_antimono [OF that, of w] by simp
    then have "(LEAST k. prob_reaching w k \<le> alpha) = Suc (Suc c)"
      using Suc.prems(2) by (intro Least_equality) (metis not_less_eq_eq)+
    then show ?thesis using True unfolding cutoff_loop.simps(2) Let_def step by simp
  next
    case False
    then show ?thesis using Suc.IH Suc.prems(1) unfolding cutoff_loop.simps(2) Let_def step by simp
  qed
qed

lemma adaptive_cutoff_eq:
  assumes "0 < a"
  shows "adaptive_cutoff w 1 a = Inr (LEAST k. prob_reaching w k \<le> 1 / 2 ^ a)"
proof -
  have "prob_reaching w (Suc w) = 0" by (simp add: prob_reaching_eq reaching_none)
  moreover have "1 / 2 ^ a < (1 :: rat)" using assms by (simp add: one_less_power)
  ultimately show ?thesis
    using cutoff_loop_least [of w w "1 / 2 ^ a"] by (simp add: adaptive_cutoff_def py_assert_def)
qed

theorem adaptive_cutoff_least: "0 < a \<Longrightarrow> adaptive_cutoff w 1 a = Inr (LEAST k. prob_reaching w k \<le> 1 / 2 ^ a)"
  by (rule adaptive_cutoff_eq)

lemma repetition_value: "repetition_cutoff H_BITS ALPHA_LOG2 = Inr 21"
  by (code_simp)

section \<open>The verdict\<close>

text \<open>C34: the script accepts exactly when the simulator was built and reported success and the RTL's
  parameters are the standard's cutoffs for its own window: 21 repetitions, and the least count that
  at most one in \<open>2 ^ 20\<close> windows of a fair source reaches. Any other parameter is refused.\<close>

theorem entropy_accepts:
  "entropy_main src verilator sim = Inr 0 \<longleftrightarrow>
     verilator = 0 \<and> fst sim = 0 \<and> is_sub ''ENTROPY_TB_OK'' (snd sim) \<and> rtl_param src ''REP_CUTOFF'' = Inr 21 \<and>
     (\<exists>w. rtl_param src ''AP_WINDOW'' = Inr w \<and>
        rtl_param src ''AP_CUTOFF'' = Inr (LEAST k. prob_reaching w k \<le> 1 / 2 ^ 20))"
proof -
  have "adaptive_cutoff w H_BITS ALPHA_LOG2 = Inr (LEAST k. prob_reaching w k \<le> 1 / 2 ^ 20)" for w
    using adaptive_cutoff_eq [of 20 w] by (simp add: H_BITS_def ALPHA_LOG2_def)
  then show ?thesis
    unfolding entropy_main_def cutoffs_rc_def repetition_value
    by (auto simp: rbind_Inr_iff split: if_splits)
qed

text \<open>On the parameter lines of a small window, and with a cutoff that is one too low.\<close>

definition demo_rtl :: "string \<Rightarrow> string" where
  "demo_rtl n = ''  parameter int REP_CUTOFF = 21, parameter int AP_WINDOW  = 20, parameter int AP_CUTOFF  = '' @ n"

lemma cutoff_20: "adaptive_cutoff 20 H_BITS ALPHA_LOG2 = Inr 20"
proof -
  have c: "20 = Suc 19" "(19 :: nat) = Suc 18" by simp_all
  have b: "20 choose 20 = (1 :: nat)" "20 choose 19 = (20 :: nat)"
    using binomial_Suc_n [of 19] by (simp_all del: binomial_Suc_n)
  have "cutoff_loop 20 (1 / 2) (1 / 2 ^ 20) 20 0 = 20"
    unfolding c(1) [THEN arg_cong, of "\<lambda>n. cutoff_loop 20 (1 / 2) (1 / 2 ^ 20) n 0"] cutoff_loop.simps(2) Let_def
    unfolding c(2) [THEN arg_cong, of "\<lambda>n. cutoff_loop 20 (1 / 2) (1 / 2 ^ 20) n x" for x] cutoff_loop.simps(2) Let_def
    by (simp add: b power_one_over)
  then show ?thesis by (simp add: adaptive_cutoff_def H_BITS_def ALPHA_LOG2_def py_assert_def)
qed

lemma demo_params:
  "rtl_param (demo_rtl ''20'') ''AP_WINDOW'' = Inr 20" "rtl_param (demo_rtl ''19'') ''AP_WINDOW'' = Inr 20"
  "rtl_param (demo_rtl ''20'') ''REP_CUTOFF'' = Inr 21" "rtl_param (demo_rtl ''19'') ''REP_CUTOFF'' = Inr 21"
  "rtl_param (demo_rtl ''20'') ''AP_CUTOFF'' = Inr 20" "rtl_param (demo_rtl ''19'') ''AP_CUTOFF'' = Inr 19"
  "rtl_param ''module m;'' ''AP_WINDOW'' = Inl (SystemExit ''ENTROPY_FAIL: no AP_WINDOW parameter in rvntt_entropy_health.sv'')"
  by code_simp+

lemma demo_entropy:
  "entropy_main (demo_rtl ''20'') 0 (0, ''ENTROPY_TB_OK'') = Inr 0"
  "entropy_main (demo_rtl ''19'') 0 (0, ''ENTROPY_TB_OK'') = Inr 1"
  "entropy_main ''module m;'' 0 (0, ''ENTROPY_TB_OK'') = Inl (SystemExit ''ENTROPY_FAIL: no AP_WINDOW parameter in rvntt_entropy_health.sv'')"
  by (simp_all add: entropy_main_def cutoffs_rc_def demo_params cutoff_20 repetition_value startswith_def)

end
