(* ===== verification/Cocotb_Tests.thy ===== *)
theory Cocotb_Tests
  imports Decode_Spec
begin

text \<open>
  The cocotb tests of the immediate generator and of the decoder
  (\<^verbatim>\<open>tb/cocotb/test_immgen_cocotb.py\<close>, \<^verbatim>\<open>test_decode_cocotb.py\<close>), as verdicts on a design. The
  design under test is combinational: after the inputs are driven and the timer has elapsed, its
  outputs are a function of them, which is the argument \<open>dut\<close>. Random draws are arguments too. A
  failure is recorded with the values its message shows, and a test ends in an
  \<^verbatim>\<open>AssertionError\<close> when the list of failures is not empty.

  The comparison with the reference model is what these tests do; what they are worth is proved here:
  for which designs a passed test means agreement on every instruction word.
\<close>

section \<open>Loops that stop after twenty failures\<close>

text \<open>The state is the number of vectors driven so far, which also counts the random draws, and the
  failures.\<close>

fun sweep :: "(nat \<Rightarrow> 'v \<Rightarrow> 'f list) \<Rightarrow> 'v list \<Rightarrow> nat \<times> 'f list \<Rightarrow> nat \<times> 'f list" where
  "sweep chk [] st = st"
| "sweep chk (v # vs) (n, fs) = (let fs' = fs @ chk n v in
     if 20 < length fs' then (Suc n, fs') else sweep chk vs (Suc n, fs'))"

definition conclude :: "'f list \<Rightarrow> string \<Rightarrow> unit res" where
  "conclude failures msg = py_assert (failures = []) msg"

section \<open>The immediate generator\<close>

type_synonym imm_dut = "int \<Rightarrow> int \<Rightarrow> int"
type_synonym imm_failure = "string \<times> int \<times> int \<times> int \<times> int"

text \<open>\<^verbatim>\<open>sorted(ref.IMM_FMTS.values())\<close>.\<close>

definition FMTS :: "int list" where
  "FMTS = sort (map snd IMM_FMTS)"

text \<open>\<^verbatim>\<open>FIELD_BITS\<close> of the three formats the exhaustive test sweeps.\<close>

definition FIELD_BITS :: "(int \<times> nat list) list" where
  "FIELD_BITS = [(IMM_I, [20..<32]), (IMM_S, [7..<12] @ [25..<32]), (IMM_B, [7..<12] @ [25..<32]),
     (IMM_U, [12..<32]), (IMM_J, [12..<32]), (IMM_Z, [15..<20])]"

definition field_of :: "int \<Rightarrow> nat list" where
  "field_of fmt = (case map_of FIELD_BITS fmt of Some f \<Rightarrow> f | None \<Rightarrow> [])"

definition imm_check :: "imm_dut \<Rightarrow> string \<Rightarrow> int \<Rightarrow> int \<Rightarrow> imm_failure list" where
  "imm_check dut tag fmt insn = (let got = dut insn fmt; expected = imm insn fmt in
     if got \<noteq> expected then [(tag, fmt, insn, got, expected)] else [])"

text \<open>The two vectors of one bit position.\<close>

definition walk_pair :: "imm_dut \<Rightarrow> int \<Rightarrow> nat \<Rightarrow> imm_failure list" where
  "walk_pair dut fmt i = imm_check dut ''walk-1'' fmt (push_bit i 1)
     @ imm_check dut ''walk-0'' fmt (0xFFFFFFFF XOR push_bit i 1)"

definition test_walking_bits :: "imm_dut \<Rightarrow> unit res" where
  "test_walking_bits dut = conclude (concat (map (\<lambda>fmt. concat (map (walk_pair dut fmt) [0..<32])) FMTS))
     ''immgen walking-bit mismatches''"

text \<open>\<^verbatim>\<open>mask |= 1 << b\<close> over the field, and the bits of the counter scattered over it.\<close>

fun field_mask :: "nat list \<Rightarrow> int" where
  "field_mask [] = 0"
| "field_mask (b # bs) = push_bit b 1 OR field_mask bs"

fun scatter :: "int \<Rightarrow> nat \<Rightarrow> nat list \<Rightarrow> int \<Rightarrow> int" where
  "scatter v k [] insn = insn"
| "scatter v k (b # bs) insn =
     scatter v (Suc k) bs (if drop_bit k v AND 1 \<noteq> 0 then insn OR push_bit b 1 else insn)"

definition exhaustive_vector :: "nat list \<Rightarrow> int \<Rightarrow> int \<Rightarrow> int" where
  "exhaustive_vector field draw v = scatter v 0 field (draw AND NOT (field_mask field))"

definition exhaustive_format :: "imm_dut \<Rightarrow> (nat \<Rightarrow> int) \<Rightarrow> int \<Rightarrow> nat \<times> imm_failure list \<Rightarrow> nat \<times> imm_failure list" where
  "exhaustive_format dut draw fmt = (let field = field_of fmt in
     sweep (\<lambda>n v. imm_check dut ''exhaustive12'' fmt (exhaustive_vector field (draw n) (int v)))
       [0..<2 ^ length field])"

definition test_exhaustive_12bit_fields :: "imm_dut \<Rightarrow> (nat \<Rightarrow> int) \<Rightarrow> unit res" where
  "test_exhaustive_12bit_fields dut draw =
    conclude (snd (fold (exhaustive_format dut draw) [IMM_I, IMM_S, IMM_B] (0, []))) ''immgen exhaustive mismatches''"

definition exhaustive_wide :: "imm_dut \<Rightarrow> (nat \<Rightarrow> int) \<Rightarrow> int \<Rightarrow> nat \<times> imm_failure list \<Rightarrow> nat \<times> imm_failure list" where
  "exhaustive_wide dut draw fmt =
     sweep (\<lambda>n v. imm_check dut ''exhaustive20'' fmt (push_bit 12 (int v) OR draw n)) [0..<2 ^ 20]"

text \<open>\<open>enabled\<close>: \<^verbatim>\<open>IMMGEN_EXHAUSTIVE=1\<close>.\<close>

definition test_exhaustive_20bit_fields :: "bool \<Rightarrow> imm_dut \<Rightarrow> (nat \<Rightarrow> int) \<Rightarrow> unit res" where
  "test_exhaustive_20bit_fields enabled dut draw = (if \<not> enabled then Inr () else
    conclude (snd (fold (exhaustive_wide dut draw) [IMM_U, IMM_J] (0, []))) ''immgen exhaustive mismatches'')"

definition test_immgen_random :: "imm_dut \<Rightarrow> (nat \<Rightarrow> int) \<Rightarrow> nat \<Rightarrow> unit res" where
  "test_immgen_random dut draw N =
    conclude (snd (sweep (\<lambda>n _. concat (map (\<lambda>fmt. imm_check dut ''random'' fmt (draw n)) FMTS)) [0..<N] (0, [])))
      ''immgen random mismatches''"

section \<open>The decoder\<close>

type_synonym decoder = "int \<Rightarrow> ctrl \<times> regs"

definition CTRL_FIELDS :: "(string \<times> (ctrl \<Rightarrow> int)) list" where
  "CTRL_FIELDS = [(''reg_write'', reg_write), (''mem_read'', mem_read), (''mem_write'', mem_write), (''mem_op'', mem_op),
    (''branch'', ctrl.branch), (''jump'', jump), (''jalr'', jalr), (''alu_op'', alu_op), (''alu_src_a'', alu_src_a),
    (''alu_src_b'', alu_src_b), (''result_sel'', result_sel), (''imm_fmt'', imm_fmt), (''uses_rs1'', uses_rs1),
    (''uses_rs2'', uses_rs2), (''is_ecall'', is_ecall), (''is_ebreak'', is_ebreak), (''is_mret'', is_mret),
    (''is_csr'', is_csr), (''is_muldiv'', is_muldiv), (''muldiv_op'', muldiv_op), (''is_bitmanip'', is_bitmanip),
    (''bm_op'', bm_op), (''is_illegal'', is_illegal)]"

definition REGS :: "(string \<times> (regs \<Rightarrow> int)) list" where
  "REGS = [(''rd'', rd), (''rs1'', rs1), (''rs2'', rs2)]"

datatype dec_failure =
    RegAddr string int string int int
  | Fields string int "(string \<times> int \<times> int) list"
  | IllegalFlag int string int int

text \<open>The first wrong register address, otherwise up to six wrong control fields.\<close>

definition dec_check :: "decoder \<Rightarrow> int \<Rightarrow> string \<Rightarrow> dec_failure list res" where
  "dec_check dut insn tag = rbind (decode insn) (\<lambda>(expected, exp_regs).
    let (got, got_regs) = dut insn in
    case filter (\<lambda>(n, f). f got_regs \<noteq> f exp_regs) REGS of
      (n, f) # _ \<Rightarrow> Inr [RegAddr tag insn n (f got_regs) (f exp_regs)]
    | [] \<Rightarrow> (case filter (\<lambda>(n, f). f got \<noteq> f expected) CTRL_FIELDS of
        [] \<Rightarrow> Inr []
      | ds \<Rightarrow> Inr [Fields tag insn (map (\<lambda>(n, f). (n, f got, f expected)) (take 6 ds))]))"

text \<open>The reference decoder never raises, so the check as a total function.\<close>

definition dec_findings :: "decoder \<Rightarrow> int \<Rightarrow> string \<Rightarrow> dec_failure list" where
  "dec_findings dut insn tag = projr (dec_check dut insn tag)"

text \<open>Hand-written words with the legality the test asserts absolutely.\<close>

definition CASES :: "(int \<times> string \<times> int) list" where
  "CASES = [
    (0x00000033, ''add x0,x0,x0'', 0), (0x40208033, ''sub x0,x1,x2'', 0),
    (0x02C58633, ''mul    a2,a1,a2'', 0), (0x02C59633, ''mulh   a2,a1,a2'', 0),
    (0x02C5A633, ''mulhsu a2,a1,a2'', 0), (0x02C5B633, ''mulhu  a2,a1,a2'', 0),
    (0x02C5C633, ''div    a2,a1,a2'', 0), (0x02C5D633, ''divu   a2,a1,a2'', 0),
    (0x02C5E633, ''rem    a2,a1,a2'', 0), (0x02C5F633, ''remu   a2,a1,a2'', 0),
    (0x04C58633, ''OP funct7=0000010'', 1), (0x06C58633, ''OP funct7=0000011'', 1),
    (0x02C5D613, ''OP-IMM funct7=0000001'', 1), (0x00001013, ''slli'', 0),
    (0x02001013, ''slli with insn[25] set'', 1), (0x40005013, ''srai'', 0),
    (0x20005013, ''srli, bad funct7'', 1), (0x00002063, ''branch funct3=010'', 1),
    (0x00003063, ''branch funct3=011'', 1), (0x00000063, ''beq'', 0),
    (0x00003003, ''load funct3=011'', 1), (0x00006003, ''load funct3=110'', 1),
    (0x00002003, ''lw'', 0), (0x00003023, ''store funct3=011'', 1),
    (0x00002023, ''sw'', 0), (0x00001067, ''jalr funct3!=0'', 1),
    (0x00000067, ''jalr'', 0), (0x0000000f, ''fence'', 0),
    (0x0ff0000f, ''fence with pred/succ set'', 0), (0x0000100f, ''fence.i (no Zifencei)'', 1),
    (0x00000073, ''ecall'', 0), (0x00100073, ''ebreak'', 0),
    (0x30200073, ''mret'', 0), (0x10500073, ''wfi'', 0),
    (0x00108073, ''ecall with rs1 != 0'', 1), (0x00000f73, ''ecall with rd != 0'', 1),
    (0x30208073, ''mret with rs1 != 0'', 1), (((0x00100093 AND NOT 0x7F) OR 0x73), ''system junk funct12'', 1),
    (0x00004073, ''system funct3=100'', 1), (0x00002073, ''csrrs'', 0),
    (0x00005073, ''csrrwi'', 0), (0x00000013, ''nop (addi x0,x0,0)'', 0),
    (0x00000000, ''all zeros'', 1), (0xFFFFFFFF, ''all ones'', 1),
    (0x00000001, ''insn[1:0]=01 (compressed)'', 1), (0x00000002, ''insn[1:0]=10 (compressed)'', 1)]"

definition directed_case :: "decoder \<Rightarrow> int \<times> string \<times> int \<Rightarrow> dec_failure list" where
  "directed_case dut = (\<lambda>(word, desc, exp_illegal).
     let got = is_illegal (fst (dut word)) in
     (if got \<noteq> exp_illegal then [IllegalFlag word desc got exp_illegal] else [])
       @ dec_findings dut word ''directed-model'')"

definition test_directed_encodings :: "decoder \<Rightarrow> unit res" where
  "test_directed_encodings dut = conclude (concat (map (directed_case dut) CASES)) ''decoder directed mismatches''"

definition system_word :: "int \<Rightarrow> int \<Rightarrow> int \<Rightarrow> int" where
  "system_word dest src funct12 = OPC_SYSTEM OR push_bit 7 dest OR push_bit 12 0 OR push_bit 15 src OR push_bit 20 funct12"

definition FUNCT12S :: "int list" where
  "FUNCT12S = [0x000, 0x001, 0x302, 0x105]"

text \<open>Only the innermost loop is left by the \<^verbatim>\<open>break\<close>.\<close>

definition system_rows :: "decoder \<Rightarrow> int \<times> int \<Rightarrow> nat \<times> dec_failure list \<Rightarrow> nat \<times> dec_failure list" where
  "system_rows dut = (\<lambda>(funct12, dest).
     sweep (\<lambda>_ src. dec_findings dut (system_word dest (int src) funct12) ''system-reserved'') [0..<32])"

definition test_system_reserved_fields :: "decoder \<Rightarrow> unit res" where
  "test_system_reserved_fields dut = conclude (snd
     (sweep (\<lambda>_ f. dec_findings dut (system_word 0 0 (int f)) ''system-funct12'') [0..<4096]
       (fold (system_rows dut) (List.product FUNCT12S (map int [0..<32])) (0, []))))
     ''decoder system-field mismatches''"

definition sweep_word :: "int \<Rightarrow> int \<Rightarrow> int \<Rightarrow> int \<Rightarrow> int" where
  "sweep_word base opcode f3 f7 = (base AND NOT 0xFE00707F) OR opcode OR push_bit 12 f3 OR push_bit 25 f7"

definition opcode_rows :: "decoder \<Rightarrow> (nat \<Rightarrow> int) \<Rightarrow> int \<times> int \<Rightarrow> nat \<times> dec_failure list \<Rightarrow> nat \<times> dec_failure list" where
  "opcode_rows dut draw = (\<lambda>(opcode, f3).
     sweep (\<lambda>n f7. dec_findings dut (sweep_word (draw n) opcode f3 f7) ''opcode-sweep'') [0x00, 0x20, 0x01, 0x7F])"

definition test_all_opcodes_and_funct3 :: "decoder \<Rightarrow> (nat \<Rightarrow> int) \<Rightarrow> unit res" where
  "test_all_opcodes_and_funct3 dut draw = conclude (snd
     (fold (opcode_rows dut draw) (List.product (map int [0..<128]) (map int [0..<8])) (0, [])))
     ''decoder sweep mismatches''"

text \<open>A draw of the random test: a word and, in a quarter of the draws, an opcode to steer it to.\<close>

definition steered :: "int \<times> int option \<Rightarrow> int" where
  "steered = (\<lambda>(insn, opc). case opc of None \<Rightarrow> insn | Some p \<Rightarrow> (insn AND NOT 0x7F) OR p)"

text \<open>Words driven, legal ones among them, failures.\<close>

fun random_words :: "decoder \<Rightarrow> (int \<times> int option) list \<Rightarrow> nat \<Rightarrow> dec_failure list \<Rightarrow> nat \<times> dec_failure list" where
  "random_words dut [] n_legal fs = (n_legal, fs)"
| "random_words dut (d # ds) n_legal fs = (
     let insn = steered d; fs' = fs @ dec_findings dut insn ''random'';
         n_legal' = (if is_illegal (fst (dut insn)) = 0 then Suc n_legal else n_legal)
     in if 20 < length fs' then (n_legal', fs') else random_words dut ds n_legal' fs')"

definition test_random_1m :: "decoder \<Rightarrow> (int \<times> int option) list \<Rightarrow> unit res" where
  "test_random_1m dut ds = (let (n_legal, fs) = random_words dut ds 0 [] in
     rbind (py_assert (length ds div 100 < n_legal) ''steering is broken'') (\<lambda>_.
     conclude fs ''decoder random mismatches''))"

section \<open>What a passed test says\<close>

lemma conclude_Inr [simp]: "conclude fs msg = Inr u \<longleftrightarrow> fs = []"
  by (simp add: conclude_def)

lemma sweep_keeps: "fs \<noteq> [] \<Longrightarrow> snd (sweep chk vs (n, fs)) \<noteq> []"
  by (induction vs arbitrary: n fs) (simp_all add: Let_def)

lemma sweep_nil:
  "snd (sweep chk vs (n, fs)) = [] \<longleftrightarrow> fs = [] \<and> (\<forall>i<length vs. chk (n + i) (vs ! i) = [])"
proof (induction vs arbitrary: n fs)
  case (Cons v vs)
  have all: "(\<forall>i<Suc m. P i) \<longleftrightarrow> P 0 \<and> (\<forall>i<m. P (Suc i))" for P :: "nat \<Rightarrow> bool" and m
    by (rule All_less_Suc2)
  show ?case
  proof (cases "fs @ chk n v = []")
    case True
    then show ?thesis using Cons.IH [of "Suc n" "[]"] by (simp add: all)
  next
    case False
    then show ?thesis using sweep_keeps [OF False, of chk vs "Suc n"] by (auto simp: Let_def)
  qed
qed simp

lemma sweep_clean: "snd (sweep chk vs (n, [])) = [] \<Longrightarrow> sweep chk vs (n, []) = (n + length vs, [])"
proof (induction vs arbitrary: n)
  case (Cons v vs)
  then have "chk n v = []" using sweep_nil [of chk "v # vs" n "[]"] by force
  then show ?case using Cons.prems Cons.IH [of "Suc n"] by (simp add: Let_def)
qed simp

text \<open>A sequence of sweeps ends without a failure exactly when each of them does, and then the
  draws are numbered consecutively.\<close>

lemma fold_keeps:
  assumes "\<And>a n fs. fs \<noteq> [] \<Longrightarrow> snd (f a (n, fs)) \<noteq> []" and "fs \<noteq> []"
  shows "snd (fold f as (n, fs)) \<noteq> []"
  using assms(2)
proof (induction as arbitrary: n fs)
  case (Cons a as)
  then show ?case using assms(1) [OF Cons.prems, of a n] by (cases "f a (n, fs)") auto
qed simp

lemma fold_sweeps:
  assumes "snd (fold (\<lambda>a. sweep (chk a) (vs a)) as (n, [])) = []" and "a \<in> set as" and "v \<in> set (vs a)"
  shows "\<exists>m. chk a m v = []"
  using assms(1,2)
proof (induction as arbitrary: n)
  case (Cons b as)
  let ?s = "sweep (chk b) (vs b) (n, [])"
  have c: "snd ?s = []"
    using fold_keeps [of "\<lambda>a. sweep (chk a) (vs a)", OF sweep_keeps, of "snd ?s" as "fst ?s"] Cons.prems(1) by auto
  show ?case
  proof (cases "a = b")
    case True
    then show ?thesis using c assms(3) by (auto simp: sweep_nil in_set_conv_nth)
  next
    case False
    then show ?thesis using Cons.IH [of "n + length (vs b)"] Cons.prems sweep_clean [OF c] by simp
  qed
qed simp

lemma fold_sweeps_ok:
  assumes "\<And>a m v. a \<in> set as \<Longrightarrow> v \<in> set (vs a) \<Longrightarrow> chk a m v = []"
  shows "snd (fold (\<lambda>a. sweep (chk a) (vs a)) as (n, [])) = []"
  using assms
proof (induction as arbitrary: n)
  case (Cons b as)
  have "snd (sweep (chk b) (vs b) (n, [])) = []" using Cons.prems by (auto simp: sweep_nil)
  then show ?case using Cons by (simp add: sweep_clean)
qed simp

section \<open>Walking bits are complete\<close>

text \<open>A design in which every output bit is some function of at most two instruction bits: a wiring
  with hardwired constants and inverters, or one where two wires are shorted or gated.\<close>

definition two_input :: "(int \<Rightarrow> int) \<Rightarrow> bool" where
  "two_input f \<longleftrightarrow> (\<forall>w. 0 \<le> f w \<and> f w < 2 ^ 32) \<and>
     (\<forall>i<32. \<exists>j1<32. \<exists>j2<32. \<exists>h. \<forall>w. bit (f w) i = h (bit w j1) (bit w j2))"

text \<open>The vectors of the test.\<close>

definition walk_vectors :: "int list" where
  "walk_vectors = concat (map (\<lambda>i. [push_bit i 1, 0xFFFFFFFF XOR push_bit i 1]) [0..<32])"

lemma walk_one: "i < 32 \<Longrightarrow> push_bit i 1 \<in> set walk_vectors"
  and walk_zero: "i < 32 \<Longrightarrow> 0xFFFFFFFF XOR push_bit i 1 \<in> set walk_vectors"
  unfolding walk_vectors_def set_concat set_map set_upt by fastforce+

lemma bit_walk_one: "bit (push_bit i 1 :: int) j \<longleftrightarrow> j = i" "bit (2 ^ i :: int) j \<longleftrightarrow> j = i"
  by (auto simp: bit_exp_iff)

lemma bit_walk_zero: "j < 32 \<Longrightarrow> bit (0xFFFFFFFF XOR push_bit i 1 :: int) j \<longleftrightarrow> j \<noteq> i"
  by (auto simp: bit_xor_iff bit_exp_iff mask32_eq bit_mask_iff)

lemma fresh_position: "\<exists>m<32. m \<noteq> a \<and> m \<noteq> b \<and> m \<noteq> (c :: nat)"
proof -
  have "\<not> {0, 1, 2, 3} \<subseteq> {a, b, c}" by (auto; presburger)
  then obtain m :: nat where "m \<in> {0, 1, 2, 3}" "m \<notin> {a, b, c}" by blast
  then show ?thesis by (intro exI [of _ m]) auto
qed

lemma walk_matches:
  assumes "j1 < 32" "j2 < 32"
  shows "\<exists>x\<in>set walk_vectors. bit x j1 = bit w j1 \<and> bit x j2 = bit w j2"
proof -
  obtain m where m: "m < 32" "m \<noteq> j1" "m \<noteq> j2" using fresh_position by blast
  consider "bit w j1" "bit w j2" | "bit w j1" "\<not> bit w j2" | "\<not> bit w j1" "bit w j2" | "\<not> bit w j1" "\<not> bit w j2"
    by blast
  then show ?thesis
  proof cases
    case 1
    then show ?thesis using m assms walk_zero [OF m(1)] bit_walk_zero by fast
  next
    case 2
    then show ?thesis using walk_one [OF assms(1)] bit_walk_one by metis
  next
    case 3
    then show ?thesis using walk_one [OF assms(2)] bit_walk_one by metis
  next
    case 4
    then show ?thesis using m walk_one [OF m(1)] bit_walk_one by metis
  qed
qed

lemma walk_complete:
  assumes f: "two_input f" and g: "\<And>w i. bit (g w) i \<longleftrightarrow> (case src i of None \<Rightarrow> False | Some k \<Rightarrow> bit w k)"
    and src: "\<And>i k. src i = Some k \<Longrightarrow> i < 32 \<and> k < 32"
    and same: "\<And>x. x \<in> set walk_vectors \<Longrightarrow> f x = g x"
  shows "f w = g w"
proof (rule bit_eqI)
  fix i
  show "bit (f w) i = bit (g w) i"
  proof (cases "i < 32")
    case False
    then have "src i = None" using src [of i] by (cases "src i") auto
    then show ?thesis using False f bit_int_bound [of "f w" 32 i] by (auto simp: two_input_def g)
  next
    case True
    with f have "\<exists>j1<32. \<exists>j2<32. \<exists>h. \<forall>w. bit (f w) i = h (bit w j1) (bit w j2)" by (simp add: two_input_def)
    then obtain j1 j2 h where j: "j1 < 32" "j2 < 32" and h: "\<And>w. bit (f w) i = h (bit w j1) (bit w j2)"
      by (elim exE conjE) blast
    obtain x where x: "x \<in> set walk_vectors" "bit x j1 = bit w j1" "bit x j2 = bit w j2"
      using walk_matches [OF j] by blast
    have fx: "bit (f w) i = bit (g x) i" using h [of w] h [of x] same [OF x(1)] x by simp
    show ?thesis
    proof (cases "src i")
      case None
      then show ?thesis using fx by (simp add: g)
    next
      case (Some k)
      have "k = j1 \<or> k = j2"
      proof (rule ccontr)
        assume k: "\<not> (k = j1 \<or> k = j2)"
        obtain m where m: "m < 32" "m \<noteq> j1" "m \<noteq> j2" "m \<noteq> k" using fresh_position by blast
        have "k < 32" using src [OF Some] by simp
        then have "bit (f (push_bit k 1)) i = bit (f (push_bit m 1)) i \<longrightarrow> False"
          using same [OF walk_one, of k] same [OF walk_one, of m] m by (auto simp: g Some bit_walk_one)
        then show False using h [of "push_bit k 1"] h [of "push_bit m 1"] k m by (auto simp: bit_walk_one)
      qed
      then show ?thesis using fx x by (auto simp: g Some)
    qed
  qed
qed

lemma imm_check_nil [simp]: "imm_check dut tag fmt insn = [] \<longleftrightarrow> dut insn fmt = imm insn fmt"
  by (simp add: imm_check_def Let_def)

lemma walking_iff:
  "test_walking_bits dut = Inr u \<longleftrightarrow> (\<forall>fmt\<in>set FMTS. \<forall>x\<in>set walk_vectors. dut x fmt = imm x fmt)"
  by (force simp: test_walking_bits_def walk_vectors_def walk_pair_def)

lemma imm_src_range: "imm_src fmt i = Some k \<Longrightarrow> i < 32 \<and> k < 32"
  by (auto simp: imm_src_def split: if_splits)

text \<open>C35: walking ones and zeros are complete for far more than mis-routed wires: an immediate
  generator in which every output bit depends on at most two instruction bits, and that passes the 64
  vectors of each format, agrees with the reference model on every instruction word.\<close>

theorem walking_bits_complete:
  assumes "test_walking_bits dut = Inr ()" and "fmt \<in> set FMTS" and "two_input (\<lambda>w. dut w fmt)"
  shows "dut insn fmt = imm insn fmt"
proof (rule walk_complete [where g = "\<lambda>w. imm w fmt" and src = "imm_src fmt", OF assms(3) imm_bit_layout])
  show "\<And>i k. imm_src fmt i = Some k \<Longrightarrow> i < 32 \<and> k < 32" by (rule imm_src_range)
  show "\<And>x. x \<in> set walk_vectors \<Longrightarrow> dut x fmt = imm x fmt" using assms(1,2) by (simp add: walking_iff)
qed

text \<open>The reference itself is such a design.\<close>

lemma imm_two_input: "two_input (\<lambda>w. imm w fmt)"
proof -
  have "\<exists>j1<32. \<exists>j2<32. \<exists>h. \<forall>w. bit (imm w fmt) i = h (bit w j1) (bit w j2)" for i
  proof (cases "imm_src fmt i")
    case None
    then show ?thesis by (intro exI [of _ 0] conjI exI [of _ "\<lambda>_ _. False"]) (simp_all add: imm_bit_layout)
  next
    case (Some k)
    then show ?thesis using imm_src_range [OF Some]
      by (intro exI [of _ k] conjI exI [of _ "\<lambda>b _. b"]) (simp_all add: imm_bit_layout)
  qed
  then show ?thesis using imm_range by (simp add: two_input_def)
qed

text \<open>The reference at one branch word.\<close>

theorem walking_bits_complete_witness:
  "test_walking_bits (\<lambda>w f. imm w f) = Inr () \<and> IMM_B \<in> set FMTS \<and> two_input (\<lambda>w. imm w IMM_B) \<and>
   (\<lambda>w f. imm w f) 0xFE000EE3 IMM_B = imm 0xFE000EE3 IMM_B"
proof -
  have "test_walking_bits (\<lambda>w f. imm w f) = Inr ()" by (simp add: walking_iff)
  moreover have "IMM_B \<in> set FMTS" by (simp add: FMTS_def IMM_FMTS_def imm_fmt_defs)
  ultimately show ?thesis using walking_bits_complete [where dut = "\<lambda>w f. imm w f" and fmt = IMM_B and insn = "0xFE000EE3"] imm_two_input by simp
qed

section \<open>The exhaustive sweep\<close>

lemma bit_field_mask: "bit (field_mask bs) i \<longleftrightarrow> i \<in> set bs"
  by (induction bs) (auto simp: bit_or_iff bit_walk_one)

lemma bit_scatter:
  "bit (scatter v k bs w) i \<longleftrightarrow> bit w i \<or> (\<exists>j<length bs. bs ! j = i \<and> bit v (k + j))"
proof (induction bs arbitrary: k w)
  case (Cons b bs)
  have odd: "drop_bit k v AND 1 \<noteq> 0 \<longleftrightarrow> bit v k"
    by (metis and_one_eq bit_iff_odd_drop_bit even_iff_mod_2_eq_zero)
  have ex: "(\<exists>j<Suc n. P j) \<longleftrightarrow> P 0 \<or> (\<exists>j<n. P (Suc j))" for P :: "nat \<Rightarrow> bool" and n
    by (rule Ex_less_Suc2)
  have "bit (scatter v k (b # bs) w) i \<longleftrightarrow>
      bit (if bit v k then w OR push_bit b 1 else w) i \<or> (\<exists>j<length bs. bs ! j = i \<and> bit v (Suc k + j))"
    by (simp only: scatter.simps odd Cons.IH)
  then show ?case unfolding length_Cons ex by (auto simp: bit_or_iff bit_walk_one)
qed simp

text \<open>Every pattern of the field occurs among the vectors.\<close>

lemma exhaustive_hits:
  "\<exists>v<2 ^ length bs. \<forall>d. exhaustive_vector bs d (int v) AND field_mask bs = w AND field_mask bs"
proof -
  let ?v = "horner_sum of_bool 2 (map (bit w) bs) :: int"
  have v: "bit ?v j \<longleftrightarrow> j < length bs \<and> bit w (bs ! j)" for j
    by (auto simp: bit_horner_sum_bit_iff)
  have n: "0 \<le> ?v" "?v < 2 ^ length bs"
    using horner_sum_of_bool_2_less [of "map (bit w) bs"] by (simp_all add: horner_sum_nonnegative)
  have "exhaustive_vector bs d ?v AND field_mask bs = w AND field_mask bs" for d
    by (rule bit_eqI) (auto simp: exhaustive_vector_def bit_and_iff bit_not_iff bit_scatter bit_field_mask v in_set_conv_nth)
  moreover obtain m where m: "?v = int m" using n(1) by (rule nonneg_int_cases)
  ultimately show ?thesis using n(2) unfolding m by (intro exI [of _ m]) (simp flip: of_nat_less_iff)
qed

text \<open>Every bit of the three formats' immediates comes from the field.\<close>

lemma field_src: "fmt \<in> {IMM_I, IMM_S, IMM_B} \<Longrightarrow> imm_src fmt i = Some k \<Longrightarrow> k \<in> set (field_of fmt)"
  by (auto simp: field_of_def FIELD_BITS_def imm_fmt_defs imm_src_def split: if_splits simp del: upt_rec_numeral upt_conv_Cons)

lemma imm_field:
  assumes "fmt \<in> {IMM_I, IMM_S, IMM_B}" and "v AND field_mask (field_of fmt) = w AND field_mask (field_of fmt)"
  shows "imm v fmt = imm w fmt"
proof (rule bit_eqI)
  fix i
  have "bit v k = bit w k" if "k \<in> set (field_of fmt)" for k
    using arg_cong [OF assms(2), of "\<lambda>x. bit x k"] that by (simp add: bit_and_iff bit_field_mask)
  then show "bit (imm v fmt) i = bit (imm w fmt) i"
    using field_src [OF assms(1), of i] by (auto simp: imm_bit_layout split: option.splits)
qed

text \<open>The exhaustive test decides every design that looks at the field of the format only, which the
  random background is there to establish.\<close>

theorem exhaustive_12bit_complete:
  assumes "test_exhaustive_12bit_fields dut draw = Inr ()" and fmt: "fmt \<in> {IMM_I, IMM_S, IMM_B}"
    and field: "\<And>v w. v AND field_mask (field_of fmt) = w AND field_mask (field_of fmt) \<Longrightarrow> dut v fmt = dut w fmt"
  shows "dut insn fmt = imm insn fmt"
proof -
  let ?chk = "\<lambda>f n v. imm_check dut ''exhaustive12'' f (exhaustive_vector (field_of f) (draw n) (int v))"
  have f: "exhaustive_format dut draw = (\<lambda>f. sweep (?chk f) [0..<2 ^ length (field_of f)])"
    by (rule ext) (simp add: exhaustive_format_def Let_def)
  obtain v where v: "v < 2 ^ length (field_of fmt)"
    "\<And>d. exhaustive_vector (field_of fmt) d (int v) AND field_mask (field_of fmt) = insn AND field_mask (field_of fmt)"
    using exhaustive_hits by blast
  have "\<exists>m. ?chk fmt m v = []"
  proof (rule fold_sweeps [where chk = ?chk and a = fmt and v = v and as = "[IMM_I, IMM_S, IMM_B]" and vs = "\<lambda>f. [0..<2 ^ length (field_of f)]" and n = 0])
    show "snd (fold (\<lambda>f. sweep (?chk f) [0..<2 ^ length (field_of f)]) [IMM_I, IMM_S, IMM_B] (0, [])) = []"
      using assms(1) unfolding test_exhaustive_12bit_fields_def f by simp
  qed (use fmt v(1) in auto)
  then obtain m where "dut (exhaustive_vector (field_of fmt) (draw m) (int v)) fmt
      = imm (exhaustive_vector (field_of fmt) (draw m) (int v)) fmt" by auto
  then show ?thesis using field [OF v(2)] imm_field [OF fmt v(2)] by simp
qed

section \<open>The decoder's tests\<close>

lemma dec_check_Inr: "dec_check dut insn tag = Inr (dec_findings dut insn tag)"
  by (simp add: dec_findings_def dec_check_def decode_Inr split: prod.splits list.splits)

lemma dec_findings_nil: "dec_findings dut insn tag = [] \<longleftrightarrow> dut insn = decoded insn"
proof -
  obtain c r where d: "dut insn = (c, r)" by fastforce
  obtain c' r' where e: "decoded insn = (c', r')" by fastforce
  have all: "filter (\<lambda>(n, f). f x \<noteq> f y) fs = [] \<longleftrightarrow> list_all (\<lambda>(n, f). f x = f y) fs"
    for x y :: 'a and fs :: "(string \<times> ('a \<Rightarrow> int)) list"
    by (auto simp: filter_empty_conv list_all_iff)
  have "list_all (\<lambda>(n, f). f r = f r') REGS \<longleftrightarrow> r = r'"
    by (cases r; cases r') (simp add: REGS_def)
  moreover have "list_all (\<lambda>(n, f). f c = f c') CTRL_FIELDS \<longleftrightarrow> c = c'"
    by (cases c; cases c') (simp add: CTRL_FIELDS_def)
  ultimately show ?thesis
    using all [of r r' REGS] all [of c c' CTRL_FIELDS]
    by (auto simp: dec_findings_def dec_check_def decode_Inr d e split: list.splits)
qed

lemma system_rows_eq: "system_rows dut = (\<lambda>a. sweep (\<lambda>_ s. dec_findings dut (system_word (snd a) (int s) (fst a))
    ''system-reserved'') [0..<32])"
  by (rule ext) (simp add: system_rows_def split: prod.split)

lemma opcode_rows_eq: "opcode_rows dut draw = (\<lambda>a. sweep (\<lambda>n f7. dec_findings dut (sweep_word (draw n) (fst a) (snd a) f7)
    ''opcode-sweep'') [0x00, 0x20, 0x01, 0x7F])"
  by (rule ext) (simp add: opcode_rows_def split: prod.split)

text \<open>The reference decoder itself passes: the absolute expectations of the directed test are those of
  the model.\<close>

lemma cases_are_the_model: "list_all (\<lambda>(w, d, e). is_illegal (fst (decoded w)) = e) CASES"
  by code_simp

lemma decoder_tests_accept_reference:
  "test_directed_encodings decoded = Inr ()" "test_system_reserved_fields decoded = Inr ()"
  "test_all_opcodes_and_funct3 decoded draw = Inr ()"
proof -
  show "test_directed_encodings decoded = Inr ()"
    using cases_are_the_model
    by (auto simp: test_directed_encodings_def directed_case_def Let_def dec_findings_nil list_all_iff)
  have ok: "snd (sweep (\<lambda>_ f. dec_findings decoded (system_word 0 0 (int f)) ''system-funct12'') [0..<4096] (n, [])) = []" for n
    by (simp add: sweep_nil dec_findings_nil)
  have all: "snd (fold (\<lambda>a. sweep (\<lambda>n v. dec_findings decoded (g a n v) tag) (vs a)) as (n, [])) = []"
    for g tag n and as :: "'a list" and vs :: "'a \<Rightarrow> 'v list"
    by (rule fold_sweeps_ok) (simp add: dec_findings_nil)
  show "test_all_opcodes_and_funct3 decoded draw = Inr ()"
    using all [of "\<lambda>a n f7. sweep_word (draw n) (fst a) (snd a) f7" _ "\<lambda>_. [0x00, 0x20, 0x01, 0x7F]"]
    by (simp add: test_all_opcodes_and_funct3_def opcode_rows_eq)
  have "snd (fold (system_rows decoded) ps (0, [])) = []" for ps
    using all [of "\<lambda>a n s. system_word (snd a) (int s) (fst a)" _ "\<lambda>_. [0..<32]"]
    by (simp add: system_rows_eq)
  then obtain n where "fold (system_rows decoded) (List.product FUNCT12S (map int [0..<32])) (0, []) = (n, [])"
    by (metis prod.collapse)
  then show "test_system_reserved_fields decoded = Inr ()"
    using ok by (simp add: test_system_reserved_fields_def del: upt_rec_numeral)
qed

text \<open>What the system sweep drives.\<close>

lemma system_sweep_covers:
  assumes "test_system_reserved_fields dut = Inr ()"
  shows "f \<in> set FUNCT12S \<Longrightarrow> d < 32 \<Longrightarrow> s < 32 \<Longrightarrow>
      dut (system_word (int d) (int s) f) = decoded (system_word (int d) (int s) f)"
    and "g < 4096 \<Longrightarrow> dut (system_word 0 0 (int g)) = decoded (system_word 0 0 (int g))"
proof -
  let ?rows = "fold (system_rows dut) (List.product FUNCT12S (map int [0..<32])) (0, [])"
  obtain n fs where r: "?rows = (n, fs)" by fastforce
  have c: "snd (sweep (\<lambda>_ f. dec_findings dut (system_word 0 0 (int f)) ''system-funct12'') [0..<4096] (n, fs)) = []"
    using assms by (simp add: test_system_reserved_fields_def r del: upt_rec_numeral)
  then have fs: "fs = []" and g: "\<forall>i<4096. dut (system_word 0 0 (int i)) = decoded (system_word 0 0 (int i))"
    by (simp_all add: sweep_nil dec_findings_nil del: upt_rec_numeral)
  then show "g < 4096 \<Longrightarrow> dut (system_word 0 0 (int g)) = decoded (system_word 0 0 (int g))" by blast
  assume "f \<in> set FUNCT12S" "d < 32" "s < 32"
  then have m: "(f, int d) \<in> set (List.product FUNCT12S (map int [0..<32]))" "s \<in> set [0..<32]"
    by (simp_all del: upt_rec_numeral)
  have "snd (fold (\<lambda>a. sweep (\<lambda>_ s. dec_findings dut (system_word (snd a) (int s) (fst a)) ''system-reserved'') [0..<32])
      (List.product FUNCT12S (map int [0..<32])) (0, [])) = []"
    using r fs by (simp add: system_rows_eq del: upt_rec_numeral)
  from fold_sweeps [OF this m] show "dut (system_word (int d) (int s) f) = decoded (system_word (int d) (int s) f)"
    by (simp add: dec_findings_nil)
qed

lemma system_word_fields:
  assumes "0 \<le> d" "d < 32" "0 \<le> s" "s < 32" "0 \<le> f" "f < 4096"
  shows "bits (system_word d s f) 6 0 = 0x73" "bits (system_word d s f) 14 12 = 0" "bits (system_word d s f) 11 7 = d"
    "bits (system_word d s f) 19 15 = s" "bits (system_word d s f) 31 20 = f"
proof -
  have small: "bit (0x73 :: int) i \<Longrightarrow> i < 7" "bit d i \<Longrightarrow> i < 5" "bit s i \<Longrightarrow> i < 5" "bit f i \<Longrightarrow> i < 12" for i
    using assms bit_int_bound [of "0x73" 7 i] bit_int_bound [of d 5 i] bit_int_bound [of s 5 i] bit_int_bound [of f 12 i]
    by simp_all
  note w = system_word_def OPC_SYSTEM_def bit_or_iff bit_push_bit_iff bit_bits
  show "bits (system_word d s f) 6 0 = 0x73" "bits (system_word d s f) 14 12 = 0" "bits (system_word d s f) 11 7 = d"
    "bits (system_word d s f) 19 15 = s" "bits (system_word d s f) 31 20 = f"
    by (rule bit_eqI, fastforce simp: w dest: small)+
qed

lemma system_legal:
  assumes "bits w 6 0 = 0x73" and "bits w 14 12 = 0"
  shows "is_illegal (fst (decoded w)) = 0 \<longleftrightarrow> bits w 31 20 \<in> set FUNCT12S \<and> bits w 11 7 = 0 \<and> bits w 19 15 = 0"
  using assms by (simp add: decoded_eq decode_ctrl_major group_defs bundle_defs FUNCT12S_def)

text \<open>A decoder that decides the legality of the SYSTEM words with \<^verbatim>\<open>funct3 = 0\<close> field by field.\<close>

definition fieldwise :: "decoder \<Rightarrow> (int \<Rightarrow> bool) \<Rightarrow> (int \<Rightarrow> bool) \<Rightarrow> (int \<Rightarrow> bool) \<Rightarrow> bool" where
  "fieldwise dut A B C \<longleftrightarrow> (\<forall>w. bits w 6 0 = 0x73 \<and> bits w 14 12 = 0 \<longrightarrow>
     (is_illegal (fst (dut w)) = 0 \<longleftrightarrow> A (bits w 31 20) \<and> B (bits w 11 7) \<and> C (bits w 19 15)))"

text \<open>C36: the directed sweep of the reserved SYSTEM fields, 8192 vectors, decides a million words: a
  decoder that tests the fields of these words separately, in whatever way, and passes the sweep has
  the legality of the ISA table on every SYSTEM word with \<^verbatim>\<open>funct3 = 0\<close>, the reserved register
  fields included that random words almost never hit.\<close>

theorem system_sweep_complete:
  assumes "test_system_reserved_fields dut = Inr ()" and "fieldwise dut A B C"
    and "bits w 6 0 = 0x73" "bits w 14 12 = 0"
  shows "is_illegal (fst (dut w)) = 0 \<longleftrightarrow> (\<exists>n p c. (n, p, c) \<in> set isa \<and> pat_matches p w)"
proof -
  let ?v = "\<lambda>d s f. is_illegal (fst (dut (system_word d s f))) = 0"
  define f d s where fds: "f = bits w 31 20" "d = bits w 11 7" "s = bits w 19 15"
  have r: "0 \<le> f" "f < 4096" "0 \<le> d" "d < 32" "0 \<le> s" "s < 32"
    using bits_range [of w 31 20] bits_range [of w 11 7] bits_range [of w 19 15] by (simp_all add: fds)
  have v: "?v d s f \<longleftrightarrow> A f \<and> B d \<and> C s"
    if "0 \<le> f" "f < 4096" "0 \<le> d" "d < 32" "0 \<le> s" "s < 32" for d s f
    using assms(2) system_word_fields [OF that(3-6,1,2)] by (simp add: fieldwise_def)
  have row: "?v d s f \<longleftrightarrow> d = 0 \<and> s = 0" if "f \<in> set FUNCT12S" "0 \<le> d" "d < 32" "0 \<le> s" "s < 32" for d s f
  proof -
    have "f < 4096" "0 \<le> f" using that(1) by (auto simp: FUNCT12S_def)
    moreover have "dut (system_word d s f) = decoded (system_word d s f)"
      using system_sweep_covers(1) [OF assms(1) that(1), of "nat d" "nat s"] that by (simp add: nat_less_iff)
    ultimately show ?thesis
      using system_legal system_word_fields [OF that(2-5)] that(1) by simp
  qed
  have other: "\<not> ?v 0 0 f" if "f \<notin> set FUNCT12S" "0 \<le> f" "f < 4096" for f
    using system_sweep_covers(2) [OF assms(1), of "nat f"] system_word_fields [of 0 0 f] system_legal [of "system_word 0 0 f"] that
    by (simp add: nat_less_iff)
  have zero: "A 0 \<and> B 0 \<and> C 0" using row [of 0 0 0] v [of 0 0 0] by (simp add: FUNCT12S_def)
  have "is_illegal (fst (dut w)) = 0 \<longleftrightarrow> A f \<and> B d \<and> C s"
    using assms(2-4) by (simp add: fieldwise_def fds)
  also have "\<dots> \<longleftrightarrow> f \<in> set FUNCT12S \<and> d = 0 \<and> s = 0"
  proof (cases "f \<in> set FUNCT12S")
    case True
    then show ?thesis using row [of f d s] v [of f d s] r by auto
  next
    case False
    then show ?thesis using other [of f] v [of f 0 0] zero r by auto
  qed
  also have "\<dots> \<longleftrightarrow> is_illegal (fst (decoded w)) = 0"
    using system_legal [OF assms(3,4)] by (simp add: fds)
  finally show ?thesis unfolding legal_iff_row .
qed

text \<open>The reference decoder is fieldwise and passes; at \<^verbatim>\<open>mret\<close> with a nonzero source register.\<close>

theorem system_sweep_complete_witness:
  "test_system_reserved_fields decoded = Inr () \<and>
   fieldwise decoded (\<lambda>f. f \<in> set FUNCT12S) (\<lambda>d. d = 0) (\<lambda>s. s = 0) \<and>
   bits 0x30208073 6 0 = 0x73 \<and> bits 0x30208073 14 12 = 0 \<and>
   (is_illegal (fst (decoded 0x30208073)) = 0 \<longleftrightarrow> (\<exists>n p c. (n, p, c) \<in> set isa \<and> pat_matches p 0x30208073))"
proof -
  have t: "test_system_reserved_fields decoded = Inr ()" by (rule decoder_tests_accept_reference)
  have f: "fieldwise decoded (\<lambda>f. f \<in> set FUNCT12S) (\<lambda>d. d = 0) (\<lambda>s. s = 0)"
    by (auto simp: fieldwise_def system_legal)
  have b: "bits 0x30208073 6 0 = 0x73" "bits 0x30208073 14 12 = 0" by code_simp+
  show ?thesis using t f b system_sweep_complete [OF t f b] by blast
qed

section \<open>The ALU's tests\<close>

text \<open>\<^verbatim>\<open>tb/cocotb/test_alu_cocotb.py\<close>.\<close>

type_synonym alu_dut = "int \<Rightarrow> int \<Rightarrow> int \<Rightarrow> int"

definition CORNERS :: "int list" where
  "CORNERS = [0x00000000, 0x00000001, 0x00000002, 0x7FFFFFFF, 0x80000000, 0x80000001, 0xFFFFFFFF, 0xFFFFFFFE,
     0x55555555, 0xAAAAAAAA, 0x0000FFFF, 0xFFFF0000, 0x0000001F, 0x00000020, 0x00000021, 0x0000003F]"

definition OPS :: "int list" where
  "OPS = sort (map snd ALU_OPS)"

definition alu_check :: "alu_dut \<Rightarrow> int \<Rightarrow> int \<Rightarrow> int \<Rightarrow> (int \<times> int \<times> int \<times> int \<times> int) list" where
  "alu_check dut op a b = (let got = dut op a b; expected = alu op a b in
     if got \<noteq> expected then [(op, a, b, got, expected)] else [])"

definition test_alu_corners :: "alu_dut \<Rightarrow> unit res" where
  "test_alu_corners dut = conclude (snd
     (fold (\<lambda>x. sweep (\<lambda>_ b. alu_check dut (fst x) (snd x) b) CORNERS) (List.product OPS CORNERS) (0, [])))
     ''ALU corner mismatches''"

definition SHIFT_PATTERNS :: "int list" where
  "SHIFT_PATTERNS = [0x80000000, 0xFFFFFFFF, 0x7FFFFFFF, 0x12345678, 0xDEADBEEF]"

definition SHIFT_HIGHS :: "int list" where
  "SHIFT_HIGHS = [0x00000000, 0x00000020, 0xFFFFFFE0, 0x12345600]"

definition test_alu_shift_amounts :: "alu_dut \<Rightarrow> unit res" where
  "test_alu_shift_amounts dut = conclude
     (concat (map (\<lambda>((op, a), sh, hi). alu_check dut op a ((hi OR int sh) AND 0xFFFFFFFF))
       (List.product (List.product [ALU_SLL, ALU_SRL, ALU_SRA] SHIFT_PATTERNS) (List.product [0..<32] SHIFT_HIGHS))))
     ''ALU shift mismatches''"

text \<open>The draws of the random test: operation and operands, already biased towards the corners.\<close>

definition test_alu_random :: "alu_dut \<Rightarrow> (int \<times> int \<times> int) list \<Rightarrow> unit res" where
  "test_alu_random dut draws =
     conclude (snd (sweep (\<lambda>_ (op, a, b). alu_check dut op a b) draws (0, []))) ''ALU random mismatches''"

lemma alu_check_nil [simp]: "alu_check dut op a b = [] \<longleftrightarrow> dut op a b = alu op a b"
  by (simp add: alu_check_def Let_def)

lemma corners_cover:
  assumes "test_alu_corners dut = Inr ()" and "op \<in> set OPS" and "a \<in> set CORNERS" and "b \<in> set CORNERS"
  shows "dut op a b = alu op a b"
proof -
  have "snd (fold (\<lambda>x. sweep (\<lambda>_ b. alu_check dut (fst x) (snd x) b) CORNERS) (List.product OPS CORNERS) (0, [])) = []"
    using assms(1) by (simp add: test_alu_corners_def)
  from fold_sweeps [OF this, of "(op, a)" b] show ?thesis using assms(2-4) by simp
qed

lemma shift_amounts_cover:
  assumes "test_alu_shift_amounts dut = Inr ()" and "op \<in> {ALU_SLL, ALU_SRL, ALU_SRA}" and "a \<in> set SHIFT_PATTERNS"
    and "sh < 32" and "hi \<in> set SHIFT_HIGHS"
  shows "dut op a ((hi OR int sh) AND 0xFFFFFFFF) = alu op a ((hi OR int sh) AND 0xFFFFFFFF)"
proof -
  let ?L = "List.product (List.product [ALU_SLL, ALU_SRL, ALU_SRA] SHIFT_PATTERNS) (List.product [0..<32] SHIFT_HIGHS)"
  have all: "concat (map F L) = [] \<Longrightarrow> x \<in> set L \<Longrightarrow> F x = []" for F :: "'v \<Rightarrow> 'w list" and L x
    by (induction L) auto
  have m: "((op, a), sh, hi) \<in> set ?L" using assms(2-5) by (auto simp del: upt_rec_numeral)
  from all [OF assms(1) [unfolded test_alu_shift_amounts_def conclude_Inr] m] show ?thesis by simp
qed

text \<open>The corners decide every bitwise unit: if bit \<open>i\<close> of the result is some function of bit \<open>i\<close> of
  the operands, one function per position, passing means agreement on all operands.\<close>

definition bitsliced :: "(int \<Rightarrow> int \<Rightarrow> int) \<Rightarrow> bool" where
  "bitsliced f \<longleftrightarrow> (\<exists>h. \<forall>a b i. bit (f a b) i \<longleftrightarrow> i < 32 \<and> h i (bit a i) (bit b i))"

lemma corner_ones: "bit (0xFFFFFFFF :: int) i \<longleftrightarrow> i < 32"
  by (simp add: mask32_eq bit_mask_iff)

lemma bitsliced_complete:
  assumes "bitsliced f" and "bitsliced g"
    and same: "\<And>a b. a \<in> {0, 0xFFFFFFFF} \<Longrightarrow> b \<in> {0, 0xFFFFFFFF} \<Longrightarrow> f a b = g a b"
  shows "f a b = g a b"
proof (rule bit_eqI)
  fix i
  obtain h k where h: "\<And>a b i. bit (f a b) i \<longleftrightarrow> i < 32 \<and> h i (bit a i) (bit b i)"
    and k: "\<And>a b i. bit (g a b) i \<longleftrightarrow> i < 32 \<and> k i (bit a i) (bit b i)"
    using assms(1,2) unfolding bitsliced_def by blast
  let ?c = "\<lambda>x. if x then 0xFFFFFFFF else 0 :: int"
  have "f (?c (bit a i)) (?c (bit b i)) = g (?c (bit a i)) (?c (bit b i))" by (rule same) simp_all
  then have "bit (f (?c (bit a i)) (?c (bit b i))) i = bit (g (?c (bit a i)) (?c (bit b i))) i" by simp
  then show "bit (f a b) i = bit (g a b) i" unfolding h k by (auto simp: corner_ones split: if_splits)
qed

lemma alu_bits:
  "bit (alu ALU_AND a b) i \<longleftrightarrow> i < 32 \<and> bit a i \<and> bit b i"
  "bit (alu ALU_OR a b) i \<longleftrightarrow> i < 32 \<and> (bit a i \<or> bit b i)"
  "bit (alu ALU_XOR a b) i \<longleftrightarrow> i < 32 \<and> bit a i \<noteq> bit b i"
  "bit (alu ALU_PASS_B a b) i \<longleftrightarrow> i < 32 \<and> bit b i"
  by (auto simp: alu_def alu_op_defs Let_def bit_u32 bit_and_iff bit_or_iff bit_xor_iff)

lemma alu_bitsliced:
  assumes "op \<in> {ALU_AND, ALU_OR, ALU_XOR, ALU_PASS_B}"
  shows "bitsliced (alu op)"
proof -
  have "bitsliced (alu ALU_AND)"
    unfolding bitsliced_def by (intro exI [of _ "\<lambda>_ x y. x \<and> y"]) (simp add: alu_bits)
  moreover have "bitsliced (alu ALU_OR)"
    unfolding bitsliced_def by (intro exI [of _ "\<lambda>_ x y. x \<or> y"]) (simp add: alu_bits)
  moreover have "bitsliced (alu ALU_XOR)"
    unfolding bitsliced_def by (intro exI [of _ "\<lambda>_ x y. x \<noteq> y"]) (simp add: alu_bits)
  moreover have "bitsliced (alu ALU_PASS_B)"
    unfolding bitsliced_def by (intro exI [of _ "\<lambda>_ _ y. y"]) (simp add: alu_bits)
  ultimately show ?thesis using assms by auto
qed

lemma bitwise_ops: "ALU_AND \<in> set OPS" "ALU_OR \<in> set OPS" "ALU_XOR \<in> set OPS" "ALU_PASS_B \<in> set OPS"
  by code_simp+

theorem corners_decide_bitwise:
  assumes "test_alu_corners dut = Inr ()" and op: "op \<in> {ALU_AND, ALU_OR, ALU_XOR, ALU_PASS_B}" and "bitsliced (dut op)"
  shows "dut op a b = alu op a b"
proof (rule bitsliced_complete [OF assms(3) alu_bitsliced [OF op]])
  have "op \<in> set OPS" using op bitwise_ops by blast
  then show "\<And>a b. a \<in> {0, 0xFFFFFFFF} \<Longrightarrow> b \<in> {0, 0xFFFFFFFF} \<Longrightarrow> dut op a b = alu op a b"
    by (rule corners_cover [OF assms(1)]) (auto simp: CORNERS_def)
qed

end
