(* ===== verification/Pkg_Agreement.thy ===== *)
theory Pkg_Agreement
  imports Decode Py_Regex
begin

text \<open>
  The guard of \<^verbatim>\<open>model/rv32i_ref.py\<close> against drift: \<^verbatim>\<open>check_pkg_agreement\<close> reads the enumerations and
  the two latencies from the text of \<^verbatim>\<open>rtl/core/rv32i_pkg.sv\<close> and asserts that they are the ones of
  the reference model. A \<^verbatim>\<open>dict\<close> built from a list of pairs keeps the last pair of a key, hence the
  reversed lists.
\<close>

section \<open>The text of the package\<close>

definition QUOTE :: char where "QUOTE = CHR 0x27"

definition enum_re :: "string \<Rightarrow> re" where
  "enum_re typename = seqs [lit ''typedef'', Plus is_space, lit ''enum'', Plus is_space, lit ''logic'', Many is_space,
     ch CHR ''['', Group 1 (Plus is_digit), lit '':0]'', Many is_space, ch CHR ''{'',
     Group 2 (Many (\<lambda>c. c \<noteq> CHR ''}'')), ch CHR ''}'', Many is_space, lit typename]"

definition member_re :: re where
  "member_re = seqs [Group 1 (Plus is_word), Many is_space, ch CHR ''='', Many is_space, Plus is_digit,
     ch QUOTE, ch CHR ''d'', Group 2 (Plus is_digit)]"

definition parse_enum :: "string \<Rightarrow> string \<Rightarrow> (int \<times> (string \<times> int) list) res" where
  "parse_enum txt typename = (case re_search (enum_re typename) txt of
     None \<Rightarrow> Inl (AssertionError (''could not find `typedef enum ... '' @ typename @ ''`''))
   | Some m \<Rightarrow> Inr (int (read_base 10 (group m 1)) + 1,
       rev (map (\<lambda>g. (group g 1, int (read_base 10 (group g 2)))) (re_finditer member_re (group m 2)))))"

definition localparam_re :: "string \<Rightarrow> re" where
  "localparam_re name = seqs [lit ''localparam'', Plus is_space, lit ''int'', Plus is_space, lit name,
     Many is_space, ch CHR ''='', Many is_space, Group 1 (Plus is_digit), Many is_space, ch CHR '';'']"

section \<open>The check\<close>

definition PKG_MEMBERS_CHECKED :: nat where
  "PKG_MEMBERS_CHECKED = length ALU_OPS + length IMM_FMTS + length BM_OPS + 2"

definition PKG_ENUMS :: "(string \<times> (string \<times> int) list \<times> int) list" where
  "PKG_ENUMS = [(''alu_op_e'', ALU_OPS, ALU_OP_WIDTH), (''imm_fmt_e'', IMM_FMTS, IMM_FMT_WIDTH),
     (''bm_op_e'', BM_OPS, BM_OP_WIDTH)]"

definition PKG_LATENCIES :: "(string \<times> int) list" where
  "PKG_LATENCIES = [(''MULDIV_MUL_CYCLES'', MUL_CYCLES), (''MULDIV_DIV_CYCLES'', DIV_CYCLES)]"

definition check_member :: "(string \<times> int) list \<Rightarrow> string \<times> int \<Rightarrow> nat \<Rightarrow> nat res" where
  "check_member found = (\<lambda>(name, v) checked. case map_of found name of
     None \<Rightarrow> Inl (KeyError name)
   | Some x \<Rightarrow> rbind (py_assert (x = v) (name @ '' differs'')) (\<lambda>_. Inr (Suc checked)))"

definition check_enum :: "string \<Rightarrow> string \<times> (string \<times> int) list \<times> int \<Rightarrow> nat \<Rightarrow> nat res" where
  "check_enum txt = (\<lambda>(typename, expected, exp_width) checked.
     rbind (parse_enum txt typename) (\<lambda>(width, found).
     rbind (py_assert (width = exp_width) (typename @ '' width differs'')) (\<lambda>_.
     rbind (py_assert (set (map fst found) = set (map fst expected)) (typename @ '' members differ'')) (\<lambda>_.
     res_fold (check_member found) expected checked))))"

definition check_latency :: "string \<Rightarrow> string \<times> int \<Rightarrow> nat \<Rightarrow> nat res" where
  "check_latency txt = (\<lambda>(name, expected) checked. case re_search (localparam_re name) txt of
     None \<Rightarrow> Inl (AssertionError (''could not find `localparam int '' @ name @ ''`''))
   | Some m \<Rightarrow> rbind (py_assert (int (read_base 10 (group m 1)) = expected) (name @ '' differs'')) (\<lambda>_. Inr (Suc checked)))"

definition check_pkg_agreement :: "string \<Rightarrow> nat res" where
  "check_pkg_agreement txt =
    rbind (res_fold (check_enum txt) PKG_ENUMS 0) (\<lambda>checked.
    rbind (res_fold (check_latency txt) PKG_LATENCIES checked) (\<lambda>checked.
    rbind (py_assert (checked = PKG_MEMBERS_CHECKED) ''PKG_MEMBERS_CHECKED'') (\<lambda>_. Inr checked)))"

section \<open>What agreement means\<close>

definition enum_agrees :: "string \<Rightarrow> string \<Rightarrow> (string \<times> int) list \<Rightarrow> int \<Rightarrow> bool" where
  "enum_agrees txt typename tab width \<longleftrightarrow>
     (\<exists>found. parse_enum txt typename = Inr (width, found) \<and> map_of found = map_of tab)"

definition latency_agrees :: "string \<Rightarrow> string \<Rightarrow> int \<Rightarrow> bool" where
  "latency_agrees txt name v \<longleftrightarrow>
     (\<exists>m. re_search (localparam_re name) txt = Some m \<and> int (read_base 10 (group m 1)) = v)"

lemma check_members:
  "res_fold (check_member found) tab n = Inr k \<longleftrightarrow>
     k = n + length tab \<and> (\<forall>(name, v)\<in>set tab. map_of found name = Some v)"
  by (induction tab arbitrary: n) (auto simp: check_member_def rbind_Inr_iff split: option.splits)

lemma same_map:
  assumes "distinct (map fst tab)"
  shows "set (map fst found) = set (map fst tab) \<and> (\<forall>(name, v)\<in>set tab. map_of found name = Some v)
    \<longleftrightarrow> map_of found = map_of tab"
proof
  assume l: "set (map fst found) = set (map fst tab) \<and> (\<forall>(name, v)\<in>set tab. map_of found name = Some v)"
  show "map_of found = map_of tab"
  proof (rule ext)
    fix x
    show "map_of found x = map_of tab x"
    proof (cases "map_of tab x")
      case None
      then have "map_of found x = None" using l by (simp add: map_of_eq_None_iff)
      then show ?thesis using None by simp
    next
      case (Some v)
      then show ?thesis using l map_of_SomeD [OF Some] by auto
    qed
  qed
next
  assume r: "map_of found = map_of tab"
  have "set (map fst found) = set (map fst tab)"
    using arg_cong [OF r, of dom] by (simp add: dom_map_of_conv_image_fst)
  then show "set (map fst found) = set (map fst tab) \<and> (\<forall>(name, v)\<in>set tab. map_of found name = Some v)"
    using assms r by auto
qed

lemma check_enum_iff:
  assumes "distinct (map fst tab)"
  shows "check_enum txt (typename, tab, width) n = Inr k \<longleftrightarrow> enum_agrees txt typename tab width \<and> k = n + length tab"
  using same_map [OF assms] by (auto simp: check_enum_def enum_agrees_def rbind_Inr_iff check_members)

lemma check_latency_iff: "check_latency txt (name, v) n = Inr k \<longleftrightarrow> latency_agrees txt name v \<and> k = Suc n"
  by (auto simp: check_latency_def latency_agrees_def rbind_Inr_iff split: option.splits)

lemma tables_distinct: "distinct (map fst ALU_OPS)" "distinct (map fst IMM_FMTS)" "distinct (map fst BM_OPS)"
  by (simp_all add: ALU_OPS_def IMM_FMTS_def BM_OPS_def)

lemma tables_encode:
  "distinct (map snd ALU_OPS) \<and> list_all (\<lambda>(n, v). 0 \<le> v \<and> v < 2 ^ nat ALU_OP_WIDTH) ALU_OPS"
  "distinct (map snd IMM_FMTS) \<and> list_all (\<lambda>(n, v). 0 \<le> v \<and> v < 2 ^ nat IMM_FMT_WIDTH) IMM_FMTS"
  "distinct (map snd BM_OPS) \<and> list_all (\<lambda>(n, v). 0 \<le> v \<and> v < 2 ^ nat BM_OP_WIDTH) BM_OPS"
  by code_simp+

lemma members_checked: "PKG_MEMBERS_CHECKED = 52"
  by code_simp


text \<open>On the text of the smallest enumeration of the package, and with a code that drifted.\<close>

definition src_text :: "string \<Rightarrow> string" where
  "src_text z = ''typedef enum logic [0:0] {
    SRCB_RS2 = 1'' @ [QUOTE] @ ''d0,
    SRCB_IMM = 1'' @ [QUOTE] @ ''d'' @ z @ ''
  } alu_src_b_e;''"

lemma src_text_checked:
  "check_enum (src_text ''1'') (''alu_src_b_e'', [(''SRCB_RS2'', 0), (''SRCB_IMM'', 1)], 1) 0 = Inr 2"
  "check_enum (src_text ''2'') (''alu_src_b_e'', [(''SRCB_RS2'', 0), (''SRCB_IMM'', 1)], 1) 0 = Inl (AssertionError ''SRCB_IMM differs'')"
  by code_simp+

end
