(* ===== verification/Isa_Copies.thy ===== *)
theory Isa_Copies
  imports Arch_Sig Rtl_Deps
begin

text \<open>
  \<^verbatim>\<open>tb/unit/test_isa_consistency.py\<close>: the ISA string in every place it is written. The repository is
  the tree of \<open>Rtl_Deps\<close>. A set of extension names is a list that counts as the set of its elements;
  printed lines are left out. The executable copies are read by their own expressions from the source
  text, so the theorems speak about the texts of the repository, not about imported constants.
\<close>

section \<open>Extension sets\<close>

definition ALLOWED_EXTRA :: "(string \<times> string list) list" where
  "ALLOWED_EXTRA = [(''spike_asm.ISA_BASE'', [''zicntr'']), (''test_riscv_tests.ISA'', [''zicntr'']),
     (''build_bench_image.rv32imb'', []), (''spike_asm.MARCH'', []), (''rvntt_isa.yaml'', [])]"

definition DOC_COPIES :: "string list" where
  "DOC_COPIES = [''README.md'', ''rtl/core/rvntt_decode.sv'', ''model/rv32i_ref.py'']"

definition isa_char :: "char \<Rightarrow> bool" where
  "isa_char c \<longleftrightarrow> is_lower c \<or> is_digit c \<or> c = CHR ''_''"

definition DOC_ISA_RE :: re where
  "DOC_ISA_RE = seqs [Wordb, lit ''rv32im_zba'', Many isa_char, Wordb]"

definition DOC_IGNORE :: "string list" where
  "DOC_IGNORE = [''zicsr'', ''zicntr'']"

definition EXTS_RE :: re where
  "EXTS_RE = seqs [Bos, lit ''rv'', Alt (lit ''32'') (lit ''64''), Group 1 (Many (\<lambda>c. is_lower c \<and> c \<noteq> CHR ''x'' \<and> c \<noteq> CHR ''z'')),
     Group 2 (Many any_char), Eos]"

definition ZX_RE :: re where
  "ZX_RE = Seq (Cls (\<lambda>c. c = CHR ''z'' \<or> c = CHR ''x'')) (Plus (\<lambda>c. is_lower c \<or> is_digit c))"

definition exts :: "string \<Rightarrow> string list res" where
  "exts raw = (let s = lower (strip raw) in
     case re_match EXTS_RE s of
       None \<Rightarrow> Inl (SystemExit (''ISA_FAIL: cannot parse ISA string '' @ s))
     | Some m \<Rightarrow> Inr (map (\<lambda>c. [c]) (group m 1) @ map (\<lambda>g. group g 0) (re_finditer ZX_RE (group m 2))))"

text \<open>\<open>a - b\<close> and \<open>a == b\<close> on sets.\<close>

definition minus_ext :: "string list \<Rightarrow> string list \<Rightarrow> string list" where
  "minus_ext a b = filter (\<lambda>x. x \<notin> set b) a"

definition same_exts :: "string list \<Rightarrow> string list \<Rightarrow> bool" where
  "same_exts a b \<longleftrightarrow> set a = set b"

section \<open>Reading the copies\<close>

definition read_text :: "tree \<Rightarrow> string \<Rightarrow> string res" where
  "read_text t path = (case map_of t path of None \<Rightarrow> Inl (Fail ''FileNotFoundError'') | Some s \<Rightarrow> Inr s)"

definition grab :: "tree \<Rightarrow> string \<Rightarrow> re \<Rightarrow> string \<Rightarrow> string res" where
  "grab t path pattern what = rbind (read_text t path) (\<lambda>s. case re_search pattern s of
     None \<Rightarrow> Inl (SystemExit (''ISA_FAIL: no '' @ what @ '' found in '' @ path))
   | Some m \<Rightarrow> Inr (group m 1))"

text \<open>\<^verbatim>\<open>^NAME\s*=\s*"([^"]+)"\<close>.\<close>

definition assign_re :: "string \<Rightarrow> re" where
  "assign_re name = seqs [Bol, lit name, Many is_space, ch CHR ''='', Many is_space, ch CHR 0x22,
     Group 1 (Plus (\<lambda>c. c \<noteq> CHR 0x22)), ch CHR 0x22]"

definition YAML_ISA_RE :: re where
  "YAML_ISA_RE = seqs [Bol, Many is_space, lit ''ISA:'', Many is_space, Group 1 (Plus (\<lambda>c. \<not> is_space c))]"

definition ARCH_ALIAS_RE :: re where
  "ARCH_ALIAS_RE = seqs [ch CHR 0x22, lit ''rv32imb'', ch CHR 0x22, ch CHR '':'', Many is_space, ch CHR 0x22,
     Group 1 (Plus (\<lambda>c. c \<noteq> CHR 0x22)), ch CHR 0x22]"

definition MISA_VALUE_RE :: re where
  "MISA_VALUE_RE = seqs [lit ''MISA_VALUE'', Many is_space, ch CHR ''='', Many is_space, lit ''32'', ch CHR 0x27, ch CHR ''h'',
     Group 1 (Plus (\<lambda>c. is_hex c \<or> c = CHR ''_''))]"

definition RESET_VAL_RE :: re where
  "RESET_VAL_RE = seqs [lit ''reset-val:'', Many is_space, Group 1 (Seq (lit ''0x'') (Plus is_hex))]"

definition BITMASK_RE :: re where
  "BITMASK_RE = seqs [lit ''bitmask'', Many is_space, ch CHR ''['', Group 1 (Seq (lit ''0x'') (Plus is_hex))]"

definition MULDIV_RE :: re where
  "MULDIV_RE = seqs [lit ''parameter'', Plus is_space, lit ''int'', Plus is_space, lit ''MUL_CYCLES'', Many is_space,
     ch CHR ''='', Many is_space, lit ''rv32i_pkg::MULDIV_MUL_CYCLES'']"

definition OVERRIDE_RE :: re where
  "OVERRIDE_RE = seqs [ch CHR ''.'', Many is_space, lit ''MUL_CYCLES'', Many is_space, ch CHR ''('']"

definition isa_sources :: "tree \<Rightarrow> (string \<times> string) list res" where
  "isa_sources t =
    rbind (grab t ''tb/cosim/spike_asm.py'' (assign_re ''MARCH'') ''MARCH'') (\<lambda>march.
    rbind (grab t ''tb/cosim/spike_asm.py'' (assign_re ''ISA_BASE'') ''ISA_BASE'') (\<lambda>isa_b.
    rbind (grab t ''tb/cosim/test_riscv_tests.py'' (assign_re ''ISA'') ''ISA'') (\<lambda>rv.
    rbind (grab t ''tb/riscof/rvntt/rvntt_isa.yaml'' YAML_ISA_RE ''ISA:'') (\<lambda>yaml.
    rbind (grab t ''fpga/scripts/build_bench_image.py'' ARCH_ALIAS_RE ''ARCH_ALIASES'') (\<lambda>alias.
    Inr [(''spike_asm.MARCH'', march), (''spike_asm.ISA_BASE'', isa_b), (''test_riscv_tests.ISA'', rv),
      (''rvntt_isa.yaml'', yaml), (''build_bench_image.rv32imb'', alias @ ''_zicsr'')])))))"

section \<open>The checks\<close>

definition allowed :: "string \<Rightarrow> string list res" where
  "allowed k = (case map_of ALLOWED_EXTRA k of None \<Rightarrow> Inl (KeyError k) | Some a \<Rightarrow> Inr a)"

definition core_of :: "string \<times> string list \<Rightarrow> (string \<times> string list) res" where
  "core_of = (\<lambda>(k, v). rbind (allowed k) (\<lambda>a. Inr (k, minus_ext v a)))"

text \<open>The names of the sources that disagree with the DUT's, then those with stray extensions.\<close>

definition bad_sources :: "(string \<times> string list) list \<Rightarrow> (string \<times> string list) list \<Rightarrow> string list \<Rightarrow> string list" where
  "bad_sources sets core ref =
     map fst (filter (\<lambda>(k, v). \<not> same_exts v ref) core)
   @ map fst (filter (\<lambda>(k, v). minus_ext (minus_ext v (the (map_of core k))) (the (map_of ALLOWED_EXTRA k)) \<noteq> []) sets)"

definition doc_string_bad :: "string list \<Rightarrow> string \<Rightarrow> bool res" where
  "doc_string_bad want s = rbind (exts s) (\<lambda>e. Inr (\<not> same_exts (minus_ext e DOC_IGNORE) want))"

definition doc_bad :: "tree \<Rightarrow> string list \<Rightarrow> string \<Rightarrow> bool list res" where
  "doc_bad t want path = rbind (read_text t path) (\<lambda>s.
     let hits = map (\<lambda>g. group g 0) (re_finditer DOC_ISA_RE s) in
     if hits = [] then Inr [True] else mapr (doc_string_bad want) hits)"

definition rtl_overrides :: "tree \<Rightarrow> string list" where
  "rtl_overrides t = map fst (filter (\<lambda>(p, body). startswith p ''rtl/'' \<and> endswith p ''.sv''
     \<and> re_search OVERRIDE_RE body \<noteq> None) t)"

definition misa_check :: "string list \<Rightarrow> int \<Rightarrow> int \<Rightarrow> int \<Rightarrow> bool" where
  "misa_check ref misa_rtl misa_yaml mask_yaml \<longleftrightarrow>
     misa_rtl = misa_yaml \<and> misa_yaml AND 0x03FFFFFF = mask_yaml
   \<and> \<not> (({''zba'', ''zbb'', ''zbs''} \<subseteq> set ref) \<and> misa_rtl AND 0x2 \<noteq> 0)"

definition isa_main :: "tree \<Rightarrow> int res" where
  "isa_main t =
    rbind (isa_sources t) (\<lambda>found.
    rbind (mapr (\<lambda>(k, v). rbind (exts v) (\<lambda>e. Inr (k, e))) found) (\<lambda>sets.
    rbind (mapr core_of sets) (\<lambda>core.
    let ref = the (map_of core ''rvntt_isa.yaml'') in
    if bad_sources sets core ref \<noteq> [] then Inr 1 else
    rbind (mapr (doc_bad t (minus_ext (the (map_of sets ''spike_asm.ISA_BASE'')) DOC_IGNORE)) DOC_COPIES) (\<lambda>docs.
    if True \<in> set (concat docs) then Inr 1 else
    rbind (rbind (grab t ''rtl/core/rvntt_csr.sv'' MISA_VALUE_RE ''MISA_VALUE'') (\<lambda>s. int_base 16 (filter (\<lambda>c. c \<noteq> CHR ''_'') s))) (\<lambda>misa_rtl.
    rbind (rbind (grab t ''tb/riscof/rvntt/rvntt_isa.yaml'' RESET_VAL_RE ''misa reset-val'') (int_base 16)) (\<lambda>misa_yaml.
    rbind (rbind (grab t ''tb/riscof/rvntt/rvntt_isa.yaml'' BITMASK_RE ''misa bitmask'') (int_base 16)) (\<lambda>mask_yaml.
    if \<not> misa_check ref misa_rtl misa_yaml mask_yaml then Inr 1 else
    rbind (read_text t ''rtl/core/rvntt_muldiv.sv'') (\<lambda>muldiv.
    if re_search MULDIV_RE muldiv = None then Inr 1
    else if rtl_overrides t \<noteq> [] then Inr 1 else Inr 0))))))))"

section \<open>What a passed check says\<close>

text \<open>\<open>e\<close> names the extensions \<open>d\<close> and nothing else but what \<open>a\<close> allows.\<close>

definition ext_covers :: "string list \<Rightarrow> string list \<Rightarrow> string list \<Rightarrow> bool" where
  "ext_covers a d e \<longleftrightarrow> set d \<subseteq> set e \<and> set e \<subseteq> set d \<union> set a"

lemma same_core_covers: "same_exts (minus_ext e a) d \<Longrightarrow> ext_covers a d e"
  by (auto simp: same_exts_def minus_ext_def ext_covers_def)

lemma minus_nil [simp]: "minus_ext v [] = v"
  by (simp add: minus_ext_def)

text \<open>The second loop of the script can never find anything: a core is what the allowance leaves.\<close>

lemma stray_never:
  assumes "mapr core_of sets = Inr core" and "distinct (map fst sets)" and "(k, v) \<in> set sets"
  shows "minus_ext (minus_ext v (the (map_of core k))) (the (map_of ALLOWED_EXTRA k)) = []"
proof -
  have each: "\<exists>a. map_of ALLOWED_EXTRA k = Some a \<and> map_of core k = Some (minus_ext v a)"
    using assms
  proof (induction sets arbitrary: core)
    case (Cons x xs)
    obtain k1 v1 where x: "x = (k1, v1)" by fastforce
    obtain a ys where a: "map_of ALLOWED_EXTRA k1 = Some a" "mapr core_of xs = Inr ys" "core = (k1, minus_ext v1 a) # ys"
      using Cons.prems(1) by (auto simp: x core_of_def allowed_def rbind_Inr_iff split: option.splits)
    then show ?case using Cons.IH [OF a(2)] Cons.prems(2,3) by (auto simp: x image_iff)
  qed simp
  then show ?thesis by (auto simp: minus_ext_def)
qed

definition source_covers :: "string list \<Rightarrow> string \<times> string \<Rightarrow> bool" where
  "source_covers d = (\<lambda>(k, s). \<exists>e. exts s = Inr e \<and> ext_covers (the (map_of ALLOWED_EXTRA k)) d e)"

definition doc_agrees :: "tree \<Rightarrow> string list \<Rightarrow> string \<Rightarrow> bool" where
  "doc_agrees t want path \<longleftrightarrow> (\<exists>s hits. read_text t path = Inr s \<and> hits = map (\<lambda>g. group g 0) (re_finditer DOC_ISA_RE s) \<and>
     hits \<noteq> [] \<and> list_all (\<lambda>h. \<exists>e. exts h = Inr e \<and> same_exts (minus_ext e DOC_IGNORE) want) hits)"

lemma mapr_member: "mapr f xs = Inr ys \<Longrightarrow> x \<in> set xs \<Longrightarrow> \<exists>y\<in>set ys. f x = Inr y"
  by (induction xs arbitrary: ys) (auto simp: rbind_Inr_iff)

lemma doc_bad_ok: "doc_bad t want path = Inr bs \<Longrightarrow> True \<notin> set bs \<Longrightarrow> doc_agrees t want path"
proof -
  assume b: "doc_bad t want path = Inr bs" "True \<notin> set bs"
  then obtain s where s: "read_text t path = Inr s" by (auto simp: doc_bad_def rbind_Inr_iff)
  let ?h = "map (\<lambda>g. group g 0) (re_finditer DOC_ISA_RE s)"
  have h: "?h \<noteq> []" using b s by (auto simp: doc_bad_def Let_def)
  then have m: "mapr (doc_string_bad want) ?h = Inr bs" using b s by (auto simp: doc_bad_def Let_def split: if_splits)
  have "\<exists>e. exts x = Inr e \<and> same_exts (minus_ext e DOC_IGNORE) want" if mem: "x \<in> set ?h" for x
  proof -
    obtain e where e: "exts x = Inr e" "(\<not> same_exts (minus_ext e DOC_IGNORE) want) \<in> set bs"
      using mapr_member [OF m mem] by (auto simp: doc_string_bad_def rbind_Inr_iff)
    with b(2) have "same_exts (minus_ext e DOC_IGNORE) want" by (cases "same_exts (minus_ext e DOC_IGNORE) want") simp_all
    with e(1) show ?thesis by blast
  qed
  then show ?thesis using s h unfolding doc_agrees_def list_all_iff by blast
qed

lemma docs_ok:
  assumes "mapr (doc_bad t want) ps = Inr bss" and "True \<notin> set (concat bss)" and "p \<in> set ps"
  shows "doc_agrees t want p"
  using mapr_member [OF assms(1,3)] assms(2) by (auto intro: doc_bad_ok)

text \<open>Every source against the DUT's, from the verdict of the first loop.\<close>

lemma cores_cover:
  assumes "mapr (\<lambda>(k, v). rbind (exts v) (\<lambda>e. Inr (k, e))) found = Inr sets" and "mapr core_of sets = Inr core"
    and "filter (\<lambda>(k, v). \<not> same_exts v ref) core = []" and "x \<in> set found"
  shows "source_covers ref x"
proof -
  obtain k s where x: "x = (k, s)" by fastforce
  obtain e where e: "(k, e) \<in> set sets" "exts s = Inr e"
    using mapr_member [OF assms(1,4)] by (auto simp: x rbind_Inr_iff)
  obtain a where a: "map_of ALLOWED_EXTRA k = Some a" "(k, minus_ext e a) \<in> set core"
    using mapr_member [OF assms(2) e(1)] by (auto simp: core_of_def allowed_def rbind_Inr_iff split: option.splits)
  have "same_exts (minus_ext e a) ref" using assms(3) a(2) by (auto simp: filter_empty_conv)
  then show ?thesis using e(2) a(1) same_core_covers by (simp add: x source_covers_def)
qed


section \<open>A small repository\<close>

definition quoted :: "string \<Rightarrow> string" where
  "quoted s = [CHR 0x22] @ s @ [CHR 0x22]"

definition demo_isa_repo :: "string \<Rightarrow> tree" where
  "demo_isa_repo base = [
    (''tb/cosim/spike_asm.py'', ''MARCH = '' @ quoted ''rv32im_zba_zicsr'' @ [CHR 0x0A] @ ''ISA_BASE = '' @ quoted base),
    (''tb/cosim/test_riscv_tests.py'', ''ISA = '' @ quoted ''rv32im_zba_zicsr_zicntr''),
    (''tb/riscof/rvntt/rvntt_isa.yaml'', '' ISA: RV32IMZicsr_Zba reset-val: 0x40001100 bitmask [0x1100]''),
    (''fpga/scripts/build_bench_image.py'', quoted ''rv32imb'' @ '': '' @ quoted ''rv32im_zba''),
    (''README.md'', ''rv32im_zba''), (''rtl/core/rvntt_decode.sv'', ''rv32im_zba''), (''model/rv32i_ref.py'', ''rv32im_zba_zicsr''),
    (''rtl/core/rvntt_csr.sv'', ''MISA_VALUE = 32'' @ [CHR 0x27] @ ''h4000_1100;''),
    (''rtl/core/rvntt_muldiv.sv'', ''parameter int MUL_CYCLES = rv32i_pkg::MULDIV_MUL_CYCLES'')]"

lemma demo_exts:
  "exts ''rv32im_zba_zicsr'' = Inr [''i'', ''m'', ''zba'', ''zicsr'']"
  "exts ''rv32im_zba_zicsr_zicntr'' = Inr [''i'', ''m'', ''zba'', ''zicsr'', ''zicntr'']"
  "exts ''RV32IMZicsr_Zba'' = Inr [''i'', ''m'', ''zicsr'', ''zba'']"
  "exts ''rv32im_zba'' = Inr [''i'', ''m'', ''zba'']"
  by code_simp+

lemma demo_grabs:
  "grab (demo_isa_repo ''rv32im_zba_zicsr_zicntr'') ''tb/cosim/spike_asm.py'' (assign_re ''MARCH'') ''MARCH'' = Inr ''rv32im_zba_zicsr''"
  "grab (demo_isa_repo ''rv32im_zba_zicsr_zicntr'') ''tb/cosim/spike_asm.py'' (assign_re ''ISA_BASE'') ''ISA_BASE'' = Inr ''rv32im_zba_zicsr_zicntr''"
  "grab (demo_isa_repo ''rv32im_zba_zicsr_zicntr'') ''tb/cosim/test_riscv_tests.py'' (assign_re ''ISA'') ''ISA'' = Inr ''rv32im_zba_zicsr_zicntr''"
  "grab (demo_isa_repo ''rv32im_zba_zicsr_zicntr'') ''tb/riscof/rvntt/rvntt_isa.yaml'' YAML_ISA_RE ''ISA:'' = Inr ''RV32IMZicsr_Zba''"
  "grab (demo_isa_repo ''rv32im_zba_zicsr_zicntr'') ''fpga/scripts/build_bench_image.py'' ARCH_ALIAS_RE ''ARCH_ALIASES'' = Inr ''rv32im_zba''"
  "grab (demo_isa_repo ''rv32im_zba_zicsr_zicntr'') ''rtl/core/rvntt_csr.sv'' MISA_VALUE_RE ''MISA_VALUE'' = Inr ''4000_1100''"
  "grab (demo_isa_repo ''rv32im_zba_zicsr_zicntr'') ''tb/riscof/rvntt/rvntt_isa.yaml'' RESET_VAL_RE ''misa reset-val'' = Inr ''0x40001100''"
  "grab (demo_isa_repo ''rv32im_zba_zicsr_zicntr'') ''tb/riscof/rvntt/rvntt_isa.yaml'' BITMASK_RE ''misa bitmask'' = Inr ''0x1100''"
  by code_simp+

lemma demo_docs:
  "map (\<lambda>g. group g 0) (re_finditer DOC_ISA_RE ''rv32im_zba'') = [''rv32im_zba'']"
  "map (\<lambda>g. group g 0) (re_finditer DOC_ISA_RE ''rv32im_zba_zicsr'') = [''rv32im_zba_zicsr'']"
  by code_simp+

lemma demo_numbers: "int_base 16 ''40001100'' = Inr 0x40001100" "int_base 16 ''0x40001100'' = Inr 0x40001100"
  "int_base 16 ''0x1100'' = Inr 0x1100"
  by (simp_all add: int_base_def nat_base_def read_base_def strip_def lstrip_def rstrip_def startswith_def ungroup_def
      is_space_def is_hex_def is_digit_def is_lower_def is_upper_def of_char_def)

lemma demo_misa: "misa_check [''i'', ''m'', ''zicsr'', ''zba''] 0x40001100 0x40001100 0x1100"
  by (simp add: misa_check_def)

lemma demo_rtl_text: "re_search MULDIV_RE ''parameter int MUL_CYCLES = rv32i_pkg::MULDIV_MUL_CYCLES'' \<noteq> None"
  "re_search OVERRIDE_RE ''rv32im_zba'' = None" "re_search OVERRIDE_RE (''MISA_VALUE = 32'' @ [CHR 0x27] @ ''h4000_1100;'') = None"
  "re_search OVERRIDE_RE ''parameter int MUL_CYCLES = rv32i_pkg::MULDIV_MUL_CYCLES'' = None"
  by code_simp+

lemma demo_overrides: "rtl_overrides (demo_isa_repo b) = []"
  using demo_rtl_text by (simp add: rtl_overrides_def demo_isa_repo_def startswith_def endswith_def)

lemma demo_sources: "isa_sources (demo_isa_repo ''rv32im_zba_zicsr_zicntr'') = Inr [(''spike_asm.MARCH'', ''rv32im_zba_zicsr''),
    (''spike_asm.ISA_BASE'', ''rv32im_zba_zicsr_zicntr''), (''test_riscv_tests.ISA'', ''rv32im_zba_zicsr_zicntr''),
    (''rvntt_isa.yaml'', ''RV32IMZicsr_Zba''), (''build_bench_image.rv32imb'', ''rv32im_zba_zicsr'')]"
  by (simp add: isa_sources_def demo_grabs)

lemma demo_cores:
  "mapr core_of [(''spike_asm.MARCH'', [''i'', ''m'', ''zba'', ''zicsr'']), (''spike_asm.ISA_BASE'', [''i'', ''m'', ''zba'', ''zicsr'', ''zicntr'']),
    (''test_riscv_tests.ISA'', [''i'', ''m'', ''zba'', ''zicsr'', ''zicntr'']), (''rvntt_isa.yaml'', [''i'', ''m'', ''zicsr'', ''zba'']),
    (''build_bench_image.rv32imb'', [''i'', ''m'', ''zba'', ''zicsr''])]
   = Inr [(''spike_asm.MARCH'', [''i'', ''m'', ''zba'', ''zicsr'']), (''spike_asm.ISA_BASE'', [''i'', ''m'', ''zba'', ''zicsr'']),
    (''test_riscv_tests.ISA'', [''i'', ''m'', ''zba'', ''zicsr'']), (''rvntt_isa.yaml'', [''i'', ''m'', ''zicsr'', ''zba'']),
    (''build_bench_image.rv32imb'', [''i'', ''m'', ''zba'', ''zicsr''])]"
  by (simp add: core_of_def allowed_def ALLOWED_EXTRA_def minus_ext_def)

lemma demo_texts:
  "read_text (demo_isa_repo b) ''README.md'' = Inr ''rv32im_zba''" "read_text (demo_isa_repo b) ''rtl/core/rvntt_decode.sv'' = Inr ''rv32im_zba''"
  "read_text (demo_isa_repo b) ''model/rv32i_ref.py'' = Inr ''rv32im_zba_zicsr''"
  "read_text (demo_isa_repo b) ''rtl/core/rvntt_muldiv.sv'' = Inr ''parameter int MUL_CYCLES = rv32i_pkg::MULDIV_MUL_CYCLES''"
  by (simp_all add: read_text_def demo_isa_repo_def)

lemma demo_same:
  "same_exts (minus_ext [''i'', ''m'', ''zba''] DOC_IGNORE) [''i'', ''m'', ''zba'']"
  "same_exts (minus_ext [''i'', ''m'', ''zba'', ''zicsr''] DOC_IGNORE) [''i'', ''m'', ''zba'']"
  by code_simp+

lemma demo_doc_verdict:
  "mapr (doc_bad (demo_isa_repo b) [''i'', ''m'', ''zba'']) DOC_COPIES = Inr [[False], [False], [False]]"
proof -
  have "re_finditer DOC_ISA_RE ''rv32im_zba'' \<noteq> []" "re_finditer DOC_ISA_RE ''rv32im_zba_zicsr'' \<noteq> []"
    using demo_docs by force+
  then have "doc_bad (demo_isa_repo b) [''i'', ''m'', ''zba''] p = Inr [False]" if "p \<in> set DOC_COPIES" for p
    using that by (auto simp: DOC_COPIES_def doc_bad_def demo_texts demo_docs doc_string_bad_def demo_exts demo_same simp del: map_is_Nil_conv map_eq_Cons_conv)
  then show ?thesis by (simp add: DOC_COPIES_def)
qed

lemma demo_sets:
  "mapr (\<lambda>(k, v). rbind (exts v) (\<lambda>e. Inr (k, e))) [(''spike_asm.MARCH'', ''rv32im_zba_zicsr''),
    (''spike_asm.ISA_BASE'', ''rv32im_zba_zicsr_zicntr''), (''test_riscv_tests.ISA'', ''rv32im_zba_zicsr_zicntr''),
    (''rvntt_isa.yaml'', ''RV32IMZicsr_Zba''), (''build_bench_image.rv32imb'', ''rv32im_zba_zicsr'')]
   = Inr [(''spike_asm.MARCH'', [''i'', ''m'', ''zba'', ''zicsr'']), (''spike_asm.ISA_BASE'', [''i'', ''m'', ''zba'', ''zicsr'', ''zicntr'']),
    (''test_riscv_tests.ISA'', [''i'', ''m'', ''zba'', ''zicsr'', ''zicntr'']), (''rvntt_isa.yaml'', [''i'', ''m'', ''zicsr'', ''zba'']),
    (''build_bench_image.rv32imb'', [''i'', ''m'', ''zba'', ''zicsr''])]"
  by (simp add: demo_exts)

lemma demo_repo_checked: "isa_main (demo_isa_repo ''rv32im_zba_zicsr_zicntr'') = Inr 0"
proof -
  have i: "minus_ext [''i'', ''m'', ''zba'', ''zicsr'', ''zicntr''] DOC_IGNORE = [''i'', ''m'', ''zba'']"
    by (simp add: minus_ext_def DOC_IGNORE_def)
  have b: "bad_sources
     [(''spike_asm.MARCH'', [''i'', ''m'', ''zba'', ''zicsr'']), (''spike_asm.ISA_BASE'', [''i'', ''m'', ''zba'', ''zicsr'', ''zicntr'']),
      (''test_riscv_tests.ISA'', [''i'', ''m'', ''zba'', ''zicsr'', ''zicntr'']), (''rvntt_isa.yaml'', [''i'', ''m'', ''zicsr'', ''zba'']),
      (''build_bench_image.rv32imb'', [''i'', ''m'', ''zba'', ''zicsr''])]
     [(''spike_asm.MARCH'', [''i'', ''m'', ''zba'', ''zicsr'']), (''spike_asm.ISA_BASE'', [''i'', ''m'', ''zba'', ''zicsr'']),
      (''test_riscv_tests.ISA'', [''i'', ''m'', ''zba'', ''zicsr'']), (''rvntt_isa.yaml'', [''i'', ''m'', ''zicsr'', ''zba'']),
      (''build_bench_image.rv32imb'', [''i'', ''m'', ''zba'', ''zicsr''])] [''i'', ''m'', ''zicsr'', ''zba''] = []"
    by code_simp
  show ?thesis
    unfolding isa_main_def demo_sources
    by (simp add: demo_sets demo_cores b i demo_doc_verdict demo_grabs demo_numbers demo_misa demo_texts demo_rtl_text demo_overrides
        del: mapr.simps)
qed


text \<open>A supervisor extension is no name the script knows: it disappears from the set.\<close>

lemma s_extension_unseen: "exts ''rv32im_svinval'' = exts ''rv32im''"
  by code_simp

end
