(* ===== verification/Spike_Asm.thy ===== *)
theory Spike_Asm
  imports Num_Text Sim_Tests
begin

text \<open>
  The rest of \<^verbatim>\<open>tb/cosim/spike_asm.py\<close> (the text of a bare-metal program and of its data table, the
  calls of the compiler and of Spike), the command line of \<^verbatim>\<open>tb/cosim/commit_diff.py\<close> and the span
  report of \<^verbatim>\<open>tb/cosim/cycle_model.py\<close>. The parsers and the differ are in \<open>Commit_Log\<close>. The compiler is
  a function of its command line and of the source file.
\<close>

section \<open>The text of a program\<close>

definition TRAP_EXIT_CODE :: nat where "TRAP_EXIT_CODE = 42"

definition text_lines :: "string list \<Rightarrow> string" where
  "text_lines ls = concat (map (\<lambda>l. l @ [CHR 0x0A]) ls)"

definition MARCH :: string where
  "MARCH = ''rv32im_zba_zbb_zbs_zbkb_zicond_zkr_zkt_zicsr''"

definition SPIKE_PROLOGUE :: string where
  "SPIKE_PROLOGUE = text_lines [
    ''        .section .text.init'',
    ''        .globl _start'',
    ''_start:'',
    ''        la      t0, trap_handler'',
    ''        csrw    mtvec, t0'']"

definition TRAP_HANDLER :: string where
  "TRAP_HANDLER = text_lines [
    '''',
    ''        .text'',
    ''        .align 2'',
    ''trap_handler:'',
    ''        li      t0, ('' @ show_nat TRAP_EXIT_CODE @ '' << 1) | 1'',
    ''        la      t1, tohost'',
    ''        sw      t0, 0(t1)'',
    ''8:      j       8b'']"

definition TRAP_HANDLER_SKIP :: string where
  "TRAP_HANDLER_SKIP = text_lines [
    '''',
    ''        .text'',
    ''        .align 2'',
    ''        .globl trap_handler'',
    ''trap_handler:'',
    ''        csrr    t0, mepc'',
    ''        addi    t0, t0, 4'',
    ''        csrw    mepc, t0'',
    ''        mret'']"

definition SPIKE_EPILOGUE :: string where
  "SPIKE_EPILOGUE = text_lines [
    '''',
    ''        li      t0, 1                   # HTIF: exit code 0'',
    ''        la      t1, tohost'',
    ''        sw      t0, 0(t1)'',
    ''9:      j       9b'',
    '''',
    ''        .section .tohost, '' @ [CHR 0x22] @ ''aw'' @ [CHR 0x22] @ '', @progbits'',
    ''        .globl tohost'',
    ''        .align 3'',
    ''tohost:   .dword 0'',
    ''        .globl fromhost'',
    ''        .align 3'',
    ''fromhost: .dword 0'']"

definition program_source :: "string \<Rightarrow> string \<Rightarrow> string \<Rightarrow> string" where
  "program_source body data trap_mode =
     SPIKE_PROLOGUE @ body @ SPIKE_EPILOGUE @ (if trap_mode = ''exit'' then TRAP_HANDLER else TRAP_HANDLER_SKIP) @ data"

definition spike_build :: "(string list \<Rightarrow> string \<Rightarrow> elf option) \<Rightarrow> string \<Rightarrow> string \<Rightarrow> string \<Rightarrow> string \<Rightarrow> string \<Rightarrow> string \<Rightarrow> elf res" where
  "spike_build gcc rdir dir body name data trap_mode = (
     let srcf = dir @ ''/'' @ name @ ''.S''; elff = dir @ ''/'' @ name @ ''.elf'';
         argv = [''riscv-none-elf-gcc'', ''-march='' @ MARCH, ''-mabi=ilp32'', ''-nostdlib'', ''-nostartfiles'',
                 ''-T'', rdir @ ''/sw/tests/link.ld'', ''-o'', elff, srcf]
     in case gcc argv (program_source body data trap_mode) of
       None \<Rightarrow> Inl (RuntimeError ''build failed'')
     | Some e \<Rightarrow> Inr e)"

text \<open>Return code, parsed trace and output of a run under Spike.\<close>

definition spike_run :: "elf \<Rightarrow> string \<Rightarrow> bool \<Rightarrow> int \<times> commit list \<times> string" where
  "spike_run e isa_s log_commits = (let (rc, out) = elf_spike e log_commits isa_s in (rc, spike_trace out, out))"

definition word_row :: "nat list \<Rightarrow> string" where
  "word_row ws = ''        .word '' @ join '', '' (map hex32 ws)"

fun word_rows :: "nat list \<Rightarrow> string list" where
  "word_rows [] = []"
| "word_rows (w # ws) = word_row (take 8 (w # ws)) # word_rows (drop 7 ws)"

definition data_words :: "string \<Rightarrow> nat list \<Rightarrow> string" where
  "data_words label words = join [CHR 0x0A]
     ([''        .section .data'' @ [CHR 0x0A] @ ''        .align 2'' @ [CHR 0x0A] @ label @ '':''] @ word_rows words @ [label @ ''_end:''])
     @ [CHR 0x0A]"

section \<open>The command line of the differ\<close>

definition commit_diff_main :: "elf \<Rightarrow> string \<Rightarrow> string \<Rightarrow> nat \<Rightarrow> int res" where
  "commit_diff_main e rtl_trace isa_s context_lines =
     rbind (spike_records (snd (elf_spike e True isa_s)) (elf_nm e)) (\<lambda>sp.
     rbind (rtl_records rtl_trace None) (\<lambda>rt.
     Inr (if diff sp rt context_lines = None then 0 else 1)))"

text \<open>On its own the differ compares logs that end in different places: Spike's is cut at the trap
  handler, the RTL's is not, because no stop address is passed. A core that commits exactly what Spike
  commits, the handler included, fails.\<close>

lemma spike_loop_cut:
  assumes "c \<in> set trace" and "fst c = h" and "BASE \<le> h"
  shows "length (spike_loop (Some h) trace) < length (spike_loop None trace)"
  using assms(1)
proof (induction trace)
  case (Cons d trace)
  have le: "length (spike_loop (Some h) t) \<le> length (spike_loop None t)" for t
    by (induction t) auto
  show ?case
  proof (cases "fst d = h")
    case True
    then show ?thesis using assms(3) by (cases d) simp
  next
    case False
    then have "c \<in> set trace" using Cons.prems assms(2) by auto
    then show ?thesis using Cons.IH False by (cases d) simp
  qed
qed simp

theorem commit_diff_cli_rejects:
  assumes "spike_trace (snd (elf_spike e True isa_s)) = trace" and "symbol (elf_nm e) ''trap_handler'' = Some h"
    and "c \<in> set trace" "fst c = h" "BASE \<le> h" and ok: "\<forall>d\<in>set (spike_loop None trace). commit_ok d"
  shows "commit_diff_main e (concat (map (\<lambda>d. render d @ [CHR 0x0A]) (spike_loop None trace))) isa_s n = Inr 1"
proof -
  have t: "trace \<noteq> []" using assms(3) by auto
  have r: "rtl_records (concat (map (\<lambda>d. render d @ [CHR 0x0A]) (spike_loop None trace))) None = Inr (spike_loop None trace)"
    using ok by (intro rtl_records_render) simp
  have "map render (spike_loop (Some h) trace) \<noteq> map render (spike_loop None trace)"
    using spike_loop_cut [OF assms(3-5)] by (metis length_map less_irrefl)
  then have "diff (spike_loop (Some h) trace) (spike_loop None trace) n \<noteq> None" by (simp only: diff_None not_False_eq_True)
  then show ?thesis using t by (simp add: commit_diff_main_def spike_records_def assms(1,2) r Let_def del: not_None_eq)
qed

section \<open>A data table reads back\<close>

lemma hex_clean:
  assumes "c \<in> set (hex w n)" shows "c \<noteq> CHR ''#'' \<and> c \<noteq> CHR '','' \<and> c \<noteq> CHR 0x0A \<and> \<not> is_space c"
  using hex_chars [OF assms] by (auto simp: is_hex_lower_def is_space_def)

lemma hex32_clean: "c \<in> set (hex32 n) \<Longrightarrow> c \<noteq> CHR ''#'' \<and> c \<noteq> CHR '','' \<and> c \<noteq> CHR 0x0A \<and> \<not> is_space c"
  using hex_clean [of c 8 n] by (auto simp: hex32_def is_space_def)

lemma int0_hex32: "int0 (hex32 n) = Inr (int n)"
proof -
  have u: "CHR ''_'' \<notin> set (hex 8 n)" and h: "list_all is_hex (hex 8 n)"
    using hex_chars [of _ 8 n] is_hex_lower_hex by (auto simp: list_all_iff)
  have g: "grouped is_hex (hex 8 n)" by (rule grouped_all [OF hex_nonempty h u])
  have "\<not> startswith (hex 8 n) ''_''" using u by (cases "hex 8 n") (auto simp: startswith_def)
  then show ?thesis using g ungroup_none [OF u]
    by (simp add: int0_def nat0_def hex32_def startswith_def prefixed_def Let_def)
qed

lemma split_row:
  "hs \<noteq> [] \<Longrightarrow> (\<And>h. h \<in> set hs \<Longrightarrow> CHR '','' \<notin> set h) \<Longrightarrow>
    split_on CHR '','' (CHR '' '' # join '', '' hs) = map (Cons CHR '' '') hs"
proof (induction "'', ''" hs rule: join.induct)
  case (3 x y ys)
  have "split_on CHR '','' (CHR '' '' # join '', '' (x # y # ys))
      = (CHR '' '' # x) # split_on CHR '','' (CHR '' '' # join '', '' (y # ys))"
    using split_on_append [of "CHR '',''" "CHR '' '' # x"] 3(3) by simp
  then show ?case using 3 by simp
qed (simp_all add: split_on_single)

lemma strip_space: "(\<And>c. c \<in> set t \<Longrightarrow> \<not> is_space c) \<Longrightarrow> strip (CHR '' '' # t) = t"
  using strip_no_space [of t] by (simp add: strip_def lstrip_def is_space_def)

lemma hex_toks: "word_toks (map (Cons CHR '' '') (map hex32 ws)) = Inr (map int ws)"
proof (induction ws)
  case (Cons w ws)
  have "strip (CHR '' '' # hex32 w) = hex32 w" using hex32_clean by (blast intro: strip_space)
  moreover have "hex32 w \<noteq> []" by (simp add: hex32_def)
  ultimately show ?case using Cons by (simp add: int0_hex32)
qed simp

lemma set_join: "c \<in> set (join sep hs) \<Longrightarrow> c \<in> set sep \<or> (\<exists>h\<in>set hs. c \<in> set h)"
  by (induction sep hs rule: join.induct) auto

lemma join_last: "hs \<noteq> [] \<Longrightarrow> last hs \<noteq> [] \<Longrightarrow> last (join sep hs) = last (last hs) \<and> join sep hs \<noteq> []"
  by (induction sep hs rule: join.induct) auto

lemma row_stripped:
  assumes "ws \<noteq> []"
  shows "strip (word_row ws) = ''.word '' @ join '', '' (map hex32 ws)"
proof -
  let ?j = "join '', '' (map hex32 ws)"
  have l: "last (map hex32 ws) = hex32 (last ws)" "hex32 (last ws) \<noteq> []" using assms by (simp_all add: last_map hex32_def)
  then have j: "?j \<noteq> []" "last ?j = last (hex32 (last ws))" using join_last [of "map hex32 ws" "'', ''"] assms by simp_all
  have "\<not> is_space (last ?j)" using j l hex32_clean last_in_set by metis
  then have "rstrip (''.word '' @ ?j) = ''.word '' @ ?j"
    unfolding rstrip_def using j(1) by (cases "rev ?j") (auto simp: last_rev hd_rev [symmetric] simp flip: hd_rev)
  moreover have "lstrip (word_row ws) = ''.word '' @ ?j" by (simp add: word_row_def lstrip_def is_space_def)
  ultimately show ?thesis by (simp add: strip_def)
qed

lemma row_reads:
  assumes "ws \<noteq> []"
  shows "word_lines (word_row ws # ls) = rbind (word_lines ls) (\<lambda>r. Inr (map int ws @ r))"
proof -
  have "CHR ''#'' \<notin> set (word_row ws)"
    using set_join [of "CHR ''#''" "'', ''" "map hex32 ws"] hex32_clean by (fastforce simp: word_row_def)
  then have h: "hd (split_on CHR ''#'' (word_row ws)) = word_row ws" by (simp add: split_on_single)
  have "split_on CHR '','' (CHR '' '' # join '', '' (map hex32 ws)) = map (Cons CHR '' '') (map hex32 ws)"
    by (rule split_row) (use assms hex32_clean in auto)
  then show ?thesis using hex_toks [of ws] by (simp add: h row_stripped [OF assms] startswith_def)
qed

lemma rows_read: "word_lines (word_rows ws @ ls) = rbind (word_lines ls) (\<lambda>r. Inr (map int ws @ r))"
proof (induction ws rule: word_rows.induct)
  case (2 w ws)
  have "word_lines (word_rows (w # ws) @ ls) = rbind (rbind (word_lines ls) (\<lambda>r. Inr (map int (drop 7 ws) @ r)))
      (\<lambda>r. Inr (map int (take 8 (w # ws)) @ r))"
    using row_reads [of "take 8 (w # ws)" "word_rows (drop 7 ws) @ ls"] 2 by simp
  also have "\<dots> = rbind (word_lines ls) (\<lambda>r. Inr (map int (w # ws) @ r))"
    by (cases "word_lines ls") (simp_all flip: map_append append_assoc)
  finally show ?case .
qed (cases "word_lines ls"; simp)

lemma join_text_lines: "ls \<noteq> [] \<Longrightarrow> join [c] ls @ [c] = concat (map (\<lambda>l. l @ [c]) ls)"
  by (induction "[c]" ls rule: join.induct) auto

lemma rows_no_newline: "r \<in> set (word_rows ws) \<Longrightarrow> CHR 0x0A \<notin> set r"
proof (induction ws rule: word_rows.induct)
  case (2 w ws)
  have "CHR 0x0A \<notin> set (word_row vs)" for vs
    using set_join [of "CHR 0x0A" "'', ''" "map hex32 vs"] hex32_clean by (fastforce simp: word_row_def)
  then show ?case using 2 by auto
qed simp

lemma word_clean: "is_word c \<Longrightarrow> c \<noteq> CHR ''#'' \<and> \<not> is_space c \<and> c \<noteq> CHR ''.'' \<and> c \<noteq> CHR 0x0A"
  by (auto simp: class_defs)

lemma colon_clean: "\<not> is_space CHR '':''"
  by (simp add: is_space_def)

lemma label_skipped:
  assumes "\<And>c. c \<in> set label \<Longrightarrow> is_word c" and "\<And>c. c \<in> set suffix \<Longrightarrow> is_word c"
  shows "word_lines ((label @ suffix @ '':'') # ls) = word_lines ls"
proof -
  let ?l = "label @ suffix @ '':''"
  have w: "c \<noteq> CHR ''#'' \<and> \<not> is_space c \<and> c \<noteq> CHR ''.''" if "c \<in> set ?l" for c
    using that assms [THEN word_clean] colon_clean by auto
  have "split_on CHR ''#'' ?l = [?l]" using w by (intro split_on_single) blast
  moreover have "strip ?l = ?l" using w by (intro strip_no_space) blast
  moreover have "\<not> startswith ?l ''.word''"
  proof
    assume "startswith ?l ''.word''"
    then have t: "take (length ''.word'') ?l = ''.word''" unfolding startswith_def .
    have "CHR ''.'' \<in> set (take (length ''.word'') ?l)" unfolding t by simp
    then show False using w in_set_takeD by metis
  qed
  ultimately show ?thesis by simp
qed

text \<open>The words of an emitted table are what the harness's own reader of assembly tables
  (\<^verbatim>\<open>parse_data_words\<close> of \<^verbatim>\<open>test_core_verilator.py\<close>) finds in its lines, for any number of words.\<close>

theorem data_words_read:
  assumes label: "\<And>c. c \<in> set label \<Longrightarrow> is_word c"
  shows "word_lines (splitlines (data_words label ws)) = Inr (map int ws)"
proof -
  let ?head = "[''        .section .data'', ''        .align 2'', label @ '':'']"
  have nl: "CHR 0x0A \<notin> set label" using label [THEN word_clean] by blast
  have "data_words label ws = concat (map (\<lambda>l. l @ [CHR 0x0A]) (?head @ word_rows ws @ [label @ ''_end:'']))"
    unfolding data_words_def by (subst join_text_lines) simp_all
  moreover have "CHR 0x0A \<notin> set l" if "l \<in> set (?head @ word_rows ws @ [label @ ''_end:''])" for l
    using that nl rows_no_newline by auto
  ultimately have "splitlines (data_words label ws) = ?head @ word_rows ws @ [label @ ''_end:'']"
    using splitlines_lines [of "?head @ word_rows ws @ [label @ ''_end:'']"] by metis
  moreover have "word_lines (?head @ ls) = word_lines ls" for ls
  proof -
    have "word_lines (''        .section .data'' # ls) = word_lines ls" "word_lines (''        .align 2'' # ls) = word_lines ls" for ls
      by (simp_all add: strip_def lstrip_def rstrip_def is_space_def startswith_def)
    then show ?thesis using label_skipped [where label = label and suffix = "[]"] label by (simp del: word_lines.simps)
  qed
  moreover have "word_lines [label @ ''_end:''] = Inr []"
  proof -
    have l: "list_all is_word ''_end''" by code_simp
    have e: "is_word c" if "c \<in> set ''_end''" for c using l that by (simp only: list_all_iff)
    have "word_lines [label @ ''_end'' @ '':''] = word_lines []"
    proof (rule label_skipped)
      show "\<And>c. c \<in> set label \<Longrightarrow> is_word c" by (rule label)
      show "\<And>c. c \<in> set ''_end'' \<Longrightarrow> is_word c" by (rule e)
    qed
    then show ?thesis by (simp del: word_lines.simps(2))
  qed
  ultimately show ?thesis by (simp add: rows_read)
qed

end
