(* ===== verification/Tb_Drivers.thy ===== *)
theory Tb_Drivers
  imports Rtl_Deps Mem_Image Clock_Gen
begin

text \<open>
  The drivers that build one Verilator testbench and look for the line it prints when it passes:
  \<^verbatim>\<open>test_regfile_verilator.py\<close>, \<^verbatim>\<open>test_sync_reset_verilator.py\<close>, \<^verbatim>\<open>test_blinky_verilator.py\<close> and
  \<^verbatim>\<open>test_soc_verilator.py\<close> of \<^verbatim>\<open>tb/unit/\<close>. \<open>verilator\<close> is the exit code of a command line,
  \<open>exe\<close> the exit code and the output of the program it built. Paths of the repository are relative to its
  root; \<open>build\<close> is the build directory.
\<close>

section \<open>The verdict they share\<close>

definition tb_verdict :: "string \<Rightarrow> int \<times> string \<Rightarrow> int" where
  "tb_verdict marker r = (if fst r = 0 \<and> is_sub marker (snd r) then 0 else 1)"

definition verilated :: "(string list \<Rightarrow> int) \<Rightarrow> string list \<Rightarrow> string \<Rightarrow> int \<times> string \<Rightarrow> int" where
  "verilated verilator cmd marker exe = (if verilator cmd \<noteq> 0 then 1 else tb_verdict marker exe)"

section \<open>The register file and the reset synchroniser\<close>

definition regfile_cmd :: "string \<Rightarrow> string list" where
  "regfile_cmd build = [''verilator'', ''--cc'', ''rtl/core/rvntt_regfile.sv'', ''--exe'', ''tb/unit/tb_regfile.cpp'',
     ''--build'', ''-j'', ''4'', ''-Wall'', ''--Mdir'', build, ''--prefix'', ''Vrvntt_regfile'']"

definition regfile_main :: "(string list \<Rightarrow> int) \<Rightarrow> string \<Rightarrow> int \<times> string \<Rightarrow> int" where
  "regfile_main verilator build exe = verilated verilator (regfile_cmd build) ''REGFILE_TB_OK'' exe"

definition sync_reset_cmd :: "string \<Rightarrow> string list" where
  "sync_reset_cmd build = [''verilator'', ''--cc'', ''rtl/common/rvntt_sync_reset.sv'', ''--exe'', ''tb/unit/tb_sync_reset.cpp'',
     ''--build'', ''-j'', ''4'', ''-Wall'', ''--Mdir'', build, ''--prefix'', ''Vrvntt_sync_reset'']"

definition sync_reset_main :: "(string list \<Rightarrow> int) \<Rightarrow> string \<Rightarrow> int \<times> string \<Rightarrow> int" where
  "sync_reset_main verilator build exe = verilated verilator (sync_reset_cmd build) ''SYNC_RESET_TB_OK'' exe"

section \<open>The blinky design\<close>

definition blinky_srcs :: "string list" where
  "blinky_srcs = map (path_join ''rtl/soc'') [''rvntt_blinky_top.sv'', ''rvntt_clkgen.sv'', ''rvntt_uart_tx.sv'',
     ''rvntt_uart_report.sv'', ''rvntt_bram_selftest.sv''] @ [''rtl/common/rvntt_sync_reset.sv'']"

definition blinky_cmd :: "string \<Rightarrow> string list" where
  "blinky_cmd build = [''verilator'', ''--cc'', ''--exe'', ''--build'', ''-j'', ''4'', ''-Wall'',
     ''--top-module'', ''rvntt_blinky_top'', ''-Irtl/soc'', ''-Irtl/common'', ''-Ifpga/generated'',
     ''--Mdir'', build, ''--prefix'', ''Vrvntt_blinky_top'', ''tb/unit/tb_blinky_uart.cpp''] @ blinky_srcs"

text \<open>The contents of the block RAM are copied into the directory the simulator runs in; a missing file is an
  exception. The program is applied to the contents it finds there.\<close>

definition blinky_main :: "(string list \<Rightarrow> int) \<Rightarrow> tree \<Rightarrow> string \<Rightarrow> (string \<Rightarrow> int \<times> string) \<Rightarrow> int res" where
  "blinky_main verilator t build exe = (case map_of t ''fpga/generated/bram_init.mem'' of
     None \<Rightarrow> Inl (Fail ''FileNotFoundError'')
   | Some mem \<Rightarrow> Inr (verilated verilator (blinky_cmd build) ''BLINKY_UART_TB_OK'' (exe mem)))"

section \<open>The SoC\<close>

definition SOC_FILES :: "string list" where
  "SOC_FILES = [''rvntt_soc_sim_top.sv'', ''rvntt_soc_top.sv'', ''rvntt_clkgen.sv'',
     ''rvntt_uart_tx.sv'', ''rvntt_uart_rx.sv'', ''rvntt_mmio.sv'', ''rvntt_ram.sv'']"

text \<open>The core's files are listed in the repository and joined onto the base directory, which is the
  repository or a copy of it.\<close>

definition core_files :: "tree \<Rightarrow> string list" where
  "core_files t = (let core = filter (\<lambda>f. endswith f ''.sv'' \<and> f \<noteq> ''rvntt_rvfi.sv'') (sort (listdir t ''rtl/core''))
     in ''rv32i_pkg.sv'' # filter (\<lambda>f. f \<noteq> ''rv32i_pkg.sv'') core)"

definition soc_srcs :: "tree \<Rightarrow> string \<Rightarrow> string list" where
  "soc_srcs t base = map (path_join (base @ ''/rtl/core'')) (core_files t)
     @ map (path_join (base @ ''/rtl/soc'')) SOC_FILES @ [base @ ''/rtl/common/rvntt_sync_reset.sv'']"

definition soc_cmd :: "tree \<Rightarrow> string \<Rightarrow> string \<Rightarrow> string list \<Rightarrow> string \<Rightarrow> string list" where
  "soc_cmd t base build opts tb = [''verilator'', ''--cc'', ''--exe'', ''--build'', ''-j'', ''4'', ''-Wall''] @ opts
     @ [''--top-module'', ''rvntt_soc_sim_top'', ''-I'' @ base @ ''/rtl/soc'', ''-I'' @ base @ ''/rtl/core'',
        ''-I'' @ base @ ''/rtl/common'', ''-Ifpga/generated'', ''--Mdir'', build, ''--prefix'', ''Vrvntt_soc_sim_top'', tb]
     @ soc_srcs t base"

text \<open>The generated clock header is written for 75 MHz when it is not there: the exit code of the generator,
  1 when it raises.\<close>

definition clk_header_rc :: "tree \<Rightarrow> int" where
  "clk_header_rc t = (if exists_file t ''fpga/generated/soc_clk.svh'' then 0
     else case gen_clk_main 75 115200 of Inl e \<Rightarrow> 1 | Inr r \<Rightarrow> fst r)"

text \<open>The image is built from the sources of the repository with a short delay, and the simulator runs on it.\<close>

definition soc_sim_image :: "compiler \<Rightarrow> string \<Rightarrow> (string \<times> nat) res" where
  "soc_sim_image cc build = soc_image_main cc ''sw/soc'' (build @ ''/soc_sim.elf'') 2000 ''-O2'' [] 0x80000000 32768"

definition soc_tb_main :: "compiler \<Rightarrow> (string list \<Rightarrow> int) \<Rightarrow> (string \<Rightarrow> int \<times> string) \<Rightarrow> tree \<Rightarrow> string \<Rightarrow> string \<Rightarrow> int" where
  "soc_tb_main cc verilator exe t base build = (case soc_sim_image cc build of
     Inl e \<Rightarrow> 1
   | Inr (mem, n) \<Rightarrow>
       if clk_header_rc t \<noteq> 0 then 1
       else verilated verilator (soc_cmd t base build [] ''tb/unit/tb_soc.cpp'') ''SOC_TB_OK'' (exe mem))"

section \<open>What a pass says\<close>

lemma verilated_zero: "verilated verilator cmd marker exe = 0 \<longleftrightarrow> verilator cmd = 0 \<and> fst exe = 0 \<and> is_sub marker (snd exe)"
  by (simp add: verilated_def tb_verdict_def)

text \<open>Every module of the core is compiled, once each, after the package.\<close>

lemma listdir_distinct: "distinct (listdir t d)"
  by (simp add: listdir_def)

lemma core_files_set:
  "set (core_files t) = insert ''rv32i_pkg.sv'' {f \<in> set (listdir t ''rtl/core''). endswith f ''.sv'' \<and> f \<noteq> ''rvntt_rvfi.sv''}"
  by (auto simp: core_files_def Let_def)

lemma core_files_distinct: "distinct (core_files t)"
  by (simp add: core_files_def Let_def listdir_distinct)

lemma core_files_package_first: "hd (core_files t) = ''rv32i_pkg.sv''"
  by (simp add: core_files_def)

text \<open>A passing run built the image, has a clock header, and the testbench passed on that image.\<close>

lemma soc_tb_zero: "soc_tb_main cc verilator exe t base build = 0 \<longleftrightarrow>
    (\<exists>mem n. soc_sim_image cc build = Inr (mem, n) \<and> clk_header_rc t = 0 \<and>
       verilator (soc_cmd t base build [] ''tb/unit/tb_soc.cpp'') = 0 \<and> fst (exe mem) = 0 \<and> is_sub ''SOC_TB_OK'' (snd (exe mem)))"
  by (auto simp: soc_tb_main_def verilated_zero split: sum.splits)

end
