(* ===== verification/Bench_Sim.thy ===== *)
theory Bench_Sim
  imports Bench_Props Bench_Image Tb_Drivers
begin

text \<open>
  The benchmark without the board: \<^verbatim>\<open>tb/unit/test_bench_verilator.py\<close> builds the image, runs it on the
  simulated SoC, has the capture judged by the parser of the board's captures and then asks whether
  \<open>mcycle\<close> counts the clock; \<^verbatim>\<open>tb/unit/test_bench_host.py\<close> builds the same sources natively. Both call
  components that are modelled (\<open>Bench_Image\<close>, \<open>Tb_Drivers\<close>, \<open>Bench_Uart\<close>) as separate processes: an
  exception there is exit code 1 here.
\<close>

section \<open>Simulation\<close>

definition SIM_CORE_HZ :: int where "SIM_CORE_HZ = 4000000"

record bench_sim_args =
  v_rtl_dir :: string
  v_build :: string
  v_dhry_runs :: int
  v_iterations :: int
  v_blocks :: int
  v_max_cycles :: int
  v_arch :: string
  v_hpm :: bool
  v_tolerance_ppm :: rat

text \<open>What the simulator leaves: its exit code, its output and the capture, if it wrote one.\<close>

record bench_sim_run =
  r_rc :: int
  r_out :: string
  r_cap :: "string option"

definition sim_config :: "bench_sim_args \<Rightarrow> bench_config" where
  "sim_config a = \<lparr>dhry_runs = v_dhry_runs a, iterations = v_iterations a, gap_cycles = 2000, b_arch = v_arch a, b_hpm = v_hpm a\<rparr>"

definition sim_image :: "compiler \<Rightarrow> bench_sim_args \<Rightarrow> (string \<times> string \<times> nat) res" where
  "sim_image cc a = bench_image_main cc ''.'' [] (v_build a @ ''/bench_sim.elf'') (v_build a @ ''/bench_obj'')
     (Some SIM_CORE_HZ) (sim_config a) 0x80000000 32768"

definition sim_cmd_args :: "bench_sim_args \<Rightarrow> string list" where
  "sim_cmd_args a = [''--out'', v_build a @ ''/bench_sim.log'', ''--max'', show_int (v_max_cycles a), ''--blocks'', show_int (v_blocks a)]"

text \<open>The options the parser is called with: a short run is allowed, the first block is discarded.\<close>

definition parser_call :: "bench_sim_args \<Rightarrow> bench_args" where
  "parser_call a = \<lparr>a_dhry_runs = Some (v_dhry_runs a), a_iterations = Some (v_iterations a), a_allow_short = True,
     a_functional_only = False, a_min_blocks = v_blocks a, a_tolerance_ppm = v_tolerance_ppm a, a_warmup_blocks = 1\<rparr>"

text \<open>\<^verbatim>\<open>^cycles=(\d+) bytes=(\d+)\<close>.\<close>

definition CYCLES_RE :: re where
  "CYCLES_RE = seqs [Bol, lit ''cycles='', Group 1 (Plus is_digit), lit '' bytes='', Group 2 (Plus is_digit)]"

definition measured_cycles :: "block list \<Rightarrow> int" where
  "measured_cycles bs = sum_list (map (\<lambda>b. b_dhry_cycles b + b_cm_cycles b) bs)"

definition uart_cycles :: "int \<Rightarrow> int" where
  "uart_cycles uart_bytes = uart_bytes * 10 * (SIM_CORE_HZ div 115200)"

text \<open>The comparison of an integer with a float is exact; the product is rounded.\<close>

definition cross_check :: "int \<Rightarrow> int \<Rightarrow> int \<Rightarrow> int res" where
  "cross_check measured uart tb_cycles =
    rbind (raise_if (tb_cycles = 0) ZeroDivisionError) (\<lambda>u.
    Inr (if measured \<ge> tb_cycles then 1
         else if of_int (measured + uart) < fmul (fl (85 / 100)) (fl (of_int tb_cycles)) then 1 else 0))"

definition judge_run :: "string \<Rightarrow> block list \<Rightarrow> int res" where
  "judge_run out bs = (case re_search CYCLES_RE out of
     None \<Rightarrow> Inr 1
   | Some m \<Rightarrow> cross_check (measured_cycles bs) (uart_cycles (int (read_base 10 (group m 2)))) (int (read_base 10 (group m 1))))"

definition bench_sim_main :: "compiler \<Rightarrow> (string list \<Rightarrow> int) \<Rightarrow> (string \<Rightarrow> string list \<Rightarrow> bench_sim_run) \<Rightarrow> tree
    \<Rightarrow> bench_sim_args \<Rightarrow> int res" where
  "bench_sim_main cc verilator exe t a = (case sim_image cc a of
     Inl e \<Rightarrow> Inr 1
   | Inr (flags, mem, n) \<Rightarrow>
       if clk_header_rc t \<noteq> 0 then Inr 1
       else if verilator (soc_cmd t (v_rtl_dir a) (v_build a) [''-O3'', ''-CFLAGS'', ''-O2''] ''tb/unit/tb_bench.cpp'') \<noteq> 0 then Inr 1
       else let r = exe mem (sim_cmd_args a) in
         if r_rc r \<noteq> 0 \<or> \<not> is_sub ''BENCH_TB_OK'' (r_out r) then Inr 1
         else case r_cap r of
           None \<Rightarrow> Inr 1
         | Some cap \<Rightarrow> (case check cap (parser_call a) of
             Inl e \<Rightarrow> Inr 1
           | Inr (parsed, sp) \<Rightarrow> judge_run (r_out r) (map fst parsed)))"

section \<open>The native build\<close>

definition HOST_DHRY_W :: "string list" where
  "HOST_DHRY_W = [''-Wno-implicit-int'', ''-Wno-implicit-function-declaration'', ''-Wno-return-type'',
     ''-Wno-old-style-definition'', ''-Wno-builtin-declaration-mismatch'']"

definition c_quoted :: "string \<Rightarrow> string" where "c_quoted s = [CHR 0x22] @ s @ [CHR 0x22]"

definition host_common :: "int \<Rightarrow> int \<Rightarrow> string list" where
  "host_common runs iters = [''-O2'', ''-DBENCH_HOST=1'', ''-DCORE_HZ=1000000000u'', ''-DDHRY_RUNS='' @ show_int runs,
     ''-DITERATIONS='' @ show_int iters, ''-DBENCH_GAP_CYCLES=0u'', ''-DBENCH_BLOCKS=1'', ''-DPASS2=1'',
     ''-DBENCH_FLAGS='' @ c_quoted ''host functional run -- NOT a measurement''] @ incs ''.''"

definition host_cm :: "string list" where
  "host_cm = [''-DPERFORMANCE_RUN=1'', ''-DTOTAL_DATA_SIZE=2000'', ''-DCOMPILER_FLAGS='' @ c_quoted ''host functional run'']"

definition host_units :: "(string \<times> string list) list" where
  "host_units = [
     (bench_dir ''.'' @ ''/bench_main.c'', []),
     (bench_dir ''.'' @ ''/bench_io.c'', []),
     (bench_dir ''.'' @ ''/dhry_glue.c'', [''-std=gnu89'']),
     (dhry_dir ''.'' @ ''/dhrystone_main.c'', [''-std=gnu89'', ''-Dmain=dhry_main''] @ HOST_DHRY_W),
     (dhry_dir ''.'' @ ''/dhrystone.c'', [''-std=gnu89''] @ HOST_DHRY_W),
     (bench_dir ''.'' @ ''/coremark_port/core_portme.c'', host_cm),
     (cm_dir ''.'' @ ''/core_main.c'', host_cm @ [''-Dmain=coremark_main'']),
     (cm_dir ''.'' @ ''/core_list_join.c'', host_cm),
     (cm_dir ''.'' @ ''/core_matrix.c'', host_cm),
     (cm_dir ''.'' @ ''/core_state.c'', host_cm),
     (cm_dir ''.'' @ ''/core_util.c'', host_cm)]"

text \<open>The loop over the sources stops at the first that does not compile; then the objects are linked.\<close>

fun host_compile :: "(string list \<Rightarrow> int) \<Rightarrow> string list \<Rightarrow> string \<Rightarrow> (string \<times> string list) list \<Rightarrow> string list \<Rightarrow> string list option" where
  "host_compile cc common objdir [] objs = Some objs"
| "host_compile cc common objdir ((src, extra) # us) objs = (let obj = obj_of objdir src in
     if cc ([''cc''] @ common @ extra @ [''-c'', ''-o'', obj, src]) \<noteq> 0 then None
     else host_compile cc common objdir us (objs @ [obj]))"

definition host_build :: "(string list \<Rightarrow> int) \<Rightarrow> string \<Rightarrow> int \<Rightarrow> int \<Rightarrow> bool" where
  "host_build cc td runs iters = (case host_compile cc (host_common runs iters) td host_units [] of
     None \<Rightarrow> False
   | Some objs \<Rightarrow> cc ([''cc'', ''-o'', td @ ''/bench_host''] @ objs) = 0)"

definition host_args :: "int \<Rightarrow> int \<Rightarrow> bench_args" where
  "host_args runs iters = \<lparr>a_dhry_runs = Some runs, a_iterations = Some iters, a_allow_short = False,
     a_functional_only = True, a_min_blocks = 1, a_tolerance_ppm = 0, a_warmup_blocks = 0\<rparr>"

text \<open>The program either ends, with exit code and output, or is stopped by the time limit, an exception.\<close>

definition bench_host_main :: "(string list \<Rightarrow> int) \<Rightarrow> (int \<times> string) option \<Rightarrow> string \<Rightarrow> int \<Rightarrow> int \<Rightarrow> int res" where
  "bench_host_main cc exe td runs iters = (
    if \<not> host_build cc td runs iters then Inr 1
    else case exe of
      None \<Rightarrow> Inl (Fail ''TimeoutExpired'')
    | Some (rc, out) \<Rightarrow> Inr (if rc = 0 \<and> bench_main out (host_args runs iters) = Inr 0 then 0 else 1))"

end
