(* ===== verification/Bench_Sim_Props.thy ===== *)
theory Bench_Sim_Props
  imports Bench_Sim
begin

text \<open>
  What an accepted simulation of the benchmark establishes: the capture belongs to the image that was built,
  and \<open>mcycle\<close> accounts for the clock edges the simulator counted.
\<close>

section \<open>The float comparison\<close>

text \<open>A normal number is rounded by at most one part in two to the 53.\<close>

lemma fl_near:
  assumes "pow2 (- 1022) \<le> x"
  shows "x - x / 2 ^ 53 \<le> fl x" "fl x \<le> x + x / 2 ^ 53"
proof -
  have x: "0 < x" using assms pow2_pos [of "-1022"] by linarith
  define u where "u = pow2 (max (ilog2 \<bar>x\<bar> - 52) (- 1074))"
  have a: "pow2 (ilog2 x - 52) \<le> x / 2 ^ 52"
    using pow2_sub [of "ilog2 x" 52] ilog2_le [OF x] by (simp add: divide_right_mono)
  have b: "pow2 (- 1074) \<le> x / 2 ^ 52" using pow2_sub [of "- 1022" 52] assms by (simp add: divide_right_mono)
  have u: "0 < u" "u \<le> x / 2 ^ 52" using a b x by (auto simp: u_def max_def)
  have "(x / u - 1 / 2) * u \<le> of_int (round_even (x / u)) * u"
    using u by (intro mult_right_mono round_even_bounds) auto
  moreover have "of_int (round_even (x / u)) * u \<le> (x / u + 1 / 2) * u"
    using u by (intro mult_right_mono round_even_bounds) auto
  moreover have "fl x = of_int (round_even (x / u)) * u" using x by (simp add: fl_def u_def Let_def)
  ultimately have "x - u / 2 \<le> fl x" "fl x \<le> x + u / 2" using u by (simp_all add: algebra_simps)
  with u(2) show "x - x / 2 ^ 53 \<le> fl x" "fl x \<le> x + x / 2 ^ 53" by simp_all
qed

lemma tiny: "pow2 (- 1022) \<le> 1 / 2"
  using pow2_mono_1 [of 1 1022] by (simp add: pow2_def)

lemma threshold:
  assumes "0 < (n :: int)"
  shows "84999 / 100000 * of_int n \<le> fmul (fl (85 / 100)) (fl (of_int n))"
proof -
  let ?n = "of_int n :: rat"
  have n: "1 \<le> ?n" using assms by simp
  have a: "(85 / 100 :: rat) - 85 / 100 / 2 ^ 53 \<le> fl (85 / 100)" using tiny by (intro fl_near) simp
  have b: "?n - ?n / 2 ^ 53 \<le> fl ?n" using tiny n by (intro fl_near) simp
  have a': "849999 / 1000000 \<le> fl (85 / 100)" by (rule order_trans [OF _ a]) simp
  have b': "999999 / 1000000 * ?n \<le> fl ?n" by (rule order_trans [OF _ b]) (use n in simp)
  have p: "849999 / 1000000 * (999999 / 1000000 * ?n) \<le> fl (85 / 100) * fl ?n"
    using a' b' n by (intro mult_mono) auto
  let ?p = "fl (85 / 100) * fl ?n"
  have half: "1 / 2 \<le> ?p" by (rule order_trans [OF _ p]) (use n in simp)
  then have "?p - ?p / 2 ^ 53 \<le> fl ?p" using tiny by (intro fl_near) simp
  moreover have "999999 / 1000000 * ?p \<le> ?p - ?p / 2 ^ 53"
  proof -
    have "?p / 2 ^ 53 \<le> ?p / 1000000" using half by (intro divide_left_mono) auto
    then show ?thesis by linarith
  qed
  ultimately have "999999 / 1000000 * ?p \<le> fl ?p" by linarith
  moreover have "84999 / 100000 * ?n \<le> 999999 / 1000000 * ?p" using p n by linarith
  ultimately show ?thesis unfolding fmul_def by (rule order_trans [rotated])
qed

text \<open>The simulated cycles that the timed regions and the UART leave unexplained are at most 15 percent.\<close>

lemma cross_check_zero:
  assumes "cross_check measured uart n = Inr 0" and "0 \<le> measured"
  shows "0 < n" "measured < n" "84999 / 100000 * of_int n \<le> (of_int (measured + uart) :: rat)"
proof -
  from assms(1) show m: "measured < n" by (auto simp: cross_check_def raise_if_def not_le split: if_splits)
  with assms(2) show n: "0 < n" by simp
  from assms(1) m n have "fmul (fl (85 / 100)) (fl (of_int n)) \<le> (of_int (measured + uart) :: rat)"
    by (auto simp: cross_check_def raise_if_def not_less split: if_splits)
  with threshold [OF n] show "84999 / 100000 * of_int n \<le> (of_int (measured + uart) :: rat)" by (rule order_trans)
qed

text \<open>What this says of the counter: if the timed regions really took \<open>T\<close> cycles of the \<open>n\<close> and the UART the
  cycles computed for it, a counter that is slow by more than 15 percent plus the share of the UART is
  noticed; one that is fast by less than the share of the UART is not.\<close>

lemma counter_rate:
  assumes "cross_check measured uart n = Inr 0" "0 \<le> measured" "T + uart \<le> n"
  shows "84999 / 100000 * of_int T \<le> of_int measured + 15001 / 100000 * (of_int uart :: rat)"
proof -
  have "84999 / 100000 * of_int (T + uart) \<le> (84999 / 100000 * of_int n :: rat)" using assms(3) by simp
  also note cross_check_zero(3) [OF assms(1,2)]
  finally show ?thesis by (simp add: algebra_simps)
qed

lemma fast_counter_unnoticed: "cross_check 1500 680 2000 = Inr 0 \<and> 1000 + 680 \<le> (2000 :: int)"
proof -
  have a: "fl (85 / 100) \<le> (9 / 10 :: rat)"
    by (rule order_trans [OF fl_near(2)]) (rule order_trans [OF tiny], simp_all)
  have b: "fl (2000 :: rat) = 2000" using fl_exact [of 2000 2000 0] by (simp add: pow2_def)
  have c: "fl (85 / 100) * 2000 \<le> (1800 :: rat)" using a by simp
  have "1 / 2 \<le> fl (85 / 100) * (2000 :: rat)"
    using fl_near(1) [OF order_trans [OF tiny], of "85 / 100"] by simp
  then have "fl (fl (85 / 100) * 2000) \<le> fl (85 / 100) * 2000 + fl (85 / 100) * 2000 / (2 ^ 53 :: rat)"
    by (intro fl_near(2) order_trans [OF tiny])
  also have "\<dots> \<le> 1801" using c by simp
  finally show ?thesis by (simp add: cross_check_def raise_if_def fmul_def b)
qed

section \<open>The capture belongs to the build\<close>

lemma parse_block_build:
  "parse_block ls i args = Inr b \<Longrightarrow> (case a_dhry_runs args of None \<Rightarrow> True | Some r \<Rightarrow> b_dhry_runs b = r)
     \<and> (case a_iterations args of None \<Rightarrow> True | Some r \<Rightarrow> b_cm_iterations b = r)"
  unfolding parse_block_def Let_def rbind_Inr_iff raise_if_Inr
  apply (elim exE conjE)
  apply (drule sym [where t = "Inr b"])
  apply (simp split: option.splits)
  done

lemma parse_all_build:
  "parse_all bs i args = Inr parsed \<Longrightarrow> b \<in> set (map fst parsed) \<Longrightarrow> \<exists>ls j. parse_block ls j args = Inr b"
proof (induction bs arbitrary: i parsed)
  case (Cons ls bs)
  from Cons.prems(1) obtain b' sc rest where p: "parse_block ls i args = Inr b'" "parse_all bs (i + 1) args = Inr rest"
    "parsed = (b', sc) # rest"
    by (simp add: rbind_Inr_iff del: One_nat_def add_Suc_right) blast
  show ?case
  proof (cases "b = b'")
    case False
    then show ?thesis using Cons.IH [OF p(2)] Cons.prems(2) p(3) by simp
  qed (use p(1) in blast)
qed simp

lemma check_parsed: "check capture args = Inr (parsed, sp) \<Longrightarrow> parse_all (split_blocks capture) 0 args = Inr parsed"
  by (auto simp: check_def Let_def rbind_Inr_iff)

text \<open>A block of the capture of an accepted run.\<close>

definition sim_block_ok :: "bench_sim_args \<Rightarrow> block \<Rightarrow> bool" where
  "sim_block_ok a b \<longleftrightarrow> block_facts b \<and> \<not> b_host b \<and> 0 < b_dhry_cycles b \<and> 0 < b_cm_cycles b
     \<and> b_dhry_runs b = v_dhry_runs a \<and> b_cm_iterations b = v_iterations a"

lemma sim_blocks:
  assumes "check cap (parser_call a) = Inr (parsed, sp)" and "b \<in> set (map fst parsed)"
  shows "sim_block_ok a b"
proof -
  have nf: "\<not> a_functional_only (parser_call a)" by (simp add: parser_call_def)
  from assms(2) obtain sc where "(b, sc) \<in> set parsed" by auto
  from check_Inr(5) [OF assms(1) nf this] obtain s where f: "block_facts b" "\<not> b_host b" "scores_facts (parser_call a) b s"
    by blast
  obtain ls j where "parse_block ls j (parser_call a) = Inr b"
    using parse_all_build [OF check_parsed [OF assms(1)] assms(2)] by blast
  from parse_block_build [OF this] f show ?thesis by (simp add: sim_block_ok_def scores_facts_def parser_call_def)
qed

lemma measured_nonneg: "(\<And>b. b \<in> set bs \<Longrightarrow> sim_block_ok a b) \<Longrightarrow> 0 \<le> measured_cycles bs"
  unfolding measured_cycles_def
proof (rule sum_list_nonneg)
  fix x assume "x \<in> set (map (\<lambda>b. b_dhry_cycles b + b_cm_cycles b) bs)" and ok: "\<And>b. b \<in> set bs \<Longrightarrow> sim_block_ok a b"
  then obtain b where "b \<in> set bs" "x = b_dhry_cycles b + b_cm_cycles b" by auto
  with ok [of b] show "0 \<le> x" by (simp add: sim_block_ok_def)
qed

text \<open>What the testbench reports in its output: the cycles it simulated and the bytes it received.\<close>

definition reports :: "string \<Rightarrow> int \<Rightarrow> int \<Rightarrow> bool" where
  "reports out n ub \<longleftrightarrow> (\<exists>m. re_search CYCLES_RE out = Some m \<and> n = int (read_base 10 (group m 1))
     \<and> ub = int (read_base 10 (group m 2)))"

lemma judge_run_zero:
  assumes "judge_run out bs = Inr 0" and "0 \<le> measured_cycles bs"
  shows "\<exists>n ub. reports out n ub \<and> measured_cycles bs < n
     \<and> 84999 / 100000 * of_int n \<le> (of_int (measured_cycles bs + uart_cycles ub) :: rat)"
proof -
  from assms(1) obtain m where m: "re_search CYCLES_RE out = Some m"
    "cross_check (measured_cycles bs) (uart_cycles (int (read_base 10 (group m 2)))) (int (read_base 10 (group m 1))) = Inr 0"
    by (auto simp: judge_run_def split: option.splits)
  from cross_check_zero(2,3) [OF m(2) assms(2)] m(1) show ?thesis unfolding reports_def by blast
qed

section \<open>Two blocks are never enough\<close>

text \<open>One block is compared with nothing and three leave two; with two, the default of the board, none is left
  to compare after the warm-up block, and the run fails whatever it measured.\<close>

lemma two_blocks_rejected:
  assumes "length (split_blocks cap) = 2"
  shows "\<exists>e. check cap (parser_call a) = Inl e"
proof (rule ccontr)
  assume "\<nexists>e. check cap (parser_call a) = Inl e"
  then obtain parsed sp where c: "check cap (parser_call a) = Inr (parsed, sp)" by (metis old.sum.exhaust prod.exhaust)
  have nf: "\<not> a_functional_only (parser_call a)" by (simp add: parser_call_def)
  from check_Inr(3,4) [OF c nf] assms have "length (map fst parsed) = 2" "check_reproducible (map fst parsed) (parser_call a) = Inr sp"
    by simp_all
  then show False by (auto simp: check_reproducible_def Let_def rbind_Inr_iff parser_call_def py_from_def)
qed

lemma bench_sim_zero:
  assumes "bench_sim_main cc verilator exe t a = Inr 0"
  shows "\<exists>flags mem k r cap parsed sp. sim_image cc a = Inr (flags, mem, k) \<and> exe mem (sim_cmd_args a) = r \<and> r_rc r = 0
     \<and> r_cap r = Some cap \<and> check cap (parser_call a) = Inr (parsed, sp) \<and> judge_run (r_out r) (map fst parsed) = Inr 0"
proof (cases "sim_image cc a")
  case (Inr x)
  obtain flags mem k where x: "x = (flags, mem, k)" by (cases x) auto
  let ?r = "exe mem (sim_cmd_args a)"
  have nr: "r_rc ?r = 0" "r_cap ?r \<noteq> None" using assms by (simp_all add: bench_sim_main_def Inr x Let_def split: if_splits option.splits)
  then obtain cap where cap: "r_cap ?r = Some cap" by blast
  have "check cap (parser_call a) \<noteq> Inl e" for e
    using assms by (auto simp: bench_sim_main_def Inr x Let_def cap split: if_splits)
  then obtain parsed sp where c: "check cap (parser_call a) = Inr (parsed, sp)" by (metis old.sum.exhaust prod.exhaust)
  have "judge_run (r_out ?r) (map fst parsed) = Inr 0"
    using assms by (simp add: bench_sim_main_def Inr x Let_def cap c split: if_splits)
  then show ?thesis using Inr x nr(1) cap c by blast
qed (use assms in \<open>simp add: bench_sim_main_def\<close>)

section \<open>The properties\<close>


text \<open>A run of one block: the small capture of \<open>Bench_Props\<close>, on any image that fits.\<close>

definition demo_sim_args :: bench_sim_args where
  "demo_sim_args = \<lparr>v_rtl_dir = ''.'', v_build = ''b'', v_dhry_runs = 5, v_iterations = 0, v_blocks = 1,
     v_max_cycles = 400000000, v_arch = ''rv32im'', v_hpm = False, v_tolerance_ppm = 50\<rparr>"

definition demo_sim_run :: bench_sim_run where
  "demo_sim_run = \<lparr>r_rc = 0, r_out = ''cycles=1000 bytes=2'' @ [CHR 0x0A] @ ''BENCH_TB_OK'' @ [CHR 0x0A],
     r_cap = Some (join [CHR 0x0A] (framed demo_lines))\<rparr>"

lemma demo_sim_image: "\<exists>flags mem k. sim_image (\<lambda>cmd. Some (elf_file demo_elf)) demo_sim_args = Inr (flags, mem, k)"
proof -
  have l: "loadable demo_elf = [(0x80000000, [0x13, 5, 0x50, 0, 1]), (0x80000006, [9])]"
    by (simp add: loadable_def demo_elf_def)
  have "elf_wf demo_elf" by (simp add: elf_wf_def elf_length, simp add: demo_elf_def)
  moreover have "list_all (seg_fits 0x80000000 (32768 * 4)) (loadable demo_elf)" unfolding l by (simp add: seg_fits_def)
  ultimately obtain img k where i: "image_of 0x80000000 32768 (elf_file demo_elf) = Inr (img, k)"
    using image_of_fits [of demo_elf "0x80000000" 32768] l by auto
  have "bench_build (\<lambda>cmd. Some (elf_file demo_elf)) r out objdir hz c = Inr (flags_str (b_arch c), elf_file demo_elf)"
    for r out objdir hz c
  proof -
    have "find (\<lambda>u. False) xs = None" for xs :: "(string \<times> string list) list" by (simp add: find_None_iff)
    then show ?thesis by (simp add: bench_build_def compile_units)
  qed
  then show ?thesis using i by (simp add: sim_image_def bench_image_main_def)
qed

lemma demo_sim_parse: "parse_block demo_lines i (parser_call demo_sim_args) = Inr (demo_block i)"
proof -
  obtain m where m: "re_search seedcrc_re (join [CHR 0x0A] demo_lines) = Some m" "group m 1 = ''e9f5''"
    using demo_seedcrc by (simp add: group_def)
  show ?thesis
    unfolding parse_block_def Let_def demo_kv demo_nums demo_crcs m option.case rbind_simps
    by (simp add: demo_nums m demo_crcs raise_if_def PERF_SEEDCRC_def parser_call_def demo_sim_args_def demo_block_def)
qed

lemma demo_one_block: "split_blocks (join [CHR 0x0A] (framed demo_lines)) = [demo_lines]"
proof -
  have "list_all clean_line (framed demo_lines)" using demo_plain(2) by simp
  then have "split_blocks (join [CHR 0x0A] (framed demo_lines)) = split_loop (framed demo_lines) [] None"
    by (intro split_blocks_lines) (simp_all add: framed_def)
  then show ?thesis using split_framed [OF demo_plain(1), of "[]"] by simp
qed

lemma demo_sim_check: "\<exists>sc. check (join [CHR 0x0A] (framed demo_lines)) (parser_call demo_sim_args) = Inr ([(demo_block 0, Some sc)], [], None)"
proof -
  have "\<exists>sc. derive (demo_block 0) (parser_call demo_sim_args) = Inr sc"
    using demo_bounds by (simp add: derive_def demo_block_def raise_if_def Let_def parser_call_def)
  then obtain sc where d: "derive (demo_block 0) (parser_call demo_sim_args) = Inr sc" by blast
  have p: "\<not> a_functional_only (parser_call demo_sim_args)" "a_min_blocks (parser_call demo_sim_args) = 1"
    "\<not> b_host (demo_block 0)"
    by (simp_all add: parser_call_def demo_sim_args_def demo_block_def)
  have "parse_all [demo_lines] 0 (parser_call demo_sim_args) = Inr [(demo_block 0, Some sc)]"
    using p d by (simp add: demo_sim_parse raise_if_def)
  then show ?thesis
    using p by (simp add: check_def demo_one_block raise_if_def check_reproducible_def del: parse_all.simps)
qed

lemma demo_sim_report: "map_option (\<lambda>m. (group m 1, group m 2)) (re_search CYCLES_RE (r_out demo_sim_run)) = Some (''1000'', ''2'')"
  by code_simp

lemma demo_cross: "cross_check 751 680 1000 = Inr 0"
proof -
  have a: "fl (85 / 100) \<le> (9 / 10 :: rat)"
    by (rule order_trans [OF fl_near(2)]) (rule order_trans [OF tiny], simp_all)
  have b: "fl (1000 :: rat) = 1000" using fl_exact [of 1000 1000 0] by (simp add: pow2_def)
  have "1 / 2 \<le> fl (85 / 100) * (1000 :: rat)"
    using fl_near(1) [OF order_trans [OF tiny], of "85 / 100"] by simp
  then have "fl (fl (85 / 100) * 1000) \<le> fl (85 / 100) * 1000 + fl (85 / 100) * 1000 / (2 ^ 53 :: rat)"
    by (intro fl_near(2) order_trans [OF tiny])
  also have "\<dots> \<le> 901" using a by simp
  finally show ?thesis by (simp add: cross_check_def raise_if_def fmul_def b)
qed

lemma demo_sim: "bench_sim_main (\<lambda>cmd. Some (elf_file demo_elf)) (\<lambda>cmd. 0) (\<lambda>mem args. demo_sim_run)
    [(''fpga/generated/soc_clk.svh'', [])] demo_sim_args = Inr 0"
proof -
  obtain flags mem k where i: "sim_image (\<lambda>cmd. Some (elf_file demo_elf)) demo_sim_args = Inr (flags, mem, k)"
    using demo_sim_image by blast
  obtain sc where c: "check (join [CHR 0x0A] (framed demo_lines)) (parser_call demo_sim_args) = Inr ([(demo_block 0, Some sc)], [], None)"
    using demo_sim_check by blast
  have n: "read_base 10 ''1000'' = 1000" "read_base 10 ''2'' = 2" by (simp_all add: read_base_def)
  obtain m where m: "re_search CYCLES_RE (r_out demo_sim_run) = Some m" "group m 1 = ''1000''" "group m 2 = ''2''"
    using demo_sim_report by auto
  have "judge_run (r_out demo_sim_run) [demo_block 0] = Inr 0"
    using demo_cross by (simp add: judge_run_def m m(2) [unfolded One_nat_def] n measured_cycles_def demo_block_def uart_cycles_def SIM_CORE_HZ_def)
  moreover have "is_sub ''BENCH_TB_OK'' (r_out demo_sim_run)" "r_rc demo_sim_run = 0" "clk_header_rc [(''fpga/generated/soc_clk.svh'', [])] = 0"
    "r_cap demo_sim_run = Some (join [CHR 0x0A] (framed demo_lines))"
    by (simp_all add: demo_sim_run_def clk_header_rc_def exists_file_def startswith_def)
  ultimately show ?thesis by (simp add: bench_sim_main_def i c Let_def)
qed


end
