(* ===== verification/Stall_Build.thy ===== *)
theory Stall_Build
  imports Bench_Sim_Props Stall_Props
begin

text \<open>
  The run that \<^verbatim>\<open>tb/perf/run_stall_profile.py\<close> profiles: \<open>build_and_run\<close> builds the benchmark image,
  simulates it with the instrument attached, and has the capture judged by the benchmark parser. With it the
  chain from the image to the verdict of the profile is one function of the external tools.
\<close>

section \<open>Building and running\<close>

record stall_args =
  st_build :: string
  st_dhry_runs :: int
  st_iterations :: int
  st_redir_delay :: int
  st_max_cycles :: int
  st_arch :: string
  st_hpm :: bool
  st_trace_to :: "string option"
  st_selftest :: bool

record stall_run =
  sr_rc :: int
  sr_out :: string
  sr_cap :: string
  sr_prof :: "(string \<times> string) list list"
  sr_trace :: "(string \<times> string) list list"

definition stall_image :: "compiler \<Rightarrow> stall_args \<Rightarrow> (string \<times> string \<times> nat) res" where
  "stall_image cc a = bench_image_main cc ''.'' [] (st_build a @ ''/bench_sim.elf'') (st_build a @ ''/bench_obj'') (Some SIM_CORE_HZ)
     \<lparr>dhry_runs = st_dhry_runs a, iterations = st_iterations a, gap_cycles = 2000, b_arch = st_arch a, b_hpm = st_hpm a\<rparr>
     0x80000000 32768"

definition stall_argv :: "stall_args \<Rightarrow> string list" where
  "stall_argv a = [''--out'', st_build a @ ''/bench_sim.log'', ''--prof'', st_build a @ ''/prof.csv'',
     ''--redir-delay'', show_int (st_redir_delay a), ''--max'', show_int (st_max_cycles a), ''--blocks'', ''1'',
     ''--trace'', (case st_trace_to a of None \<Rightarrow> st_build a @ ''/xfer.csv'' | Some p \<Rightarrow> p)]"

definition stall_parser :: "stall_args \<Rightarrow> bench_args" where
  "stall_parser a = \<lparr>a_dhry_runs = Some (st_dhry_runs a), a_iterations = Some (st_iterations a), a_allow_short = True,
     a_functional_only = False, a_min_blocks = 1, a_tolerance_ppm = 0, a_warmup_blocks = 0\<rparr>"

text \<open>The first block as the parser writes it to JSON, as far as the profile reads it: its numbers.\<close>

definition block_json :: "block \<Rightarrow> blk" where
  "block_json b = map (\<lambda>(k, v). (k, Some v))
     ([(''dhry_runs'', b_dhry_runs b), (''dhry_cycles'', b_dhry_cycles b), (''dhry_stat_cycles'', b_dhry_stat_cycles b),
       (''dhry_stat_instret'', b_dhry_stat_instret b), (''cm_iterations'', b_cm_iterations b), (''cm_cycles'', b_cm_cycles b),
       (''cm_instret'', b_cm_instret b), (''has_hpm'', if b_has_hpm b then 1 else 0)] @ block.b_hpm b)"

definition build_and_run :: "compiler \<Rightarrow> (string list \<Rightarrow> int) \<Rightarrow> (string \<Rightarrow> string list \<Rightarrow> stall_run) \<Rightarrow> tree \<Rightarrow> stall_args
    \<Rightarrow> instrumented option" where
  "build_and_run cc vlt exe t a = (case stall_image cc a of
     Inl e \<Rightarrow> None
   | Inr (flags, mem, n) \<Rightarrow>
       if clk_header_rc t \<noteq> 0 then None
       else if vlt (soc_cmd t ''.'' (st_build a) [''-O3'', ''-CFLAGS'', ''-O2'', ''--public-flat-rw''] ''tb/perf/tb_profile.cpp'') \<noteq> 0 then None
       else let r = exe mem (stall_argv a) in
         if sr_rc r \<noteq> 0 \<or> \<not> is_sub ''PROF_TB_OK'' (sr_out r) then None
         else case check (sr_cap r) (stall_parser a) of
           Inl e \<Rightarrow> None
         | Inr (parsed, sp) \<Rightarrow>
             Some \<lparr>r_blk = block_json (fst (hd parsed)), r_prof = sr_prof r, r_trace = sr_trace r\<rparr>)"

definition stall_main :: "compiler \<Rightarrow> (string list \<Rightarrow> int) \<Rightarrow> (string \<Rightarrow> string list \<Rightarrow> stall_run) \<Rightarrow> tree \<Rightarrow> stall_args \<Rightarrow> int res" where
  "stall_main cc vlt exe t a = profile_main (st_selftest a) (build_and_run cc vlt exe t a)"

section \<open>The chain\<close>

lemma build_and_run_Some:
  assumes "build_and_run cc vlt exe t a = Some g"
  shows "\<exists>flags mem n parsed sp. stall_image cc a = Inr (flags, mem, n) \<and>
     check (sr_cap (exe mem (stall_argv a))) (stall_parser a) = Inr (parsed, sp) \<and>
     g = \<lparr>r_blk = block_json (fst (hd parsed)), r_prof = sr_prof (exe mem (stall_argv a)), r_trace = sr_trace (exe mem (stall_argv a))\<rparr>"
proof (cases "stall_image cc a")
  case (Inr x)
  obtain flags mem n where x: "x = (flags, mem, n)" by (cases x) auto
  have "check (sr_cap (exe mem (stall_argv a))) (stall_parser a) \<noteq> Inl e" for e
    using assms by (auto simp: build_and_run_def Inr x Let_def split: if_splits)
  then obtain parsed sp where c: "check (sr_cap (exe mem (stall_argv a))) (stall_parser a) = Inr (parsed, sp)"
    by (metis old.sum.exhaust prod.exhaust)
  then show ?thesis using assms Inr by (auto simp: build_and_run_def x Let_def c split: if_splits)
qed (use assms in \<open>simp add: build_and_run_def\<close>)

text \<open>Both timed regions are always reported, so a clean profile has verified both.\<close>

lemma block_json_reported:
  "reported \<lparr>r_blk = block_json b, r_prof = p, r_trace = q\<rparr> ''dhry_stat_cycles'' = Some (b_dhry_stat_cycles b)"
  "reported \<lparr>r_blk = block_json b, r_prof = p, r_trace = q\<rparr> ''cm_cycles'' = Some (b_cm_cycles b)"
  by (simp_all add: reported_def block_json_def)

lemma profile_regions:
  assumes "profile_main st (Some g) = Inr 0"
  shows "\<exists>snaps. load_snaps (r_prof g) = Inr snaps
    \<and> (\<forall>want. reported g ''dhry_stat_cycles'' = Some want \<longrightarrow> verified g snaps ''dhry'' want)
    \<and> (\<forall>want. reported g ''cm_cycles'' = Some want \<longrightarrow> verified g snaps ''cm'' want)"
proof (rule profile_main_steps [OF assms])
  fix snaps offs out u
  assume l: "load_snaps (r_prof g) = Inr snaps"
    and r: "res_fold (region_step g snaps) REGIONS ([], []) = Inr (out, [])" "sw_check (r_blk g) out = Inr []" "print_table out = Inr u"
  note v = regions_verified [OF r(1-3)]
  show ?thesis using l v [of "''dhry''"] v [of "''cm''"] by blast
qed

text \<open>A profile that passes is one of a run that passed: the image was built, the parser accepted the capture,
  and the cycles of both timed regions of its first block, as the program itself reported them, are explained by
  the instrument to the cycle.\<close>

theorem profiled_run_sound:
  assumes "stall_main cc vlt exe t a = Inr 0"
  shows "\<exists>flags mem n parsed sp snaps b g. build_and_run cc vlt exe t a = Some g \<and> stall_image cc a = Inr (flags, mem, n) \<and>
     check (sr_cap (exe mem (stall_argv a))) (stall_parser a) = Inr (parsed, sp) \<and> b = fst (hd parsed) \<and> block_facts b \<and>
     load_snaps (sr_prof (exe mem (stall_argv a))) = Inr snaps \<and>
     verified g snaps ''dhry'' (b_dhry_stat_cycles b) \<and> verified g snaps ''cm'' (b_cm_cycles b)"
proof -
  from assms obtain g where g: "build_and_run cc vlt exe t a = Some g"
    by (auto simp: stall_main_def profile_main_def split: option.splits)
  with assms have p: "profile_main (st_selftest a) (Some g) = Inr 0" by (simp add: stall_main_def)
  obtain flags mem n parsed sp where s: "stall_image cc a = Inr (flags, mem, n)"
    "check (sr_cap (exe mem (stall_argv a))) (stall_parser a) = Inr (parsed, sp)"
    "g = \<lparr>r_blk = block_json (fst (hd parsed)), r_prof = sr_prof (exe mem (stall_argv a)), r_trace = sr_trace (exe mem (stall_argv a))\<rparr>"
    using build_and_run_Some [OF g] by blast
  obtain snaps where v: "load_snaps (r_prof g) = Inr snaps"
    "\<forall>want. reported g ''dhry_stat_cycles'' = Some want \<longrightarrow> verified g snaps ''dhry'' want"
    "\<forall>want. reported g ''cm_cycles'' = Some want \<longrightarrow> verified g snaps ''cm'' want"
    using profile_regions [OF p] by blast
  have rep: "reported g ''dhry_stat_cycles'' = Some (b_dhry_stat_cycles (fst (hd parsed)))"
    "reported g ''cm_cycles'' = Some (b_cm_cycles (fst (hd parsed)))"
    unfolding s(3) by (rule block_json_reported)+
  have nf: "\<not> a_functional_only (stall_parser a)" by (simp add: stall_parser_def)
  have "hd parsed \<in> set parsed" using check_Inr(1) [OF s(2) nf] by simp
  then have f: "block_facts (fst (hd parsed))" using check_Inr(5) [OF s(2) nf, of "fst (hd parsed)" "snd (hd parsed)"] by simp
  have l: "load_snaps (sr_prof (exe mem (stall_argv a))) = Inr snaps" using v(1) by (simp add: s(3))
  from v(2) rep(1) have v1: "verified g snaps ''dhry'' (b_dhry_stat_cycles (fst (hd parsed)))" by blast
  from v(3) rep(2) have v2: "verified g snaps ''cm'' (b_cm_cycles (fst (hd parsed)))" by blast
  show ?thesis by (intro exI conjI) (rule g s(1) s(2) refl f l v1 v2)+
qed

end
