(* ===== verification/Sim_Builds.thy ===== *)
theory Sim_Builds
  imports Mutate_Props Spike_Asm Tb_Drivers Isa_Copies
begin

text \<open>
  The builds behind the simulator tests: the Verilator command of each cosimulation driver and of the RISCOF
  driver, the assembler command of each test program, and RISCOF's configuration file. \<open>vlt\<close> is the
  exit code of a command line; \<open>gcc\<close> the file a command line produces, \<open>None\<close> when it fails. Paths of
  the repository are relative to its root; \<open>tmp\<close> is the working directory.
\<close>

section \<open>Assembling\<close>

definition LD :: string where "LD = ''sw/tests/link.ld''"

definition bare_cmd :: "string \<Rightarrow> string \<Rightarrow> string \<Rightarrow> string list" where
  "bare_cmd march out src = [''riscv-none-elf-gcc'', ''-march='' @ march, ''-mabi=ilp32'', ''-nostdlib'', ''-nostartfiles'',
     ''-T'', LD, ''-o'', out, src]"

type_synonym assembler = "string list \<Rightarrow> elf option"

definition assembled :: "assembler \<Rightarrow> string list \<Rightarrow> elf res" where
  "assembled gcc cmd = (case gcc cmd of None \<Rightarrow> Inl (RuntimeError ''assembling failed'') | Some elf \<Rightarrow> Inr elf)"

definition t4_build_elf :: "assembler \<Rightarrow> string \<Rightarrow> elf res" where
  "t4_build_elf gcc tmp = assembled gcc (bare_cmd ''rv32i_zicsr'' (tmp @ ''/a4_checksum.elf'') ''sw/tests/a4_checksum.S'')"

text \<open>The text is written to a file first; \<open>gcc\<close> sees the command line and that text.\<close>

definition a5_assemble :: "(string list \<Rightarrow> string \<Rightarrow> elf option) \<Rightarrow> string \<Rightarrow> string \<Rightarrow> string \<Rightarrow> elf res" where
  "a5_assemble gcc src_text tmp name = assembled (\<lambda>cmd. gcc cmd src_text)
     (bare_cmd MARCH (tmp @ ''/'' @ name @ ''.elf'') (tmp @ ''/'' @ name @ ''.S''))"

definition directed_compile :: "assembler \<Rightarrow> string \<Rightarrow> string \<Rightarrow> string \<Rightarrow> elf res" where
  "directed_compile gcc path tmp name = assembled gcc (bare_cmd MARCH (tmp @ ''/'' @ name @ ''.elf'') path)"

definition csr_compile :: "assembler \<Rightarrow> string \<Rightarrow> string \<Rightarrow> string \<Rightarrow> elf res" where
  "csr_compile gcc path tmp name = assembled gcc (bare_cmd MARCH (tmp @ ''/'' @ name @ ''.elf'') path)"

text \<open>A missing source of riscv-tests is an exception, a failing compiler a value.\<close>

definition RV_DIR :: string where "RV_DIR = ''toolchain/riscv-tests''"

definition rv_compile_test :: "assembler \<Rightarrow> tree \<Rightarrow> string \<Rightarrow> string \<Rightarrow> string \<Rightarrow> elf option res" where
  "rv_compile_test gcc t suite name tmp = (
    let src = RV_DIR @ ''/isa/'' @ suite @ ''/'' @ name @ ''.S'' in
    if \<not> exists_file t src then Inl (Fail ''FileNotFoundError'')
    else Inr (gcc [''riscv-none-elf-gcc'', ''-march='' @ MARCH, ''-mabi=ilp32'', ''-nostdlib'', ''-nostartfiles'', ''-fno-pie'',
       ''-I'', RV_DIR @ ''/isa/macros/scalar'', ''-I'', RV_DIR @ ''/env/p'', ''-I'', RV_DIR @ ''/env'',
       ''-T'', RV_DIR @ ''/env/p/link.ld'', ''-o'', tmp @ ''/'' @ suite @ ''-p-'' @ name @ ''.elf'', src]))"

section \<open>Building the simulators\<close>

definition TB_CPP :: string where "TB_CPP = ''tb/unit/tb_core.cpp''"

definition TRACE_RTL :: "string list" where
  "TRACE_RTL = [''tb/unit/rvntt_trace.sv'', ''tb/unit/rvntt_trace_top.sv'']"

definition init_file :: "string \<Rightarrow> string" where
  "init_file hexf = ''-GINIT_FILE='' @ [CHR 0x22] @ hexf @ [CHR 0x22]"

definition sim_top_cmd :: "string \<Rightarrow> string \<Rightarrow> nat \<Rightarrow> string list \<Rightarrow> string list" where
  "sim_top_cmd tmp hexf words srcs = [''verilator'', ''--cc'', ''--exe'', ''--build'', ''-j'', ''4'', ''-Wall'',
     ''--top-module'', ''rvntt_core_sim_top'', ''--Mdir'', tmp @ ''/obj'', ''--prefix'', ''Vrvntt_core_sim_top'',
     init_file hexf, ''-GWORDS='' @ show_nat words] @ srcs @ [TB_CPP]"

definition built_sim :: "(string list \<Rightarrow> int) \<Rightarrow> string list \<Rightarrow> string \<Rightarrow> string res" where
  "built_sim vlt cmd exe = (if vlt cmd \<noteq> 0 then Inl (RuntimeError ''building the simulator failed'') else Inr exe)"

definition rv_build_sim :: "(string list \<Rightarrow> int) \<Rightarrow> string \<Rightarrow> string \<Rightarrow> string res" where
  "rv_build_sim vlt tmp hexf =
     built_sim vlt (sim_top_cmd tmp hexf 16384 RTL) (tmp @ ''/obj/Vrvntt_core_sim_top'')"

definition a5_sim_cmd :: "string \<Rightarrow> string \<Rightarrow> string list" where
  "a5_sim_cmd tmp hexf = [''verilator'', ''--cc'', ''--exe'', ''--build'', ''-j'', ''4'', ''-Wall'',
     ''--top-module'', ''rvntt_trace_top'', ''--Mdir'', tmp @ ''/obj'', ''--prefix'', ''Vrvntt_trace_top'',
     ''-CFLAGS'', ''-DVTOP=Vrvntt_trace_top'', init_file hexf, ''-GWORDS=16384''] @ RTL @ TRACE_RTL @ [TB_CPP]"

definition a5_build_sim :: "(string list \<Rightarrow> int) \<Rightarrow> string \<Rightarrow> string \<Rightarrow> string res" where
  "a5_build_sim vlt tmp hexf = built_sim vlt (a5_sim_cmd tmp hexf) (tmp @ ''/obj/Vrvntt_trace_top'')"

section \<open>RISCOF\<close>

definition RISCOF_WORDS :: nat where "RISCOF_WORDS = 524288"

definition riscof_srcs :: "string option \<Rightarrow> string list" where
  "riscof_srcs rtl_dir = (case rtl_dir of None \<Rightarrow> RTL | Some d \<Rightarrow> map (path_join d) RTL)"

definition riscof_build_sim :: "(string list \<Rightarrow> int) \<Rightarrow> string \<Rightarrow> string \<Rightarrow> string option \<Rightarrow> string res" where
  "riscof_build_sim vlt tmp hexf rtl_dir =
     built_sim vlt (sim_top_cmd tmp hexf RISCOF_WORDS (riscof_srcs rtl_dir)) (tmp @ ''/obj/Vrvntt_core_sim_top'')"

definition riscof_config :: "string \<Rightarrow> string \<Rightarrow> string \<Rightarrow> string" where
  "riscof_config here simexe hexf = text_lines [
    ''[RISCOF]'',
    ''ReferencePlugin=spike_ref'',
    ''ReferencePluginPath='' @ here @ ''/spike_ref'',
    ''DUTPlugin=rvntt'',
    ''DUTPluginPath='' @ here @ ''/rvntt'',
    '''',
    ''[rvntt]'',
    ''pluginpath='' @ here @ ''/rvntt'',
    ''ispec='' @ here @ ''/rvntt/rvntt_isa.yaml'',
    ''pspec='' @ here @ ''/rvntt/rvntt_platform.yaml'',
    ''simexe='' @ simexe,
    ''image='' @ hexf,
    ''target_run=1'',
    '''',
    ''[spike_ref]'',
    ''pluginpath='' @ here @ ''/spike_ref'',
    ''jobs=4'']"

section \<open>What the builds have in common\<close>

text \<open>Whatever a program of the cosimulation is assembled for, Spike is told of: the two strings the drivers use.\<close>

lemma assembled_isa_known:
  "(case (exts MARCH, exts ISA_BASE) of (Inr a, Inr b) \<Rightarrow> list_all (\<lambda>e. e \<in> set b) a | _ \<Rightarrow> False)" "ISA = ISA_BASE"
  by code_simp (simp add: ISA_def ISA_BASE_def)

text \<open>The names a mirror of the RTL holds are those it copies, whatever the edits.\<close>

lemma apply_edits_dom: "apply_edits es d = (d', err) \<Longrightarrow> map_of d' p = None \<longleftrightarrow> map_of d p = None"
proof (induction es arbitrary: d)
  case (Cons e es)
  obtain rel old new where e: "e = (rel, old, new)" by (cases e)
  from Cons show ?case
    by (auto simp: e Let_def map_of_write_file split: option.splits if_splits)
qed simp

lemma copy_files_present: "copy_files repo ps = Inr d \<Longrightarrow> p \<in> set ps \<Longrightarrow> map_of repo p \<noteq> None"
  by (induction ps arbitrary: d) (auto simp: rbind_Inr_iff split: option.splits)

lemma mirror_dom:
  assumes "mirror_rtl repo edits = Inr (d, err)"
  shows "map_of d p \<noteq> None \<longleftrightarrow> p \<in> set (RTL @ MIRROR_EXTRA)"
proof -
  from assms obtain c where c: "copy_files repo (RTL @ MIRROR_EXTRA) = Inr c" "apply_edits edits c = (d, err)"
    by (auto simp: mirror_rtl_def rbind_Inr_iff)
  have "map_of c p \<noteq> None \<longleftrightarrow> p \<in> set (RTL @ MIRROR_EXTRA)"
    using copy_files_map [OF c(1), of p] copy_files_present [OF c(1), of p] by auto
  then show ?thesis using apply_edits_dom [OF c(2), of p] by simp
qed

text \<open>A mirrored build of the SoC or of RISCOF names only files of the mirror.\<close>

definition mirrored_at :: "tree \<Rightarrow> string \<Rightarrow> string \<Rightarrow> bool" where
  "mirrored_at d base p \<longleftrightarrow> (\<exists>rel. p = path_join base rel \<and> map_of d rel \<noteq> None)"

lemma soc_files_mirrored: "f \<in> set SOC_FILES \<Longrightarrow> path_join ''rtl/soc'' f \<in> set (RTL @ MIRROR_EXTRA)"
  unfolding SOC_FILES_def
  by (auto simp: path_join_def RTL_def MIRROR_EXTRA_def RVFI_def MMIO_def SOCTOP_def UARTRX_def)

lemma path_join_assoc: "path_join (base @ ''/'' @ d) f = path_join base (path_join d f)"
  by (simp add: path_join_def)

text \<open>A mutated build never reads the unmutated design: in a mirror of the RTL, after whatever edits, every
  source that the SoC test, the benchmark run and the RISCOF run compile from that directory is there,
  provided the mirror's list has kept up with the modules of the core.\<close>

theorem mirrored_builds_closed:
  assumes "mirror_rtl repo edits = Inr (d, err)"
    and "\<forall>f\<in>set (core_files repo). path_join ''rtl/core'' f \<in> set (RTL @ MIRROR_EXTRA)"
  shows "list_all (mirrored_at d base) (soc_srcs repo base) \<and> list_all (mirrored_at d base) (riscof_srcs (Some base))"
proof -
  have m: "mirrored_at d base (path_join base rel)" if "rel \<in> set (RTL @ MIRROR_EXTRA)" for rel
    using mirror_dom [OF assms(1), of rel] that unfolding mirrored_at_def by blast
  have core: "mirrored_at d base (path_join (base @ ''/rtl/core'') f)" if "f \<in> set (core_files repo)" for f
    using m [OF assms(2) [rule_format, OF that]] path_join_assoc [of base "''rtl/core''" f] by simp
  have soc: "mirrored_at d base (path_join (base @ ''/rtl/soc'') f)" if "f \<in> set SOC_FILES" for f
    using m [OF soc_files_mirrored [OF that]] path_join_assoc [of base "''rtl/soc''" f] by simp
  have sync: "mirrored_at d base (base @ ''/rtl/common/rvntt_sync_reset.sv'')"
    using m [of "''rtl/common/rvntt_sync_reset.sv''"] by (simp add: path_join_def MIRROR_EXTRA_def)
  have "list_all (mirrored_at d base) (soc_srcs repo base)"
    using core soc sync by (auto simp: soc_srcs_def list_all_iff)
  moreover have "list_all (mirrored_at d base) (riscof_srcs (Some base))"
    using m by (simp add: riscof_srcs_def list_all_iff)
  ultimately show ?thesis ..
qed

lemma listdir_path: "f \<in> set (listdir t d) \<Longrightarrow> path_join d f \<in> fst ` set t"
proof -
  assume "f \<in> set (listdir t d)"
  then obtain p s where p: "(p, s) \<in> set t" "startswith p (d @ ''/'')" "f = drop (length d + 1) p"
    by (auto simp: listdir_def)
  have "p = take (length d + 1) p @ drop (length d + 1) p" by simp
  also have "take (length d + 1) p = d @ ''/''" using p(2) by (simp add: startswith_def)
  finally have "path_join d f = p" by (simp add: path_join_def p(3))
  then show ?thesis using p(1) by force
qed

theorem mirrored_builds_closed_witness:
  "\<exists>d. mirror_rtl demo_repo [] = Inr (d, None) \<and> list_all (mirrored_at d ''m'') (soc_srcs demo_repo ''m'')"
proof -
  have all: "fst ` set demo_repo = set (RTL @ MIRROR_EXTRA)" by (force simp: demo_repo_def)
  then have "map_of demo_repo p \<noteq> None" if "p \<in> set (RTL @ MIRROR_EXTRA)" for p
    using that by (simp add: map_of_eq_None_iff del: set_append)
  then have "\<exists>d. copy_files demo_repo ps = Inr d" if "set ps \<subseteq> set (RTL @ MIRROR_EXTRA)" for ps
    using that by (induction ps) (fastforce split: option.splits)+
  from this [of "RTL @ MIRROR_EXTRA"] obtain d where d: "mirror_rtl demo_repo [] = Inr (d, None)"
    by (auto simp: mirror_rtl_def)
  have "path_join ''rtl/core'' ''rv32i_pkg.sv'' \<in> set (RTL @ MIRROR_EXTRA)" by (simp add: path_join_def RTL_def)
  then have "\<forall>f\<in>set (core_files demo_repo). path_join ''rtl/core'' f \<in> set (RTL @ MIRROR_EXTRA)"
    using listdir_path [of _ demo_repo "''rtl/core''"] unfolding core_files_set all by blast
  from mirrored_builds_closed [OF d this, of "''m''"] d show ?thesis by blast
qed

end
