(* ===== verification/Hpm_Cases.thy ===== *)
theory Hpm_Cases
  imports Spike_Asm
begin

text \<open>
  The directed test of the performance counters, \<^verbatim>\<open>tb/cosim/test_hpm_a20.py\<close>: one self-checking program on
  the simulated core, and the reading of the testbench's output that names the case that failed. The
  simulator (or the exception its build raised) and the compiled program are arguments.
\<close>

definition HPM_CASES :: "(int \<times> string) list" where
  "HPM_CASES = [
    (2, ''the six implemented counters are readable and writable''),
    (3, ''mhpmcounter9..31 are decoded, read zero, and do not trap''),
    (4, ''mcountinhibit is WARL and its TM bit reads back zero''),
    (5, ''mcountinhibit actually inhibits''),
    (6, ''a programmed event actually counts''),
    (7, ''event 0 counts nothing''),
    (8, ''mhpmevent is WARL over 0..HPM_EV_MAX''),
    (9, ''the counter halves are independent and carry''),
    (10, ''the user-mode shadows read through and are read-only'')]"

definition compile_s_cmd :: "string \<Rightarrow> string \<Rightarrow> string \<Rightarrow> string list" where
  "compile_s_cmd src out ld = [''riscv-none-elf-gcc'', ''-march='' @ MARCH, ''-mabi=ilp32'',
     ''-nostdlib'', ''-nostartfiles'', ''-T'', ld, ''-o'', out, src]"

definition case_text :: "int \<Rightarrow> bool \<Rightarrow> string \<Rightarrow> string" where
  "case_text n wrong_mcause what = ''case '' @ show_int n @ '' failed''
     @ (if wrong_mcause then '' (wrong mcause)'' else []) @ '': '' @ what"

text \<open>The value a token stands for, if it is the code of a known case.\<close>

definition token_case :: "string \<Rightarrow> string option" where
  "token_case tok = (case int0 tok of
     Inl e \<Rightarrow> None
   | Inr v \<Rightarrow>
       if v > 1 \<and> bit v 0 then
         let n = drop_bit 1 (v AND 0xFF)
         in map_option (case_text n (bit v 8)) (map_of HPM_CASES n)
       else None)"

fun explain_toks :: "string list \<Rightarrow> string option" where
  "explain_toks [] = None"
| "explain_toks (tok # toks) = (case token_case tok of None \<Rightarrow> explain_toks toks | Some s \<Rightarrow> Some s)"

definition explain_hpm :: "string \<Rightarrow> string option" where
  "explain_hpm out = explain_toks (split_ws (replace_all ''='' '' '' (replace_all '','' '' '' out)))"

definition hpm_run :: "sim \<Rightarrow> elf \<Rightarrow> (bool \<times> string) res" where
  "hpm_run exe elf = (
    rbind (elf_to_hex elf) (\<lambda>(hexf, n).
    case symbol (elf_nm elf) ''tohost'' of
      None \<Rightarrow> Inl (TypeError ''%x format: an integer is required'')
    | Some tohost \<Rightarrow>
        let r = exe hexf [''--tohost'', hex32 tohost, ''--expect-tohost'', ''1'', ''--max-cycles'', ''2000000'']
        in Inr (s_rc r = 0, strip (s_out r))))"

text \<open>The exit code and, on failure, the explanation that is printed.\<close>

definition hpm_main :: "sim res \<Rightarrow> (string list \<Rightarrow> elf option) \<Rightarrow> string \<Rightarrow> string \<Rightarrow> (int \<times> string option) res" where
  "hpm_main build compile ld tmp =
    rbind build (\<lambda>exe.
    rbind (case compile (compile_s_cmd ''sw/tests/a20_hpm.S'' (tmp @ ''/a20_hpm.elf'') ld) of
             None \<Rightarrow> Inl (RuntimeError ''assembling failed'') | Some elf \<Rightarrow> Inr elf) (\<lambda>elf.
    rbind (hpm_run exe elf) (\<lambda>(ok, out).
    Inr (if ok then (0, None) else (1, explain_hpm out)))))"

section \<open>What the program and the testbench write\<close>

text \<open>The program stores \<open>2 * n + 1\<close> when case \<open>n\<close> fails, with bit 8 set when it was the cause register that
  was wrong; the testbench prints the value it saw.\<close>

definition fail_code :: "nat \<Rightarrow> bool \<Rightarrow> nat" where
  "fail_code n wrong_mcause = 2 * n + 1 + (if wrong_mcause then 256 else 0)"

definition tohost_text :: "nat \<Rightarrow> string" where
  "tohost_text v = ''CORE_TB_FAIL: tohost = '' @ show_nat v @ '', expected 1''
     @ ''  (riscv-tests: test case '' @ show_nat (v div 2) @ '' failed)'' @ [CHR 0x0A]"

section \<open>The explanation names the case\<close>

lemma explained_cases:
  "list_all (\<lambda>(n, what). explain_hpm (tohost_text (fail_code (nat n) False)) = Some (case_text n False what)) HPM_CASES"
  "list_all (\<lambda>(n, what). explain_hpm (tohost_text (fail_code (nat n) True)) = Some (case_text n True what)) HPM_CASES"
  by code_simp+

text \<open>Every failure the program can report is explained as the case that failed, with the note on the cause
  register when that was what differed.\<close>

theorem hpm_explains:
  assumes "(int n, what) \<in> set HPM_CASES"
  shows "explain_hpm (tohost_text (fail_code n wrong)) = Some (case_text (int n) wrong what)"
proof (cases wrong)
  case True
  with assms explained_cases(2) show ?thesis by (fastforce simp: list_all_iff)
next
  case False
  with assms explained_cases(1) show ?thesis by (fastforce simp: list_all_iff)
qed

theorem hpm_explains_witness:
  "explain_hpm (tohost_text (fail_code 5 True)) = Some (case_text 5 True ''mcountinhibit actually inhibits'')"
  using hpm_explains [of 5 "''mcountinhibit actually inhibits''" True] by (simp add: HPM_CASES_def)

text \<open>A run that does not stop is not explained: its message names no odd number of its own.\<close>

lemma timeout_toks:
  "split_ws (replace_all ''='' '' '' (replace_all '','' '' '' ''CORE_TB_FAIL: the program did not stop within 2000000 cycles (261 instructions retired)''))
     = [''CORE_TB_FAIL:'', ''the'', ''program'', ''did'', ''not'', ''stop'', ''within'', ''2000000'', ''cycles'', ''(261'', ''instructions'', ''retired)'']"
  by code_simp

lemma timeout_unexplained:
  "explain_hpm (''CORE_TB_FAIL: the program did not stop within 2000000 cycles (261 instructions retired)'') = None"
proof -
  have "int0 ''2000000'' = Inr 2000000"
    by (simp add: int0_def nat0_def startswith_def prefixed_def Let_def ungroup_def read_base_def is_digit_def)
  then have "token_case ''2000000'' = None" by (simp add: token_case_def)
  moreover have "explain_toks [''CORE_TB_FAIL:'', ''the'', ''program'', ''did'', ''not'', ''stop'', ''within''] = None"
    "explain_toks [''cycles'', ''(261'', ''instructions'', ''retired)''] = None" by code_simp+
  ultimately show ?thesis by (simp add: explain_hpm_def timeout_toks split: option.splits)
qed

text \<open>A core that reports an unsupported instruction or a write to \<open>x0\<close> fails before the program can store a
  code; the instruction word in that message, whose low bits are set, is then taken for one.\<close>

lemma x0_toks:
  "split_ws (replace_all ''='' '' '' (replace_all '','' '' '' ''CORE_TB_FAIL: commit_reg_write asserted with rd=x0 at pc=0x80000100 insn=0x00000013''))
     = [''CORE_TB_FAIL:'', ''commit_reg_write'', ''asserted'', ''with'', ''rd'', ''x0'', ''at'', ''pc'', ''0x80000100'', ''insn'', ''0x00000013'']"
  by code_simp

lemma instruction_word_misread:
  "explain_hpm (''CORE_TB_FAIL: commit_reg_write asserted with rd=x0 at pc=0x80000100 insn=0x00000013'')
     = Some (case_text 9 False ''the counter halves are independent and carry'')"
proof -
  have "int0 ''0x80000100'' = Inr 0x80000100"
    by (simp add: int0_def nat0_def startswith_def prefixed_def Let_def ungroup_def read_base_def is_hex_def is_digit_def)
  then have "token_case ''0x80000100'' = None" by (simp add: token_case_def)
  moreover have "explain_toks [''CORE_TB_FAIL:'', ''commit_reg_write'', ''asserted'', ''with'', ''rd'', ''x0'', ''at'', ''pc''] = None"
    by code_simp
  moreover have "explain_toks [''insn'', ''0x00000013''] = Some (case_text 9 False ''the counter halves are independent and carry'')"
    by code_simp
  ultimately show ?thesis by (simp add: explain_hpm_def x0_toks split: option.splits)
qed

section \<open>The verdict\<close>

lemma hpm_main_zero: "hpm_main build compile ld tmp = Inr (0, why) \<longleftrightarrow> why = None \<and>
    (\<exists>exe elf out. build = Inr exe \<and> compile (compile_s_cmd ''sw/tests/a20_hpm.S'' (tmp @ ''/a20_hpm.elf'') ld) = Some elf
       \<and> hpm_run exe elf = Inr (True, out))"
  by (auto simp: hpm_main_def rbind_Inr_iff split: option.splits if_splits)

end
