(* ===== verification/Printf_Diff.thy ===== *)
theory Printf_Diff
  imports Py_Regex
begin

text \<open>
  The comparison of the board's \<open>printf\<close> with the one of the C library, \<^verbatim>\<open>tb/unit/test_bench_printf.py\<close>.
  \<open>run\<close> is the program built from a source text of \<^verbatim>\<open>bench_io.c\<close>: \<open>None\<close> when it does not
  compile, otherwise its output. The program prints each case twice, on adjacent lines.
\<close>

section \<open>The comparison\<close>

definition PRINTF_INJECTIONS :: "(string \<times> string \<times> string) list" where
  "PRINTF_INJECTIONS = [
    (''zero_pad_ignored'', ''if (!left && zero) {'', ''if (0) {''),
    (''negative_sign_dropped'', ''out += emit_num(u, 10, 0, v < 0, width, zero, left);'',
       ''out += emit_num(u, 10, 0, 0, width, zero, left);''),
    (''width_off_by_one'', ''pad = width - n;'', ''pad = width - n - 1;''),
    (''hex_digits_uppercase_always'', ''const char *digits = upper ? up : lo;'', ''const char *digits = up;'')]"

text \<open>The number of pairs and the pairs that differ, with their numbers.\<close>

fun printf_pairs :: "string list \<Rightarrow> nat \<Rightarrow> (nat \<times> string \<times> string) list \<Rightarrow> nat \<times> (nat \<times> string \<times> string) list" where
  "printf_pairs (l # m # rest) n bad = (
    if startswith l ''B|'' \<and> startswith m ''G|''
    then printf_pairs (m # rest) (n + 1) (if drop 2 l \<noteq> drop 2 m then bad @ [(n + 1, drop 2 l, drop 2 m)] else bad)
    else printf_pairs (m # rest) n bad)"
| "printf_pairs _ n bad = (n, bad)"

definition printf_compare :: "string \<Rightarrow> nat \<times> (nat \<times> string \<times> string) list" where
  "printf_compare out = printf_pairs (split_on CHR 0x0A out) 0 []"

text \<open>The faults that are not noticed; a missing anchor counts as one, a fault that does not compile does not.\<close>

definition injection_escapes :: "(string \<Rightarrow> string option) \<Rightarrow> string \<Rightarrow> string \<times> string \<times> string \<Rightarrow> bool" where
  "injection_escapes run src = (\<lambda>(name, pat, rep).
    if \<not> is_sub pat src then True
    else case run (replace1 pat rep src) of
      None \<Rightarrow> False
    | Some mout \<Rightarrow> snd (printf_compare mout) = [])"

definition printf_main :: "bool \<Rightarrow> (string \<Rightarrow> string option) \<Rightarrow> string \<Rightarrow> int" where
  "printf_main inject run src = (case run src of
     None \<Rightarrow> 1
   | Some out \<Rightarrow>
       let (n, bad) = printf_compare out in
       if n = 0 then 1
       else if bad \<noteq> [] then 1
       else if inject \<and> filter (injection_escapes run src) PRINTF_INJECTIONS \<noteq> [] then 1
       else 0)"

section \<open>What it decides\<close>

text \<open>The output of the driver for a list of cases: the two renderings, each between bars.\<close>

definition corpus :: "(string \<times> string) list \<Rightarrow> string" where
  "corpus ps = concat (map (\<lambda>(b, g). ''B|'' @ b @ ''|'' @ [CHR 0x0A] @ ''G|'' @ g @ ''|'' @ [CHR 0x0A]) ps)"

definition one_line :: "string \<times> string \<Rightarrow> bool" where
  "one_line p \<longleftrightarrow> CHR 0x0A \<notin> set (fst p) \<and> CHR 0x0A \<notin> set (snd p)"

definition corpus_lines :: "(string \<times> string) list \<Rightarrow> string list" where
  "corpus_lines ps = concat (map (\<lambda>(b, g). [''B|'' @ b @ ''|'', ''G|'' @ g @ ''|'']) ps)"

lemma split_line: "CHR 0x0A \<notin> set l \<Longrightarrow> split_on CHR 0x0A (l @ CHR 0x0A # s) = l # split_on CHR 0x0A s"
  using split_on_append [of "CHR 0x0A" l s] by simp

lemma corpus_split: "list_all one_line ps \<Longrightarrow> split_on CHR 0x0A (corpus ps) = corpus_lines ps @ [[]]"
proof (induction ps)
  case (Cons p ps)
  obtain b g where p: "p = (b, g)" by (cases p)
  have "split_on CHR 0x0A (corpus (p # ps)) = (''B|'' @ b @ ''|'') # (''G|'' @ g @ ''|'') # split_on CHR 0x0A (corpus ps)"
    using Cons.prems split_line [of "''B|'' @ b @ ''|''"] split_line [of "''G|'' @ g @ ''|''" "corpus ps"]
    by (simp add: corpus_def p one_line_def)
  with Cons show ?case by (simp add: corpus_lines_def p)
qed (simp add: corpus_def corpus_lines_def)

lemma pairs_after_G:
  "printf_pairs ((CHR ''G'' # g) # rest) n bad = (case rest of [] \<Rightarrow> (n, bad) | m # rest' \<Rightarrow> printf_pairs (m # rest') n bad)"
  by (cases rest) (simp_all add: startswith_def)

lemma corpus_pairs:
  "printf_pairs (corpus_lines ps @ [[]]) n bad =
     (n + length ps, bad @ map (\<lambda>(i, b, g). (i, b @ ''|'', g @ ''|'')) (filter (\<lambda>(i, b, g). b \<noteq> g) (zip [Suc n..<Suc (n + length ps)] ps)))"
proof (induction ps arbitrary: n bad)
  case (Cons p ps)
  obtain b g where p: "p = (b, g)" by (cases p)
  have "printf_pairs (corpus_lines (p # ps) @ [[]]) n bad =
      printf_pairs (corpus_lines ps @ [[]]) (Suc n) (if b \<noteq> g then bad @ [(Suc n, b @ ''|'', g @ ''|'')] else bad)"
    by (cases "corpus_lines ps @ [[]]") (simp_all add: corpus_lines_def p startswith_def)
  also have "\<dots> = (Suc n + length ps, (if b \<noteq> g then bad @ [(Suc n, b @ ''|'', g @ ''|'')] else bad) @
      map (\<lambda>(i, b, g). (i, b @ ''|'', g @ ''|'')) (filter (\<lambda>(i, b, g). b \<noteq> g) (zip [Suc (Suc n)..<Suc (Suc n + length ps)] ps)))"
    by (rule Cons.IH)
  finally show ?case by (simp add: p upt_conv_Cons del: upt_Suc)
qed (simp add: corpus_lines_def)

lemma corpus_compare:
  assumes "list_all one_line ps"
  shows "fst (printf_compare (corpus ps)) = length ps" "snd (printf_compare (corpus ps)) = [] \<longleftrightarrow> list_all (\<lambda>(b, g). b = g) ps"
proof -
  show "fst (printf_compare (corpus ps)) = length ps"
    unfolding printf_compare_def corpus_split [OF assms] corpus_pairs by simp
  have "list_all (\<lambda>(i, b, g). b = g) (zip [Suc 0..<Suc (length ps)] ps) \<longleftrightarrow> list_all (\<lambda>(b, g). b = g) ps"
    by (simp add: list_all_length split_beta del: upt_Suc)
  then show "snd (printf_compare (corpus ps)) = [] \<longleftrightarrow> list_all (\<lambda>(b, g). b = g) ps"
    unfolding printf_compare_def corpus_split [OF assms] corpus_pairs
    by (simp add: filter_empty_conv list_all_iff split_beta del: upt_Suc)
qed

text \<open>The test of the formatter passes exactly when, on a corpus whose renderings are single lines, there is a
  case, all cases agree and, with injection, each fault finds its place in the source and either does not
  compile or makes some case differ.\<close>

theorem printf_accepts:
  assumes "run src = Some (corpus ps)" and "list_all one_line ps"
  shows "printf_main inject run src = 0 \<longleftrightarrow> ps \<noteq> [] \<and> list_all (\<lambda>(b, g). b = g) ps \<and>
    (inject \<longrightarrow> list_all (\<lambda>(name, pat, rep). is_sub pat src \<and>
       (case run (replace1 pat rep src) of None \<Rightarrow> True | Some o' \<Rightarrow> snd (printf_compare o') \<noteq> [])) PRINTF_INJECTIONS)"
proof -
  obtain n bad where c: "printf_compare (corpus ps) = (n, bad)" by fastforce
  have n: "n = 0 \<longleftrightarrow> ps = []" and bad: "bad = [] \<longleftrightarrow> list_all (\<lambda>(b, g). b = g) ps"
    using corpus_compare [OF assms(2)] by (simp_all add: c)
  have e: "filter (injection_escapes run src) PRINTF_INJECTIONS = [] \<longleftrightarrow> list_all (\<lambda>(name, pat, rep). is_sub pat src \<and>
       (case run (replace1 pat rep src) of None \<Rightarrow> True | Some o' \<Rightarrow> snd (printf_compare o') \<noteq> [])) PRINTF_INJECTIONS"
    by (auto simp: filter_empty_conv list_all_iff injection_escapes_def split: option.splits if_splits)
  show ?thesis by (simp add: printf_main_def assms(1) c n bad e)
qed

theorem printf_accepts_witness:
  "printf_main False (\<lambda>src. Some (corpus [(''7'', ''7'')])) [] = 0"
  using printf_accepts [where run = "\<lambda>src. Some (corpus [(''7'', ''7'')])" and src = "[]" and ps = "[(''7'', ''7'')]" and inject = False]
  by (simp add: one_line_def)

text \<open>The exit code of the program is never looked at, so one that dies after its first case is accepted.\<close>

lemma truncated_corpus_accepted:
  assumes "list_all one_line (p # ps)" "fst p = snd p"
  shows "printf_main False (\<lambda>src. Some (corpus [p])) src = 0"
proof -
  obtain n bad where c: "printf_compare (corpus [p]) = (n, bad)" by fastforce
  show ?thesis using corpus_compare [of "[p]"] assms by (simp add: printf_main_def c split_beta)
qed

text \<open>A case that prints a newline is not compared at all.\<close>

lemma newline_not_compared: "printf_compare (corpus [([CHR 0x0A], ''wrong'')]) = (0, [])"
  by code_simp

end
