(* ===== verification/Sync_Reset.thy ===== *)
theory Sync_Reset
  imports Prelude
begin

text \<open>
  The cocotb test of the reset synchroniser, \<^verbatim>\<open>tb/cocotb/test_sync_reset_cocotb.py\<close>. A coroutine is
  the sequence of what it drives, waits for and asserts; the simulator and the design are a state with three
  functions: the asynchronous reset input, a rising clock edge and the output. A nanosecond is shorter than half a
  clock period, so a \<^verbatim>\<open>Timer\<close> crosses no edge. Whether a value read right after \<^verbatim>\<open>RisingEdge\<close> is the
  one before or after the flops have changed is up to the simulator (\<open>late\<close>).
\<close>

section \<open>The coroutines\<close>

datatype act = Drive bool | Edge | Wait | Expect bool string

definition STAGES :: nat where "STAGES = 2"

definition repeated :: "nat \<Rightarrow> 'a list \<Rightarrow> 'a list" where
  "repeated n xs = concat (replicate n xs)"

definition test_async_assert_sync_release :: "act list" where
  "test_async_assert_sync_release =
     [Drive False, Wait, Expect False ''rst_n must be low while arst_n is low'']
     @ repeated 3 [Edge, Expect False ''rst_n must stay low while arst_n is low'']
     @ [Drive True, Wait, Expect False ''release must be synchronous, not immediate'']
     @ repeated STAGES [Edge, Wait] @ [Expect True ''rst_n must be high STAGES edges after release'']
     @ repeated 5 [Edge, Wait, Expect True ''rst_n must stay high'']"

definition test_reassert :: "act list" where
  "test_reassert = [Drive True] @ repeated (STAGES + 2) [Edge] @ [Wait, Expect True []]
     @ [Drive False, Wait, Expect False ''async re-assert must not need a clock edge'']"

section \<open>Running them\<close>

record 'd design =
  d_arst :: "bool \<Rightarrow> 'd \<Rightarrow> 'd"
  d_edge :: "'d \<Rightarrow> 'd"
  d_out :: "'d \<Rightarrow> bool"

text \<open>The value to be read, when it is still the one before the last edge, goes along with the state.\<close>

fun coroutine :: "bool \<Rightarrow> 'd design \<Rightarrow> act list \<Rightarrow> 'd \<Rightarrow> bool option \<Rightarrow> 'd res" where
  "coroutine late d [] s old = Inr s"
| "coroutine late d (Drive b # as) s old = coroutine late d as (d_arst d b s) old"
| "coroutine late d (Edge # as) s old = coroutine late d as (d_edge d s) (if late then Some (d_out d s) else None)"
| "coroutine late d (Wait # as) s old = coroutine late d as s None"
| "coroutine late d (Expect b msg # as) s old = (
    if (case old of None \<Rightarrow> d_out d s | Some v \<Rightarrow> v) = b then coroutine late d as s old else Inl (AssertionError msg))"

text \<open>The second test runs in the simulation the first one leaves.\<close>

definition sync_reset_tests :: "bool \<Rightarrow> 'd design \<Rightarrow> 'd \<Rightarrow> unit res" where
  "sync_reset_tests late d s =
    rbind (coroutine late d test_async_assert_sync_release s None) (\<lambda>s1.
    rbind (coroutine late d test_reassert s1 None) (\<lambda>s2. Inr ()))"

section \<open>Synchronisers of any depth\<close>

text \<open>A chain of flops, cleared while the reset input is low, that shifts in a one at every edge.\<close>

definition chain :: "(bool \<times> bool list) design" where
  "chain = \<lparr>d_arst = (\<lambda>b (a, fs). (b, if b then fs else replicate (length fs) False)),
     d_edge = (\<lambda>(a, fs). (a, if a then True # butlast fs else replicate (length fs) False)),
     d_out = (\<lambda>(a, fs). last fs)\<rparr>"

lemma chain_simps [simp]:
  "d_arst chain b (a, fs) = (b, if b then fs else replicate (length fs) False)"
  "d_edge chain (a, fs) = (a, if a then True # butlast fs else replicate (length fs) False)"
  "d_out chain (a, fs) = last fs"
  by (simp_all add: chain_def)

lemma repeated_simps [simp]: "repeated 0 xs = []" "repeated (Suc n) xs = xs @ repeated n xs"
  by (simp_all add: repeated_def)

lemma repeated_numeral [simp]: "repeated (numeral k) xs = xs @ repeated (pred_numeral k) xs"
  by (simp add: numeral_eq_Suc)

lemma butlast_replicate: "butlast (replicate n x) = replicate (n - 1) x"
  by (simp add: butlast_conv_take)

lemma deep_chain:
  "coroutine late chain test_async_assert_sync_release (a, fs) None
     = Inl (AssertionError ''rst_n must be high STAGES edges after release'')" if "length fs = Suc (Suc (Suc k))"
  using that by (simp add: test_async_assert_sync_release_def STAGES_def butlast_replicate last_replicate del: replicate_Suc)

text \<open>C40: The two tests pass on a chain of flops, from any state and however the simulator orders reading and
  clocking, exactly when the chain has one or two stages: a longer chain is rejected, but a single flop, which does
  not synchronise, is accepted like the two of the design.\<close>

theorem sync_reset_accepts:
  assumes "fs \<noteq> []"
  shows "sync_reset_tests late chain (a, fs) = Inr () \<longleftrightarrow> length fs \<le> STAGES"
proof -
  consider f where "fs = [f]" | f g where "fs = [f, g]" | f g h rest where "fs = f # g # h # rest"
    using assms by (metis neq_Nil_conv)
  then show ?thesis
  proof cases
    case 3
    then show ?thesis using deep_chain [of fs "length rest" late a] by (simp add: sync_reset_tests_def STAGES_def)
  qed (simp_all add: sync_reset_tests_def test_async_assert_sync_release_def test_reassert_def STAGES_def)
qed

theorem sync_reset_accepts_witness:
  "sync_reset_tests True chain (False, [True, False]) = Inr () \<and> sync_reset_tests True chain (False, [True]) = Inr ()"
  using sync_reset_accepts [of "[True, False]" True False] sync_reset_accepts [of "[True]" True False] by (simp add: STAGES_def)

end
