(* ===== verification/Cycle_Report.thy ===== *)
theory Cycle_Report
  imports Cycle_Model Py_Str
begin

text \<open>
  The report of \<^verbatim>\<open>tb/cosim/cycle_model.py\<close> for a span that does not match, \<open>explain\<close>: the parts of the
  prediction and the first addresses of each kind.
\<close>

definition hex32_int :: "int \<Rightarrow> string" where "hex32_int p = ''0x'' @ hex 8 (nat p)"

text \<open>\<^verbatim>\<open>%+d\<close>.\<close>

definition show_signed :: "int \<Rightarrow> string" where
  "show_signed i = (if i < 0 then show_int i else CHR ''+'' # show_int i)"

definition shown_pcs :: "nat \<Rightarrow> int list \<Rightarrow> string" where
  "shown_pcs limit pcs = join '', '' (map hex32_int (take limit pcs)) @ (if length pcs \<le> limit then [] else '', ...'')"

definition explain_lines :: "prediction \<Rightarrow> int \<Rightarrow> nat \<Rightarrow> string list" where
  "explain_lines pred actual_span limit = (
    let key = (if p_predictor pred then p_mispredict_pcs pred else p_flush_pcs pred) in
    [''  predicted span '' @ show_int (p_span pred) @ '', measured '' @ show_int actual_span
       @ ''  (difference '' @ show_signed (actual_span - p_span pred) @ '')'',
     ''    '' @ show_int (p_retired pred) @ '' retired -> '' @ show_int (p_retired pred - 1) @ '' baseline cycles'',
     ''    '' @ show_int (p_stalls pred) @ '' load-use stall(s)  x1 cycle'',
     (if p_predictor pred
      then ''    '' @ show_int (p_mispredicts pred) @ '' mispredict(s)      x2 cycles  (of '' @ show_int (p_flushes pred) @ '' redirect(s))''
      else ''    '' @ show_int (p_flushes pred) @ '' redirect(s)        x2 cycles''),
     ''    '' @ show_int (p_muldiv pred) @ '' M instruction(s) -> '' @ show_int (p_muldiv_cycles pred) @ '' extra EX cycle(s)'']
    @ (if p_stall_pcs pred \<noteq> [] then [''    stalls predicted after: '' @ shown_pcs limit (p_stall_pcs pred)] else [])
    @ (if key \<noteq> [] then [''    '' @ (if p_predictor pred then ''mispredicts'' else ''redirects'') @ '' predicted at: '' @ shown_pcs limit key] else [])
    @ [''    A span that is too LARGE means the pipeline stalled where the model did not:'',
       ''      a phantom stall -- most likely a hazard predicate matching a register field'',
       ''      that is not a source.  Too SMALL means a hazard was missed, and the commit'',
       ''      log should have diverged too.''])"

definition explain :: "prediction \<Rightarrow> int \<Rightarrow> nat \<Rightarrow> string" where
  "explain pred actual_span limit = join [CHR 0x0A] (explain_lines pred actual_span limit)"

text \<open>The parts the report lists add up to the span it predicts, and the lists it quotes have the lengths it
  counts.\<close>

lemma explained_parts:
  assumes "analyse records predictor = Inr p"
  shows "p_span p = (p_retired p - 1) + p_stalls p + 2 * (if p_predictor p then p_mispredicts p else p_flushes p) + p_muldiv_cycles p"
    "p_stalls p = int (length (p_stall_pcs p))" "p_mispredicts p = int (length (p_mispredict_pcs p))"
    "p_flushes p = int (length (p_flush_pcs p))" "p_predictor p = predictor"
  using assms by (auto simp: analyse_def Let_def rbind_Inr_iff split: prod.splits)

end
