(* ===== verification/Bench_Selftest.thy ===== *)
theory Bench_Selftest
  imports Bench_Props
begin

text \<open>
  The self-test of \<^verbatim>\<open>tb/fpga/parse_bench_uart.py\<close>: a good capture of three blocks must parse, each of
  twenty ways of breaking it must be noticed, and the two options that relax a check must relax it.
\<close>

section \<open>The faults\<close>

definition newline_text :: string where "newline_text = [CHR 0x0A]"

text \<open>\<^verbatim>\<open>t[:t.index(END)]\<close>.\<close>

fun before :: "string \<Rightarrow> string \<Rightarrow> string" where
  "before p [] = []"
| "before p (c # cs) = (if startswith (c # cs) p then [] else c # before p cs)"

definition cut_at :: "string \<Rightarrow> string \<Rightarrow> string res" where
  "cut_at p t = (if is_sub p t then Inr (before p t) else Inl (ValueError ''substring not found''))"

definition crcfinal_line :: re where
  "crcfinal_line = seqs [Bol, lit ''[0]crcfinal'', Many any_char, Eol]"

definition FLAGS_LINE :: string where "FLAGS_LINE = ''flags=-march=rv32i_zicsr -mabi=ilp32 -O2''"

type_synonym fault = "string \<times> (string \<Rightarrow> string res)"

definition swapping :: "string \<Rightarrow> string \<Rightarrow> string \<Rightarrow> string res" where
  "swapping old new = (\<lambda>t. Inr (replace_all old new t))"

definition bench_faults :: "fault list" where
  "bench_faults = [
    (''arch_instret_varies'', \<lambda>t. Inr (rev (replace1 ''000000351=tertsni_tats_yrhd'' ''100000351=tertsni_tats_yrhd'' (rev t)))),
    (''timing_key_varies'', \<lambda>t. Inr (rev (replace1 ''000000081=selcyc_yrhd'' ''100000081=selcyc_yrhd'' (rev t)))),
    (''truncated'', cut_at END),
    (''no_end_marker'', swapping END ''=== end ===''),
    (''dhry_check_set'', swapping ''dhry_check=0x00000000'' ''dhry_check=0x00000040''),
    (''crc_error'', swapping ''[0]crclist'' (''[0]ERROR! list crc 0x0000 - should be 0xe714'' @ newline_text @ ''[0]crclist'')),
    (''no_seedcrc'', swapping ''seedcrc          : 0xe9f5'' []),
    (''wrong_seedcrc'', swapping ''0xe9f5'' ''0x7b05''),
    (''no_crcfinal'', \<lambda>t. Inr (re_sub crcfinal_line [] t)),
    (''cycles_zero'', swapping ''cm_cycles=733000000'' ''cm_cycles=0''),
    (''ipc_above_one'', swapping ''cm_instret=620000000'' ''cm_instret=800000000''),
    (''coremark_short'', \<lambda>t. Inr (replace_all ''cm_instret=620000000'' ''cm_instret=59000000''
       (replace_all ''cm_cycles=733000000'' ''cm_cycles=70000000'' t))),
    (''blocks_disagree'', \<lambda>t. Inr (replace1 ''cm_cycles=733000000'' ''cm_cycles=733000001'' t)),
    (''host_marker'', swapping ''clk_hz=70129870'' (''clk_hz=70129870'' @ newline_text @ ''host=1'')),
    (''empty_flags'', swapping FLAGS_LINE ''flags=''),
    (''no_flags'', swapping (FLAGS_LINE @ newline_text) []),
    (''stat_window_short'', swapping ''dhry_stat_cycles=180000040'' ''dhry_stat_cycles=179000000''),
    (''stat_window_wide'', swapping ''dhry_stat_cycles=180000040'' ''dhry_stat_cycles=181000000''),
    (''clk_zero'', swapping ''clk_hz=70129870'' ''clk_hz=0''),
    (''mangled_number'', swapping ''dhry_cycles=180000000'' ''dhry_cycles=18000?000'')]"

section \<open>The self-test\<close>

text \<open>Every exception counts as noticed, whatever its type.\<close>

definition fault_escapes :: "string \<Rightarrow> bench_args \<Rightarrow> fault \<Rightarrow> bool" where
  "fault_escapes base args = (\<lambda>(name, mutate). case rbind (mutate base) (\<lambda>t. check t args) of Inl e \<Rightarrow> False | Inr r \<Rightarrow> True)"

definition good_capture :: string where
  "good_capture = good_block 0 @ good_block 1 @ good_block 2"

definition short_capture :: "string \<Rightarrow> string" where
  "short_capture base = replace_all ''cm_instret=620000000'' ''cm_instret=59000000''
     (replace_all ''cm_cycles=733000000'' ''cm_cycles=70000000'' base)"

text \<open>The two relaxing options: one escape each, and an exception other than \<^verbatim>\<open>Fail\<close> leaves the program.\<close>

definition short_escapes :: "string \<Rightarrow> bench_args \<Rightarrow> nat res" where
  "short_escapes base args = (case check (short_capture base) (args\<lparr>a_allow_short := True\<rparr>) of
     Inr r \<Rightarrow> Inr 0
   | Inl e \<Rightarrow> (case e of Fail m \<Rightarrow> Inr 1 | _ \<Rightarrow> Inl e))"

definition host_escapes :: "string \<Rightarrow> bench_args \<Rightarrow> nat res" where
  "host_escapes base args = (case check base (args\<lparr>a_functional_only := True\<rparr>) of
     Inr r \<Rightarrow> Inr 1
   | Inl e \<Rightarrow> (case e of Fail m \<Rightarrow> Inr 0 | _ \<Rightarrow> Inl e))"

definition bench_selftest_on :: "string \<Rightarrow> bench_args \<Rightarrow> int res" where
  "bench_selftest_on base args =
    rbind (check base args) (\<lambda>(ok, sp).
    if length ok \<noteq> 3 then Inr 1
    else
      let bad = length (filter (fault_escapes base args) bench_faults) in
      rbind (short_escapes base args) (\<lambda>s.
      rbind (host_escapes base args) (\<lambda>h.
      Inr (if bad + s + h \<noteq> 0 then 1 else 0))))"

definition bench_selftest :: "int res" where
  "bench_selftest = bench_selftest_on good_capture selftest_args"

section \<open>The result of the self-test\<close>

text \<open>It passes when the good capture is three blocks, every fault is noticed, a short run is accepted when
  allowed, and a real capture is refused as a native one.\<close>

lemma bench_selftest_zero:
  assumes "check base args = Inr (ok, sp)" "length ok = 3"
    and "list_all (\<lambda>f. \<not> fault_escapes base args f) bench_faults"
    and "check (short_capture base) (args\<lparr>a_allow_short := True\<rparr>) = Inr r"
    and "check base (args\<lparr>a_functional_only := True\<rparr>) = Inl (Fail m)"
  shows "bench_selftest_on base args = Inr 0"
proof -
  have "filter (fault_escapes base args) bench_faults = []" using assms(3) by (simp add: filter_empty_conv list_all_iff)
  then show ?thesis using assms(1,2,4,5) by (simp add: bench_selftest_on_def short_escapes_def host_escapes_def)
qed

lemma fault_noticed: "mutate base = Inr t \<Longrightarrow> check t args = Inl e \<Longrightarrow> \<not> fault_escapes base args (name, mutate)"
  by (simp add: fault_escapes_def)

section \<open>Replacing in a text of lines\<close>

lemma startswith_line:
  assumes "CHR 0x0A \<notin> set old"
  shows "startswith (l @ CHR 0x0A # rest) old \<longleftrightarrow> startswith l old"
proof (cases "length old \<le> length l")
  case False
  then obtain k where k: "length old = Suc (length l + k)" by (metis less_imp_Suc_add not_le)
  then have "take (length old) (l @ CHR 0x0A # rest) = l @ CHR 0x0A # take k rest" by simp
  then have "\<not> startswith (l @ CHR 0x0A # rest) old" using assms by (metis in_set_conv_decomp startswith_def)
  moreover have "\<not> startswith l old"
  proof
    assume "startswith l old"
    then have "length old \<le> length l" unfolding startswith_def by (metis length_take min.cobounded1)
    with False show False ..
  qed
  ultimately show ?thesis by simp
qed (simp add: startswith_def)

lemma startswith_length: "startswith l old \<Longrightarrow> length old \<le> length l"
  unfolding startswith_def by (metis length_take min.cobounded1)

lemma skip_replace_line:
  assumes "CHR 0x0A \<notin> set old" "old \<noteq> []" "k \<le> length l"
  shows "skip_replace old new k (l @ CHR 0x0A # rest) = skip_replace old new k l @ CHR 0x0A # skip_replace old new 0 rest"
  using assms(3)
proof (induction l arbitrary: k)
  case Nil
  have "\<not> startswith (CHR 0x0A # rest) old" using assms(1,2) by (cases old) (auto simp: startswith_def)
  with Nil show ?case by simp
next
  case (Cons c cs)
  show ?case
  proof (cases k)
    case (Suc j)
    then show ?thesis using Cons by simp
  next
    case 0
    have "length old - Suc 0 \<le> length cs" if "startswith (c # cs) old" using startswith_length [OF that] by simp
    then show ?thesis using 0 Cons.IH startswith_line [OF assms(1), of "c # cs" rest] by simp
  qed
qed

lemma replace_lines:
  assumes "CHR 0x0A \<notin> set old" "old \<noteq> []"
  shows "replace_all old new (lines_text ls) = concat (map (\<lambda>l. replace_all old new l @ [CHR 0x0A]) ls)"
proof (induction ls)
  case (Cons l ls)
  then show ?case using skip_replace_line [OF assms, of 0 l new "lines_text ls"]
    by (simp add: lines_text_def replace_all_def)
qed (simp add: lines_text_def replace_all_def)

text \<open>A replacement that keeps lines apart is a replacement in each line.\<close>

lemma replace_line_map:
  assumes "CHR 0x0A \<notin> set old" "old \<noteq> []"
  shows "replace_all old new (lines_text ls) = lines_text (map (replace_all old new) ls)"
  using replace_lines [OF assms] by (simp add: lines_text_def comp_def)

lemma skip_replace_lines:
  assumes "CHR 0x0A \<notin> set old" "old \<noteq> []"
  shows "replace_all old new (lines_text ls @ x) = lines_text (map (replace_all old new) ls) @ replace_all old new x"
proof (induction ls)
  case (Cons l ls)
  then show ?case using skip_replace_line [OF assms, of 0 l new "lines_text ls @ x"]
    by (simp add: lines_text_def replace_all_def)
qed (simp add: lines_text_def)

text \<open>Text in which no occurrence can start, not even one that ends beyond it.\<close>

fun no_start :: "string \<Rightarrow> string \<Rightarrow> bool" where
  "no_start old [] \<longleftrightarrow> True"
| "no_start old (c # cs) \<longleftrightarrow> take (length old) (c # cs) \<noteq> take (length (c # cs)) old \<and> no_start old cs"

lemma no_start_step: "no_start old (c # cs) \<Longrightarrow> \<not> startswith (c # cs @ x) old"
proof
  assume n: "no_start old (c # cs)" and "startswith (c # cs @ x) old"
  let ?u = "c # cs"
  from \<open>startswith _ _\<close> have t: "take (length old) (?u @ x) = old" by (simp add: startswith_def)
  have "take (length old) ?u = take (length old) (take (length ?u) (?u @ x))" by simp
  also have "\<dots> = take (length ?u) (take (length old) (?u @ x))" by (simp only: take_take min.commute)
  also have "\<dots> = take (length ?u) old" by (simp only: t)
  finally show False using n by simp
qed

lemma replace1_later: "no_start old s \<Longrightarrow> replace1 old new (s @ x) = s @ replace1 old new x"
proof (induction s)
  case (Cons c cs)
  then show ?case using no_start_step [OF Cons.prems, of x] by simp
qed simp

lemma replace_later: "no_start old s \<Longrightarrow> replace_all old new (s @ x) = s @ replace_all old new x"
  unfolding replace_all_def
proof (induction s)
  case (Cons c cs)
  then show ?case using no_start_step [OF Cons.prems, of x] by simp
qed simp

lemma before_later: "no_start p s \<Longrightarrow> before p (s @ x) = s @ before p x"
proof (induction s)
  case (Cons c cs)
  then show ?case using no_start_step [OF Cons.prems, of x] by simp
qed simp

lemma startswith_self: "startswith (p @ x) p"
  by (simp add: startswith_def)

lemma before_here: "before p (p @ x) = []"
  using startswith_self [of p x] by (cases "p @ x") simp_all

lemma replace1_here: "old \<noteq> [] \<Longrightarrow> replace1 old new (old @ x) = new @ x"
  using startswith_self [of old x] by (cases old) simp_all

lemma skip_chars: "skip_replace old new (length s) (s @ x) = skip_replace old new 0 x"
  by (induction s) simp_all

lemma replace_here: "old \<noteq> [] \<Longrightarrow> replace_all old new (old @ x) = new @ replace_all old new x"
  using startswith_self [of old x] skip_chars [of old new "tl old" x]
  unfolding replace_all_def by (cases old) simp_all

lemma is_sub_app: "is_sub p (s @ p @ x)"
proof (induction s)
  case Nil
  show ?case using startswith_self [of p x] by (cases "p @ x") simp_all
qed simp

section \<open>From the text of a capture to its blocks\<close>

lemma join_cons: "ls \<noteq> [] \<Longrightarrow> join sep (l # ls) = l @ sep @ join sep ls"
  by (cases ls) simp_all

lemma join_lines: "others \<noteq> [] \<Longrightarrow> join [CHR 0x0A] (ls @ others) = lines_text ls @ join [CHR 0x0A] others"
  by (induction ls) (simp_all add: lines_text_def join_cons)

lemma lines_text_join: "lines_text ls = join [CHR 0x0A] (ls @ [[]])"
  by (simp add: join_lines)

lemma split_loop_keeps: "\<exists>others. split_loop ls blocks cur = blocks @ others"
proof (induction ls blocks cur rule: split_loop.induct)
  case (2 line ls blocks cur)
  then show ?case by (cases "strip line = BEGIN"; cases "strip line = END"; cases cur) (force simp: markers)+
qed simp

lemma clean_filter: "list_all clean_line ls \<Longrightarrow> filter (\<lambda>c. c \<noteq> CHR 0x0D) (lines_text ls) = lines_text ls"
  by (intro filter_True) (auto simp: lines_text_def clean_line_def list_all_iff)

lemma split_joined_lines: "list_all clean_line ls \<Longrightarrow> split_on CHR 0x0A (lines_text ls @ x) = ls @ split_on CHR 0x0A x"
proof (induction ls)
  case (Cons l ls)
  then show ?case using split_on_append [of "CHR 0x0A" l "lines_text ls @ x"] by (simp add: lines_text_def clean_line_def)
qed (simp add: lines_text_def)

text \<open>The first block is the first block, whatever follows.\<close>

lemma split_first:
  assumes "list_all clean_line b" "list_all plain_line b"
  shows "\<exists>others. split_blocks (lines_text (framed b) @ x) = b # others"
proof -
  have c: "list_all clean_line (framed b)" using assms(1) by (simp add: framed_def clean_line_def BEGIN_def END_def)
  have "split_blocks (lines_text (framed b) @ x) =
      split_loop (framed b @ split_on CHR 0x0A (filter (\<lambda>c. c \<noteq> CHR 0x0D) x)) [] None"
    by (simp add: split_blocks_def clean_filter [OF c] split_joined_lines [OF c])
  also have "\<dots> = split_loop (split_on CHR 0x0A (filter (\<lambda>c. c \<noteq> CHR 0x0D) x)) [b] None"
    using split_framed [OF assms(2)] by simp
  also obtain others where "\<dots> = [b] @ others" using split_loop_keeps by blast
  finally show ?thesis by auto
qed

lemma split_text:
  assumes "list_all (list_all clean_line) bs" "list_all (list_all plain_line) bs"
  shows "split_blocks (lines_text (concat (map framed bs))) = bs"
proof -
  have "list_all clean_line (concat (map framed bs))"
    using assms(1) by (auto simp: list_all_iff framed_def clean_line_def BEGIN_def END_def)
  then have "split_blocks (lines_text (concat (map framed bs))) = split_loop (concat (map framed bs) @ [[]]) [] None"
    using split_joined_lines [of "concat (map framed bs)" "[]"] by (simp add: split_blocks_def clean_filter)
  also have "\<dots> = split_loop [[]] ([] @ bs) None" by (rule split_frames [OF assms(2)])
  also have "\<dots> = bs" by (simp add: strip_def lstrip_def rstrip_def BEGIN_def END_def)
  finally show ?thesis .
qed

lemma split_unfinished: "list_all (\<lambda>l. strip l \<noteq> END) ls \<Longrightarrow> split_loop ls blocks cur = blocks"
  by (induction ls arbitrary: cur) auto

lemma split_no_end:
  assumes "list_all clean_line ls" "list_all (\<lambda>l. strip l \<noteq> END) ls"
  shows "split_blocks (lines_text ls) = []"
proof -
  have "split_blocks (lines_text ls) = split_loop (ls @ [[]]) [] None"
    using split_joined_lines [OF assms(1), of "[]"] by (simp add: split_blocks_def clean_filter [OF assms(1)])
  also have "\<dots> = []" by (rule split_unfinished) (use assms(2) in \<open>simp add: strip_def lstrip_def rstrip_def END_def\<close>)
  finally show ?thesis .
qed

text \<open>A capture is refused when its first block is.\<close>

lemma first_refused:
  assumes "list_all clean_line b" "list_all plain_line b" "parse_block b 0 selftest_args = Inl e"
  shows "check (lines_text (framed b) @ x) selftest_args = Inl e"
proof -
  obtain others where "split_blocks (lines_text (framed b) @ x) = b # others" using split_first [OF assms(1,2)] by blast
  then show ?thesis using assms(3) by (simp add: check_def raise_if_def selftest_args_def)
qed

lemma first_underived:
  assumes "list_all clean_line b" "list_all plain_line b" "parse_block b 0 selftest_args = Inr blk"
    "b_host blk \<or> derive blk selftest_args = Inl e"
  shows "\<exists>e. check (lines_text (framed b) @ x) selftest_args = Inl e"
proof -
  obtain others where m: "split_blocks (lines_text (framed b) @ x) = b # others" using split_first [OF assms(1,2)] by blast
  have "\<not> a_functional_only selftest_args" "a_min_blocks selftest_args = 1" by (simp_all add: selftest_args_def)
  then show ?thesis using assms(3,4) m by (auto simp: check_def raise_if_def)
qed

end
